(* ===== verification/Prelude.thy ===== *)
theory Prelude
  imports Main "HOL-Library.AList" "HOL-Library.Char_ord" "HOL-Library.List_Lexorder"
    "HOL-Library.Product_Lexorder" "HOL-Library.Sublist" "HOL-Library.Multiset"
begin

text \<open>
  Shared vocabulary of the development.

  A Python function that may raise becomes a function into \<open>'e + 'a\<close>: \<open>Inl e\<close> is the
  exception, \<open>Inr x\<close> the returned value.  \<open>ebind\<close> is the sequencing of two
  statements, \<open>ensure\<close> an \<open>if not ...: raise\<close> guard and \<open>emap\<close> a
  comprehension whose body may raise.  A Python \<open>dict\<close> whose keys are enumerated is an
  association list with distinct keys; \<open>map_of\<close> reads it.

  The named collection \<open>eres\<close> holds the rules that turn an equation
  \<open>ebind m f = Inr y\<close> into what each step returned; \<open>slists\<close> the facts on sorted
  listings.
\<close>

named_theorems eres \<open>inversion of results of the error monad\<close>
named_theorems slists \<open>sorted listings\<close>

type_synonym bytes = string

section \<open>The error monad\<close>

definition ebind :: "'e + 'a \<Rightarrow> ('a \<Rightarrow> 'e + 'b) \<Rightarrow> 'e + 'b" where
  "ebind m f = (case m of Inl e \<Rightarrow> Inl e | Inr x \<Rightarrow> f x)"

definition ensure :: "bool \<Rightarrow> 'e \<Rightarrow> 'e + 'a \<Rightarrow> 'e + 'a" where
  "ensure ok e k = (if ok then k else Inl e)"

fun emap :: "('a \<Rightarrow> 'e + 'b) \<Rightarrow> 'a list \<Rightarrow> 'e + 'b list" where
  "emap f [] = Inr []"
| "emap f (x # xs) = ebind (f x) (\<lambda>y. ebind (emap f xs) (\<lambda>ys. Inr (y # ys)))"

fun efold :: "('a \<Rightarrow> 's \<Rightarrow> 'e + 's) \<Rightarrow> 'a list \<Rightarrow> 's \<Rightarrow> 'e + 's" where
  "efold f [] s = Inr s"
| "efold f (x # xs) s = ebind (f x s) (efold f xs)"

definition of_option :: "'e \<Rightarrow> 'a option \<Rightarrow> 'e + 'a" where
  "of_option e m = (case m of None \<Rightarrow> Inl e | Some x \<Rightarrow> Inr x)"

lemma ebind_Inl [simp]: "ebind (Inl e) f = Inl e"
  by (simp add: ebind_def)

lemma ebind_Inr [simp]: "ebind (Inr x) f = f x"
  by (simp add: ebind_def)

lemma ebind_eq_Inr [eres]: "ebind m f = Inr y \<longleftrightarrow> (\<exists>x. m = Inr x \<and> f x = Inr y)"
  by (cases m) simp_all

lemma ebind_eq_Inl: "ebind m f = Inl e \<longleftrightarrow> m = Inl e \<or> (\<exists>x. m = Inr x \<and> f x = Inl e)"
  by (cases m) simp_all

lemma ebind_assoc: "ebind (ebind m f) g = ebind m (\<lambda>x. ebind (f x) g)"
  by (cases m) simp_all

lemma ebind_cong [fundef_cong]:
  "m = m' \<Longrightarrow> (\<And>x. m' = Inr x \<Longrightarrow> f x = f' x) \<Longrightarrow> ebind m f = ebind m' f'"
  by (cases m') simp_all

lemma ensure_True [simp]: "ensure True e k = k"
  by (simp add: ensure_def)

lemma ensure_False [simp]: "ensure False e k = Inl e"
  by (simp add: ensure_def)

lemma ensure_eq_Inr [eres]: "ensure ok e k = Inr y \<longleftrightarrow> ok \<and> k = Inr y"
  by (simp add: ensure_def)

lemma ensure_eq_Inl: "ensure ok e k = Inl d \<longleftrightarrow> (\<not> ok \<and> d = e) \<or> (ok \<and> k = Inl d)"
  by (auto simp: ensure_def)

lemma of_option_eq_Inr [eres]: "of_option e m = Inr x \<longleftrightarrow> m = Some x"
  by (cases m) (simp_all add: of_option_def)

lemma of_option_simps [simp]: "of_option e None = Inl e" "of_option e (Some x) = Inr x"
  by (simp_all add: of_option_def)

lemma emap_eq_Inr: "emap f xs = Inr ys \<longleftrightarrow> list_all2 (\<lambda>x y. f x = Inr y) xs ys"
  by (induction xs arbitrary: ys) (auto simp: eres list_all2_Cons1)

lemma emap_length: "emap f xs = Inr ys \<Longrightarrow> length ys = length xs"
  by (auto simp: emap_eq_Inr dest: list_all2_lengthD)

lemma emap_map: "emap f xs = Inr ys \<Longrightarrow> (\<And>x y. x \<in> set xs \<Longrightarrow> f x = Inr y \<Longrightarrow> g y = h x) \<Longrightarrow>
    map g ys = map h xs"
  by (induction xs arbitrary: ys) (auto simp: eres)

lemma emap_Inr_id: "(\<And>x. x \<in> set xs \<Longrightarrow> f x = Inr (g x)) \<Longrightarrow> emap f xs = Inr (map g xs)"
  by (induction xs) simp_all

lemma emap_set: "emap f xs = Inr ys \<Longrightarrow> y \<in> set ys \<longleftrightarrow> (\<exists>x\<in>set xs. f x = Inr y)"
  by (induction xs arbitrary: ys) (auto simp: eres)

lemma emap_ex: "emap f xs = Inr ys \<Longrightarrow> x \<in> set xs \<Longrightarrow> \<exists>y. f x = Inr y"
  by (induction xs arbitrary: ys) (auto simp: eres)

lemma emap_nth: "emap f xs = Inr ys \<Longrightarrow> i < length xs \<Longrightarrow> f (xs ! i) = Inr (ys ! i)"
  by (simp add: emap_eq_Inr list_all2_conv_all_nth)

lemma emap_Inl: "emap f xs = Inl e \<Longrightarrow> \<exists>x\<in>set xs. f x = Inl e"
  by (induction xs) (auto simp: ebind_eq_Inl)

lemma efold_append: "efold f (xs @ ys) s = ebind (efold f xs s) (efold f ys)"
  by (induction xs arbitrary: s) (simp, simp add: ebind_def split: sum.split)

lemma efold_invariant:
  assumes "efold f xs s = Inr t" and "P s"
    and "\<And>x s s'. x \<in> set xs \<Longrightarrow> P s \<Longrightarrow> f x s = Inr s' \<Longrightarrow> P s'"
  shows "P t"
  using assms by (induction xs arbitrary: s) (auto simp: eres)

lemma list_all_uptD: "list_all P [0..<m] \<Longrightarrow> n < m \<Longrightarrow> P n"
  by (simp only: list_all_iff set_upt) (erule bspec, simp only: atLeastLessThan_iff le0 simp_thms)

text \<open>\<open>max(xs, default=a)\<close> where every element is at least \<open>a\<close>.\<close>

lemma fold_max_le: "fold max xs (a::int) \<le> b \<longleftrightarrow> a \<le> b \<and> (\<forall>x\<in>set xs. x \<le> b)"
  by (induction xs arbitrary: a) auto

lemma fold_max_ge:
  shows "(a::int) \<le> fold max xs a" and "x \<in> set xs \<Longrightarrow> x \<le> fold max xs a"
  using fold_max_le [of xs a "fold max xs a"] by auto

lemma fold_max_in: "fold max xs (a::int) \<in> insert a (set xs)"
proof (induction xs arbitrary: a)
  case (Cons x xs)
  from Cons.IH [of "max x a"] show ?case by (auto simp: max_def split: if_splits)
qed simp

section \<open>Association lists\<close>

lemma map_of_update [simp]: "map_of (AList.update k v al) = (map_of al)(k \<mapsto> v)"
  by (simp add: update_conv')

lemma map_of_delete [simp]: "map_of (AList.delete k al) = (map_of al)(k := None)"
  by (simp add: delete_conv')

text \<open>\<open>tuple(dict.fromkeys(xs))\<close>: each element once, where it first occurs.\<close>

definition unique :: "'a list \<Rightarrow> 'a list" where
  "unique xs = rev (remdups (rev xs))"

lemma set_unique [simp]: "set (unique xs) = set xs"
  by (simp add: unique_def)

lemma distinct_unique [simp]: "distinct (unique xs)"
  by (simp add: unique_def)

lemma unique_simps [simp]: "unique [] = []" "unique [x] = [x]"
  by (simp_all add: unique_def)

section \<open>Listings sorted by a key\<close>

text \<open>
  Python's \<open>sort\<close> is stable, as \<open>sort_key\<close> is.  Where the key is injective on the
  values, the listing depends on the set of values alone.
\<close>

lemma sort_key_sorted [slists]: "sorted (map f (sort_key f xs))"
  by simp

lemma sort_key_distinct [slists]: "distinct (sort_key f xs) = distinct xs"
  by simp

lemma sorted_map_unique:
  assumes "set xs = set ys" and "sorted (map f xs)" and "sorted (map f ys)"
    and "distinct (map f xs)" and "distinct (map f ys)"
  shows "xs = ys"
proof -
  have "set (map f xs) = set (map f ys)"
    by (simp only: set_map assms(1))
  with assms(2-5) have "map f xs = map f ys"
    by (blast intro: sorted_distinct_set_unique)
  moreover have "inj_on f (set xs \<union> set ys)"
    using assms(1,4) by (simp add: distinct_map)
  ultimately show ?thesis by (simp add: inj_on_map_eq_map)
qed

lemma map_of_by_key:
  "distinct (map f rs) \<Longrightarrow>
    map_of (map (\<lambda>r. (f r, r)) rs) k = Some r \<longleftrightarrow> r \<in> set rs \<and> f r = k"
  by (subst map_of_eq_Some_iff) (auto simp: comp_def)

lemma list_all2_mono2:
  "list_all2 P xs ys \<Longrightarrow> (\<And>x y. x \<in> set xs \<Longrightarrow> P x y \<Longrightarrow> Q x y) \<Longrightarrow> list_all2 Q xs ys"
  by (auto simp: list_all2_conv_all_nth)

lemma list_all2_map_eq: "list_all2 (\<lambda>x y. g y = h x) xs ys \<Longrightarrow> map g ys = map h xs"
  by (induction rule: list_all2_induct) simp_all

end
