(* ===== verification/Core_Values.thy ===== *)
theory Core_Values
  imports Prelude
begin

text \<open>
  Values shared by every component: error codes and exceptions (\<open>ai/errors.py\<close>), the
  boundary validators (\<open>ai/core/_validation.py\<close>), canonical JSON
  (\<open>ai/core/_json.py\<close>), the task status enum (\<open>ai/core/_value.py\<close>) and the run budget
  limits (\<open>ai/core/_budget.py\<close>).

  A Python \<open>str\<close> is represented by its UTF-8 bytes (\<open>string\<close>).  UTF-8 keeps the code
  point order, so \<open>sorted\<close> on strings is the lexicographic order of the bytes, and
  \<open>len(s.encode())\<close> is \<open>length\<close>.  White space and control characters are the ASCII ones.
  A timezone-aware \<open>datetime\<close> is an \<open>int\<close>: microseconds since the epoch.  Python's
  \<open>isinstance\<close> guards are discharged by the types and do not appear.
\<close>

section \<open>Exceptions\<close>

text \<open>The codes that the modelled components raise or store; \<open>code_value\<close> is \<open>.value\<close>.\<close>

datatype error_code =
    REQUEST_FIELD_INVALID | IDEMPOTENCY_KEY_INVALID | PAGE_LIMIT_INVALID
  | IDEMPOTENCY_CONFLICT | STORAGE_OWNER_MISMATCH | STORAGE_NOT_FOUND
  | STORAGE_VERSION_UNSUPPORTED | STORAGE_CONFLICT | STORAGE_INTEGRITY_ERROR
  | STORAGE_COMMIT_UNKNOWN | STORAGE_RECOVERY_REQUIRED | STORAGE_READ_ONLY | STORAGE_CLOSED
  | TASK_DAG_INVALID | TASK_FENCE_STALE | TASK_OWNER_CONFLICT | TASK_RESULT_CONFLICT
  | TASK_TERMINAL_CONFLICT | TASK_NOT_READY | TASK_DEPENDENCY_FAILED
  | TASK_INPUT_PROJECTION_FAILED | TASK_EFFECT_UNKNOWN | TOOL_EFFECT_UNKNOWN
  | EXECUTION_START_UNKNOWN | EXECUTION_USAGE_LIMIT_EXCEEDED | EXECUTION_WAIT_TIMEOUT
  | TOO_MANY_PENDING_OPERATIONS | RUNTIME_DEPENDENCY_NOT_READY | CURSOR_INVALID
  | EXECUTION_CANCELLED | EXECUTION_RESULT_CONFLICT

primrec code_value :: "error_code \<Rightarrow> string" where
  "code_value REQUEST_FIELD_INVALID = ''REQUEST_FIELD_INVALID''"
| "code_value IDEMPOTENCY_KEY_INVALID = ''IDEMPOTENCY_KEY_INVALID''"
| "code_value PAGE_LIMIT_INVALID = ''PAGE_LIMIT_INVALID''"
| "code_value IDEMPOTENCY_CONFLICT = ''IDEMPOTENCY_CONFLICT''"
| "code_value STORAGE_OWNER_MISMATCH = ''STORAGE_OWNER_MISMATCH''"
| "code_value STORAGE_NOT_FOUND = ''STORAGE_NOT_FOUND''"
| "code_value STORAGE_VERSION_UNSUPPORTED = ''STORAGE_VERSION_UNSUPPORTED''"
| "code_value STORAGE_CONFLICT = ''STORAGE_CONFLICT''"
| "code_value STORAGE_INTEGRITY_ERROR = ''STORAGE_INTEGRITY_ERROR''"
| "code_value STORAGE_COMMIT_UNKNOWN = ''STORAGE_COMMIT_UNKNOWN''"
| "code_value STORAGE_RECOVERY_REQUIRED = ''STORAGE_RECOVERY_REQUIRED''"
| "code_value STORAGE_READ_ONLY = ''STORAGE_READ_ONLY''"
| "code_value STORAGE_CLOSED = ''STORAGE_CLOSED''"
| "code_value TASK_DAG_INVALID = ''TASK_DAG_INVALID''"
| "code_value TASK_FENCE_STALE = ''TASK_FENCE_STALE''"
| "code_value TASK_OWNER_CONFLICT = ''TASK_OWNER_CONFLICT''"
| "code_value TASK_RESULT_CONFLICT = ''TASK_RESULT_CONFLICT''"
| "code_value TASK_TERMINAL_CONFLICT = ''TASK_TERMINAL_CONFLICT''"
| "code_value TASK_NOT_READY = ''TASK_NOT_READY''"
| "code_value TASK_DEPENDENCY_FAILED = ''TASK_DEPENDENCY_FAILED''"
| "code_value TASK_INPUT_PROJECTION_FAILED = ''TASK_INPUT_PROJECTION_FAILED''"
| "code_value TASK_EFFECT_UNKNOWN = ''TASK_EFFECT_UNKNOWN''"
| "code_value TOOL_EFFECT_UNKNOWN = ''TOOL_EFFECT_UNKNOWN''"
| "code_value EXECUTION_START_UNKNOWN = ''EXECUTION_START_UNKNOWN''"
| "code_value EXECUTION_USAGE_LIMIT_EXCEEDED = ''EXECUTION_USAGE_LIMIT_EXCEEDED''"
| "code_value EXECUTION_WAIT_TIMEOUT = ''EXECUTION_WAIT_TIMEOUT''"
| "code_value TOO_MANY_PENDING_OPERATIONS = ''TOO_MANY_PENDING_OPERATIONS''"
| "code_value RUNTIME_DEPENDENCY_NOT_READY = ''RUNTIME_DEPENDENCY_NOT_READY''"
| "code_value CURSOR_INVALID = ''CURSOR_INVALID''"
| "code_value EXECUTION_CANCELLED = ''EXECUTION_CANCELLED''"
| "code_value EXECUTION_RESULT_CONFLICT = ''EXECUTION_RESULT_CONFLICT''"

section \<open>JSON values\<close>

text \<open>\<open>JFloat n\<close> is the float \<open>n.0\<close>, for whole numbers below \<open>10 ^ 16\<close>, which \<open>repr\<close> prints so.\<close>

datatype json =
    JNull
  | JBool bool
  | JInt int
  | JFloat int
  | JStr string
  | JList "json list"
  | JObj "(string \<times> json) list"

type_synonym details = "(string \<times> json) list"

text \<open>
  \<open>AIError code details\<close> is \<open>AIError(code, safe_details=...)\<close>.  \<open>Task_event_append_conflict\<close>,
  \<open>Submission_conflict\<close> and \<open>Unresolved_local_reservation\<close>, with its scope, storage revision and
  \<open>inconsistent\<close> flag, are the private subclasses of \<open>AIError(STORAGE_CONFLICT)\<close>.
\<close>

datatype exc =
    AIError error_code details
  | ValueError
  | TypeError
  | KeyError
  | RuntimeError
  | Cancelled_error
  | Task_event_append_conflict
  | Submission_conflict
  | Unresolved_local_reservation string int bool

abbreviation ai :: "error_code \<Rightarrow> exc" where
  "ai c \<equiv> AIError c []"

fun exc_code :: "exc \<Rightarrow> error_code option" where
  "exc_code (AIError c _) = Some c"
| "exc_code Task_event_append_conflict = Some STORAGE_CONFLICT"
| "exc_code Submission_conflict = Some STORAGE_CONFLICT"
| "exc_code (Unresolved_local_reservation _ _ _) = Some STORAGE_CONFLICT"
| "exc_code _ = None"

fun exc_details :: "exc \<Rightarrow> details" where
  "exc_details (AIError _ d) = d"
| "exc_details _ = []"

type_synonym 'a res = "exc + 'a"

section \<open>Strings\<close>

definition is_space :: "char \<Rightarrow> bool" where
  "is_space c = (let n = of_char c :: nat in (9 \<le> n \<and> n \<le> 13) \<or> (28 \<le> n \<and> n \<le> 32))"

definition is_control :: "char \<Rightarrow> bool" where
  "is_control c = (let n = of_char c :: nat in n < 32 \<or> n = 127)"

text \<open>\<open>not s.strip()\<close>, and \<open>s == s.strip()\<close> for a non-empty \<open>s\<close>.\<close>

definition blank :: "string \<Rightarrow> bool" where
  "blank s = list_all is_space s"

definition stripped :: "string \<Rightarrow> bool" where
  "stripped s = (s = [] \<or> (\<not> is_space (hd s) \<and> \<not> is_space (last s)))"

definition text_ok :: "nat \<Rightarrow> string \<Rightarrow> bool" where
  "text_ok maximum s =
     (s \<noteq> [] \<and> stripped s \<and> \<not> list_ex is_control s \<and> length s \<le> maximum)"

definition check_text :: "string \<Rightarrow> nat \<Rightarrow> error_code \<Rightarrow> string res" where
  "check_text s maximum code = ensure (text_ok maximum s) (ai code) (Inr s)"

definition validate_tenant_id :: "string \<Rightarrow> string res" where
  "validate_tenant_id s = check_text s 128 REQUEST_FIELD_INVALID"

definition validate_lease_owner :: "string \<Rightarrow> string res" where
  "validate_lease_owner s = check_text s 256 REQUEST_FIELD_INVALID"

definition validate_principal_id :: "string \<Rightarrow> string res" where
  "validate_principal_id s = check_text s 256 REQUEST_FIELD_INVALID"

definition validate_principal_kind :: "string \<Rightarrow> string res" where
  "validate_principal_kind s = check_text s 64 REQUEST_FIELD_INVALID"

definition validate_resource_id :: "string \<Rightarrow> string res" where
  "validate_resource_id s = check_text s 128 REQUEST_FIELD_INVALID"

definition validate_idempotency_key :: "string \<Rightarrow> string res" where
  "validate_idempotency_key s = check_text s 256 IDEMPOTENCY_KEY_INVALID"

definition validate_lease_seconds :: "int \<Rightarrow> int res" where
  "validate_lease_seconds n = ensure (1 \<le> n \<and> n \<le> 3600) (ai REQUEST_FIELD_INVALID) (Inr n)"

definition is_sha256 :: "string \<Rightarrow> bool" where
  "is_sha256 s = (length s = 64 \<and> list_all (\<lambda>c. c \<in> set ''0123456789abcdef'') s)"

lemma blank_Nil [simp]: "blank []"
  by (simp add: blank_def)

lemma text_ok_not_blank: "text_ok n s \<Longrightarrow> \<not> blank s"
  by (cases s) (auto simp: text_ok_def stripped_def blank_def)

lemma validate_lease_owner_eq: "validate_lease_owner s = Inr t \<longleftrightarrow> text_ok 256 s \<and> t = s"
  by (auto simp: validate_lease_owner_def check_text_def eres)

lemma validate_lease_seconds_eq [eres]:
  "validate_lease_seconds n = Inr m \<longleftrightarrow> 1 \<le> n \<and> n \<le> 3600 \<and> m = n"
  by (auto simp: validate_lease_seconds_def eres)

section \<open>Task status\<close>

datatype task_status =
    PENDING | READY | RUNNING | WAITING | RECOVERY_REQUIRED
  | SUCCEEDED | FAILED | CANCELLED | BLOCKED

primrec status_value :: "task_status \<Rightarrow> string" where
  "status_value PENDING = ''PENDING''"
| "status_value READY = ''READY''"
| "status_value RUNNING = ''RUNNING''"
| "status_value WAITING = ''WAITING''"
| "status_value RECOVERY_REQUIRED = ''RECOVERY_REQUIRED''"
| "status_value SUCCEEDED = ''SUCCEEDED''"
| "status_value FAILED = ''FAILED''"
| "status_value CANCELLED = ''CANCELLED''"
| "status_value BLOCKED = ''BLOCKED''"

definition terminal :: "task_status \<Rightarrow> bool" where
  "terminal s = (s \<in> {SUCCEEDED, FAILED, BLOCKED, CANCELLED})"

lemma terminal_simps [simp]:
  "terminal SUCCEEDED" "terminal FAILED" "terminal BLOCKED" "terminal CANCELLED"
  "\<not> terminal PENDING" "\<not> terminal READY" "\<not> terminal RUNNING" "\<not> terminal WAITING"
  "\<not> terminal RECOVERY_REQUIRED"
  by (simp_all add: terminal_def)

lemma status_value_eq [simp]: "status_value a = status_value b \<longleftrightarrow> a = b"
  by (cases a; cases b) simp_all

end
