(* ===== verification/Canonical_Json.thy ===== *)
theory Canonical_Json
  imports Core_Values
begin

text \<open>
  \<open>canonical_json_bytes\<close> of \<open>ai/core/_json.py\<close>: \<open>json.dumps\<close> with sorted keys,
  compact separators and \<open>ensure_ascii=False\<close>.  Every physical key of the store is the
  digest of such an encoding, so the encoding must tell different identities apart:
  \<open>canonical_json_eq\<close> shows that two values have the same bytes only if they are the
  same JSON value up to the order of object keys.  Of the floats only whole numbers are
  modelled.
\<close>

section \<open>Encoding\<close>

definition hex_digit :: "nat \<Rightarrow> char" where
  "hex_digit n = (''0123456789abcdef'' ! n)"

definition json_escape :: "char \<Rightarrow> string" where
  "json_escape c =
     (if c = CHR 0x22 then [CHR 0x5C, CHR 0x22]
      else if c = CHR 0x5C then [CHR 0x5C, CHR 0x5C]
      else if c = CHR 0x08 then [CHR 0x5C, CHR ''b'']
      else if c = CHR 0x0C then [CHR 0x5C, CHR ''f'']
      else if c = CHR 0x0A then [CHR 0x5C, CHR ''n'']
      else if c = CHR 0x0D then [CHR 0x5C, CHR ''r'']
      else if c = CHR 0x09 then [CHR 0x5C, CHR ''t'']
      else if (of_char c :: nat) < 32 then
        [CHR 0x5C, CHR ''u'', CHR ''0'', CHR ''0'',
         hex_digit (of_char c div 16), hex_digit (of_char c mod 16)]
      else [c])"

fun json_string :: "string \<Rightarrow> string" where
  "json_string [] = [CHR 0x22]"
| "json_string (c # cs) = json_escape c @ json_string cs"

fun decimal :: "nat \<Rightarrow> string" where
  "decimal n = (if n < 10 then [hex_digit n] else decimal (n div 10) @ [hex_digit (n mod 10)])"

declare decimal.simps [simp del]

definition json_int :: "int \<Rightarrow> string" where
  "json_int i = (if i < 0 then CHR ''-'' # decimal (nat (- i)) else decimal (nat i))"

text \<open>Key order: \<open>sort_keys=True\<close> at every level.\<close>

fun sort_keys :: "json \<Rightarrow> json" where
  "sort_keys (JList xs) = JList (map sort_keys xs)"
| "sort_keys (JObj kvs) = JObj (sort_key fst (map (\<lambda>kv. (fst kv, sort_keys (snd kv))) kvs))"
| "sort_keys j = j"

fun dumps :: "json \<Rightarrow> string"
  and dumps_items :: "json list \<Rightarrow> string"
  and dumps_pairs :: "(string \<times> json) list \<Rightarrow> string" where
  "dumps JNull = ''null''"
| "dumps (JBool b) = (if b then ''true'' else ''false'')"
| "dumps (JInt i) = json_int i"
| "dumps (JFloat i) = json_int i @ ''.0''"
| "dumps (JStr s) = CHR 0x22 # json_string s"
| "dumps (JList xs) = CHR ''['' # dumps_items xs"
| "dumps (JObj kvs) = CHR ''{'' # dumps_pairs kvs"
| "dumps_items [] = '']''"
| "dumps_items [x] = dumps x @ '']''"
| "dumps_items (x # y # xs) = dumps x @ '','' @ dumps_items (y # xs)"
| "dumps_pairs [] = ''}''"
| "dumps_pairs [(k, v)] = CHR 0x22 # json_string k @ '':'' @ dumps v @ ''}''"
| "dumps_pairs ((k, v) # p # kvs) =
     CHR 0x22 # json_string k @ '':'' @ dumps v @ '','' @ dumps_pairs (p # kvs)"

definition canonical_json_bytes :: "json \<Rightarrow> bytes" where
  "canonical_json_bytes j = dumps (sort_keys j)"

section \<open>Decoding a string literal\<close>

definition hex_val :: "char \<Rightarrow> nat" where
  "hex_val c = (let n = of_char c in if n \<le> 57 then n - 48 else n - 87)"

fun json_unescape :: "string \<Rightarrow> (char \<times> string) option" where
  "json_unescape [] = None"
| "json_unescape [c] = (if c \<in> {CHR 0x22, CHR 0x5C} then None else Some (c, []))"
| "json_unescape (c # d # cs) =
     (if c = CHR 0x22 then None
      else if c \<noteq> CHR 0x5C then Some (c, d # cs)
      else if d = CHR ''b'' then Some (CHR 0x08, cs)
      else if d = CHR ''f'' then Some (CHR 0x0C, cs)
      else if d = CHR ''n'' then Some (CHR 0x0A, cs)
      else if d = CHR ''r'' then Some (CHR 0x0D, cs)
      else if d = CHR ''t'' then Some (CHR 0x09, cs)
      else if d = CHR ''u'' then
        (case cs of _ # _ # h # l # rest \<Rightarrow> Some (char_of (16 * hex_val h + hex_val l), rest)
         | _ \<Rightarrow> None)
      else Some (d, cs))"

lemma hex_val_digit: "n < 16 \<Longrightarrow> hex_val (hex_digit n) = n"
proof -
  have "list_all (\<lambda>n. hex_val (hex_digit n) = n) [0..<16]" by code_simp
  then show "n < 16 \<Longrightarrow> hex_val (hex_digit n) = n"
    by (rule list_all_uptD [where P = "\<lambda>n. hex_val (hex_digit n) = n"])
qed

lemma hex_digit_inj: "m < 16 \<Longrightarrow> n < 16 \<Longrightarrow> hex_digit m = hex_digit n \<longleftrightarrow> m = n"
  by (metis hex_val_digit)

lemma json_unescape_escape: "json_unescape (json_escape c @ s) = Some (c, s)"
proof (cases "(of_char c :: nat) < 32 \<and> c \<notin> {CHR 0x08, CHR 0x0C, CHR 0x0A, CHR 0x0D, CHR 0x09}")
  case True
  let ?n = "of_char c :: nat"
  have "\<not> (of_char (CHR 0x22) :: nat) < 32" "\<not> (of_char (CHR 0x5C) :: nat) < 32" by simp_all
  with True have ne: "c \<noteq> CHR 0x22" "c \<noteq> CHR 0x5C" by metis+
  have esc: "json_escape c =
      [CHR 0x5C, CHR ''u'', CHR ''0'', CHR ''0'', hex_digit (?n div 16), hex_digit (?n mod 16)]"
    using True unfolding json_escape_def
    by (simp only: ne insert_iff empty_iff de_Morgan_disj if_True if_False simp_thms)
  have "?n div 16 < 16" using True by (auto simp only: less_mult_imp_div_less)
  then have v: "hex_val (hex_digit (?n div 16)) = ?n div 16"
      "hex_val (hex_digit (?n mod 16)) = ?n mod 16"
    by (simp_all only: hex_val_digit mod_less_divisor zero_less_numeral)
  have "16 * (?n div 16) + ?n mod 16 = ?n" by (rule mult_div_mod_eq)
  then have "char_of (16 * hex_val (hex_digit (?n div 16)) + hex_val (hex_digit (?n mod 16))) = c"
    by (simp only: v char_of_char)
  then show ?thesis
    unfolding esc by simp
next
  case False
  then show ?thesis
    by (cases s; simp add: json_escape_def split: if_splits; blast)
qed

lemma json_escape_not_quote: "json_escape c @ s \<noteq> CHR 0x22 # t"
  by (auto simp: json_escape_def)

lemma json_string_inj: "json_string a @ s = json_string b @ t \<Longrightarrow> a = b \<and> s = t"
proof (induction a arbitrary: b)
  case Nil
  then show ?case by (cases b) (use json_escape_not_quote in \<open>auto simp: eq_commute\<close>)
next
  case (Cons c a)
  show ?case
  proof (cases b)
    case Nil
    with Cons.prems show ?thesis using json_escape_not_quote by auto
  next
    case (Cons d b')
    with Cons.prems have "json_unescape (json_escape c @ json_string a @ s) =
        json_unescape (json_escape d @ json_string b' @ t)"
      by simp
    then have "c = d" and "json_string a @ s = json_string b' @ t"
      by (simp_all only: json_unescape_escape option.inject prod.inject)
    with Cons.IH Cons show ?thesis by auto
  qed
qed

section \<open>Integers\<close>

definition is_digit :: "char \<Rightarrow> bool" where
  "is_digit c = (c \<in> set ''0123456789'')"

definition delimited :: "string \<Rightarrow> bool" where
  "delimited s = (s = [] \<or> \<not> is_digit (hd s))"

lemma hex_digit_is_digit: "n < 10 \<Longrightarrow> is_digit (hex_digit n)"
proof -
  have "list_all (\<lambda>n. is_digit (hex_digit n)) [0..<10]" by code_simp
  then show "n < 10 \<Longrightarrow> is_digit (hex_digit n)"
    by (rule list_all_uptD [where P = "\<lambda>n. is_digit (hex_digit n)"])
qed

lemma decimal_digits: "list_all is_digit (decimal n)"
  by (induction n rule: decimal.induct)
    (subst decimal.simps, simp add: hex_digit_is_digit)

lemma decimal_nonempty: "decimal n \<noteq> []"
  by (subst decimal.simps) simp

lemma decimal_inj: "decimal m = decimal n \<Longrightarrow> m = n"
proof (induction m arbitrary: n rule: decimal.induct)
  case (1 m)
  have hd: "hex_digit (k mod 10) = hex_digit (l mod 10) \<longleftrightarrow> k mod 10 = l mod 10" for k l
    by (rule hex_digit_inj) simp_all
  show ?case
  proof (cases "m < 10")
    case True
    with "1.prems" have "n < 10"
      using decimal_nonempty[of "n div 10"] by (auto simp: decimal.simps[of m] decimal.simps[of n] split: if_splits)
    with True "1.prems" show ?thesis by (simp add: decimal.simps[of m] decimal.simps[of n] hex_digit_inj)
  next
    case False
    with "1.prems" have "\<not> n < 10"
      using decimal_nonempty[of "m div 10"] by (auto simp: decimal.simps[of m] decimal.simps[of n] split: if_splits)
    with False "1.prems" have "decimal (m div 10) = decimal (n div 10)" "m mod 10 = n mod 10"
      by (simp_all add: decimal.simps[of m] decimal.simps[of n] hd)
    with "1.IH"[OF False] show ?thesis by (metis div_mult_mod_eq)
  qed
qed

lemma digits_split:
  assumes "list_all is_digit xs" and "list_all is_digit ys" and "delimited s" and "delimited t"
    and "xs @ s = ys @ t"
  shows "xs = ys \<and> s = t"
proof -
  have split: "takeWhile is_digit (zs @ u) = zs" if "list_all is_digit zs" "delimited u" for zs u
    using that by (cases u) (auto simp: takeWhile_append list_all_iff delimited_def)
  from assms have "xs = ys" by (metis split)
  with assms(5) show ?thesis by simp
qed

lemma json_int_inj:
  assumes "json_int i @ s = json_int j @ t" and "delimited s" and "delimited t"
  shows "i = j \<and> s = t"
proof -
  have minus: "decimal n @ u \<noteq> CHR ''-'' # v" for n u v
    using decimal_digits[of n] decimal_nonempty[of n] by (cases "decimal n") (auto simp: is_digit_def)
  have pos: "m = n \<and> s = t" if "decimal m @ s = decimal n @ t" for m n
    using digits_split[OF decimal_digits decimal_digits assms(2,3) that] decimal_inj by blast
  consider "i < 0" "j < 0" | "i < 0" "0 \<le> j" | "0 \<le> i" "j < 0" | "0 \<le> i" "0 \<le> j"
    by linarith
  then show ?thesis
  proof cases
    case 1
    with assms(1) have "nat (- i) = nat (- j) \<and> s = t"
      by (intro pos) (simp add: json_int_def)
    with 1 show ?thesis by (simp add: nat_eq_iff)
  next
    case 2
    with assms(1) minus[of "nat j" t] show ?thesis by (simp add: json_int_def) metis
  next
    case 3
    with assms(1) minus[of "nat i" s] show ?thesis by (simp add: json_int_def)
  next
    case 4
    with assms(1) have "nat i = nat j \<and> s = t"
      by (intro pos) (simp add: json_int_def)
    with 4 show ?thesis by (simp add: nat_eq_iff)
  qed
qed

section \<open>The encoding is injective\<close>

text \<open>
  Every encoding starts with a character that tells its constructor, and a number ends
  where a character that is no digit and no point follows: \<open>dumps\<close> is prefix free on such
  rests.
\<close>

definition ends_number :: "string \<Rightarrow> bool" where
  "ends_number s = (delimited s \<and> (s = [] \<or> hd s \<noteq> CHR ''.''))"

lemma ends_number_delimited: "ends_number s \<Longrightarrow> delimited s"
  by (simp add: ends_number_def)

lemma delimited_simps [simp]:
  "delimited []" "delimited (c # s) \<longleftrightarrow> \<not> is_digit c"
  by (simp_all add: delimited_def)

lemma not_digit [simp]:
  "\<not> is_digit CHR '',''" "\<not> is_digit CHR '']''" "\<not> is_digit CHR ''}''" "\<not> is_digit CHR '':''"
  by (simp_all add: is_digit_def)

lemma not_point [simp]: "\<not> is_digit CHR ''.''"
  by (simp add: is_digit_def)

lemma ends_number_simps [simp]:
  "ends_number []" "ends_number (c # s) \<longleftrightarrow> \<not> is_digit c \<and> c \<noteq> CHR ''.''"
  by (auto simp: ends_number_def)

lemma json_int_hd: "\<exists>c s. json_int i = c # s \<and> (c = CHR ''-'' \<or> is_digit c)"
  using decimal_digits[of "nat i"] decimal_nonempty[of "nat i"]
  by (cases "decimal (nat i)") (auto simp: json_int_def)

lemma dumps_hd: "\<exists>c s. dumps j = c # s \<and> c \<noteq> CHR '']'' \<and> c \<noteq> CHR ''}''"
proof -
  have int: "\<exists>c s. json_int i = c # s \<and> c \<noteq> CHR '']'' \<and> c \<noteq> CHR ''}''" for i
  proof -
    from json_int_hd [of i] obtain c s where c: "json_int i = c # s" "c = CHR ''-'' \<or> is_digit c" by blast
    from c(2) have "c \<noteq> CHR '']''" "c \<noteq> CHR ''}''" by auto
    with c(1) show ?thesis by blast
  qed
  show ?thesis
  proof (cases j)
    case (JInt i)
    with int [of i] show ?thesis by simp
  next
    case (JFloat i)
    with int [of i] show ?thesis by auto
  qed auto
qed

definition tag :: "char \<Rightarrow> nat" where
  "tag c = (if c = CHR ''n'' then 0 else if c \<in> {CHR ''t'', CHR ''f''} then 1
     else if c = CHR 0x22 then 3 else if c = CHR ''['' then 4 else if c = CHR ''{'' then 5 else 2)"

fun json_kind :: "json \<Rightarrow> nat" where
  "json_kind JNull = 0"
| "json_kind (JBool _) = 1"
| "json_kind (JInt _) = 2"
| "json_kind (JFloat _) = 2"
| "json_kind (JStr _) = 3"
| "json_kind (JList _) = 4"
| "json_kind (JObj _) = 5"

lemma digit_tag: "c = CHR ''-'' \<or> is_digit c \<Longrightarrow> tag c = 2"
  by (auto simp: is_digit_def tag_def)

lemma dumps_tag: "\<exists>c s. dumps j = c # s \<and> tag c = json_kind j"
proof (cases j)
  case (JInt i)
  then show ?thesis using json_int_hd[of i] digit_tag by auto
next
  case (JFloat i)
  then show ?thesis using json_int_hd[of i] digit_tag by auto
qed (simp_all add: tag_def)

lemma dumps_kind: "dumps j @ s = dumps j' @ t \<Longrightarrow> json_kind j' = json_kind j"
  using dumps_tag[of j] dumps_tag[of j'] by auto

lemma dumps_not_close [simp]: "dumps j @ s \<noteq> CHR '']'' # t" "CHR '']'' # t \<noteq> dumps j @ s"
  using dumps_hd[of j] by auto

lemma dumps_inj:
  "dumps j @ s = dumps j' @ t \<Longrightarrow> ends_number s \<Longrightarrow> ends_number t \<Longrightarrow> j = j' \<and> s = t"
  and dumps_items_inj: "dumps_items xs @ s = dumps_items ys @ t \<Longrightarrow> xs = ys \<and> s = t"
  and dumps_pairs_inj: "dumps_pairs ps @ s = dumps_pairs qs @ t \<Longrightarrow> ps = qs \<and> s = t"
proof (induction j and xs and ps arbitrary: j' s t and ys s t and qs s t
    rule: dumps_dumps_items_dumps_pairs.induct)
  case 1
  then show ?case using dumps_kind[OF "1"(1)] by (cases j') simp_all
next
  case (2 b)
  from dumps_kind[OF "2"(1)] obtain b' where j': "j' = JBool b'"
    by (cases j') simp_all
  with "2"(1) show ?case by (cases b; cases b') simp_all
next
  case (3 i)
  from dumps_kind[OF "3"(1)] consider i' where "j' = JInt i'" | i' where "j' = JFloat i'"
    by (cases j') simp_all
  then show ?case
  proof cases
    case (1 i')
    with "3" json_int_inj[of i s i' t] show ?thesis by (simp add: ends_number_def)
  next
    case (2 i')
    with "3" json_int_inj[of i s i' "''.0'' @ t"] show ?thesis by (auto simp: ends_number_def)
  qed
next
  case (4 i)
  from dumps_kind[OF "4"(1)] consider i' where "j' = JInt i'" | i' where "j' = JFloat i'"
    by (cases j') simp_all
  then show ?case
  proof cases
    case (1 i')
    with "4" json_int_inj[of i "''.0'' @ s" i' t] show ?thesis by (auto simp: ends_number_def)
  next
    case (2 i')
    with "4" json_int_inj[of i "''.0'' @ s" i' "''.0'' @ t"] show ?thesis by (simp add: ends_number_def)
  qed
next
  case (5 u)
  from dumps_kind[OF "5"(1)] obtain u' where j': "j' = JStr u'"
    by (cases j') simp_all
  with "5" json_string_inj[of u s u' t] show ?case by simp
next
  case (6 xs)
  from dumps_kind[OF "6.prems"(1)] obtain ys where j': "j' = JList ys"
    by (cases j') simp_all
  with "6.prems"(1) "6.IH"[of s ys t] show ?case by simp
next
  case (7 kvs)
  from dumps_kind[OF "7.prems"(1)] obtain qs where j': "j' = JObj qs"
    by (cases j') simp_all
  with "7.prems"(1) "7.IH"[of s qs t] show ?case by simp
next
  case (8 ys s t)
  then show ?case
    by (cases ys rule: dumps_items.cases) simp_all
next
  case (9 x ys s t)
  consider (nil) "ys = []" | (one) y where "ys = [y]" | (more) y z zs where "ys = y # z # zs"
    by (cases ys rule: dumps_items.cases)
  then show ?case
  proof cases
    case nil
    with "9.prems" show ?thesis by simp
  next
    case one
    with "9.prems" "9.IH"[of "CHR '']'' # s" y "CHR '']'' # t"] show ?thesis by simp
  next
    case more
    with "9.prems" "9.IH"[of "CHR '']'' # s" y "CHR '','' # dumps_items (z # zs) @ t"]
    show ?thesis by simp
  qed
next
  case (10 x x' xs ys s t)
  consider (nil) "ys = []" | (one) y where "ys = [y]" | (more) y z zs where "ys = y # z # zs"
    by (cases ys rule: dumps_items.cases)
  then show ?case
  proof cases
    case nil
    with "10.prems" show ?thesis by simp
  next
    case one
    with "10.prems" "10.IH"(1)[of "CHR '','' # dumps_items (x' # xs) @ s" y "CHR '']'' # t"]
    show ?thesis by simp
  next
    case more
    with "10.prems" "10.IH"(1)[of "CHR '','' # dumps_items (x' # xs) @ s" y
        "CHR '','' # dumps_items (z # zs) @ t"] "10.IH"(2)[of s "z # zs" t]
    show ?thesis by simp
  qed
next
  case (11 qs s t)
  then show ?case by (cases qs rule: dumps_pairs.cases) auto
next
  case (12 k v qs s t)
  consider (nil) "qs = []" | (one) l w where "qs = [(l, w)]"
    | (more) l w q qs' where "qs = (l, w) # q # qs'"
    by (cases qs rule: dumps_pairs.cases)
  then show ?case
  proof cases
    case nil
    with "12.prems" show ?thesis by simp
  next
    case one
    with "12.prems" json_string_inj[of k "CHR '':'' # dumps v @ CHR ''}'' # s" l]
      "12.IH"[of "CHR ''}'' # s" w "CHR ''}'' # t"]
    show ?thesis by auto
  next
    case more
    with "12.prems" json_string_inj[of k "CHR '':'' # dumps v @ CHR ''}'' # s" l]
      "12.IH"[of "CHR ''}'' # s" w "CHR '','' # dumps_pairs (q # qs') @ t"]
    show ?thesis by auto
  qed
next
  case (13 k v p kvs qs s t)
  consider (nil) "qs = []" | (one) l w where "qs = [(l, w)]"
    | (more) l w q qs' where "qs = (l, w) # q # qs'"
    by (cases qs rule: dumps_pairs.cases)
  then show ?case
  proof cases
    case nil
    with "13.prems" show ?thesis by simp
  next
    case one
    with "13.prems" json_string_inj[of k "CHR '':'' # dumps v @ CHR '','' # dumps_pairs (p # kvs) @ s" l]
      "13.IH"(1)[of "CHR '','' # dumps_pairs (p # kvs) @ s" w "CHR ''}'' # t"]
    show ?thesis by auto
  next
    case more
    with "13.prems" json_string_inj[of k "CHR '':'' # dumps v @ CHR '','' # dumps_pairs (p # kvs) @ s" l]
      "13.IH"(1)[of "CHR '','' # dumps_pairs (p # kvs) @ s" w "CHR '','' # dumps_pairs (q # qs') @ t"]
      "13.IH"(2)[of s "q # qs'" t]
    show ?thesis by auto
  qed
qed

lemma canonical_json_eq: "canonical_json_bytes a = canonical_json_bytes b \<longleftrightarrow> sort_keys a = sort_keys b"
  using dumps_inj[of "sort_keys a" "[]" "sort_keys b" "[]"] by (auto simp: canonical_json_bytes_def)

end
