(* ===== verification/State_Records.thy ===== *)
theory State_Records
  imports Canonical_Json
begin

text \<open>
  The physical values of the state store, \<open>ai/persistence/state.py\<close>: records with a CAS
  revision and lease columns, facts of an append-only stream, operations, the queries over
  them, the digests that address them, and the lease transition a backend applies.

  \<open>hashlib.sha256\<close> is a parameter \<open>sha\<close> of the digests.  Where a fact needs that
  different identities get different keys it assumes \<open>collision_free sha\<close>.  The length of a
  digest (32 bytes) is not checked by the model: it holds of every output of SHA-256.
\<close>

section \<open>Digests\<close>

definition collision_free :: "(bytes \<Rightarrow> bytes) \<Rightarrow> bool" where
  "collision_free sha = inj sha"

definition digest :: "(bytes \<Rightarrow> bytes) \<Rightarrow> json \<Rightarrow> bytes" where
  "digest sha v = sha (canonical_json_bytes v)"

definition record_key_digest ::
  "(bytes \<Rightarrow> bytes) \<Rightarrow> string \<Rightarrow> string \<Rightarrow> string \<Rightarrow> string \<Rightarrow> json \<Rightarrow> bytes" where
  "record_key_digest sha ns tenant dmn knd ident =
     digest sha (JList [JStr ''record'', JStr ns, JStr tenant, JStr dmn, JStr knd, ident])"

definition scope_digest ::
  "(bytes \<Rightarrow> bytes) \<Rightarrow> string \<Rightarrow> string \<Rightarrow> string \<Rightarrow> string \<Rightarrow> string \<Rightarrow> json \<Rightarrow> bytes" where
  "scope_digest sha ns tenant dmn knd rel ident =
     digest sha (JList [JStr ''scope'', JStr ns, JStr tenant, JStr dmn, JStr knd, JStr rel, ident])"

definition parent_digest ::
  "(bytes \<Rightarrow> bytes) \<Rightarrow> string \<Rightarrow> string \<Rightarrow> string \<Rightarrow> string \<Rightarrow> string \<Rightarrow> json \<Rightarrow> bytes" where
  "parent_digest sha ns tenant dmn knd rel ident =
     digest sha (JList [JStr ''parent'', JStr ns, JStr tenant, JStr dmn, JStr knd, JStr rel, ident])"

definition stream_digest ::
  "(bytes \<Rightarrow> bytes) \<Rightarrow> string \<Rightarrow> string \<Rightarrow> string \<Rightarrow> string \<Rightarrow> json \<Rightarrow> bytes" where
  "stream_digest sha ns tenant dmn rel ident =
     digest sha (JList [JStr ''stream'', JStr ns, JStr tenant, JStr dmn, JStr rel, ident])"

definition sequence_key ::
  "(bytes \<Rightarrow> bytes) \<Rightarrow> string \<Rightarrow> string \<Rightarrow> string \<Rightarrow> string \<Rightarrow> json \<Rightarrow> bytes" where
  "sequence_key sha ns tenant dmn rel ident =
     digest sha (JList [JStr ''sequence'', JStr ns, JStr tenant, JStr dmn, JStr rel, ident])"

definition operation_key ::
  "(bytes \<Rightarrow> bytes) \<Rightarrow> string \<Rightarrow> string \<Rightarrow> string \<Rightarrow> json \<Rightarrow> bytes" where
  "operation_key sha ns tenant dmn ident =
     digest sha (JList [JStr ''operation'', JStr ns, JStr tenant, JStr dmn, ident])"

definition hexdigest :: "bytes \<Rightarrow> string" where
  "hexdigest s =
     concat (map (\<lambda>c. [hex_digit (of_char c div 16), hex_digit (of_char c mod 16)]) s)"

definition sortable_identity :: "(bytes \<Rightarrow> bytes) \<Rightarrow> json \<Rightarrow> string" where
  "sortable_identity sha ident = ''i:'' @ hexdigest (sha (canonical_json_bytes ident))"

definition canonical_sha256 :: "(bytes \<Rightarrow> bytes) \<Rightarrow> json \<Rightarrow> string" where
  "canonical_sha256 sha v = hexdigest (sha (canonical_json_bytes v))"

lemma digest_eq: "collision_free sha \<Longrightarrow> digest sha a = digest sha b \<longleftrightarrow> sort_keys a = sort_keys b"
  by (simp add: collision_free_def digest_def inj_eq canonical_json_eq)

text \<open>The records of one repository differ in kind or identity, facts in relation or identity.\<close>

lemma record_key_digest_eq [simp]:
  "collision_free sha \<Longrightarrow>
    record_key_digest sha ns tn d k i = record_key_digest sha ns' tn' d' k' i' \<longleftrightarrow>
    ns = ns' \<and> tn = tn' \<and> d = d' \<and> k = k' \<and> sort_keys i = sort_keys i'"
  by (simp add: record_key_digest_def digest_eq)

lemma stream_digest_eq [simp]:
  "collision_free sha \<Longrightarrow>
    stream_digest sha ns tn d r i = stream_digest sha ns' tn' d' r' i' \<longleftrightarrow>
    ns = ns' \<and> tn = tn' \<and> d = d' \<and> r = r' \<and> sort_keys i = sort_keys i'"
  by (simp add: stream_digest_def digest_eq)

lemma sequence_key_eq [simp]:
  "collision_free sha \<Longrightarrow>
    sequence_key sha ns tn d r i = sequence_key sha ns' tn' d' r' i' \<longleftrightarrow>
    ns = ns' \<and> tn = tn' \<and> d = d' \<and> r = r' \<and> sort_keys i = sort_keys i'"
  by (simp add: sequence_key_def digest_eq)

lemma parent_digest_eq [simp]:
  "collision_free sha \<Longrightarrow>
    parent_digest sha ns tn d k r i = parent_digest sha ns' tn' d' k' r' i' \<longleftrightarrow>
    ns = ns' \<and> tn = tn' \<and> d = d' \<and> k = k' \<and> r = r' \<and> sort_keys i = sort_keys i'"
  by (simp add: parent_digest_def digest_eq)

section \<open>Stored values\<close>

record 'd stored_record =
  rec_key :: bytes
  rec_scope :: "bytes option"
  rec_parent :: "bytes option"
  rec_kind :: string
  rec_sort :: string
  rec_state :: "string option"
  rec_revision :: int
  rec_owner :: "string option"
  rec_fence :: int
  rec_expires :: "int option"
  rec_data :: 'd

record 'f stored_fact =
  fact_stream :: bytes
  fact_sequence :: int
  fact_owner :: bytes
  fact_kind :: string
  fact_subject :: "bytes option"
  fact_state :: "string option"
  fact_data :: 'f

record 'o stored_operation =
  op_key :: bytes
  op_stream :: bytes
  op_sequence :: int
  op_state :: string
  op_compactable :: bool
  op_data :: 'o

definition is_ascii :: "string \<Rightarrow> bool" where
  "is_ascii s = list_all (\<lambda>c. (of_char c :: nat) < 128) s"

definition record_kind_ok :: "string \<Rightarrow> bool" where
  "record_kind_ok k =
     (0 < length k \<and> length k \<le> 32 \<and> k \<notin> {''.'', ''..''} \<and>
      \<not> list_ex (\<lambda>c. c = CHR ''/'' \<or> c = CHR 0x5C) k)"

definition sort_key_ok :: "string \<Rightarrow> bool" where
  "sort_key_ok s = (s \<noteq> [] \<and> is_ascii s)"

definition state_ok :: "string option \<Rightarrow> bool" where
  "state_ok st = (case st of None \<Rightarrow> True | Some s \<Rightarrow> length s \<le> 64)"

text \<open>\<open>StoredRecord.__post_init__\<close>.\<close>

definition stored_record_ok :: "'d stored_record \<Rightarrow> bool" where
  "stored_record_ok r =
     (record_kind_ok (rec_kind r) \<and> sort_key_ok (rec_sort r) \<and> state_ok (rec_state r) \<and>
      0 \<le> rec_revision r \<and> 0 \<le> rec_fence r)"

definition encode_sort_key :: "string \<Rightarrow> string res" where
  "encode_sort_key s = ensure (s \<noteq> []) ValueError (ensure (is_ascii s) ValueError (Inr s))"

definition validate_record_identity :: "'d stored_record \<Rightarrow> unit res" where
  "validate_record_identity r = ebind (encode_sort_key (rec_sort r)) (\<lambda>_. Inr ())"

definition validate_record_replacement :: "'d stored_record \<Rightarrow> 'd stored_record \<Rightarrow> unit res" where
  "validate_record_replacement current candidate =
     (if rec_key current \<noteq> rec_key candidate \<or> rec_scope current \<noteq> rec_scope candidate \<or>
         rec_parent current \<noteq> rec_parent candidate \<or> rec_kind current \<noteq> rec_kind candidate \<or>
         rec_sort current \<noteq> rec_sort candidate
      then Inl ValueError else Inr ())"

definition validate_operation_replacement ::
  "'o stored_operation \<Rightarrow> 'o stored_operation \<Rightarrow> unit res" where
  "validate_operation_replacement current candidate =
     (if op_key current \<noteq> op_key candidate \<or> op_stream current \<noteq> op_stream candidate \<or>
         op_sequence current \<noteq> op_sequence candidate \<or>
         op_compactable current \<noteq> op_compactable candidate
      then Inl ValueError else Inr ())"

record 'd record_replacement =
  repl_record :: "'d stored_record"
  repl_expected :: int

section \<open>Queries\<close>

record record_query =
  rq_scope :: "bytes option"
  rq_parent :: "bytes option"
  rq_kind :: "string option"
  rq_states :: "string list option"
  rq_prefix :: "string option"
  rq_after :: "(string \<times> bytes) option"
  rq_limit :: "nat option"

record fact_query =
  fq_stream :: bytes
  fq_after :: "int option"
  fq_limit :: "nat option"
  fq_subject :: "bytes option"
  fq_latest :: bool
  fq_latest_per_subject :: bool

record operation_query =
  oq_stream :: "bytes option"
  oq_states :: "string list option"
  oq_through :: "int option"
  oq_compactable :: "bool option"
  oq_limit :: "nat option"
  oq_after :: "int option"

definition limit_ok :: "nat option \<Rightarrow> bool" where
  "limit_ok l = (case l of None \<Rightarrow> True | Some n \<Rightarrow> 0 < n \<and> n \<le> 1000)"

definition record_query_ok :: "record_query \<Rightarrow> bool" where
  "record_query_ok q =
     (\<not> (rq_kind q = None \<and> rq_scope q = None \<and> rq_parent q = None) \<and>
      (case rq_kind q of None \<Rightarrow> True | Some k \<Rightarrow> record_kind_ok k) \<and>
      (case rq_prefix q of None \<Rightarrow> True | Some p \<Rightarrow> sort_key_ok p) \<and>
      (case rq_after q of None \<Rightarrow> True | Some (s, _) \<Rightarrow> sort_key_ok s) \<and>
      limit_ok (rq_limit q))"

definition fact_query_ok :: "fact_query \<Rightarrow> bool" where
  "fact_query_ok q =
     ((case fq_after q of None \<Rightarrow> True | Some n \<Rightarrow> 0 \<le> n) \<and>
      \<not> (fq_latest q \<and> fq_latest_per_subject q) \<and>
      \<not> (fq_latest_per_subject q \<and> fq_subject q \<noteq> None) \<and>
      limit_ok (fq_limit q))"

section \<open>Lease transitions\<close>

text \<open>
  \<open>RecordLeaseTransition\<close>.  The duration is the \<open>timedelta\<close> in microseconds;
  \<open>lease_transition_ok\<close> is \<open>__post_init__\<close> after that conversion.
\<close>

datatype lease_op = Acquire | Renew | Release | Guard | Guard_available

record lease_transition =
  lt_operation :: lease_op
  lt_owner :: "string option"
  lt_fence :: int
  lt_duration :: "int option"

definition lease_transition_ok :: "lease_transition \<Rightarrow> bool" where
  "lease_transition_ok tr =
     (((lt_operation tr = Guard_available \<and> lt_owner tr = None) \<or>
       (case lt_owner tr of None \<Rightarrow> False | Some ow \<Rightarrow> \<not> blank ow)) \<and>
      0 \<le> lt_fence tr \<and>
      (if lt_operation tr \<in> {Release, Guard, Guard_available} then lt_duration tr = None
       else (case lt_duration tr of None \<Rightarrow> False | Some d \<Rightarrow> 0 < d)))"

definition lease_live :: "'d stored_record \<Rightarrow> int \<Rightarrow> bool" where
  "lease_live r now =
     (rec_owner r \<noteq> None \<and> (case rec_expires r of None \<Rightarrow> True | Some e \<Rightarrow> now < e))"

definition lease_apply :: "lease_transition \<Rightarrow> 'd stored_record \<Rightarrow> int \<Rightarrow> 'd stored_record option" where
  "lease_apply tr r now =
     (if rec_fence r \<noteq> lt_fence tr then None
      else if (if lt_operation tr \<in> {Acquire, Guard_available}
               then lease_live r now \<or>
                 (lt_operation tr = Guard_available \<and> rec_owner r \<noteq> lt_owner tr)
               else \<not> lease_live r now \<or> rec_owner r \<noteq> lt_owner tr \<or> rec_expires r = None)
      then None
      else if lt_operation tr \<in> {Guard, Guard_available}
      then Some (r\<lparr>rec_revision := rec_revision r + 1\<rparr>)
      else Some (r\<lparr>
        rec_revision := rec_revision r + 1,
        rec_owner := (if lt_operation tr = Release then None else lt_owner tr),
        rec_fence := lt_fence tr + (if lt_operation tr = Acquire then 1 else 0),
        rec_expires := (case lt_duration tr of None \<Rightarrow> None | Some d \<Rightarrow> Some (now + d))\<rparr>))"

lemmas lease_apply_cases = lease_apply_def [unfolded Let_def]

text \<open>A lease is exclusive: nobody acquires a record whose lease is live.\<close>

lemma acquire_not_live:
  "lease_apply tr r now = Some r' \<Longrightarrow> lt_operation tr = Acquire \<Longrightarrow> \<not> lease_live r now"
  by (auto simp: lease_apply_def split: if_splits)

lemma lease_apply_fence:
  "lease_apply tr r now = Some r' \<Longrightarrow>
    rec_fence r' = rec_fence r + (if lt_operation tr = Acquire then 1 else 0)"
  by (auto simp: lease_apply_def split: if_splits)

lemma lease_apply_revision:
  "lease_apply tr r now = Some r' \<Longrightarrow> rec_revision r' = rec_revision r + 1"
  by (auto simp: lease_apply_def split: if_splits)

lemma lease_apply_frame:
  "lease_apply tr r now = Some r' \<Longrightarrow>
    rec_key r' = rec_key r \<and> rec_scope r' = rec_scope r \<and> rec_parent r' = rec_parent r \<and>
    rec_kind r' = rec_kind r \<and> rec_sort r' = rec_sort r \<and> rec_state r' = rec_state r \<and>
    rec_data r' = rec_data r"
  by (auto simp: lease_apply_def split: if_splits)

text \<open>The holder of a live lease is the only one whose transitions the record accepts.\<close>

lemma live_lease_owner:
  assumes "lease_live r now" and "lease_apply tr r now = Some r'"
  shows "rec_owner r = lt_owner tr \<and> rec_fence r = lt_fence tr \<and> lt_operation tr \<in> {Renew, Release, Guard}"
  using assms by (cases "lt_operation tr") (auto simp: lease_apply_def split: if_splits)

text \<open>
  The fence of a record is a generation number: a transition that carries an older fence
  than the record's is refused, whatever its operation, owner and time.
\<close>

lemma stale_fence_refused: "lt_fence tr < rec_fence r \<Longrightarrow> lease_apply tr r now = None"
  by (simp add: lease_apply_def)

end
