(* ===== verification/Memory_Overlay.thy ===== *)
theory Memory_Overlay
  imports State_Records
begin

text \<open>
  \<open>_MemoryOverlay\<close> of \<open>ai/persistence/_memory_transaction.py\<close>: the view a transaction has
  of a committed table, with its own changes and deletions on top.  A view reads as the
  committed table does after \<open>apply_to\<close> has written the overlay to it
  (\<open>map_of_apply_to\<close>), which is what makes a commit show exactly what the transaction
  saw.

  Iteration over a Python \<open>set\<close> of keys has no defined order: \<open>ov_items\<close> enumerates in
  the order of the lists, and every listing the store returns in order sorts.
\<close>

section \<open>The overlay\<close>

record ('k, 'v) overlay =
  ov_base :: "('k \<times> 'v) list"
  ov_changes :: "('k \<times> 'v) list"
  ov_deleted :: "'k list"

definition ov_new :: "('k \<times> 'v) list \<Rightarrow> ('k, 'v) overlay" where
  "ov_new base = \<lparr>ov_base = base, ov_changes = [], ov_deleted = []\<rparr>"

text \<open>\<open>get\<close>: \<open>__getitem__\<close> with the \<open>KeyError\<close> as \<open>None\<close>.\<close>

definition ov_get :: "('k, 'v) overlay \<Rightarrow> 'k \<Rightarrow> 'v option" where
  "ov_get ov k =
     (case map_of (ov_changes ov) k of
        Some v \<Rightarrow> Some v
      | None \<Rightarrow> if k \<in> set (ov_deleted ov) then None else map_of (ov_base ov) k)"

definition ov_set :: "'k \<Rightarrow> 'v \<Rightarrow> ('k, 'v) overlay \<Rightarrow> ('k, 'v) overlay" where
  "ov_set k v ov =
     ov\<lparr>ov_deleted := removeAll k (ov_deleted ov), ov_changes := AList.update k v (ov_changes ov)\<rparr>"

definition ov_delete :: "'k \<Rightarrow> ('k, 'v) overlay \<Rightarrow> ('k, 'v) overlay res" where
  "ov_delete k ov =
     (if ov_get ov k = None then Inl KeyError
      else Inr (ov\<lparr>ov_changes := AList.delete k (ov_changes ov),
                   ov_deleted := List.insert k (ov_deleted ov)\<rparr>))"

definition ov_keys :: "('k, 'v) overlay \<Rightarrow> 'k list" where
  "ov_keys ov =
     filter (\<lambda>k. k \<notin> set (ov_deleted ov))
       (remdups (map fst (ov_base ov) @ map fst (ov_changes ov)))"

definition ov_items :: "('k, 'v) overlay \<Rightarrow> ('k \<times> 'v) list" where
  "ov_items ov = List.map_filter (\<lambda>k. map_option (Pair k) (ov_get ov k)) (ov_keys ov)"

definition ov_values :: "('k, 'v) overlay \<Rightarrow> 'v list" where
  "ov_values ov = map snd (ov_items ov)"

definition ov_apply_to :: "('k, 'v) overlay \<Rightarrow> ('k \<times> 'v) list \<Rightarrow> ('k \<times> 'v) list" where
  "ov_apply_to ov target =
     fold (\<lambda>(k, v). AList.update k v) (ov_changes ov) (fold AList.delete (ov_deleted ov) target)"

text \<open>No key is both changed and deleted, and each \<open>dict\<close> has a key once.\<close>

definition ov_inv :: "('k, 'v) overlay \<Rightarrow> bool" where
  "ov_inv ov =
     (distinct (map fst (ov_base ov)) \<and> distinct (map fst (ov_changes ov)) \<and>
      (\<forall>k\<in>set (ov_deleted ov). map_of (ov_changes ov) k = None))"

lemma ov_inv_new: "distinct (map fst base) \<Longrightarrow> ov_inv (ov_new base)"
  by (simp add: ov_inv_def ov_new_def)

lemma ov_inv_set: "ov_inv ov \<Longrightarrow> ov_inv (ov_set k v ov)"
  by (auto simp: ov_inv_def ov_set_def distinct_update)

lemma ov_inv_delete: "ov_inv ov \<Longrightarrow> ov_delete k ov = Inr ov' \<Longrightarrow> ov_inv ov'"
  by (auto simp: ov_inv_def ov_delete_def distinct_delete split: if_splits)

lemma ov_get_new [simp]: "ov_get (ov_new base) = map_of base"
  by (simp add: ov_get_def ov_new_def fun_eq_iff)

lemma ov_get_set [simp]: "ov_get (ov_set k v ov) = (ov_get ov)(k \<mapsto> v)"
  by (auto simp: ov_get_def ov_set_def fun_eq_iff split: option.splits)

lemma ov_get_delete: "ov_delete k ov = Inr ov' \<Longrightarrow> ov_get ov' = (ov_get ov)(k := None)"
  by (auto simp: ov_get_def ov_delete_def fun_eq_iff split: option.splits if_splits)

lemma in_ov_keys: "ov_inv ov \<Longrightarrow> k \<in> set (ov_keys ov) \<longleftrightarrow> ov_get ov k \<noteq> None"
  by (auto simp: ov_keys_def ov_get_def ov_inv_def map_of_eq_None_iff dest: map_of_SomeD
      split: option.splits) force+

lemma distinct_ov_keys [simp]: "distinct (ov_keys ov)"
  by (simp add: ov_keys_def)

lemma ov_items_conv: "ov_inv ov \<Longrightarrow> ov_items ov = map (\<lambda>k. (k, the (ov_get ov k))) (ov_keys ov)"
proof -
  assume "ov_inv ov"
  then have "\<forall>k\<in>set (ov_keys ov). ov_get ov k \<noteq> None" by (simp add: in_ov_keys)
  then have "filter (\<lambda>k. map_option (Pair k) (ov_get ov k) \<noteq> None) (ov_keys ov) = ov_keys ov"
    by (intro filter_True) auto
  moreover have "map (the \<circ> (\<lambda>k. map_option (Pair k) (ov_get ov k))) (ov_keys ov) =
      map (\<lambda>k. (k, the (ov_get ov k))) (ov_keys ov)"
    using \<open>\<forall>k\<in>set (ov_keys ov). ov_get ov k \<noteq> None\<close> by (intro map_cong) auto
  ultimately show ?thesis by (simp add: ov_items_def List.map_filter_def comp_def)
qed

lemma set_ov_items: "ov_inv ov \<Longrightarrow> set (ov_items ov) = {(k, v). ov_get ov k = Some v}"
  by (auto simp: ov_items_conv image_iff in_ov_keys)

lemma map_fst_ov_items: "ov_inv ov \<Longrightarrow> map fst (ov_items ov) = ov_keys ov"
  by (simp add: ov_items_conv comp_def)

lemma set_ov_values: "ov_inv ov \<Longrightarrow> v \<in> set (ov_values ov) \<longleftrightarrow> (\<exists>k. ov_get ov k = Some v)"
  by (auto simp: ov_values_def set_ov_items image_iff)

text \<open>Where the key is a function of the value, as for records, facts and operations, no value is listed twice.\<close>

lemma distinct_ov_values:
  assumes "ov_inv ov" and "\<And>k v. ov_get ov k = Some v \<Longrightarrow> f v = k"
  shows "map f (ov_values ov) = ov_keys ov" and "distinct (map f (ov_values ov))"
proof -
  have "\<forall>(k, v)\<in>set (ov_items ov). f v = k"
    using assms by (auto simp: set_ov_items)
  then have "map (f \<circ> snd) (ov_items ov) = map fst (ov_items ov)"
    by (intro map_cong) auto
  then show eq: "map f (ov_values ov) = ov_keys ov"
    by (simp add: ov_values_def map_fst_ov_items assms(1))
  show "distinct (map f (ov_values ov))" by (simp add: eq)
qed

section \<open>Commit\<close>

lemma map_of_fold_delete:
  "map_of (fold AList.delete ks al) = (\<lambda>k. if k \<in> set ks then None else map_of al k)"
  by (induction ks arbitrary: al) (auto simp: fun_eq_iff)

lemma map_of_fold_update:
  "distinct (map fst cs) \<Longrightarrow>
    map_of (fold (\<lambda>(k, v). AList.update k v) cs al) = map_of al ++ map_of cs"
proof (induction cs arbitrary: al)
  case (Cons c cs)
  then show ?case
    by (cases c) (simp add: map_add_upd_left dom_map_of_conv_image_fst del: fun_upd_apply)
qed simp

lemma map_of_apply_to:
  "ov_inv ov \<Longrightarrow> map_of (ov_apply_to ov (ov_base ov)) = ov_get ov"
  by (auto simp: ov_apply_to_def map_of_fold_update map_of_fold_delete ov_inv_def ov_get_def
      map_add_def fun_eq_iff split: option.splits)

lemma distinct_fold_delete: "distinct (map fst al) \<Longrightarrow> distinct (map fst (fold AList.delete ks al))"
  by (induction ks arbitrary: al) (simp_all add: distinct_delete)

lemma distinct_fold_update:
  "distinct (map fst al) \<Longrightarrow> distinct (map fst (fold (\<lambda>(k, v). AList.update k v) cs al))"
  by (induction cs arbitrary: al) (auto simp: distinct_update)

lemma distinct_apply_to: "distinct (map fst al) \<Longrightarrow> distinct (map fst (ov_apply_to ov al))"
  by (simp add: ov_apply_to_def distinct_fold_delete distinct_fold_update)

lemma ov_base_set [simp]: "ov_base (ov_set k v ov) = ov_base ov"
  by (simp add: ov_set_def)

lemma ov_base_delete: "ov_delete k ov = Inr ov' \<Longrightarrow> ov_base ov' = ov_base ov"
  by (auto simp: ov_delete_def split: if_splits)

end
