(* ===== verification/Memory_Store.thy ===== *)
theory Memory_Store
  imports Memory_Overlay
begin

text \<open>
  \<open>_MemoryTransaction\<close> of \<open>ai/persistence/_memory_transaction.py\<close> and the commit of
  \<open>InMemoryStateStorageGroup.mutate\<close> in \<open>ai/persistence/_memory.py\<close>.

  The transaction is the record of its overlays.  A method takes it and returns a result
  with the new transaction, or an exception; an exception that leaves the callback drops
  the overlays, so the state before it needs no value.  The nested operation stream index
  (stream, then sequence) is one table with pairs as keys.
\<close>

section \<open>State\<close>

record ('d, 'f, 'o) txn =
  t_records :: "(bytes, 'd stored_record) overlay"
  t_aliases :: "(bytes, bytes) overlay"
  t_sequences :: "(bytes, int) overlay"
  t_facts :: "(bytes \<times> int, 'f stored_fact) overlay"
  t_operations :: "(bytes, 'o stored_operation) overlay"
  t_op_streams :: "((bytes \<times> int) \<times> bytes) list"
  t_op_changes :: "((bytes \<times> int) \<times> bytes option) list"
  t_guarded :: "bytes list"
  t_now :: int
  t_error :: "exc option"

record ('d, 'f, 'o) mem_store =
  m_records :: "(bytes \<times> 'd stored_record) list"
  m_aliases :: "(bytes \<times> bytes) list"
  m_sequences :: "(bytes \<times> int) list"
  m_facts :: "((bytes \<times> int) \<times> 'f stored_fact) list"
  m_operations :: "(bytes \<times> 'o stored_operation) list"
  m_op_streams :: "((bytes \<times> int) \<times> bytes) list"

type_synonym ('d, 'f, 'o, 'a) action = "('d, 'f, 'o) txn \<Rightarrow> ('a \<times> ('d, 'f, 'o) txn) res"

definition put_record :: "bytes \<Rightarrow> 'd stored_record \<Rightarrow> ('d, 'f, 'o) txn \<Rightarrow> ('d, 'f, 'o) txn" where
  "put_record k r t =
     t\<lparr>t_records := ov_set k r (t_records t), t_guarded := List.insert k (t_guarded t)\<rparr>"

section \<open>Records\<close>

definition get_record :: "('d, 'f, 'o) txn \<Rightarrow> bytes \<Rightarrow> 'd stored_record option" where
  "get_record t k = ov_get (t_records t) k"

definition get_records :: "('d, 'f, 'o) txn \<Rightarrow> bytes list \<Rightarrow> (bytes \<times> 'd stored_record) list" where
  "get_records t ks = List.map_filter (\<lambda>k. map_option (Pair k) (get_record t k)) (unique ks)"

definition insert_records :: "'d stored_record list \<Rightarrow> ('d, 'f, 'o, unit) action" where
  "insert_records records t =
     ensure (distinct (map rec_key records)) ValueError
       (let ordered = sort_key rec_key records in
        ebind (emap (\<lambda>r. ebind (validate_record_identity r)
                 (\<lambda>_. ensure (get_record t (rec_key r) = None) (ai STORAGE_CONFLICT) (Inr ())))
               ordered)
          (\<lambda>_. Inr ((), fold (\<lambda>r. put_record (rec_key r) r) ordered t)))"

definition insert_record :: "'d stored_record \<Rightarrow> ('d, 'f, 'o, unit) action" where
  "insert_record r = insert_records [r]"

definition guard_record_revision :: "bytes \<Rightarrow> int \<Rightarrow> ('d, 'f, 'o, int option) action" where
  "guard_record_revision k expected t =
     ensure (0 \<le> expected) ValueError
       (case get_record t k of
          None \<Rightarrow> Inr (None, t)
        | Some current \<Rightarrow>
            if k \<in> set (t_guarded t) then Inr (Some (rec_revision current), t)
            else if rec_revision current \<noteq> expected then Inr (None, t)
            else Inr (Some (expected + 1),
                      put_record k (current\<lparr>rec_revision := expected + 1\<rparr>) t))"

definition guard_record :: "bytes \<Rightarrow> int \<Rightarrow> ('d, 'f, 'o, 'd stored_record option) action" where
  "guard_record k expected t =
     ebind (guard_record_revision k expected t)
       (\<lambda>(revision, t'). Inr (if revision = None then None else get_record t' k, t'))"

text \<open>
  \<open>replace_records\<close> as its result and the transaction that an exception leaves behind:
  a conflict among several replacements marks the transaction, and the commit then raises
  even where the callback swallows the exception.
\<close>

definition check_replacement :: "('d, 'f, 'o) txn \<Rightarrow> 'd record_replacement \<Rightarrow> 'd stored_record res" where
  "check_replacement t p =
     (case get_record t (rec_key (repl_record p)) of
        None \<Rightarrow> Inl (ai STORAGE_CONFLICT)
      | Some current \<Rightarrow>
          ensure (rec_revision current = repl_expected p) (ai STORAGE_CONFLICT)
            (ebind (validate_record_replacement current (repl_record p))
              (\<lambda>_. Inr (repl_record p))))"

definition check_increment :: "'d record_replacement \<Rightarrow> unit res" where
  "check_increment p =
     ebind (validate_record_identity (repl_record p))
       (\<lambda>_. ensure (rec_revision (repl_record p) = repl_expected p + 1) ValueError (Inr ()))"

definition replace_records ::
  "'d record_replacement list \<Rightarrow> ('d, 'f, 'o) txn \<Rightarrow> unit res \<times> ('d, 'f, 'o) txn" where
  "replace_records values t =
     (if \<not> distinct (map (rec_key \<circ> repl_record) values) then (Inl ValueError, t)
      else
        let ordered = sort_key (rec_key \<circ> repl_record) values in
        case emap check_increment ordered of
          Inl e \<Rightarrow> (Inl e, t)
        | Inr _ \<Rightarrow>
            (case emap (check_replacement t) ordered of
               Inl e \<Rightarrow>
                 (Inl e, if length values > 1 \<and> t_error t = None then t\<lparr>t_error := Some e\<rparr> else t)
             | Inr candidates \<Rightarrow> (Inr (), fold (\<lambda>r. put_record (rec_key r) r) candidates t)))"

definition replace_record :: "'d stored_record \<Rightarrow> int \<Rightarrow> ('d, 'f, 'o, bool) action" where
  "replace_record r expected t =
     (case replace_records [\<lparr>repl_record = r, repl_expected = expected\<rparr>] t of
        (Inl e, t') \<Rightarrow> if exc_code e = Some STORAGE_CONFLICT then Inr (False, t') else Inl e
      | (Inr _, t') \<Rightarrow> Inr (True, t'))"

definition update_record_lease ::
  "bytes \<Rightarrow> int \<Rightarrow> string option \<Rightarrow> int \<Rightarrow> int option \<Rightarrow> ('d, 'f, 'o, bool) action" where
  "update_record_lease k expected owner fence expires t =
     ensure (0 \<le> expected \<and> 0 \<le> fence) ValueError
       (case get_record t k of
          None \<Rightarrow> Inr (False, t)
        | Some current \<Rightarrow>
            if rec_revision current \<noteq> expected then Inr (False, t)
            else Inr (True, put_record k
                   (current\<lparr>rec_revision := expected + 1, rec_owner := owner,
                            rec_fence := fence, rec_expires := expires\<rparr>) t))"

text \<open>\<open>clock\<close> is \<open>datetime.now\<close> at the call, which is later than the transaction's \<open>t_now\<close>.\<close>

definition transition_record_lease ::
  "int \<Rightarrow> bytes \<Rightarrow> int \<Rightarrow> lease_transition \<Rightarrow> ('d, 'f, 'o, 'd stored_record option) action" where
  "transition_record_lease clock k expected tr t =
     ensure (0 \<le> expected) ValueError
       (case get_record t k of
          None \<Rightarrow> Inr (None, t)
        | Some current \<Rightarrow>
            if rec_revision current \<noteq> expected then Inr (None, t)
            else
              (case lease_apply tr current clock of
                 None \<Rightarrow> Inr (None, t)
               | Some candidate \<Rightarrow>
                   if lt_operation tr \<in> {Guard, Guard_available}
                   then Inr (Some candidate, put_record k candidate t)
                   else
                     ebind (update_record_lease k expected (rec_owner candidate)
                              (rec_fence candidate) (rec_expires candidate) t)
                       (\<lambda>(updated, t'). Inr (if updated then Some candidate else None, t'))))"

section \<open>Deletion\<close>

definition delete_all :: "'k list \<Rightarrow> ('k, 'v) overlay \<Rightarrow> ('k, 'v) overlay res" where
  "delete_all = efold ov_delete"

definition delete_record_owners :: "bytes list \<Rightarrow> ('d, 'f, 'o) txn \<Rightarrow> ('d, 'f, 'o) txn res" where
  "delete_record_owners ks t =
     (if ks = [] then Inr t
      else
        ebind (delete_all (map fst (filter (\<lambda>(_, k). k \<in> set ks) (ov_items (t_aliases t))))
                 (t_aliases t))
          (\<lambda>aliases.
        ebind (delete_all (map fst (filter (\<lambda>(_, f). fact_owner f \<in> set ks) (ov_items (t_facts t))))
                 (t_facts t))
          (\<lambda>facts.
        ebind (delete_all ks (t_records t))
          (\<lambda>records.
            Inr (t\<lparr>t_aliases := aliases, t_facts := facts, t_records := records,
                   t_guarded := filter (\<lambda>k. k \<notin> set ks) (t_guarded t)\<rparr>)))))"

definition delete_record :: "bytes \<Rightarrow> int option \<Rightarrow> ('d, 'f, 'o, bool) action" where
  "delete_record k expected_revision t =
     ensure (case expected_revision of None \<Rightarrow> True | Some n \<Rightarrow> 0 \<le> n) ValueError
       (case get_record t k of
          None \<Rightarrow> Inr (False, t)
        | Some current \<Rightarrow>
            let expected =
              (case expected_revision of None \<Rightarrow> rec_revision current | Some n \<Rightarrow> n) in
            ebind (guard_record k expected t) (\<lambda>(guarded, t').
              if guarded = None then Inr (False, t')
              else ebind (delete_record_owners [k] t') (\<lambda>t''. Inr (True, t''))))"

definition delete_records :: "bytes list \<Rightarrow> ('d, 'f, 'o, unit) action" where
  "delete_records ks t =
     (let records = get_records t ks in
      ebind (efold (\<lambda>(k, r) t'.
          ebind (guard_record k (rec_revision r) t') (\<lambda>(guarded, t'').
            if guarded = None then Inl (ai STORAGE_CONFLICT) else Inr t'')) records t)
        (\<lambda>t'. ebind (delete_record_owners (map fst records) t') (\<lambda>t''. Inr ((), t''))))"

section \<open>Listings\<close>

definition matches_record :: "record_query \<Rightarrow> 'd stored_record \<Rightarrow> bool" where
  "matches_record q r =
     (\<not> (rq_scope q \<noteq> None \<and> rec_scope r \<noteq> rq_scope q) \<and>
      \<not> (rq_parent q \<noteq> None \<and> rec_parent r \<noteq> rq_parent q) \<and>
      (case rq_kind q of None \<Rightarrow> True | Some k \<Rightarrow> rec_kind r = k) \<and>
      (case rq_prefix q of None \<Rightarrow> True | Some p \<Rightarrow> prefix p (rec_sort r)) \<and>
      (case rq_states q of None \<Rightarrow> True
       | Some states \<Rightarrow> (case rec_state r of None \<Rightarrow> False | Some s \<Rightarrow> s \<in> set states)))"

definition limited :: "nat option \<Rightarrow> 'a list \<Rightarrow> 'a list" where
  "limited limit xs = (case limit of None \<Rightarrow> xs | Some n \<Rightarrow> take n xs)"

definition after_key :: "('a \<Rightarrow> 'k::linorder) \<Rightarrow> 'k option \<Rightarrow> 'a list \<Rightarrow> 'a list" where
  "after_key f after xs = (case after of None \<Rightarrow> xs | Some a \<Rightarrow> filter (\<lambda>x. a < f x) xs)"

definition record_order :: "'d stored_record \<Rightarrow> string \<times> bytes" where
  "record_order r = (rec_sort r, rec_key r)"

definition list_records :: "record_query \<Rightarrow> ('d, 'f, 'o) txn \<Rightarrow> 'd stored_record list" where
  "list_records q t =
     limited (rq_limit q)
       (after_key record_order (rq_after q)
         (sort_key record_order (filter (matches_record q) (ov_values (t_records t)))))"

text \<open>The scan pages; a limit below one raises.\<close>

definition scan_page ::
  "('a \<Rightarrow> 'k::linorder) \<Rightarrow> 'a list \<Rightarrow> 'k option \<Rightarrow> int \<Rightarrow> 'a list res" where
  "scan_page f values after limit =
     ensure (1 \<le> limit) ValueError
       (Inr (take (nat limit) (after_key f after (sort_key f values))))"

definition scan_records_page ::
  "('d, 'f, 'o) txn \<Rightarrow> (string \<times> bytes) option \<Rightarrow> int \<Rightarrow> 'd stored_record list res" where
  "scan_records_page t = scan_page (\<lambda>r. (rec_kind r, rec_key r)) (ov_values (t_records t))"

definition scan_aliases_page ::
  "('d, 'f, 'o) txn \<Rightarrow> bytes option \<Rightarrow> int \<Rightarrow> (bytes \<times> bytes) list res" where
  "scan_aliases_page t = scan_page fst (ov_items (t_aliases t))"

definition scan_sequences_page ::
  "('d, 'f, 'o) txn \<Rightarrow> bytes option \<Rightarrow> int \<Rightarrow> (bytes \<times> int) list res" where
  "scan_sequences_page t = scan_page fst (ov_items (t_sequences t))"

definition scan_facts_page ::
  "('d, 'f, 'o) txn \<Rightarrow> (bytes \<times> int) option \<Rightarrow> int \<Rightarrow> 'f stored_fact list res" where
  "scan_facts_page t = scan_page (\<lambda>f. (fact_stream f, fact_sequence f)) (ov_values (t_facts t))"

definition scan_operations_page ::
  "('d, 'f, 'o) txn \<Rightarrow> bytes option \<Rightarrow> int \<Rightarrow> 'o stored_operation list res" where
  "scan_operations_page t = scan_page op_key (ov_values (t_operations t))"

section \<open>Aliases and sequences\<close>

definition resolve_aliases :: "bytes list \<Rightarrow> ('d, 'f, 'o) txn \<Rightarrow> (bytes \<times> bytes) list res" where
  "resolve_aliases as t =
     (let values = List.map_filter (\<lambda>a. map_option (Pair a) (ov_get (t_aliases t) a)) (unique as) in
      ensure (list_all (\<lambda>(_, k). get_record t k \<noteq> None) values) (ai STORAGE_INTEGRITY_ERROR)
        (Inr values))"

definition resolve_alias :: "bytes \<Rightarrow> ('d, 'f, 'o) txn \<Rightarrow> bytes option res" where
  "resolve_alias a t = ebind (resolve_aliases [a] t) (\<lambda>values. Inr (map_of values a))"

definition insert_alias_step :: "bytes \<times> bytes \<Rightarrow> ('d, 'f, 'o) txn \<Rightarrow> ('d, 'f, 'o) txn res" where
  "insert_alias_step = (\<lambda>(a, k) t.
     ensure (case ov_get (t_aliases t) a of None \<Rightarrow> True | Some k' \<Rightarrow> k' = k) (ai STORAGE_CONFLICT)
       (ensure (k \<in> set (t_guarded t)) RuntimeError
         (Inr (t\<lparr>t_aliases := ov_set a k (t_aliases t)\<rparr>))))"

definition insert_aliases :: "(bytes \<times> bytes) list \<Rightarrow> ('d, 'f, 'o, unit) action" where
  "insert_aliases as t = ebind (efold insert_alias_step (sort_key fst as) t) (\<lambda>t'. Inr ((), t'))"

definition get_sequence :: "('d, 'f, 'o) txn \<Rightarrow> bytes \<Rightarrow> int" where
  "get_sequence t k = (case ov_get (t_sequences t) k of None \<Rightarrow> 0 | Some n \<Rightarrow> n)"

definition put_sequence :: "bytes \<Rightarrow> int \<Rightarrow> ('d, 'f, 'o) txn \<Rightarrow> ('d, 'f, 'o) txn" where
  "put_sequence k n t = t\<lparr>t_sequences := ov_set k n (t_sequences t)\<rparr>"

definition next_sequence :: "bytes \<Rightarrow> ('d, 'f, 'o) txn \<Rightarrow> int \<times> ('d, 'f, 'o) txn" where
  "next_sequence k t = (get_sequence t k + 1, put_sequence k (get_sequence t k + 1) t)"

text \<open>The requests are a \<open>dict\<close>: distinct keys.\<close>

definition reserve_sequences :: "(bytes \<times> int) list \<Rightarrow> ('d, 'f, 'o, (bytes \<times> int) list) action" where
  "reserve_sequences requests t =
     ensure (list_all (\<lambda>(_, n). 1 \<le> n) requests) ValueError
       (let values = map (\<lambda>(k, n). (k, get_sequence t k + n)) (sort_key fst requests) in
        Inr (values, fold (\<lambda>(k, n). put_sequence k n) values t))"

definition reserve_sequence :: "bytes \<Rightarrow> int \<Rightarrow> ('d, 'f, 'o, int) action" where
  "reserve_sequence k n t =
     ebind (reserve_sequences [(k, n)] t)
       (\<lambda>(values, t'). ebind (of_option KeyError (map_of values k)) (\<lambda>v. Inr (v, t')))"

definition advance_sequence :: "bytes \<Rightarrow> int \<Rightarrow> ('d, 'f, 'o, int) action" where
  "advance_sequence k expected t =
     ensure (0 \<le> expected) ValueError
       (ensure (get_sequence t k = expected) (ai STORAGE_CONFLICT) (Inr (next_sequence k t)))"

definition delete_sequences :: "bytes list \<Rightarrow> ('d, 'f, 'o) txn \<Rightarrow> ('d, 'f, 'o) txn" where
  "delete_sequences ks t =
     t\<lparr>t_sequences := fold (\<lambda>k ov. case ov_delete k ov of Inl _ \<Rightarrow> ov | Inr ov' \<Rightarrow> ov')
         (sort (remdups ks)) (t_sequences t)\<rparr>"

section \<open>Facts\<close>

definition insert_fact :: "'f stored_fact \<Rightarrow> ('d, 'f, 'o, unit) action" where
  "insert_fact f t =
     ensure (ov_get (t_facts t) (fact_stream f, fact_sequence f) = None) (ai STORAGE_CONFLICT)
       (ensure (fact_owner f \<in> set (t_guarded t)) RuntimeError
         (Inr ((), t\<lparr>t_facts := ov_set (fact_stream f, fact_sequence f) f (t_facts t)\<rparr>)))"

definition insert_facts :: "'f stored_fact list \<Rightarrow> ('d, 'f, 'o, unit) action" where
  "insert_facts fs t =
     ebind (efold (\<lambda>f t'. ebind (insert_fact f t') (\<lambda>(_, t''). Inr t'')) fs t) (\<lambda>t'. Inr ((), t'))"

text \<open>The run of present facts from \<open>start\<close>, at most \<open>n\<close> of them.\<close>

fun consecutive :: "(int \<Rightarrow> 'f option) \<Rightarrow> int \<Rightarrow> nat \<Rightarrow> 'f list" where
  "consecutive look start 0 = []"
| "consecutive look start (Suc n) =
     (case look start of None \<Rightarrow> [] | Some f \<Rightarrow> f # consecutive look (start + 1) n)"

definition latest_per_subject :: "'f stored_fact list \<Rightarrow> 'f stored_fact list" where
  "latest_per_subject values =
     sort_key fact_sequence (map snd (fold (\<lambda>f. AList.update (fact_subject f) f) values []))"

definition scan_fact_query :: "fact_query \<Rightarrow> ('d, 'f, 'o) txn \<Rightarrow> 'f stored_fact list" where
  "scan_fact_query q t =
     (let values = filter (\<lambda>f. fact_stream f = fq_stream q) (ov_values (t_facts t));
          values = (case fq_after q of None \<Rightarrow> values
                    | Some n \<Rightarrow> filter (\<lambda>f. n < fact_sequence f) values);
          values = (if fq_subject q = None then values
                    else filter (\<lambda>f. fact_subject f = fq_subject q) values);
          values = sort_key fact_sequence values in
      if fq_latest q then (if values = [] then [] else [last values])
      else limited (fq_limit q)
             (if fq_latest_per_subject q then latest_per_subject values else values))"

definition list_facts :: "fact_query \<Rightarrow> ('d, 'f, 'o) txn \<Rightarrow> 'f stored_fact list" where
  "list_facts q t =
     (case fq_limit q of
        None \<Rightarrow> scan_fact_query q t
      | Some n \<Rightarrow>
          if fq_subject q = None \<and> \<not> fq_latest q \<and> \<not> fq_latest_per_subject q
          then
            let run = consecutive (\<lambda>i. ov_get (t_facts t) (fq_stream q, i))
                        (case fq_after q of None \<Rightarrow> 1 | Some s \<Rightarrow> s + 1) n
            in if length run = n then run else scan_fact_query q t
          else scan_fact_query q t)"

definition delete_fact_streams :: "bytes \<Rightarrow> ('d, 'f, 'o) txn \<Rightarrow> ('d, 'f, 'o) txn res" where
  "delete_fact_streams owner t =
     ebind (delete_all (map fst (filter (\<lambda>(_, f). fact_owner f = owner) (ov_items (t_facts t))))
              (t_facts t))
       (\<lambda>facts. Inr (t\<lparr>t_facts := facts\<rparr>))"

section \<open>Operations\<close>

definition operation_at :: "bytes \<Rightarrow> int \<Rightarrow> ('d, 'f, 'o) txn \<Rightarrow> bytes option" where
  "operation_at stream sequence t =
     (case map_of (t_op_changes t) (stream, sequence) of
        Some entry \<Rightarrow> entry
      | None \<Rightarrow> map_of (t_op_streams t) (stream, sequence))"

definition set_operation_at ::
  "bytes \<Rightarrow> int \<Rightarrow> bytes option \<Rightarrow> ('d, 'f, 'o) txn \<Rightarrow> ('d, 'f, 'o) txn" where
  "set_operation_at stream sequence k t =
     t\<lparr>t_op_changes := AList.update (stream, sequence) k (t_op_changes t)\<rparr>"

definition get_operation :: "('d, 'f, 'o) txn \<Rightarrow> bytes \<Rightarrow> 'o stored_operation option" where
  "get_operation t k = ov_get (t_operations t) k"

definition insert_operation :: "'o stored_operation \<Rightarrow> ('d, 'f, 'o, unit) action" where
  "insert_operation v t =
     ensure (get_operation t (op_key v) = None) (ai STORAGE_CONFLICT)
       (ensure (operation_at (op_stream v) (op_sequence v) t = None) (ai STORAGE_CONFLICT)
         (Inr ((), set_operation_at (op_stream v) (op_sequence v) (Some (op_key v))
                     (t\<lparr>t_operations := ov_set (op_key v) v (t_operations t)\<rparr>))))"

definition replace_operation :: "'o stored_operation \<Rightarrow> string \<Rightarrow> ('d, 'f, 'o, bool) action" where
  "replace_operation v expected t =
     (case get_operation t (op_key v) of
        None \<Rightarrow> Inr (False, t)
      | Some current \<Rightarrow>
          if op_state current \<noteq> expected then Inr (False, t)
          else ebind (validate_operation_replacement current v)
                 (\<lambda>_. Inr (True, t\<lparr>t_operations := ov_set (op_key v) v (t_operations t)\<rparr>)))"

definition matches_operation :: "operation_query \<Rightarrow> 'o stored_operation \<Rightarrow> bool" where
  "matches_operation q v =
     ((case oq_stream q of None \<Rightarrow> True | Some s \<Rightarrow> op_stream v = s) \<and>
      (case oq_states q of None \<Rightarrow> True | Some ss \<Rightarrow> op_state v \<in> set ss) \<and>
      (case oq_after q of None \<Rightarrow> True | Some n \<Rightarrow> n < op_sequence v) \<and>
      (case oq_through q of None \<Rightarrow> True | Some n \<Rightarrow> op_sequence v \<le> n) \<and>
      (case oq_compactable q of None \<Rightarrow> True | Some b \<Rightarrow> op_compactable v = b))"

definition list_operations :: "operation_query \<Rightarrow> ('d, 'f, 'o) txn \<Rightarrow> 'o stored_operation list" where
  "list_operations q t =
     limited (oq_limit q)
       (sort_key (\<lambda>v. (op_sequence v, op_key v))
         (filter (matches_operation q) (ov_values (t_operations t))))"

definition delete_operations :: "operation_query \<Rightarrow> ('d, 'f, 'o, 'o stored_operation list) action" where
  "delete_operations q t =
     (let values = list_operations q t in
      ebind (efold (\<lambda>v t'. ebind (ov_delete (op_key v) (t_operations t'))
                (\<lambda>operations. Inr (set_operation_at (op_stream v) (op_sequence v) None
                                     (t'\<lparr>t_operations := operations\<rparr>))))
              values t)
        (\<lambda>t'. Inr (values, t')))"

section \<open>Integrity\<close>

definition fact_streams_gapless :: "'f stored_fact list \<Rightarrow> bool" where
  "fact_streams_gapless fs =
     list_all (\<lambda>stream.
         let sequences = map fact_sequence (filter (\<lambda>f. fact_stream f = stream) fs)
         in sort sequences = [1..Max (set sequences)])
       (unique (map fact_stream fs))"

definition validate_integrity :: "('d, 'f, 'o) txn \<Rightarrow> unit res" where
  "validate_integrity t =
     (let records = map rec_key (ov_values (t_records t));
          facts = ov_values (t_facts t) in
      ensure (list_all (\<lambda>(_, k). k \<in> set records) (ov_items (t_aliases t))) (ai STORAGE_INTEGRITY_ERROR)
        (ensure (list_all (\<lambda>f. fact_owner f \<in> set records) facts) (ai STORAGE_INTEGRITY_ERROR)
          (ensure (fact_streams_gapless facts) (ai STORAGE_INTEGRITY_ERROR) (Inr ()))))"

section \<open>Commit\<close>

definition begin_txn :: "int \<Rightarrow> ('d, 'f, 'o) mem_store \<Rightarrow> ('d, 'f, 'o) txn" where
  "begin_txn now m =
     \<lparr>t_records = ov_new (m_records m), t_aliases = ov_new (m_aliases m),
      t_sequences = ov_new (m_sequences m), t_facts = ov_new (m_facts m),
      t_operations = ov_new (m_operations m), t_op_streams = m_op_streams m,
      t_op_changes = [], t_guarded = [], t_now = now, t_error = None\<rparr>"

definition apply_stream_changes ::
  "((bytes \<times> int) \<times> bytes option) list \<Rightarrow> ((bytes \<times> int) \<times> bytes) list \<Rightarrow> ((bytes \<times> int) \<times> bytes) list" where
  "apply_stream_changes changes al =
     fold (\<lambda>(k, entry). case entry of None \<Rightarrow> AList.delete k | Some v \<Rightarrow> AList.update k v) changes al"

definition apply_transaction :: "('d, 'f, 'o) txn \<Rightarrow> ('d, 'f, 'o) mem_store \<Rightarrow> ('d, 'f, 'o) mem_store" where
  "apply_transaction t m =
     \<lparr>m_records = ov_apply_to (t_records t) (m_records m),
      m_aliases = ov_apply_to (t_aliases t) (m_aliases m),
      m_sequences = ov_apply_to (t_sequences t) (m_sequences m),
      m_facts = ov_apply_to (t_facts t) (m_facts m),
      m_operations = ov_apply_to (t_operations t) (m_operations m),
      m_op_streams = apply_stream_changes (t_op_changes t) (m_op_streams m)\<rparr>"

definition mem_mutate ::
  "int \<Rightarrow> ('d, 'f, 'o, 'a) action \<Rightarrow> ('d, 'f, 'o) mem_store \<Rightarrow> 'a res \<times> ('d, 'f, 'o) mem_store" where
  "mem_mutate now fn m =
     (case fn (begin_txn now m) of
        Inl e \<Rightarrow> (Inl e, m)
      | Inr (result, t) \<Rightarrow>
          (case t_error t of
             Some e \<Rightarrow> (Inl e, m)
           | None \<Rightarrow> (Inr result, apply_transaction t m)))"

end
