(* ===== verification/Store_Invariants.thy ===== *)
theory Store_Invariants
  imports Memory_Store
begin

text \<open>
  What every operation of the memory transaction keeps (\<open>txn_ok\<close>): each value is stored
  under its own key, and an alias, a fact and a guard refer to a present record.  Each
  operation gets its effect as an equation on \<open>get_record\<close> and its preservation lemma;
  \<open>store_effects\<close> collects the equations.
\<close>

named_theorems store_effects \<open>what a read returns after a store operation\<close>

section \<open>Tables with keys\<close>

definition keyed :: "('v \<Rightarrow> 'k) \<Rightarrow> ('k, 'v) overlay \<Rightarrow> bool" where
  "keyed f ov = (ov_inv ov \<and> (\<forall>k v. ov_get ov k = Some v \<longrightarrow> f v = k))"

lemma keyed_inv: "keyed f ov \<Longrightarrow> ov_inv ov"
  by (simp add: keyed_def)

lemma keyed_get: "keyed f ov \<Longrightarrow> ov_get ov k = Some v \<Longrightarrow> f v = k"
  by (simp add: keyed_def)

lemma keyed_set: "keyed f ov \<Longrightarrow> f v = k \<Longrightarrow> keyed f (ov_set k v ov)"
  by (auto simp: keyed_def ov_inv_set)

lemma keyed_delete: "keyed f ov \<Longrightarrow> ov_delete k ov = Inr ov' \<Longrightarrow> keyed f ov'"
  by (auto simp: keyed_def ov_inv_delete ov_get_delete split: if_splits)

lemma keyed_values: "keyed f ov \<Longrightarrow> v \<in> set (ov_values ov) \<longleftrightarrow> ov_get ov (f v) = Some v"
  by (auto simp: keyed_def set_ov_values)

lemma keyed_distinct: "keyed f ov \<Longrightarrow> distinct (map f (ov_values ov))"
  by (auto simp: keyed_def intro: distinct_ov_values)

lemma ov_delete_ok: "ov_get ov k \<noteq> None \<Longrightarrow> \<exists>ov'. ov_delete k ov = Inr ov'"
  by (auto simp: ov_delete_def)

lemma delete_all_ok:
  "distinct ks \<Longrightarrow> set ks \<subseteq> dom (ov_get ov) \<Longrightarrow> \<exists>ov'. delete_all ks ov = Inr ov'"
proof (induction ks arbitrary: ov)
  case (Cons k ks)
  then obtain ov1 where d: "ov_delete k ov = Inr ov1"
    using ov_delete_ok [of ov k] by auto
  with Cons.prems have "set ks \<subseteq> dom (ov_get ov1)"
    by (auto simp: ov_get_delete)
  with Cons d show ?case by (auto simp: delete_all_def)
qed (simp add: delete_all_def)

lemma delete_all_get:
  "delete_all ks ov = Inr ov' \<Longrightarrow> ov_get ov' = (\<lambda>k. if k \<in> set ks then None else ov_get ov k)"
  by (induction ks arbitrary: ov)
    (auto simp: delete_all_def eres ov_get_delete fun_eq_iff)

lemma delete_all_inv: "delete_all ks ov = Inr ov' \<Longrightarrow> ov_inv ov \<Longrightarrow> ov_inv ov'"
  by (induction ks arbitrary: ov) (auto simp: delete_all_def eres dest: ov_inv_delete)

lemma delete_all_keyed: "delete_all ks ov = Inr ov' \<Longrightarrow> keyed f ov \<Longrightarrow> keyed f ov'"
  by (auto simp: keyed_def delete_all_inv delete_all_get)

lemma delete_filtered_ok:
  assumes "ov_inv ov"
  shows "\<exists>ov'. delete_all (map fst (filter P (ov_items ov))) ov = Inr ov' \<and> ov_inv ov' \<and>
    ov_get ov' = (\<lambda>k. case ov_get ov k of None \<Rightarrow> None | Some v \<Rightarrow> if P (k, v) then None else Some v)"
proof -
  let ?ks = "map fst (filter P (ov_items ov))"
  have "distinct (map fst (ov_items ov))"
    by (simp add: map_fst_ov_items assms)
  then have "distinct ?ks"
    by (simp add: distinct_map_filter)
  moreover have "set ?ks \<subseteq> dom (ov_get ov)"
    by (auto simp: set_ov_items assms)
  ultimately obtain ov' where ov': "delete_all ?ks ov = Inr ov'"
    using delete_all_ok by blast
  have "ov_get ov' = (\<lambda>k. case ov_get ov k of None \<Rightarrow> None | Some v \<Rightarrow> if P (k, v) then None else Some v)"
    by (auto simp: delete_all_get [OF ov'] set_ov_items assms image_iff fun_eq_iff split: option.splits)
  with ov' show ?thesis using delete_all_inv assms by blast
qed

section \<open>The invariant\<close>

definition fact_key :: "'f stored_fact \<Rightarrow> bytes \<times> int" where
  "fact_key f = (fact_stream f, fact_sequence f)"

definition txn_ok :: "('d, 'f, 'o) txn \<Rightarrow> bool" where
  "txn_ok t =
     (keyed rec_key (t_records t) \<and> ov_inv (t_aliases t) \<and> ov_inv (t_sequences t) \<and>
      keyed fact_key (t_facts t) \<and> keyed op_key (t_operations t) \<and>
      (\<forall>k\<in>set (t_guarded t). get_record t k \<noteq> None) \<and>
      (\<forall>a k. ov_get (t_aliases t) a = Some k \<longrightarrow> get_record t k \<noteq> None) \<and>
      (\<forall>i f. ov_get (t_facts t) i = Some f \<longrightarrow> get_record t (fact_owner f) \<noteq> None))"

definition mem_ok :: "('d, 'f, 'o) mem_store \<Rightarrow> bool" where
  "mem_ok m = (
     distinct (map fst (m_records m)) \<and> distinct (map fst (m_aliases m)) \<and>
     distinct (map fst (m_sequences m)) \<and> distinct (map fst (m_facts m)) \<and>
     distinct (map fst (m_operations m)) \<and> txn_ok (begin_txn 0 m))"

lemma txn_okD:
  assumes "txn_ok t"
  shows "keyed rec_key (t_records t)" and "ov_inv (t_aliases t)" and "ov_inv (t_sequences t)"
    and "keyed fact_key (t_facts t)" and "keyed op_key (t_operations t)"
  using assms by (simp_all add: txn_ok_def)

lemma txn_ok_record_key: "txn_ok t \<Longrightarrow> get_record t k = Some r \<Longrightarrow> rec_key r = k"
  by (auto simp: txn_ok_def get_record_def dest: keyed_get)

section \<open>Writes of records\<close>

lemma get_record_put [store_effects]: "get_record (put_record k r t) = (get_record t)(k \<mapsto> r)"
  by (simp add: get_record_def put_record_def fun_eq_iff)

lemma put_record_frame [simp]:
  "t_facts (put_record k r t) = t_facts t" "t_aliases (put_record k r t) = t_aliases t"
  "t_sequences (put_record k r t) = t_sequences t" "t_operations (put_record k r t) = t_operations t"
  "t_now (put_record k r t) = t_now t" "t_error (put_record k r t) = t_error t"
  "set (t_guarded (put_record k r t)) = insert k (set (t_guarded t))"
  "t_op_streams (put_record k r t) = t_op_streams t" "t_op_changes (put_record k r t) = t_op_changes t"
  by (simp_all add: put_record_def)

lemma txn_ok_put: "txn_ok t \<Longrightarrow> rec_key r = k \<Longrightarrow> txn_ok (put_record k r t)"
  by (auto simp: txn_ok_def store_effects) (simp add: put_record_def keyed_set)

lemma txn_ok_put_all:
  "txn_ok t \<Longrightarrow> txn_ok (fold (\<lambda>r. put_record (rec_key r) r) rs t)"
  by (induction rs arbitrary: t) (simp_all add: txn_ok_put)

lemma get_record_put_all [store_effects]:
  "distinct (map rec_key rs) \<Longrightarrow>
    get_record (fold (\<lambda>r. put_record (rec_key r) r) rs t) =
    get_record t ++ map_of (map (\<lambda>r. (rec_key r, r)) rs)"
proof (induction rs arbitrary: t)
  case (Cons r rs)
  have "rec_key r \<notin> dom (map_of (map (\<lambda>r. (rec_key r, r)) rs))"
    using Cons.prems by (auto simp: dom_map_of_conv_image_fst)
  with Cons show ?case
    by (simp add: store_effects map_add_upd_left del: fun_upd_apply)
qed simp

lemma put_all_frame [simp]:
  "t_facts (fold (\<lambda>r. put_record (rec_key r) r) rs t) = t_facts t"
  "t_aliases (fold (\<lambda>r. put_record (rec_key r) r) rs t) = t_aliases t"
  "t_sequences (fold (\<lambda>r. put_record (rec_key r) r) rs t) = t_sequences t"
  "t_operations (fold (\<lambda>r. put_record (rec_key r) r) rs t) = t_operations t"
  "t_now (fold (\<lambda>r. put_record (rec_key r) r) rs t) = t_now t"
  "t_error (fold (\<lambda>r. put_record (rec_key r) r) rs t) = t_error t"
  by (induction rs arbitrary: t) simp_all

lemma insert_records_eq:
  assumes "insert_records rs t = Inr (u, t')"
  shows "distinct (map rec_key rs)" and "r \<in> set rs \<Longrightarrow> get_record t (rec_key r) = None"
    and "t' = fold (\<lambda>r. put_record (rec_key r) r) (sort_key rec_key rs) t"
  using assms by (auto simp: insert_records_def Let_def eres dest: emap_ex)

lemma distinct_map_sort_key: "distinct (map f (sort_key g xs)) = distinct (map f xs)"
  by (simp add: distinct_map)

text \<open>An insertion adds the records, and nothing it was given existed before.\<close>

lemma insert_records_get:
  assumes "insert_records rs t = Inr (u, t')"
  shows "get_record t' = get_record t ++ map_of (map (\<lambda>r. (rec_key r, r)) rs)"
proof -
  have "distinct (map rec_key (sort_key rec_key rs))"
    using insert_records_eq(1) [OF assms] by (simp add: distinct_map_sort_key)
  moreover have "map_of (map (\<lambda>r. (rec_key r, r)) (sort_key rec_key rs)) =
      map_of (map (\<lambda>r. (rec_key r, r)) rs)"
    using insert_records_eq(1) [OF assms]
    by (intro map_of_inject_set [THEN iffD2]) (simp_all add: distinct_map_sort_key comp_def)
  ultimately show ?thesis
    by (simp add: insert_records_eq(3) [OF assms] store_effects)
qed

lemma txn_ok_insert_records: "insert_records rs t = Inr (u, t') \<Longrightarrow> txn_ok t \<Longrightarrow> txn_ok t'"
  by (auto dest!: insert_records_eq(3) simp: txn_ok_put_all)

lemma insert_record_eq:
  "insert_record r t = Inr (u, t') \<longleftrightarrow>
    get_record t (rec_key r) = None \<and> sort_key_ok (rec_sort r) \<and> t' = put_record (rec_key r) r t"
  by (auto simp: insert_record_def insert_records_def eres validate_record_identity_def
      encode_sort_key_def sort_key_ok_def)

text \<open>A guard bumps the revision of a record this transaction has not written yet.\<close>

lemma guard_record_eq:
  assumes "guard_record k expected t = Inr (Some r, t')"
  obtains (guarded) "k \<in> set (t_guarded t)" "get_record t k = Some r" "t' = t"
  | (fresh) c where "k \<notin> set (t_guarded t)" "get_record t k = Some c" "rec_revision c = expected"
      "r = c\<lparr>rec_revision := expected + 1\<rparr>" "t' = put_record k r t"
  using assms
  by (auto simp: guard_record_def guard_record_revision_def eres store_effects
      split: option.splits if_splits)

lemma guard_record_None:
  "guard_record k expected t = Inr (None, t') \<Longrightarrow>
    t' = t \<and> (\<forall>c. get_record t k = Some c \<longrightarrow> rec_revision c \<noteq> expected)"
  by (auto simp: guard_record_def guard_record_revision_def eres store_effects
      split: option.splits if_splits)

lemma txn_ok_guard:
  assumes "guard_record k expected t = Inr (g, t')" and "txn_ok t"
  shows "txn_ok t'"
proof (cases g)
  case None
  with assms show ?thesis by (auto dest: guard_record_None)
next
  case (Some r)
  with assms(1) have "guard_record k expected t = Inr (Some r, t')" by simp
  then show ?thesis
    by (cases rule: guard_record_eq) (use assms(2) in \<open>auto intro!: txn_ok_put dest: txn_ok_record_key\<close>)
qed

text \<open>The compare-and-set of one record, branch by branch.\<close>

lemma replace_record_cases:
  "replace_record r expected t =
     (if \<not> sort_key_ok (rec_sort r) \<or> rec_revision r \<noteq> expected + 1 then Inl ValueError
      else case get_record t (rec_key r) of
          None \<Rightarrow> Inr (False, t)
        | Some c \<Rightarrow>
            if rec_revision c \<noteq> expected then Inr (False, t)
            else if validate_record_replacement c r = Inr ()
            then Inr (True, put_record (rec_key r) r t)
            else Inl ValueError)"
  by (simp add: replace_record_def replace_records_def check_replacement_def check_increment_def
      validate_record_identity_def encode_sort_key_def sort_key_ok_def ensure_def Let_def
      validate_record_replacement_def split: option.split)

lemma replace_record_True:
  "replace_record r expected t = Inr (True, t') \<longleftrightarrow>
    sort_key_ok (rec_sort r) \<and> rec_revision r = expected + 1 \<and>
    (\<exists>c. get_record t (rec_key r) = Some c \<and> rec_revision c = expected \<and>
      validate_record_replacement c r = Inr ()) \<and>
    t' = put_record (rec_key r) r t"
  by (auto simp: replace_record_cases split: option.splits)

lemma replace_record_False:
  "replace_record r expected t = Inr (False, t') \<Longrightarrow>
    t' = t \<and> (\<forall>c. get_record t (rec_key r) = Some c \<longrightarrow> rec_revision c \<noteq> expected)"
  by (auto simp: replace_record_cases split: option.splits if_splits)

lemma txn_ok_replace_record:
  assumes "replace_record r expected t = Inr (b, t')" and "txn_ok t"
  shows "txn_ok t'"
  using assms by (cases b) (auto simp: replace_record_True txn_ok_put dest: replace_record_False)

lemma replace_records_effect:
  assumes "replace_records ps t = (Inr u, t')"
  shows "distinct (map (rec_key \<circ> repl_record) ps)"
    and "p \<in> set ps \<Longrightarrow> \<exists>c. get_record t (rec_key (repl_record p)) = Some c \<and>
           rec_revision c = repl_expected p \<and> rec_revision (repl_record p) = repl_expected p + 1 \<and>
           validate_record_replacement c (repl_record p) = Inr ()"
    and "t' = fold (\<lambda>r. put_record (rec_key r) r) (map repl_record (sort_key (rec_key \<circ> repl_record) ps)) t"
proof -
  let ?o = "sort_key (rec_key \<circ> repl_record) ps"
  from assms obtain us cs where
    d: "distinct (map (rec_key \<circ> repl_record) ps)" and us: "emap check_increment ?o = Inr us"
    and cs: "emap (check_replacement t) ?o = Inr cs"
    and t': "t' = fold (\<lambda>r. put_record (rec_key r) r) cs t"
    by (auto simp: replace_records_def Let_def split: if_splits sum.splits)
  show "distinct (map (rec_key \<circ> repl_record) ps)" by (rule d)
  have "map id cs = map repl_record ?o"
    by (rule emap_map [OF cs]) (auto simp: check_replacement_def eres split: option.splits)
  with t' show "t' = fold (\<lambda>r. put_record (rec_key r) r) (map repl_record ?o) t" by simp
  show "\<exists>c. get_record t (rec_key (repl_record p)) = Some c \<and> rec_revision c = repl_expected p \<and>
      rec_revision (repl_record p) = repl_expected p + 1 \<and>
      validate_record_replacement c (repl_record p) = Inr ()" if "p \<in> set ps"
    using that emap_ex [OF us, of p] emap_ex [OF cs, of p]
    by (auto simp: check_replacement_def check_increment_def eres split: option.splits)
qed

lemma txn_ok_replace_records:
  "replace_records ps t = (Inr u, t') \<Longrightarrow> txn_ok t \<Longrightarrow> txn_ok t'"
  by (auto dest!: replace_records_effect(3) simp: txn_ok_put_all)

lemma update_record_lease_True:
  "update_record_lease k expected owner fence expires t = Inr (True, t') \<Longrightarrow>
    \<exists>c. get_record t k = Some c \<and> rec_revision c = expected \<and>
      t' = put_record k (c\<lparr>rec_revision := expected + 1, rec_owner := owner,
             rec_fence := fence, rec_expires := expires\<rparr>) t"
  by (auto simp: update_record_lease_def eres split: option.splits if_splits)

text \<open>A lease transition of the store writes what \<open>lease_apply\<close> returns, and nothing else.\<close>

lemma transition_record_lease_Some:
  assumes "transition_record_lease clock k expected tr t = Inr (Some r, t')"
  shows "\<exists>c. get_record t k = Some c \<and> rec_revision c = expected \<and>
    lease_apply tr c clock = Some r \<and> t' = put_record k r t"
proof -
  from assms obtain c where c: "get_record t k = Some c" "rec_revision c = expected"
      "lease_apply tr c clock = Some r"
      and t': "t' = put_record k r t \<or>
        update_record_lease k expected (rec_owner r) (rec_fence r) (rec_expires r) t = Inr (True, t')"
    by (auto simp: transition_record_lease_def eres split: option.splits if_splits)
  have "c\<lparr>rec_revision := expected + 1, rec_owner := rec_owner r, rec_fence := rec_fence r,
      rec_expires := rec_expires r\<rparr> = r"
    using c(2,3) by (auto simp: lease_apply_def split: if_splits)
  with c t' show ?thesis by (auto dest: update_record_lease_True)
qed

lemma transition_record_lease_None:
  "transition_record_lease clock k expected tr t = Inr (None, t') \<Longrightarrow> t' = t"
  by (auto simp: transition_record_lease_def update_record_lease_def eres ensure_def
      split: option.splits if_splits)

lemma txn_ok_transition:
  assumes "transition_record_lease clock k expected tr t = Inr (res, t')" and "txn_ok t"
  shows "txn_ok t'"
proof (cases res)
  case None
  with assms show ?thesis by (auto dest: transition_record_lease_None)
next
  case (Some r)
  with assms obtain c where "get_record t k = Some c" "lease_apply tr c clock = Some r"
      "t' = put_record k r t"
    using transition_record_lease_Some by blast
  moreover from this have "rec_key r = k"
    using assms(2) by (auto dest!: lease_apply_frame txn_ok_record_key)
  ultimately show ?thesis using assms(2) by (simp add: txn_ok_put)
qed

end
