(* ===== verification/Store_Effects.thy ===== *)
theory Store_Effects
  imports Store_Invariants
begin

text \<open>
  Effects of the operations on aliases, sequences, facts and operations, of deletions, and
  of the commit: \<open>txn_ok\<close> holds of every transaction the operations reach, and the store
  after the commit reads as the transaction did.
\<close>

section \<open>Deletion of records\<close>

text \<open>
  Deleting records deletes their aliases and their facts, so nothing refers to a record
  that is gone.
\<close>

lemma delete_record_owners_effect:
  assumes "txn_ok t" and "distinct ks" and "\<forall>k\<in>set ks. get_record t k \<noteq> None"
  shows "\<exists>t'. delete_record_owners ks t = Inr t' \<and> txn_ok t' \<and>
    get_record t' = (\<lambda>k. if k \<in> set ks then None else get_record t k) \<and>
    ov_get (t_aliases t') = (\<lambda>a. case ov_get (t_aliases t) a of None \<Rightarrow> None
        | Some k \<Rightarrow> if k \<in> set ks then None else Some k) \<and>
    ov_get (t_facts t') = (\<lambda>i. case ov_get (t_facts t) i of None \<Rightarrow> None
        | Some f \<Rightarrow> if fact_owner f \<in> set ks then None else Some f) \<and>
    t_sequences t' = t_sequences t"
proof (cases "ks = []")
  case True
  then show ?thesis
    using assms(1) by (auto simp: delete_record_owners_def fun_eq_iff split: option.splits)
next
  case False
  note ok = assms(1) [unfolded txn_ok_def]
  obtain A where A: "delete_all (map fst (filter (\<lambda>(_, k). k \<in> set ks) (ov_items (t_aliases t))))
        (t_aliases t) = Inr A"
      and Ai: "ov_inv A" and Ag: "ov_get A = (\<lambda>a. case ov_get (t_aliases t) a of None \<Rightarrow> None
        | Some k \<Rightarrow> if k \<in> set ks then None else Some k)"
    using delete_filtered_ok [of "t_aliases t" "\<lambda>(_, k). k \<in> set ks"] ok by auto
  obtain F where F: "delete_all (map fst (filter (\<lambda>(_, f). fact_owner f \<in> set ks) (ov_items (t_facts t))))
        (t_facts t) = Inr F"
      and Fg: "ov_get F = (\<lambda>i. case ov_get (t_facts t) i of None \<Rightarrow> None
        | Some f \<Rightarrow> if fact_owner f \<in> set ks then None else Some f)"
    using delete_filtered_ok [of "t_facts t" "\<lambda>(_, f). fact_owner f \<in> set ks"] ok keyed_inv by auto
  obtain R where R: "delete_all ks (t_records t) = Inr R"
    using delete_all_ok [OF assms(2), of "t_records t"] assms(3) by (auto simp: get_record_def)
  note Rg = delete_all_get [OF R]
  let ?t = "t\<lparr>t_aliases := A, t_facts := F, t_records := R,
      t_guarded := filter (\<lambda>k. k \<notin> set ks) (t_guarded t)\<rparr>"
  have eq: "delete_record_owners ks t = Inr ?t"
    using A F R False by (simp add: delete_record_owners_def)
  have "keyed rec_key R" "keyed fact_key F"
    using ok R F delete_all_keyed by blast+
  then have "txn_ok ?t"
    using ok Ai by (auto simp: txn_ok_def get_record_def Ag Fg Rg split: option.splits if_splits)
  with eq Ag Fg Rg show ?thesis by (auto simp: get_record_def)
qed

lemma delete_record_True:
  assumes "delete_record k e t = Inr (True, t')" and "txn_ok t"
  shows "txn_ok t' \<and> get_record t' = (get_record t)(k := None) \<and>
    (\<forall>a. ov_get (t_aliases t') a \<noteq> Some k) \<and>
    (\<forall>i f. ov_get (t_facts t') i = Some f \<longrightarrow> fact_owner f \<noteq> k)"
proof -
  from assms(1) obtain c t1 g x where
    c: "get_record t k = Some c" and g: "guard_record k x t = Inr (Some g, t1)"
    and d: "delete_record_owners [k] t1 = Inr t'"
    by (auto simp: delete_record_def Let_def eres split: option.splits if_splits)
  have ok1: "txn_ok t1" using txn_ok_guard [OF g assms(2)] .
  have r1: "(get_record t1)(k := None) = (get_record t)(k := None)" "get_record t1 k \<noteq> None"
    using g by (cases rule: guard_record_eq; simp add: store_effects)+
  from delete_record_owners_effect [OF ok1, of "[k]"] r1 d
  show ?thesis by (auto simp: fun_eq_iff split: option.splits if_splits)
qed

lemma delete_record_False: "delete_record k e t = Inr (False, t') \<Longrightarrow> t' = t"
  by (auto simp: delete_record_def Let_def eres dest: guard_record_None split: option.splits if_splits)

lemma txn_ok_delete_record: "delete_record k e t = Inr (b, t') \<Longrightarrow> txn_ok t \<Longrightarrow> txn_ok t'"
  by (cases b) (auto dest: delete_record_True delete_record_False)

section \<open>Aliases\<close>

lemma insert_alias_step_eq:
  "insert_alias_step (a, k) t = Inr t' \<longleftrightarrow>
    (ov_get (t_aliases t) a = None \<or> ov_get (t_aliases t) a = Some k) \<and> k \<in> set (t_guarded t) \<and>
    t' = t\<lparr>t_aliases := ov_set a k (t_aliases t)\<rparr>"
  by (auto simp: insert_alias_step_def eres split: option.splits)

lemma txn_ok_insert_aliases:
  fixes t :: "('a, 'b, 'c) txn"
  shows "insert_aliases as t = Inr (u, t') \<Longrightarrow> txn_ok t \<Longrightarrow> txn_ok t'"
proof -
  assume "insert_aliases as t = Inr (u, t')" and ok: "txn_ok t"
  then have "efold insert_alias_step (sort_key fst as) t = Inr t'"
    by (auto simp: insert_aliases_def eres)
  then show "txn_ok t'"
  proof (rule efold_invariant [where P = txn_ok])
    fix x :: "bytes \<times> bytes" and s s' :: "('a, 'b, 'c) txn"
    assume "txn_ok s" and "insert_alias_step x s = Inr s'"
    then show "txn_ok s'"
      by (cases x) (auto simp: insert_alias_step_eq txn_ok_def get_record_def ov_inv_set split: if_splits)
  qed (rule ok)
qed

text \<open>Under the invariant an alias that is set resolves, and an unknown alias is \<open>None\<close>.\<close>

lemma resolve_alias_eq:
  "txn_ok t \<Longrightarrow> resolve_alias a t = Inr (ov_get (t_aliases t) a)"
  by (cases "ov_get (t_aliases t) a")
    (auto simp: resolve_alias_def resolve_aliases_def List.map_filter_def txn_ok_def ensure_def)

section \<open>Sequences\<close>

lemma get_sequence_put [store_effects]: "get_sequence (put_sequence k n t) = (get_sequence t)(k := n)"
  by (auto simp: get_sequence_def put_sequence_def fun_eq_iff)

lemma put_sequence_frame [simp]:
  "t_records (put_sequence k n t) = t_records t" "t_facts (put_sequence k n t) = t_facts t"
  "t_aliases (put_sequence k n t) = t_aliases t" "t_operations (put_sequence k n t) = t_operations t"
  "t_guarded (put_sequence k n t) = t_guarded t" "t_now (put_sequence k n t) = t_now t"
  "get_record (put_sequence k n t) = get_record t" "t_error (put_sequence k n t) = t_error t"
  by (simp_all add: put_sequence_def get_record_def fun_eq_iff)

lemma get_sequence_put_record [store_effects]: "get_sequence (put_record k r t) = get_sequence t"
  by (simp add: get_sequence_def fun_eq_iff)

lemma txn_ok_put_sequence: "txn_ok t \<Longrightarrow> txn_ok (put_sequence k n t)"
  by (simp add: txn_ok_def) (simp add: put_sequence_def ov_inv_set)

lemma advance_sequence_eq:
  "advance_sequence k expected t = Inr (n, t') \<longleftrightarrow>
    0 \<le> expected \<and> get_sequence t k = expected \<and> n = expected + 1 \<and> t' = put_sequence k n t"
  by (auto simp: advance_sequence_def next_sequence_def eres)

lemma reserve_sequence_eq:
  "reserve_sequence k n t = Inr (v, t') \<longleftrightarrow>
    1 \<le> n \<and> v = get_sequence t k + n \<and> t' = put_sequence k v t"
  by (auto simp: reserve_sequence_def reserve_sequences_def eres)

section \<open>Facts\<close>

definition get_fact :: "('d, 'f, 'o) txn \<Rightarrow> bytes \<Rightarrow> int \<Rightarrow> 'f stored_fact option" where
  "get_fact t stream i = ov_get (t_facts t) (stream, i)"

lemma insert_fact_eq:
  "insert_fact f t = Inr (u, t') \<longleftrightarrow>
    get_fact t (fact_stream f) (fact_sequence f) = None \<and> fact_owner f \<in> set (t_guarded t) \<and>
    t' = t\<lparr>t_facts := ov_set (fact_key f) f (t_facts t)\<rparr>"
  by (auto simp: insert_fact_def get_fact_def fact_key_def eres)

lemma txn_ok_insert_fact: "insert_fact f t = Inr (u, t') \<Longrightarrow> txn_ok t \<Longrightarrow> txn_ok t'"
  by (auto simp: insert_fact_eq txn_ok_def get_record_def keyed_set split: if_splits)

lemma insert_facts_fold:
  "insert_facts fs t = Inr (u, t') \<longleftrightarrow>
    efold (\<lambda>f t'. ebind (insert_fact f t') (\<lambda>(_, t''). Inr t'')) fs t = Inr t'"
  by (auto simp: insert_facts_def eres)

lemma insert_facts_Nil [simp]: "insert_facts [] t = Inr (u, t') \<longleftrightarrow> t' = t"
  by (auto simp: insert_facts_fold)

lemma insert_facts_Cons:
  "insert_facts (f # fs) t = Inr (u, t') \<longleftrightarrow>
    (\<exists>t1. insert_fact f t = Inr ((), t1) \<and> insert_facts fs t1 = Inr (u, t'))"
  by (auto simp: insert_facts_fold eres)

lemma txn_ok_insert_facts: "insert_facts fs t = Inr (u, t') \<Longrightarrow> txn_ok t \<Longrightarrow> txn_ok t'"
  by (induction fs arbitrary: t) (auto simp: insert_facts_Cons dest: txn_ok_insert_fact)

text \<open>A batch of facts is inserted where no fact was, and only the facts change.\<close>

lemma insert_facts_absent:
  "insert_facts fs t = Inr (u, t') \<Longrightarrow> f \<in> set fs \<Longrightarrow>
    ov_get (t_facts t) (fact_key f) = None \<and> fact_owner f \<in> set (t_guarded t)"
proof (induction fs arbitrary: t)
  case (Cons g fs)
  from Cons.prems(1) obtain t1 where t1: "insert_fact g t = Inr ((), t1)"
      "insert_facts fs t1 = Inr (u, t')"
    by (auto simp: insert_facts_Cons)
  then have g: "ov_get (t_facts t) (fact_key g) = None" "fact_owner g \<in> set (t_guarded t)"
      "t_facts t1 = ov_set (fact_key g) g (t_facts t)" "t_guarded t1 = t_guarded t"
    by (simp_all add: insert_fact_eq get_fact_def fact_key_def)
  show ?case
  proof (cases "f = g")
    case False
    with Cons.prems(2) have "f \<in> set fs" by simp
    from Cons.IH [OF t1(2) this] g show ?thesis by (simp split: if_splits)
  qed (use g in simp)
qed simp

lemma insert_facts_distinct: "insert_facts fs t = Inr (u, t') \<Longrightarrow> distinct (map fact_key fs)"
proof (induction fs arbitrary: t)
  case (Cons g fs)
  then obtain t1 where t1: "insert_fact g t = Inr ((), t1)" "insert_facts fs t1 = Inr (u, t')"
    by (auto simp: insert_facts_Cons)
  then have "ov_get (t_facts t1) (fact_key g) = Some g"
    by (simp add: insert_fact_eq)
  with insert_facts_absent [OF t1(2)] have "fact_key g \<notin> fact_key ` set fs"
    by (metis imageE option.distinct(1))
  with Cons.IH [OF t1(2)] show ?case by simp
qed simp

lemma insert_facts_get:
  "insert_facts fs t = Inr (u, t') \<Longrightarrow>
    ov_get (t_facts t') = ov_get (t_facts t) ++ map_of (map (\<lambda>f. (fact_key f, f)) fs)"
proof (induction fs arbitrary: t)
  case (Cons f fs)
  then obtain t1 where t1: "insert_fact f t = Inr ((), t1)" "insert_facts fs t1 = Inr (u, t')"
    by (auto simp: insert_facts_Cons)
  have "fact_key f \<notin> dom (map_of (map (\<lambda>f. (fact_key f, f)) fs))"
    using insert_facts_distinct [OF Cons.prems] by (simp add: dom_map_of_conv_image_fst image_image)
  with Cons.IH [OF t1(2)] t1(1) show ?case
    by (simp add: insert_fact_eq map_add_upd_left del: fun_upd_apply)
qed simp

lemma insert_facts_frame:
  "insert_facts fs t = Inr (u, t') \<Longrightarrow> \<exists>F. t' = t\<lparr>t_facts := F\<rparr>"
proof (induction fs arbitrary: t)
  case (Cons f fs)
  then obtain t1 where t1: "insert_fact f t = Inr ((), t1)" "insert_facts fs t1 = Inr (u, t')"
    by (auto simp: insert_facts_Cons)
  from Cons.IH [OF t1(2)] t1(1) show ?case by (auto simp: insert_fact_eq)
next
  case Nil
  then have "t' = t\<lparr>t_facts := t_facts t\<rparr>" by simp
  then show ?case by blast
qed

section \<open>Operations\<close>

lemma insert_operation_eq:
  "insert_operation v t = Inr (u, t') \<longleftrightarrow>
    get_operation t (op_key v) = None \<and> operation_at (op_stream v) (op_sequence v) t = None \<and>
    t' = set_operation_at (op_stream v) (op_sequence v) (Some (op_key v))
           (t\<lparr>t_operations := ov_set (op_key v) v (t_operations t)\<rparr>)"
  by (auto simp: insert_operation_def eres)

lemma txn_ok_insert_operation: "insert_operation v t = Inr (u, t') \<Longrightarrow> txn_ok t \<Longrightarrow> txn_ok t'"
  by (auto simp: insert_operation_eq set_operation_at_def txn_ok_def get_record_def keyed_set)

lemma replace_operation_True:
  "replace_operation v expected t = Inr (True, t') \<longleftrightarrow>
    (\<exists>c. get_operation t (op_key v) = Some c \<and> op_state c = expected \<and>
      validate_operation_replacement c v = Inr ()) \<and>
    t' = t\<lparr>t_operations := ov_set (op_key v) v (t_operations t)\<rparr>"
  by (auto simp: replace_operation_def eres split: option.splits if_splits)

lemma txn_ok_replace_operation:
  "replace_operation v expected t = Inr (b, t') \<Longrightarrow> txn_ok t \<Longrightarrow> txn_ok t'"
  by (auto simp: replace_operation_def eres txn_ok_def get_record_def keyed_set
      split: option.splits if_splits)

section \<open>Commit\<close>

lemma begin_txn_get [simp]:
  "get_record (begin_txn now m) = map_of (m_records m)"
  "ov_get (t_aliases (begin_txn now m)) = map_of (m_aliases m)"
  "ov_get (t_facts (begin_txn now m)) = map_of (m_facts m)"
  "ov_get (t_sequences (begin_txn now m)) = map_of (m_sequences m)"
  "ov_get (t_operations (begin_txn now m)) = map_of (m_operations m)"
  by (simp_all add: begin_txn_def get_record_def fun_eq_iff)

lemma txn_ok_begin: "txn_ok (begin_txn now m) = txn_ok (begin_txn now' m)"
  by (simp add: txn_ok_def begin_txn_def get_record_def)

text \<open>
  The transaction and the store it started from: its tables lie over those of the store, and its
  changes of the stream index are a \<open>dict\<close>.
\<close>

definition txn_over :: "('d, 'f, 'o) mem_store \<Rightarrow> ('d, 'f, 'o) txn \<Rightarrow> bool" where
  "txn_over m t =
     (ov_base (t_records t) = m_records m \<and> ov_base (t_aliases t) = m_aliases m \<and>
      ov_base (t_sequences t) = m_sequences m \<and> ov_base (t_facts t) = m_facts m \<and>
      ov_base (t_operations t) = m_operations m \<and> t_op_streams t = m_op_streams m \<and>
      distinct (map fst (t_op_changes t)))"

lemma txn_over_begin [simp]: "txn_over m (begin_txn now m)"
  by (simp add: txn_over_def begin_txn_def ov_new_def)

lemma apply_transaction_get:
  assumes "txn_ok t" and "txn_over m t"
  shows "map_of (m_records (apply_transaction t m)) = get_record t"
    and "map_of (m_aliases (apply_transaction t m)) = ov_get (t_aliases t)"
    and "map_of (m_sequences (apply_transaction t m)) = ov_get (t_sequences t)"
    and "map_of (m_facts (apply_transaction t m)) = ov_get (t_facts t)"
    and "map_of (m_operations (apply_transaction t m)) = ov_get (t_operations t)"
  using assms map_of_apply_to [of "t_records t"] map_of_apply_to [of "t_aliases t"]
    map_of_apply_to [of "t_sequences t"] map_of_apply_to [of "t_facts t"]
    map_of_apply_to [of "t_operations t"]
  by (simp_all add: apply_transaction_def txn_over_def txn_ok_def keyed_def get_record_def fun_eq_iff)

text \<open>The index after the commit reads as it did in the transaction: changed entries are set or gone.\<close>

lemma apply_stream_changes_get:
  "distinct (map fst cs) \<Longrightarrow>
    map_of (apply_stream_changes cs al) k = (case map_of cs k of Some entry \<Rightarrow> entry | None \<Rightarrow> map_of al k)"
proof (induction cs arbitrary: al)
  case (Cons c cs)
  obtain i entry where c: "c = (i, entry)" by (cases c)
  define al' where "al' = (case entry of None \<Rightarrow> AList.delete i al | Some v \<Rightarrow> AList.update i v al)"
  have "map_of (apply_stream_changes (c # cs) al) k = map_of (apply_stream_changes cs al') k"
    by (cases entry) (simp_all add: apply_stream_changes_def c al'_def)
  also have "\<dots> = (case map_of cs k of Some e \<Rightarrow> e | None \<Rightarrow> map_of al' k)"
    using Cons by simp
  also have "\<dots> = (case map_of (c # cs) k of Some e \<Rightarrow> e | None \<Rightarrow> map_of al k)"
  proof (cases "k = i")
    case True
    with Cons.prems have "map_of cs k = None" by (simp add: c map_of_eq_None_iff)
    with True show ?thesis by (cases entry) (simp_all add: c al'_def delete_conv update_conv)
  qed (cases entry; simp add: c al'_def delete_conv update_conv split: option.split)
  finally show ?case .
qed (simp add: apply_stream_changes_def)

lemma apply_transaction_index:
  "txn_over m t \<Longrightarrow> operation_at stream n (begin_txn now (apply_transaction t m)) = operation_at stream n t"
  by (simp add: operation_at_def begin_txn_def apply_transaction_def txn_over_def apply_stream_changes_get
      split: option.split)

lemma mem_ok_apply:
  assumes "txn_ok t" and "txn_over m t" and "mem_ok m"
  shows "mem_ok (apply_transaction t m)"
proof -
  let ?m = "apply_transaction t m"
  have d: "distinct (map fst (m_records ?m))" "distinct (map fst (m_aliases ?m))"
      "distinct (map fst (m_sequences ?m))" "distinct (map fst (m_facts ?m))"
      "distinct (map fst (m_operations ?m))"
    using assms(3) by (simp_all add: mem_ok_def apply_transaction_def distinct_apply_to)
  have g: "ov_get (t_records (begin_txn 0 ?m)) = ov_get (t_records t)"
      "get_record (begin_txn 0 ?m) = get_record t"
      "ov_get (t_aliases (begin_txn 0 ?m)) = ov_get (t_aliases t)"
      "ov_get (t_facts (begin_txn 0 ?m)) = ov_get (t_facts t)"
      "ov_get (t_operations (begin_txn 0 ?m)) = ov_get (t_operations t)"
    using apply_transaction_get [OF assms(1,2)] begin_txn_get [of 0 ?m]
    by (simp_all add: get_record_def [abs_def] fun_eq_iff)
  have i: "ov_inv (t_records (begin_txn 0 ?m))" "ov_inv (t_aliases (begin_txn 0 ?m))"
      "ov_inv (t_sequences (begin_txn 0 ?m))" "ov_inv (t_facts (begin_txn 0 ?m))"
      "ov_inv (t_operations (begin_txn 0 ?m))" "t_guarded (begin_txn 0 ?m) = []"
    using d by (simp_all add: begin_txn_def ov_inv_new)
  have "txn_ok (begin_txn 0 ?m)"
    using assms(1) unfolding txn_ok_def keyed_def g by (simp add: i)
  with d show ?thesis by (simp add: mem_ok_def)
qed

lemma txn_over_put [simp]: "txn_over m (put_record k r t) = txn_over m t"
  by (simp add: txn_over_def put_record_def)

lemma txn_over_put_all [simp]: "txn_over m (fold (\<lambda>r. put_record (rec_key r) r) rs t) = txn_over m t"
  by (induction rs arbitrary: t) simp_all

text \<open>A committed mutation leaves the store reading as its transaction.\<close>

lemma mutate_commit:
  assumes "mem_mutate now fn m = (Inr v, m')" and "mem_ok m"
    and "\<And>t'. fn (begin_txn now m) = Inr (v, t') \<Longrightarrow> txn_ok t' \<and> txn_over m t'"
  obtains t' where "fn (begin_txn now m) = Inr (v, t')" "mem_ok m'" "\<And>n. get_record (begin_txn n m') = get_record t'"
proof -
  from assms(1) obtain t' where t': "fn (begin_txn now m) = Inr (v, t')" "m' = apply_transaction t' m"
    by (auto simp: mem_mutate_def split: sum.splits prod.splits option.splits)
  with assms(3) have ok: "txn_ok t'" "txn_over m t'" by blast+
  show ?thesis using that [OF t'(1)] mem_ok_apply [OF ok assms(2)] apply_transaction_get(1) [OF ok] t'(2) by simp
qed

lemma mem_ok_txn: "mem_ok m \<Longrightarrow> txn_ok (begin_txn now m)"
  using txn_ok_begin [of now m 0] by (simp add: mem_ok_def)

end
