(* ===== verification/Store_Contracts.thy ===== *)
theory Store_Contracts
  imports Store_Effects
begin

text \<open>
  The contracts the repositories rely on, each a locale with the laws of the store as its
  assumptions, and its interpretation on the memory transaction:

  \<^item> \<open>cas_table\<close>: a compare-and-set of versioned values loses no update;
  \<^item> \<open>fenced_lease\<close>: a lease is exclusive and its fence only grows;
  \<^item> \<open>paged_listing\<close>: walking pages with a cursor visits every value once;
  \<^item> \<open>dispatch_gate\<close>: what is reserved stays so, and is not admitted again.  The repositories
    interpret it on their own steps.
\<close>

section \<open>Compare and set\<close>

locale cas_table =
  fixes get :: "'s \<Rightarrow> 'k \<Rightarrow> 'r option"
    and cas :: "'r \<Rightarrow> int \<Rightarrow> 's \<Rightarrow> (bool \<times> 's) res"
    and key_of :: "'r \<Rightarrow> 'k"
    and rev_of :: "'r \<Rightarrow> int"
  assumes cas_current: "cas r e s = Inr (True, s') \<Longrightarrow> \<exists>c. get s (key_of r) = Some c \<and> rev_of c = e"
    and cas_revision: "cas r e s = Inr (True, s') \<Longrightarrow> rev_of r = e + 1"
    and cas_get: "cas r e s = Inr (True, s') \<Longrightarrow> get s' = (get s)(key_of r \<mapsto> r)"
    and cas_refused: "cas r e s = Inr (False, s') \<Longrightarrow> get s' = get s"
begin

text \<open>Of two writers that read the same revision one is refused, whatever they write.\<close>

lemma no_lost_update:
  assumes "cas r e s = Inr (True, s1)" and "key_of q = key_of r" and "cas q e s1 = Inr (b, s2)"
  shows "\<not> b"
proof
  assume b
  with assms(3) have "\<exists>c. get s1 (key_of q) = Some c \<and> rev_of c = e"
    using cas_current by simp
  with assms(2) cas_get [OF assms(1)] cas_revision [OF assms(1)] show False by simp
qed

text \<open>A run of writes, each with the answer it got; the revision counts the accepted ones.\<close>

fun cas_run :: "('r \<times> int) list \<Rightarrow> 's \<Rightarrow> (bool list \<times> 's) res" where
  "cas_run [] s = Inr ([], s)"
| "cas_run ((r, e) # ws) s =
     ebind (cas r e s) (\<lambda>(b, s1). ebind (cas_run ws s1) (\<lambda>(bs, s2). Inr (b # bs, s2)))"

lemma revision_counts_writes:
  assumes "cas_run ws s = Inr (bs, s')" and "get s k = Some c"
  shows "\<exists>c'. get s' k = Some c' \<and>
    rev_of c' = rev_of c + int (length (filter (\<lambda>((r, e), b). b \<and> key_of r = k) (zip ws bs)))"
  using assms
proof (induction ws arbitrary: s bs c)
  case (Cons w ws)
  obtain r e where w: "w = (r, e)" by (cases w)
  with Cons.prems(1) obtain b s1 bs1 where
    1: "cas r e s = Inr (b, s1)" and 2: "cas_run ws s1 = Inr (bs1, s')" and bs: "bs = b # bs1"
    by (auto simp: eres)
  have "\<exists>c1. get s1 k = Some c1 \<and> rev_of c1 = rev_of c + (if b \<and> key_of r = k then 1 else 0)"
  proof (cases b)
    case True
    with 1 have "cas r e s = Inr (True, s1)" by simp
    from cas_current [OF this] cas_revision [OF this] cas_get [OF this] Cons.prems(2) True
    show ?thesis by auto
  next
    case False
    with 1 cas_refused Cons.prems(2) show ?thesis by auto
  qed
  then obtain c1 where c1: "get s1 k = Some c1"
      "rev_of c1 = rev_of c + (if b \<and> key_of r = k then 1 else 0)" by blast
  from Cons.IH [OF 2 c1(1)] c1(2) show ?case by (auto simp: w bs)
qed simp

end

interpretation record_cas: cas_table get_record replace_record rec_key rec_revision
  by unfold_locales (auto simp: replace_record_True store_effects dest: replace_record_False)

section \<open>Fenced leases\<close>

locale fenced_lease =
  fixes fence :: "'r \<Rightarrow> int"
    and live :: "'r \<Rightarrow> int \<Rightarrow> bool"
    and apply_tr :: "'t \<Rightarrow> 'r \<Rightarrow> int \<Rightarrow> 'r option"
    and presented :: "'t \<Rightarrow> int"
    and acquires :: "'t \<Rightarrow> bool"
  assumes presented_current: "apply_tr t r now = Some r' \<Longrightarrow> presented t = fence r"
    and fence_after: "apply_tr t r now = Some r' \<Longrightarrow> fence r' = fence r + (if acquires t then 1 else 0)"
    and acquire_free: "apply_tr t r now = Some r' \<Longrightarrow> acquires t \<Longrightarrow> \<not> live r now"
begin

text \<open>A run of attempts at given times; a refused attempt changes nothing.\<close>

fun attempts :: "('t \<times> int) list \<Rightarrow> 'r \<Rightarrow> 'r" where
  "attempts [] r = r"
| "attempts ((t, now) # ts) r =
     attempts ts (case apply_tr t r now of None \<Rightarrow> r | Some r' \<Rightarrow> r')"

lemma fence_monotone: "fence r \<le> fence (attempts ts r)"
proof (induction ts arbitrary: r)
  case (Cons x ts)
  obtain t now where x: "x = (t, now)" by (cases x)
  have "fence r \<le> fence (case apply_tr t r now of None \<Rightarrow> r | Some r' \<Rightarrow> r')"
    by (auto dest: fence_after split: option.split)
  from order_trans [OF this Cons.IH] show ?case unfolding x attempts.simps .
qed simp

text \<open>
  Once anybody acquired the lease, everything that presents the old fence is refused for
  ever: a holder that lost its lease cannot come back.
\<close>

lemma superseded_refused:
  assumes "apply_tr t r now = Some r1" and "acquires t" and "presented z \<le> fence r"
  shows "apply_tr z (attempts ts r1) later = None"
proof (rule ccontr)
  assume "apply_tr z (attempts ts r1) later \<noteq> None"
  then have "presented z = fence (attempts ts r1)"
    using presented_current by auto
  with fence_monotone [of r1 ts] fence_after [OF assms(1)] assms(2,3) show False by simp
qed

text \<open>Two acquisitions of one generation: the second is refused.\<close>

lemma acquire_once:
  assumes "apply_tr t r now = Some r1" and "acquires t" and "presented z = presented t"
  shows "apply_tr z r1 later = None"
  using superseded_refused [OF assms(1,2), of z "[]"] presented_current [OF assms(1)] assms(3)
  by simp

end

interpretation record_lease: fenced_lease rec_fence lease_live lease_apply lt_fence
    "\<lambda>tr. lt_operation tr = Acquire"
proof unfold_locales
  fix tr :: lease_transition and r r' :: "'d stored_record" and now :: int
  assume a: "lease_apply tr r now = Some r'"
  show "lt_fence tr = rec_fence r"
    using a by (auto simp: lease_apply_def split: if_splits)
  show "rec_fence r' = rec_fence r + (if lt_operation tr = Acquire then 1 else 0)"
    using a by (rule lease_apply_fence)
  show "lt_operation tr = Acquire \<Longrightarrow> \<not> lease_live r now"
    using a acquire_not_live by blast
qed

section \<open>Pages\<close>

text \<open>
  The loop of \<open>_object_cleanup\<close> over a scan: pages of \<open>n\<close> values, from a cursor, until a
  page is short.  \<open>None\<close> is a loop that has not ended within the fuel.
\<close>

fun walk_pages ::
  "('k option \<Rightarrow> int \<Rightarrow> 'v list res) \<Rightarrow> ('v \<Rightarrow> 'k) \<Rightarrow> nat \<Rightarrow> nat \<Rightarrow> 'k option \<Rightarrow> 'v list res option" where
  "walk_pages page cursor_of n 0 cursor = None"
| "walk_pages page cursor_of n (Suc fuel) cursor =
     (case page cursor (int n) of
        Inl e \<Rightarrow> Some (Inl e)
      | Inr values \<Rightarrow>
          if length values < n then Some (Inr values)
          else map_option (\<lambda>rest. ebind rest (\<lambda>vs. Inr (values @ vs)))
                 (walk_pages page cursor_of n fuel (Some (cursor_of (last values)))))"

lemma sorted_after:
  assumes "sorted (map f xs)" and "distinct (map f xs)" and "i < length xs"
  shows "filter (\<lambda>x. f (xs ! i) < f x) xs = drop (Suc i) xs"
proof -
  have lt: "f (xs ! j) < f (xs ! k)" if "j < k" "k < length xs" for j k
    using strict_sorted_iff [of "map f xs"] assms(1,2) that
    by (simp add: sorted_wrt_iff_nth_less)
  have "filter (\<lambda>x. f (xs ! i) < f x) (take (Suc i) xs) = []"
    using lt assms(3) by (fastforce simp: filter_empty_conv in_set_conv_nth less_Suc_eq)
  moreover have "filter (\<lambda>x. f (xs ! i) < f x) (drop (Suc i) xs) = drop (Suc i) xs"
    using lt assms(3) by (intro filter_True) (auto simp: in_set_conv_nth)
  ultimately show ?thesis
    by (metis append_take_drop_id filter_append append_Nil)
qed

locale paged_listing =
  fixes inv :: "'s \<Rightarrow> bool"
    and cursor_of :: "'v \<Rightarrow> 'k::linorder"
    and vals :: "'s \<Rightarrow> 'v list"
    and page :: "'s \<Rightarrow> 'k option \<Rightarrow> int \<Rightarrow> 'v list res"
  assumes one_cursor: "inv s \<Longrightarrow> distinct (map cursor_of (vals s))"
    and page_eq: "1 \<le> n \<Longrightarrow>
      page s after n = Inr (take (nat n) (after_key cursor_of after (sort_key cursor_of (vals s))))"
begin

lemma cursor_position:
  assumes "inv s" and "i < length (vals s)"
  shows "after_key cursor_of (Some (cursor_of (sort_key cursor_of (vals s) ! i))) (sort_key cursor_of (vals s)) =
    drop (Suc i) (sort_key cursor_of (vals s))"
  using sorted_after [of cursor_of "sort_key cursor_of (vals s)" i] assms one_cursor
  by (simp add: after_key_def distinct_map_sort_key)

lemma walk_from:
  assumes "inv s" and "0 < n" and "length (vals s) - i < fuel" and "i \<le> length (vals s)"
    and "after_key cursor_of cur (sort_key cursor_of (vals s)) = drop i (sort_key cursor_of (vals s))"
  shows "walk_pages (page s) cursor_of n fuel cur = Some (Inr (drop i (sort_key cursor_of (vals s))))"
  using assms(3-)
proof (induction fuel arbitrary: i cur)
  case (Suc fuel)
  let ?S = "sort_key cursor_of (vals s)"
  have pg: "page s cur (int n) = Inr (take n (drop i ?S))"
    using page_eq [of "int n" s cur] assms(2) Suc.prems(3) by simp
  show ?case
  proof (cases "length (vals s) - i < n")
    case True
    with pg show ?thesis by simp
  next
    case False
    then have "last (take n (drop i ?S)) = ?S ! (i + n - 1)"
      using assms(2) by (simp add: last_conv_nth min_def)
    moreover have "after_key cursor_of (Some (cursor_of (?S ! (i + n - 1)))) ?S = drop (i + n) ?S"
      using cursor_position [OF assms(1), of "i + n - 1"] False assms(2) Suc.prems(2) by simp
    ultimately have "walk_pages (page s) cursor_of n fuel (Some (cursor_of (last (take n (drop i ?S))))) =
        Some (Inr (drop (i + n) ?S))"
      using Suc.IH [of "i + n"] Suc.prems(1,2) False assms(2) by simp
    moreover have "take n (drop i ?S) @ drop (i + n) ?S = drop i ?S"
      by (metis append_take_drop_id drop_drop add.commute)
    ultimately show ?thesis using pg False by (simp add: min_def)
  qed
qed simp

text \<open>The walk ends, and it collects every value exactly once, in cursor order.\<close>

lemma walk_complete:
  "inv s \<Longrightarrow> 0 < n \<Longrightarrow> length (vals s) < fuel \<Longrightarrow>
    walk_pages (page s) cursor_of n fuel None = Some (Inr (sort_key cursor_of (vals s)))"
  using walk_from [of s n 0 fuel None] by (simp add: after_key_def)

end

lemma scan_page_eq:
  "1 \<le> n \<Longrightarrow> scan_page f values after n = Inr (take (nat n) (after_key f after (sort_key f values)))"
  by (simp add: scan_page_def)

lemma distinct_map_pair: "distinct (map g xs) \<Longrightarrow> distinct (map (\<lambda>x. (f x, g x)) xs)"
  by (auto simp: distinct_map inj_on_def)

lemma distinct_map_fact_key:
  "distinct (map fact_key fs) \<Longrightarrow> distinct (map (\<lambda>f. (fact_stream f, fact_sequence f)) fs)"
  by (simp add: fact_key_def [abs_def])

interpretation record_pages: paged_listing txn_ok "\<lambda>r. (rec_kind r, rec_key r)"
    "\<lambda>t. ov_values (t_records t)" scan_records_page
  by unfold_locales
    (simp_all add: scan_records_page_def scan_page_eq distinct_map_pair keyed_distinct txn_okD)

interpretation alias_pages: paged_listing txn_ok fst "\<lambda>t. ov_items (t_aliases t)" scan_aliases_page
  by unfold_locales (simp_all add: scan_aliases_page_def scan_page_eq map_fst_ov_items txn_okD)

interpretation sequence_pages: paged_listing txn_ok fst "\<lambda>t. ov_items (t_sequences t)" scan_sequences_page
  by unfold_locales (simp_all add: scan_sequences_page_def scan_page_eq map_fst_ov_items txn_okD)

interpretation fact_pages: paged_listing txn_ok "\<lambda>f. (fact_stream f, fact_sequence f)"
    "\<lambda>t. ov_values (t_facts t)" scan_facts_page
  by unfold_locales
    (simp_all add: scan_facts_page_def scan_page_eq distinct_map_fact_key keyed_distinct txn_okD)

interpretation operation_pages: paged_listing txn_ok op_key "\<lambda>t. ov_values (t_operations t)" scan_operations_page
  by unfold_locales (simp_all add: scan_operations_page_def scan_page_eq keyed_distinct txn_okD)

section \<open>Record listings\<close>

text \<open>
  \<open>list_records\<close> with a cursor continues the listing without it: the page after the last
  record of a page is the next slice of the same list.
\<close>

lemma list_records_distinct:
  "txn_ok t \<Longrightarrow> distinct (map record_order (filter P (ov_values (t_records t))))"
  by (auto simp: record_order_def [abs_def] txn_ok_def
      intro!: distinct_map_pair distinct_map_filter keyed_distinct)

lemma list_records_continue:
  assumes "txn_ok t" and "i < length (list_records (q\<lparr>rq_after := None, rq_limit := None\<rparr>) t)"
  defines "all_records \<equiv> list_records (q\<lparr>rq_after := None, rq_limit := None\<rparr>) t"
  shows "list_records (q\<lparr>rq_after := Some (record_order (all_records ! i)), rq_limit := Some n\<rparr>) t =
    take n (drop (Suc i) all_records)"
proof -
  let ?vs = "filter (matches_record q) (ov_values (t_records t))"
  have m: "matches_record (q\<lparr>rq_after := a, rq_limit := b\<rparr>) = matches_record q" for a b
    by (simp add: matches_record_def fun_eq_iff)
  have "filter (\<lambda>x. record_order (sort_key record_order ?vs ! i) < record_order x) (sort_key record_order ?vs) =
      drop (Suc i) (sort_key record_order ?vs)"
    using list_records_distinct [OF assms(1)] assms(2)
    by (intro sorted_after) (auto simp: distinct_map_sort_key list_records_def limited_def after_key_def m)
  then show ?thesis
    by (simp add: all_records_def list_records_def limited_def after_key_def m)
qed

section \<open>Fact listings\<close>

lemma consecutive_nth:
  "i < length (consecutive look s n) \<Longrightarrow> look (s + int i) = Some (consecutive look s n ! i)"
proof (induction n arbitrary: s i)
  case (Suc n)
  show ?case
  proof (cases i)
    case (Suc j)
    with Suc.prems have "look (s + 1 + int j) = Some (consecutive look (s + 1) n ! j)"
      by (intro Suc.IH) (auto split: option.splits)
    with Suc Suc.prems show ?thesis by (auto simp: add.assoc split: option.splits)
  qed (use Suc.prems in \<open>auto split: option.splits\<close>)
qed simp

lemma length_consecutive: "length (consecutive look s n) \<le> n"
  by (induction n arbitrary: s) (auto split: option.split)

text \<open>
  A full run from the cursor is the same page that the scan of all facts selects, where no
  fact of the stream has a sequence below one.
\<close>

lemma sorted_prefix_run:
  assumes "sorted (map g xs)" and "distinct (map g xs)" and "\<forall>x\<in>set xs. s \<le> (g x :: int)"
    and "length run = n" and "\<forall>i<n. run ! i \<in> set xs \<and> g (run ! i) = s + int i"
  shows "take n xs = run"
  using assms
proof (induction n arbitrary: xs s run)
  case (Suc n)
  obtain y ys where run: "run = y # ys" using Suc.prems(4) by (cases run) auto
  have y: "y \<in> set xs" "g y = s" using Suc.prems(5) run by force+
  then obtain x xs' where xs: "xs = x # xs'" by (cases xs) auto
  have "g x \<le> g y" using Suc.prems(1) y xs by auto
  with Suc.prems(3) y xs have "g x = s" by force
  with Suc.prems(2) y xs have "x = y" by (auto simp: image_iff)
  have "\<forall>z\<in>set xs'. s + 1 \<le> g z"
    using Suc.prems(1,2) xs \<open>g x = s\<close> by (force simp: order_le_less)
  moreover have "\<forall>i<n. ys ! i \<in> set xs' \<and> g (ys ! i) = (s + 1) + int i"
  proof (intro allI impI)
    fix i assume "i < n"
    then have "ys ! i \<in> set xs" "g (ys ! i) = s + 1 + int i"
      using Suc.prems(5) run by (force dest: spec [where x = "Suc i"])+
    with \<open>g x = s\<close> xs show "ys ! i \<in> set xs' \<and> g (ys ! i) = (s + 1) + int i" by auto
  qed
  ultimately have "take n xs' = ys"
    using Suc.prems(1,2,4) xs run by (intro Suc.IH [of xs' "s + 1"]) auto
  with \<open>x = y\<close> show ?case by (simp add: xs run)
qed simp

lemma list_facts_scan:
  assumes "txn_ok t" and "\<forall>i f. get_fact t (fq_stream q) i = Some f \<longrightarrow> 1 \<le> i"
  shows "list_facts q t = scan_fact_query q t"
proof (cases "fq_limit q")
  case (Some n)
  let ?start = "case fq_after q of None \<Rightarrow> 1 | Some s \<Rightarrow> s + 1"
  let ?look = "\<lambda>i. ov_get (t_facts t) (fq_stream q, i)"
  let ?run = "consecutive ?look ?start n"
  let ?vs = "filter (\<lambda>f. fact_stream f = fq_stream q) (ov_values (t_facts t))"
  let ?ws = "case fq_after q of None \<Rightarrow> ?vs | Some n \<Rightarrow> filter (\<lambda>f. n < fact_sequence f) ?vs"
  have K: "keyed fact_key (t_facts t)" using assms(1) by (rule txn_okD)
  have get: "f \<in> set ?vs \<longleftrightarrow> ?look (fact_sequence f) = Some f \<and> fact_stream f = fq_stream q" for f
    by (auto simp: keyed_values [OF K] fact_key_def)
  show ?thesis
  proof (cases "fq_subject q = None \<and> \<not> fq_latest q \<and> \<not> fq_latest_per_subject q \<and> length ?run = n")
    case True
    have pos: "\<forall>f\<in>set ?vs. 1 \<le> fact_sequence f"
      using assms(2) get by (metis get_fact_def)
    have "distinct (map fact_key ?vs)"
      using keyed_distinct [OF K] by (rule distinct_map_filter)
    then have "distinct (map fact_sequence ?vs)"
      by (auto simp: distinct_map inj_on_def fact_key_def)
    then have d: "distinct (map fact_sequence ?ws)"
      by (auto simp: distinct_map_filter simp del: filter_filter split: option.split)
    have "take n (sort_key fact_sequence ?ws) = ?run"
    proof (rule sorted_prefix_run [where g = fact_sequence and s = ?start])
      show "\<forall>i<n. ?run ! i \<in> set (sort_key fact_sequence ?ws) \<and> fact_sequence (?run ! i) = ?start + int i"
      proof (intro allI impI)
        fix i assume "i < n"
        then have "?look (?start + int i) = Some (?run ! i)"
          using True consecutive_nth [of i ?look ?start n] by simp
        with keyed_get [OF K this] show "?run ! i \<in> set (sort_key fact_sequence ?ws) \<and>
            fact_sequence (?run ! i) = ?start + int i"
          by (auto simp: keyed_values [OF K] fact_key_def split: option.splits)
      qed
    qed (use d pos True in \<open>auto simp: distinct_map_sort_key split: option.splits\<close>)
    with True show ?thesis
      by (simp add: list_facts_def scan_fact_query_def Some Let_def limited_def)
  qed (auto simp: list_facts_def Some Let_def)
qed (simp add: list_facts_def)

text \<open>The values of a stream that is numbered from 1 without a gap, after a cursor, up to a limit.\<close>

lemma stream_run:
  assumes ok: "txn_ok t" and num: "\<And>i. get_fact t s i \<noteq> None \<longleftrightarrow> 1 \<le> i \<and> i \<le> len" and after: "0 \<le> after"
  shows "list_facts \<lparr>fq_stream = s, fq_after = Some after, fq_limit = Some n, fq_subject = None, fq_latest = False,
      fq_latest_per_subject = False\<rparr> t = map (\<lambda>i. the (get_fact t s i)) (take n [after + 1..len])"
proof -
  let ?q = "\<lparr>fq_stream = s, fq_after = Some after, fq_limit = Some n, fq_subject = None, fq_latest = False,
      fq_latest_per_subject = False\<rparr>"
  let ?look = "\<lambda>i. the (get_fact t s i)"
  have K: "keyed fact_key (t_facts t)" using ok by (rule txn_okD)
  have low: "\<forall>i f. get_fact t (fq_stream ?q) i = Some f \<longrightarrow> 1 \<le> i" using num by force
  let ?vs = "filter (\<lambda>f. after < fact_sequence f) (filter (\<lambda>f. fact_stream f = s) (ov_values (t_facts t)))"
  have at: "fact_stream f = s \<and> fact_sequence f = i" if "get_fact t s i = Some f" for f i
    using keyed_get [OF K] that by (auto simp: get_fact_def fact_key_def)
  have look: "get_fact t s i = Some (?look i) \<and> fact_sequence (?look i) = i" if "after + 1 \<le> i" "i \<le> len" for i
    using num [of i] at [of i] that after by force
  have seqs: "map fact_sequence (map ?look [after + 1..len]) = [after + 1..len]"
    unfolding map_map comp_def by (rule map_idI) (use look in auto)
  have member: "f \<in> set (ov_values (t_facts t)) \<and> fact_stream f = s \<longleftrightarrow> get_fact t s (fact_sequence f) = Some f" for f
    using at by (auto simp: keyed_values [OF K] fact_key_def get_fact_def)
  have sets: "set ?vs = set (map ?look [after + 1..len])"
  proof (intro set_eqI iffI)
    fix f assume "f \<in> set ?vs"
    then have f: "get_fact t s (fact_sequence f) = Some f" "after < fact_sequence f" using member [of f] by auto
    moreover have "fact_sequence f \<le> len" using f(1) num [of "fact_sequence f"] by simp
    ultimately show "f \<in> set (map ?look [after + 1..len])" by (auto intro!: image_eqI [of _ _ "fact_sequence f"])
  next
    fix f assume "f \<in> set (map ?look [after + 1..len])"
    then obtain i where i: "after + 1 \<le> i" "i \<le> len" "f = ?look i" by auto
    with look [OF i(1,2)] member [of f] show "f \<in> set ?vs" by auto
  qed
  have "distinct (map (\<lambda>f. (fact_stream f, fact_sequence f)) ?vs)"
    using distinct_map_fact_key [OF keyed_distinct [OF K]] by (intro distinct_map_filter)
  then have "distinct (map fact_sequence ?vs)" by (auto simp: distinct_map inj_on_def)
  then have "sort_key fact_sequence ?vs = map ?look [after + 1..len]"
    by (intro sorted_map_unique [of _ _ fact_sequence]) (simp_all only: set_sort sets seqs sorted_sort_key
        distinct_map_sort_key sorted_upto distinct_upto)
  then show ?thesis unfolding list_facts_scan [OF ok low] by (simp add: scan_fact_query_def limited_def take_map)
qed

section \<open>A gate that lets each dispatch through once\<close>

text \<open>
  The contract of a dispatch gate: steps keep the state well formed and keep what is reserved,
  and nothing reserved is admitted.
\<close>

locale dispatch_gate =
  fixes step :: "'s \<Rightarrow> 's \<Rightarrow> bool" and ok :: "'s \<Rightarrow> bool"
    and reserved :: "'i \<Rightarrow> 's \<Rightarrow> bool" and admits :: "'i \<Rightarrow> 's \<Rightarrow> bool"
  assumes step_ok: "step m m' \<Longrightarrow> ok m \<Longrightarrow> ok m'"
    and step_kept: "step m m' \<Longrightarrow> ok m \<Longrightarrow> reserved i m \<Longrightarrow> reserved i m'"
    and admits_unreserved: "admits i m \<Longrightarrow> \<not> reserved i m"
begin

lemma steps_ok: "rtranclp step m m' \<Longrightarrow> ok m \<Longrightarrow> ok m'"
  by (induction rule: rtranclp_induct) (auto dest: step_ok)

lemma steps_kept: "rtranclp step m m' \<Longrightarrow> ok m \<Longrightarrow> reserved i m \<Longrightarrow> reserved i m'"
  by (induction rule: rtranclp_induct) (auto intro: step_kept steps_ok)

lemma refused_forever: "rtranclp step m m' \<Longrightarrow> ok m \<Longrightarrow> reserved i m \<Longrightarrow> \<not> admits i m'"
  using steps_kept admits_unreserved by blast

end

end
