(* ===== verification/Task_Values.thy ===== *)
theory Task_Values
  imports Core_Values
begin

text \<open>
  The value objects of \<open>ai/task/_graph.py\<close>: limits, node definitions, leases, node views,
  terminal records and results.  A frozen dataclass is a record and its \<open>__post_init__\<close> a
  function that returns the value or \<open>ValueError\<close>; \<open>replace(view, ...)\<close> in the code is an
  update followed by \<open>make_view\<close>.

  The policies of a node are strings in the code, checked against a fixed set; here they
  are datatypes with one constructor per string.  Timeouts and delays, finite floats in the
  code, are integers of seconds.  \<open>TaskRef\<close> and \<open>TaskExpanderRef\<close> are pairs of id and
  revision.
\<close>

section \<open>Limits\<close>

record task_limits =
  max_concurrency :: int
  max_depth :: int
  max_nodes :: int
  max_budget :: int

definition make_limits :: "task_limits \<Rightarrow> task_limits res" where
  "make_limits l =
     ensure (1 \<le> max_concurrency l \<and> 1 \<le> max_depth l \<and> 1 \<le> max_nodes l \<and> 1 \<le> max_budget l)
       ValueError (Inr l)"

section \<open>Node definitions\<close>

datatype dependency_policy = All_succeeded | All_terminal | Any_succeeded
datatype failure_policy = Propagate | Isolate
datatype effect_policy = No_effect | Replay_safe | Non_replay_safe

text \<open>\<open>TaskResultRef\<close> (namespace, tenant, graph, node, digest) and \<open>TaskNodeResultRef\<close>.\<close>

datatype result_ref =
    Retained string string string string string
  | Symbolic string

fun result_ref_ok :: "result_ref \<Rightarrow> bool" where
  "result_ref_ok (Retained ns tenant graph node dg) =
     (\<not> blank ns \<and> \<not> blank tenant \<and> \<not> blank graph \<and> \<not> blank node \<and> is_sha256 dg)"
| "result_ref_ok (Symbolic node) = (\<not> blank node)"

record input_capture =
  ic_namespace :: string
  ic_tenant :: string
  ic_capture :: string
  ic_digest :: string
  ic_source :: string

record task_node =
  tn_id :: string
  tn_deps :: "string list"
  tn_task :: "(string \<times> int) option"
  tn_input :: "(string \<times> json) list"
  tn_original :: "(string \<times> json) list option"
  tn_cost :: int
  tn_expander :: "(string \<times> int) option"
  tn_refs :: "(string \<times> result_ref) list"
  tn_capture :: "input_capture option"
  tn_timeout :: "int option"
  tn_attempts :: int
  tn_delay :: int
  tn_contract :: "(string \<times> json) list option"
  tn_effects :: effect_policy
  tn_reconcile :: bool
  tn_policy :: dependency_policy
  tn_failure :: failure_policy

fun json_keys_ok :: "json \<Rightarrow> bool"
  and items_keys_ok :: "json list \<Rightarrow> bool"
  and pairs_keys_ok :: "(string \<times> json) list \<Rightarrow> bool" where
  "json_keys_ok (JList xs) = items_keys_ok xs"
| "json_keys_ok (JObj kvs) = pairs_keys_ok kvs"
| "json_keys_ok _ = True"
| "items_keys_ok [] = True"
| "items_keys_ok (x # xs) = (json_keys_ok x \<and> items_keys_ok xs)"
| "pairs_keys_ok [] = True"
| "pairs_keys_ok ((k, v) # kvs) = (k \<noteq> [] \<and> json_keys_ok v \<and> pairs_keys_ok kvs)"

text \<open>The check of \<open>ImmutableJsonMapping\<close>: the root has no empty key, nested objects may.\<close>

definition root_keys_ok :: "(string \<times> json) list \<Rightarrow> bool" where
  "root_keys_ok kvs = list_all (\<lambda>(k, _). k \<noteq> []) kvs"

lemma root_keys_ok_simps [simp]:
  "root_keys_ok []" "root_keys_ok ((k, v) # kvs) \<longleftrightarrow> k \<noteq> [] \<and> root_keys_ok kvs"
  by (simp_all add: root_keys_ok_def)

definition node_identity_ok :: "task_node \<Rightarrow> bool" where
  "node_identity_ok n =
     ((case tn_timeout n of None \<Rightarrow> True | Some s \<Rightarrow> 0 < s) \<and> 0 \<le> tn_delay n \<and>
      \<not> blank (tn_id n) \<and> list_all (\<lambda>d. \<not> blank d) (tn_deps n) \<and> distinct (tn_deps n) \<and>
      1 \<le> tn_cost n \<and> 1 \<le> tn_attempts n)"

text \<open>An input name may repeat a dependency only as the symbolic result of that dependency.\<close>

definition input_ref_ok :: "string list \<Rightarrow> string \<times> result_ref \<Rightarrow> bool" where
  "input_ref_ok deps = (\<lambda>(name, ref).
     case ref of
       Symbolic node \<Rightarrow> node \<in> set deps \<and> \<not> (name \<in> set deps \<and> name \<noteq> node)
     | Retained _ _ _ _ _ \<Rightarrow> name \<notin> set deps)"

definition init_node :: "task_node \<Rightarrow> task_node res" where
  "init_node n =
     ensure (node_identity_ok n) ValueError
       (ensure (pairs_keys_ok (tn_input n)) ValueError
         (ensure (list_all (\<lambda>(name, _). name \<noteq> []) (tn_refs n)) ValueError
           (ensure (list_all (input_ref_ok (tn_deps n)) (tn_refs n)) ValueError
             (ensure (tn_capture n = None \<or> tn_input n = []) ValueError
               (ensure (case tn_contract n of None \<Rightarrow> True | Some c \<Rightarrow> pairs_keys_ok c) ValueError
                 (ensure (case tn_original n of None \<Rightarrow> True | Some kvs \<Rightarrow> root_keys_ok kvs) ValueError
                   (Inr n)))))))"

text \<open>
  \<open>dependency_status\<close>: what the states of the dependencies make of a node.  A dependency
  without a state is the \<open>KeyError\<close> of the lookup.
\<close>

definition dependency_status :: "task_node \<Rightarrow> (string \<Rightarrow> task_status option) \<Rightarrow> task_status res" where
  "dependency_status n states =
     ebind (emap (\<lambda>d. of_option KeyError (states d)) (tn_deps n)) (\<lambda>statuses. Inr (
       case tn_policy n of
         All_succeeded \<Rightarrow>
           if list_ex (\<lambda>s. terminal s \<and> s \<noteq> SUCCEEDED) statuses then BLOCKED
           else if list_all (\<lambda>s. s = SUCCEEDED) statuses then READY
           else PENDING
       | All_terminal \<Rightarrow> if list_all terminal statuses then READY else PENDING
       | Any_succeeded \<Rightarrow>
           if \<not> list_all terminal statuses then PENDING
           else if list_ex (\<lambda>s. s = SUCCEEDED) statuses then READY
           else BLOCKED))"

lemma init_node_Inr [eres]: "init_node n = Inr m \<Longrightarrow> m = n"
  by (auto simp: init_node_def eres)

lemma init_node_ok: "init_node n = Inr m \<Longrightarrow> node_identity_ok n"
  by (auto simp: init_node_def eres)

lemma dependency_status_cases:
  assumes "dependency_status n states = Inr s"
  shows "s \<in> {READY, PENDING, BLOCKED}"
  using assms by (cases "tn_policy n") (auto simp: dependency_status_def eres split: if_splits)

section \<open>Leases\<close>

record task_lease =
  ls_graph :: string
  ls_node :: string
  ls_tenant :: string
  ls_owner :: string
  ls_fence :: int
  ls_expires :: int
  ls_execution :: "string option"

definition make_lease :: "task_lease \<Rightarrow> task_lease res" where
  "make_lease l =
     ensure (text_ok 128 (ls_tenant l) \<and> text_ok 256 (ls_owner l)) ValueError
       (ensure (\<not> blank (ls_graph l) \<and> \<not> blank (ls_node l) \<and> 1 \<le> ls_fence l \<and>
                (case ls_execution l of None \<Rightarrow> True | Some e \<Rightarrow> \<not> blank e)) ValueError
         (Inr l))"

lemma make_lease_Inr [eres]: "make_lease l = Inr m \<Longrightarrow> m = l"
  by (auto simp: make_lease_def eres)

section \<open>Node views\<close>

record node_view =
  nv_graph :: string
  nv_id :: string
  nv_deps :: "string list"
  nv_status :: task_status
  nv_owner :: "string option"
  nv_fence :: int
  nv_expires :: "int option"
  nv_result :: "string option"
  nv_error :: "string option"
  nv_error_digest :: "string option"
  nv_execution :: "string option"
  nv_next_attempt :: "int option"
  nv_occupies :: bool
  nv_origin :: "string option"
  nv_details :: details

definition some_text :: "string option \<Rightarrow> bool" where
  "some_text s = (case s of None \<Rightarrow> False | Some t \<Rightarrow> \<not> blank t)"

definition view_ok :: "node_view \<Rightarrow> bool" where
  "view_ok v =
     ((case nv_owner v of None \<Rightarrow> True | Some ow \<Rightarrow> text_ok 256 ow) \<and>
      (nv_status v = PENDING \<longrightarrow> nv_execution v = None) \<and>
      nv_origin v \<in> {None, Some ''node'', Some ''execution''} \<and> root_keys_ok (nv_details v) \<and>
      (nv_occupies v \<longrightarrow> nv_status v = WAITING) \<and>
      (nv_next_attempt v \<noteq> None \<longrightarrow> nv_status v = READY \<and> nv_execution v \<noteq> None) \<and>
      (nv_status v = RECOVERY_REQUIRED \<longrightarrow>
         nv_owner v = None \<and> nv_expires v = None \<and> 1 \<le> nv_fence v \<and> nv_result v = None \<and>
         some_text (nv_error v) \<and> nv_error_digest v \<noteq> None) \<and>
      (nv_status v = WAITING \<longrightarrow>
         some_text (nv_execution v) \<and> nv_owner v = None \<and> nv_expires v = None \<and>
         1 \<le> nv_fence v \<and> nv_result v = None \<and> nv_error v = None \<and> nv_error_digest v = None))"

definition make_view :: "node_view \<Rightarrow> node_view res" where
  "make_view v = ensure (view_ok v) ValueError (Inr v)"

lemma make_view_Inr [eres]: "make_view v = Inr w \<longleftrightarrow> view_ok v \<and> w = v"
  by (auto simp: make_view_def eres)

section \<open>Graph headers and terminal records\<close>

record graph_view =
  gv_id :: string
  gv_status :: task_status
  gv_nodes :: "task_node list"

record terminal_record =
  tr_node :: string
  tr_owner :: "string option"
  tr_fence :: int
  tr_status :: task_status
  tr_result :: "string option"
  tr_error :: "string option"
  tr_error_digest :: "string option"
  tr_execution :: "string option"

definition make_terminal :: "terminal_record \<Rightarrow> terminal_record res" where
  "make_terminal r =
     ensure (case tr_owner r of None \<Rightarrow> True | Some ow \<Rightarrow> text_ok 256 ow) ValueError
       (ensure (1 \<le> tr_fence r) ValueError (Inr r))"

record result_record =
  rr_graph :: string
  rr_node :: string
  rr_digest :: string
  rr_execution :: string

definition make_result :: "result_record \<Rightarrow> result_record res" where
  "make_result r =
     ensure (\<not> blank (rr_graph r)) ValueError
       (ensure (\<not> blank (rr_node r)) ValueError
         (ensure (is_sha256 (rr_digest r)) ValueError
           (ensure (\<not> blank (rr_execution r)) ValueError (Inr r))))"

text \<open>
  \<open>_wait_status\<close>: a running graph that can only be moved by an external input waits.
\<close>

definition wait_status :: "task_status \<Rightarrow> task_status list \<Rightarrow> task_status" where
  "wait_status status states =
     (if status \<noteq> RUNNING then status
      else
        let unfinished = filter (\<lambda>s. \<not> terminal s) states in
        if unfinished \<noteq> [] \<and> list_ex (\<lambda>s. s = WAITING) unfinished \<and>
           list_all (\<lambda>s. s \<notin> {READY, RUNNING}) unfinished
        then WAITING else status)"

record graph_state =
  gs_id :: string
  gs_status :: task_status
  gs_nodes :: "task_node list"
  gs_views :: "node_view list"
  gs_event_seq :: int

definition make_graph_state :: "graph_state \<Rightarrow> graph_state res" where
  "make_graph_state g =
     ensure (\<not> blank (gs_id g)) ValueError
       (ensure (0 \<le> gs_event_seq g) ValueError
         (ensure (distinct (map tn_id (gs_nodes g)) \<and> map tn_id (gs_nodes g) = map nv_id (gs_views g))
            ValueError
           (ensure (list_all (\<lambda>(n, v). nv_graph v = gs_id g \<and> nv_deps v = tn_deps n)
                      (zip (gs_nodes g) (gs_views g))) ValueError
             (Inr g))))"

end
