(* ===== verification/Task_Graph.thy ===== *)
theory Task_Graph
  imports Task_Values
begin

text \<open>
  \<open>TaskGraph\<close> of \<open>ai/task/_graph.py\<close>: the checks of \<open>__post_init__\<close>, the deterministic
  topological order and the limits.  \<open>heapq\<close> is a priority queue of distinct node ids:
  here a sorted list, \<open>heappush\<close> inserting and \<open>heappop\<close> taking the head.  The loop has
  fuel, one more than the number of nodes; \<open>kahn_total\<close> shows that it never runs out.

  The locale \<open>topological_sorting\<close> states what the callers rely on: an order exists exactly
  for an acyclic graph, and it lists every node once, after its dependencies.
\<close>

section \<open>The order\<close>

record task_graph =
  tg_id :: string
  tg_nodes :: "task_node list"

text \<open>The loop runs on ids with their dependencies, of node definitions or of node views.\<close>

type_synonym dep_table = "(string \<times> string list) list"

definition deps_table :: "task_node list \<Rightarrow> dep_table" where
  "deps_table nodes = map (\<lambda>n. (tn_id n, tn_deps n)) nodes"

definition graph_ids :: "dep_table \<Rightarrow> string list" where
  "graph_ids nodes = map fst nodes"

text \<open>\<open>dependents[u]\<close>: appended once for each occurrence of \<open>u\<close> among the dependencies.\<close>

definition dependents :: "dep_table \<Rightarrow> string \<Rightarrow> string list" where
  "dependents nodes u =
     concat (map (\<lambda>n. map (\<lambda>_. fst n) (filter (\<lambda>d. d = u) (snd n))) nodes)"

definition indegree :: "dep_table \<Rightarrow> string \<Rightarrow> int" where
  "indegree nodes u =
     (case map_of (map (\<lambda>n. (fst n, int (length (snd n)))) nodes) u of None \<Rightarrow> 0 | Some n \<Rightarrow> n)"

fun relax :: "string list \<Rightarrow> (string \<Rightarrow> int) \<Rightarrow> string list \<Rightarrow> (string \<Rightarrow> int) \<times> string list" where
  "relax [] deg ready = (deg, ready)"
| "relax (v # vs) deg ready =
     relax vs (deg(v := deg v - 1)) (if deg v - 1 = 0 then insort v ready else ready)"

fun kahn :: "nat \<Rightarrow> (string \<Rightarrow> string list) \<Rightarrow> (string \<Rightarrow> int) \<Rightarrow> string list \<Rightarrow> string list \<Rightarrow> string list option" where
  "kahn fuel deps_of deg [] order = Some order"
| "kahn 0 deps_of deg (u # ready) order = None"
| "kahn (Suc fuel) deps_of deg (u # ready) order =
     (let (deg', ready') = relax (deps_of u) deg ready in kahn fuel deps_of deg' ready' (order @ [u]))"

definition kahn_run :: "dep_table \<Rightarrow> string list option" where
  "kahn_run nodes =
     kahn (Suc (length nodes)) (dependents nodes) (indegree nodes)
       (sort (filter (\<lambda>u. indegree nodes u = 0) (graph_ids nodes))) []"

definition table_order :: "dep_table \<Rightarrow> string list option" where
  "table_order nodes =
     (case kahn_run nodes of
        None \<Rightarrow> None
      | Some order \<Rightarrow> if length order = length nodes then Some order else None)"

definition graph_closed :: "dep_table \<Rightarrow> bool" where
  "graph_closed nodes =
     list_all (\<lambda>n. list_all (\<lambda>d. d \<in> set (graph_ids nodes)) (snd n)) nodes"

section \<open>Depths\<close>

definition depth_step :: "(string \<Rightarrow> string list) \<Rightarrow> string \<Rightarrow> (string \<Rightarrow> int) \<Rightarrow> (string \<Rightarrow> int)" where
  "depth_step deps u depths = depths(u := 1 + fold max (map depths (deps u)) 0)"

definition deps_of_node :: "dep_table \<Rightarrow> string \<Rightarrow> string list" where
  "deps_of_node nodes u =
     (case map_of nodes u of None \<Rightarrow> [] | Some ds \<Rightarrow> ds)"

definition node_depths :: "dep_table \<Rightarrow> string list \<Rightarrow> string \<Rightarrow> int" where
  "node_depths nodes order = fold (depth_step (deps_of_node nodes)) order (\<lambda>_. 0)"

section \<open>Edges\<close>

definition edges :: "dep_table \<Rightarrow> (string \<times> string) set" where
  "edges nodes = {(d, fst n) | n d. n \<in> set nodes \<and> d \<in> set (snd n)}"

text \<open>A list of nodes as \<open>__post_init__\<close> accepts it before it looks for cycles.\<close>

definition graph_wf :: "dep_table \<Rightarrow> bool" where
  "graph_wf nodes =
     (distinct (graph_ids nodes) \<and> graph_closed nodes \<and> list_all (\<lambda>n. distinct (snd n)) nodes)"

lemma graph_wf_node:
  "graph_wf nodes \<Longrightarrow> n \<in> set nodes \<Longrightarrow> m \<in> set nodes \<Longrightarrow> fst n = fst m \<Longrightarrow> n = m"
  by (auto simp: graph_wf_def graph_ids_def distinct_map inj_on_def)

lemma deps_of_node_eq:
  assumes "graph_wf nodes" and "n \<in> set nodes"
  shows "deps_of_node nodes (fst n) = snd n"
proof -
  have "map_of (map (\<lambda>n. (fst n, snd n)) nodes) (fst n) = Some (snd n)"
    using assms by (intro map_of_is_SomeI) (auto simp: graph_wf_def graph_ids_def comp_def)
  then show ?thesis by (simp add: deps_of_node_def)
qed

lemma edges_node:
  assumes "graph_wf nodes" and "n \<in> set nodes"
  shows "(d, fst n) \<in> edges nodes \<longleftrightarrow> d \<in> set (snd n)"
proof -
  have "(d, fst n) \<in> edges nodes \<longleftrightarrow> (\<exists>m. m \<in> set nodes \<and> fst n = fst m \<and> d \<in> set (snd m))"
    unfolding edges_def by (simp only: mem_Collect_eq prod.inject) blast
  also have "\<dots> \<longleftrightarrow> d \<in> set (snd n)"
    using graph_wf_node [OF assms(1)] assms(2) by metis
  finally show ?thesis .
qed

lemma indegree_eq:
  assumes "graph_wf nodes" and "v \<in> set (graph_ids nodes)"
  shows "indegree nodes v = int (card {d. (d, v) \<in> edges nodes})"
proof -
  from assms(2) obtain n where n: "n \<in> set nodes" "fst n = v" by (auto simp: graph_ids_def)
  have "map_of (map (\<lambda>n. (fst n, int (length (snd n)))) nodes) v = Some (int (length (snd n)))"
    using assms(1) n by (intro map_of_is_SomeI) (auto simp: graph_wf_def graph_ids_def comp_def)
  moreover have "{d. (d, v) \<in> edges nodes} = set (snd n)"
    using edges_node [OF assms(1) n(1)] n(2) by auto
  moreover have "distinct (snd n)"
    using assms(1) n by (auto simp: graph_wf_def list_all_iff)
  ultimately show ?thesis by (simp add: indegree_def distinct_card)
qed

lemma edges_ids:
  "graph_wf nodes \<Longrightarrow> (d, v) \<in> edges nodes \<Longrightarrow> d \<in> set (graph_ids nodes) \<and> v \<in> set (graph_ids nodes)"
  by (force simp: edges_def graph_wf_def graph_closed_def list_all_iff graph_ids_def)

lemma finite_edges: "finite (edges nodes)"
proof -
  have "edges nodes = set (concat (map (\<lambda>n. map (\<lambda>d. (d, fst n)) (snd n)) nodes))"
    by (auto simp: edges_def)
  then show ?thesis by simp
qed

lemma set_dependents: "set (dependents nodes u) = {v. (u, v) \<in> edges nodes}"
  by (auto simp: dependents_def edges_def)

lemma filter_eq_distinct: "distinct xs \<Longrightarrow> filter (\<lambda>d. d = u) xs = (if u \<in> set xs then [u] else [])"
  by (induction xs) auto

lemma distinct_dependents:
  assumes "graph_wf nodes"
  shows "distinct (dependents nodes u)"
proof -
  have "list_all (\<lambda>n. distinct (snd n)) ns \<Longrightarrow> distinct (map fst ns) \<Longrightarrow> distinct (dependents ns u)" for ns
  proof (induction ns)
    case (Cons n ns)
    have "set (dependents ns u) \<subseteq> fst ` set ns" by (auto simp: dependents_def)
    moreover have "dependents (n # ns) u = (if u \<in> set (snd n) then [fst n] else []) @ dependents ns u"
      using Cons.prems by (simp add: dependents_def filter_eq_distinct)
    ultimately show ?case using Cons by auto
  qed (simp add: dependents_def)
  then show ?thesis using assms by (simp add: graph_wf_def graph_ids_def)
qed

section \<open>The loop\<close>

lemma relax_effect:
  assumes "distinct vs" and "relax vs deg ready = (deg', ready')" and "sorted ready"
    and "set vs \<inter> set ready = {}" and "distinct ready"
  shows "deg' = (\<lambda>v. if v \<in> set vs then deg v - 1 else deg v) \<and>
    set ready' = set ready \<union> {v \<in> set vs. deg v = 1} \<and> sorted ready' \<and> distinct ready'"
  using assms
proof (induction vs arbitrary: deg ready)
  case (Cons v vs)
  let ?deg = "deg(v := deg v - 1)" and ?ready = "if deg v - 1 = 0 then insort v ready else ready"
  have r: "relax vs ?deg ?ready = (deg', ready')" using Cons.prems(2) by simp
  have s: "sorted ?ready" "distinct ?ready" "set vs \<inter> set ?ready = {}" "distinct vs"
    using Cons.prems by (auto simp: sorted_insort set_insort_key distinct_insort)
  from Cons.IH [OF s(4) r s(1) s(3) s(2)] Cons.prems(1) show ?case
    by (auto simp: fun_eq_iff set_insort_key split: if_splits)
qed auto

text \<open>
  The invariant of the loop: the order so far is closed under dependencies, a node's degree
  counts the dependencies that are still out, and \<open>ready\<close> holds the nodes with none.
\<close>

definition kahn_inv ::
  "dep_table \<Rightarrow> (string \<Rightarrow> int) \<Rightarrow> string list \<Rightarrow> string list \<Rightarrow> bool" where
  "kahn_inv nodes deg ready order = (
     distinct (order @ ready) \<and> sorted ready \<and> set (order @ ready) \<subseteq> set (graph_ids nodes) \<and>
     (\<forall>v\<in>set (graph_ids nodes). deg v = int (card {d. (d, v) \<in> edges nodes \<and> d \<notin> set order})) \<and>
     (\<forall>v\<in>set (graph_ids nodes). v \<in> set (order @ ready) \<longleftrightarrow> deg v = 0) \<and>
     (\<forall>i<length order. \<forall>d. (d, order ! i) \<in> edges nodes \<longrightarrow> d \<in> set (take i order)))"

lemma finite_sources: "finite {d. (d, v) \<in> edges nodes \<and> P d}"
proof -
  have "{d. (d, v) \<in> edges nodes \<and> P d} \<subseteq> fst ` edges nodes" by force
  then show ?thesis using finite_edges finite_surj by blast
qed

lemma kahn_inv_start:
  assumes "graph_wf nodes"
  shows "kahn_inv nodes (indegree nodes) (sort (filter (\<lambda>u. indegree nodes u = 0) (graph_ids nodes))) []"
  using assms indegree_eq [OF assms]
  by (auto simp: kahn_inv_def graph_wf_def)

lemma kahn_inv_step:
  assumes wf: "graph_wf nodes" and inv: "kahn_inv nodes deg (u # ready) order"
    and r: "relax (dependents nodes u) deg ready = (deg', ready')"
  shows "kahn_inv nodes deg' ready' (order @ [u])"
proof -
  let ?ids = "set (graph_ids nodes)" and ?vs = "set (dependents nodes u)"
  let ?out = "\<lambda>ord v. {d. (d, v) \<in> edges nodes \<and> d \<notin> set ord}"
  have dist: "distinct (order @ u # ready)" and srt: "sorted (u # ready)"
      and sub: "set (order @ u # ready) \<subseteq> ?ids"
      and deg: "\<And>v. v \<in> ?ids \<Longrightarrow> deg v = int (card (?out order v))"
      and zero: "\<And>v. v \<in> ?ids \<Longrightarrow> v \<in> set (order @ u # ready) \<longleftrightarrow> deg v = 0"
      and closed: "\<And>i d. i < length order \<Longrightarrow> (d, order ! i) \<in> edges nodes \<Longrightarrow> d \<in> set (take i order)"
    using inv unfolding kahn_inv_def by blast+
  have u: "u \<in> ?ids" "u \<notin> set order" "u \<notin> set ready" using dist sub by auto
  have ids: "v \<in> ?ids" if "v \<in> ?vs" for v
    using that edges_ids [OF wf, of u v] by (simp add: set_dependents)
  have pos: "0 < deg v" if "v \<in> ?vs" for v
  proof -
    have "u \<in> ?out order v" using that u by (simp add: set_dependents)
    then have "?out order v \<noteq> {}" by blast
    then have "0 < card (?out order v)"
      using finite_sources [of v nodes "\<lambda>d. d \<notin> set order"] by (simp only: card_gt_0_iff simp_thms)
    then show ?thesis by (simp add: deg [OF ids [OF that]])
  qed
  have disj: "v \<notin> set (order @ u # ready)" if "v \<in> ?vs" for v
    using zero [OF ids [OF that]] pos [OF that] by simp
  have eff: "deg' = (\<lambda>v. if v \<in> ?vs then deg v - 1 else deg v) \<and>
      set ready' = set ready \<union> {v \<in> ?vs. deg v = 1} \<and> sorted ready' \<and> distinct ready'"
    using relax_effect [OF distinct_dependents [OF wf] r] disj srt dist by auto
  then have deg': "deg' v = (if v \<in> ?vs then deg v - 1 else deg v)"
    and ready': "v \<in> set ready' \<longleftrightarrow> v \<in> set ready \<or> v \<in> ?vs \<and> deg v = 1" for v
    by auto
  have c: "deg' v = int (card (?out (order @ [u]) v))" if v: "v \<in> ?ids" for v
  proof (cases "v \<in> ?vs")
    case True
    then have "u \<in> ?out order v" using u by (simp add: set_dependents)
    with finite_sources have "card (?out order v) = Suc (card (?out order v - {u}))"
      by (rule card.remove)
    moreover have "?out order v - {u} = ?out (order @ [u]) v" by auto
    ultimately have "card (?out order v) = Suc (card (?out (order @ [u]) v))" by (simp only:)
    with True deg [OF v] show ?thesis by (simp add: deg')
  next
    case False
    then have "(u, v) \<notin> edges nodes" by (simp add: set_dependents)
    then have "?out (order @ [u]) v = ?out order v" by (intro Collect_cong) auto
    with False deg [OF v] show ?thesis by (simp add: deg')
  qed
  have z: "v \<in> set ((order @ [u]) @ ready') \<longleftrightarrow> deg' v = 0" if v: "v \<in> ?ids" for v
    using zero [OF v] disj [of v] by (cases "v \<in> ?vs") (simp_all add: ready' deg')
  have m: "d \<in> set (take i (order @ [u]))"
    if "i < length (order @ [u])" and "(d, (order @ [u]) ! i) \<in> edges nodes" for i d
  proof (cases "i < length order")
    case True
    with that closed [of i d] show ?thesis by (simp add: nth_append)
  next
    case False
    with that have iu: "i = length order" "(d, u) \<in> edges nodes" by (simp_all add: nth_append less_Suc_eq)
    have "card (?out order u) = 0" using zero [OF u(1)] deg [OF u(1)] by simp
    then have "?out order u = {}"
      using finite_sources [of u nodes "\<lambda>d. d \<notin> set order"] by (simp only: card_0_eq)
    with iu show ?thesis by auto
  qed
  have "distinct ((order @ [u]) @ ready')"
    using dist eff disj by (auto simp: ready')
  moreover have "set ((order @ [u]) @ ready') \<subseteq> ?ids"
    using sub ids by (auto simp: ready')
  ultimately show ?thesis using eff c z m unfolding kahn_inv_def by blast
qed

text \<open>The loop ends within the fuel, and what it returns satisfies the invariant with nothing ready.\<close>

lemma kahn_ends:
  assumes "graph_wf nodes" and "kahn_inv nodes deg ready order" and "length nodes < length order + fuel"
  shows "\<exists>result deg'. kahn fuel (dependents nodes) deg ready order = Some result \<and>
    kahn_inv nodes deg' [] result"
  using assms(2,3)
proof (induction fuel arbitrary: deg ready order)
  case 0
  have "length (order @ ready) \<le> length (graph_ids nodes)"
    using 0(1) by (metis kahn_inv_def card_length card_mono distinct_card finite_set le_trans)
  with 0(2) show ?case by (simp add: graph_ids_def)
next
  case (Suc fuel)
  show ?case
  proof (cases ready)
    case Nil
    with Suc.prems show ?thesis by auto
  next
    case (Cons u rest)
    obtain deg' ready' where r: "relax (dependents nodes u) deg rest = (deg', ready')" by fastforce
    with Suc.prems(1) Cons have "kahn_inv nodes deg' ready' (order @ [u])"
      using kahn_inv_step [OF assms(1)] by blast
    from Suc.IH [OF this] Suc.prems(2) r Cons show ?thesis by simp
  qed
qed

lemma kahn_total:
  assumes "graph_wf nodes"
  shows "\<exists>result deg'. kahn_run nodes = Some result \<and> kahn_inv nodes deg' [] result"
  unfolding kahn_run_def by (rule kahn_ends [OF assms kahn_inv_start [OF assms]]) simp

section \<open>What the order is\<close>

lemma table_order_run:
  assumes "graph_wf nodes"
  obtains order deg where "kahn_run nodes = Some order" "kahn_inv nodes deg [] order"
    "table_order nodes = (if length order = length nodes then Some order else None)"
  using kahn_total [OF assms] by (auto simp: table_order_def)

lemma length_graph_ids [simp]: "length (graph_ids nodes) = length nodes"
  by (simp add: graph_ids_def)

lemma table_order_all:
  assumes "graph_wf nodes" and "table_order nodes = Some order"
  shows "distinct order" and "set order = set (graph_ids nodes)"
    and "i < length order \<Longrightarrow> (d, order ! i) \<in> edges nodes \<Longrightarrow> d \<in> set (take i order)"
proof -
  obtain deg where inv: "kahn_inv nodes deg [] order" and len: "length order = length nodes"
    using table_order_run [OF assms(1)] assms(2) by (metis option.distinct(1) option.inject)
  show d: "distinct order" using inv by (simp add: kahn_inv_def)
  have "set order \<subseteq> set (graph_ids nodes)" using inv by (simp add: kahn_inv_def)
  moreover have "card (set order) = card (set (graph_ids nodes))"
    using d len assms(1) by (simp add: distinct_card graph_wf_def)
  ultimately show "set order = set (graph_ids nodes)" by (simp add: card_subset_eq)
  show "i < length order \<Longrightarrow> (d, order ! i) \<in> edges nodes \<Longrightarrow> d \<in> set (take i order)"
    using inv unfolding kahn_inv_def by blast
qed

lemma order_acyclic:
  fixes R :: "('v \<times> 'v) set"
  assumes "distinct order" and "\<And>i d. i < length order \<Longrightarrow> (d, order ! i) \<in> R \<Longrightarrow> d \<in> set (take i order)"
    and "\<And>d v. (d, v) \<in> R \<Longrightarrow> v \<in> set order"
  shows "acyclic R"
proof -
  define pos where "pos = (\<lambda>v. THE i. i < length order \<and> order ! i = v)"
  have pos: "pos (order ! i) = i" if "i < length order" for i
    unfolding pos_def
    by (rule the_equality) (use that assms(1) in \<open>auto simp: nth_eq_iff_index_eq\<close>)
  have "R \<subseteq> measure pos"
  proof (clarsimp)
    fix d v assume e: "(d, v) \<in> R"
    then obtain i where i: "i < length order" "order ! i = v"
      using assms(3) by (metis in_set_conv_nth)
    with e assms(2) have "d \<in> set (take i order)" by blast
    then obtain j where "j < i" "order ! j = d" using i by (auto simp: in_set_conv_nth)
    with i pos show "pos d < pos v" by auto
  qed
  then show ?thesis using wf_measure wf_subset wf_acyclic by blast
qed

lemma table_order_acyclic:
  assumes "graph_wf nodes"
  shows "(\<exists>order. table_order nodes = Some order) \<longleftrightarrow> acyclic (edges nodes)"
proof
  assume "\<exists>order. table_order nodes = Some order"
  then obtain order where o: "table_order nodes = Some order" by blast
  show "acyclic (edges nodes)"
    using table_order_all [OF assms o] edges_ids [OF assms]
    by (intro order_acyclic [of order]) auto
next
  assume ac: "acyclic (edges nodes)"
  obtain order deg where inv: "kahn_inv nodes deg [] order"
    and eq: "table_order nodes = (if length order = length nodes then Some order else None)"
    using table_order_run [OF assms] by metis
  let ?left = "set (graph_ids nodes) - set order"
  have "wf (edges nodes)" using ac finite_edges finite_acyclic_wf by blast
  have "?left = {}"
  proof (rule ccontr)
    assume "?left \<noteq> {}"
    then obtain v where v: "v \<in> ?left" and min: "\<And>d. (d, v) \<in> edges nodes \<Longrightarrow> d \<notin> ?left"
      using \<open>wf (edges nodes)\<close> unfolding wf_eq_minimal by blast
    have "deg v \<noteq> 0" and "deg v = int (card {d. (d, v) \<in> edges nodes \<and> d \<notin> set order})"
      using inv v unfolding kahn_inv_def by auto
    then have "{d. (d, v) \<in> edges nodes \<and> d \<notin> set order} \<noteq> {}" by fastforce
    with min edges_ids [OF assms] show False by blast
  qed
  moreover have "distinct order" "set order \<subseteq> set (graph_ids nodes)"
    using inv by (simp_all add: kahn_inv_def)
  ultimately have "length order = length nodes"
    using assms distinct_card [of order] distinct_card [of "graph_ids nodes"]
    by (simp add: graph_wf_def)
  with eq show "\<exists>order. table_order nodes = Some order" by simp
qed

locale topological_sorting =
  fixes wf_graph :: "'g \<Rightarrow> bool"
    and vertices :: "'g \<Rightarrow> 'v set"
    and arcs :: "'g \<Rightarrow> ('v \<times> 'v) set"
    and sort_of :: "'g \<Rightarrow> 'v list option"
  assumes sortable: "wf_graph g \<Longrightarrow> (\<exists>order. sort_of g = Some order) \<longleftrightarrow> acyclic (arcs g)"
    and sorted_all: "wf_graph g \<Longrightarrow> sort_of g = Some order \<Longrightarrow> distinct order \<and> set order = vertices g"
    and sorted_after_deps: "wf_graph g \<Longrightarrow> sort_of g = Some order \<Longrightarrow> i < length order \<Longrightarrow>
      (d, order ! i) \<in> arcs g \<Longrightarrow> d \<in> set (take i order)"
begin

text \<open>
  A value computed along the order from the values of the dependencies satisfies its
  defining equation at every node: nothing is read before it is computed.
\<close>

lemma fold_prefix:
  "v \<notin> set us \<Longrightarrow> fold (\<lambda>u m. m(u := F u m)) us m v = m v"
  by (induction us arbitrary: m) auto

lemma computed_along_order:
  fixes F :: "'v \<Rightarrow> ('v \<Rightarrow> 'b) \<Rightarrow> 'b" and m0 :: "'v \<Rightarrow> 'b"
  assumes "wf_graph g" and "sort_of g = Some order"
    and local: "\<And>u m m'. (\<And>d. (d, u) \<in> arcs g \<Longrightarrow> m d = m' d) \<Longrightarrow> F u m = F u m'"
    and v: "v \<in> vertices g"
  defines "R \<equiv> fold (\<lambda>u m. m(u := F u m)) order m0"
  shows "R v = F v R"
proof -
  have dist: "distinct order" "v \<in> set order" using sorted_all [OF assms(1,2)] v by auto
  then obtain i where i: "i < length order" "order ! i = v" by (metis in_set_conv_nth)
  let ?f = "\<lambda>u m. m(u := F u m)"
  define P where "P = fold ?f (take i order) m0"
  have split: "order = take i order @ v # drop (Suc i) order"
    using i id_take_nth_drop by blast
  have R: "R = fold ?f (drop (Suc i) order) (P(v := F v P))"
    unfolding R_def P_def by (subst split) simp
  have "distinct (take i order @ v # drop (Suc i) order)"
    using dist(1) split by simp
  then have v: "v \<notin> set (take i order)" "v \<notin> set (drop (Suc i) order)"
    and tail: "\<And>d. d \<in> set (take i order) \<Longrightarrow> d \<notin> set (drop (Suc i) order)" by auto
  have Rv: "R v = F v P" using v(2) by (simp add: R fold_prefix)
  have Rd: "R d = P d" if "d \<in> set (take i order)" for d
    using tail [OF that] v(1) that by (auto simp: R fold_prefix)
  have "F v P = F v R"
  proof (rule local)
    fix d assume "(d, v) \<in> arcs g"
    then have "d \<in> set (take i order)" using sorted_after_deps [OF assms(1,2) i(1)] i(2) by blast
    with Rd show "P d = R d" by simp
  qed
  with Rv show ?thesis by simp
qed

lemma efold_frame:
  "efold (\<lambda>u m. ebind (F u m) (\<lambda>x. Inr (m(u := x)))) us m = Inr R \<Longrightarrow> v \<notin> set us \<Longrightarrow> R v = m v"
  by (induction us arbitrary: m) (auto simp: eres)

text \<open>
  The same for a loop that may fail and that updates values in place: at its turn a node
  still has its old value, and its dependencies have their final ones.
\<close>

lemma checked_along_order:
  fixes F :: "'v \<Rightarrow> ('v \<Rightarrow> 'b) \<Rightarrow> 'b res" and m0 :: "'v \<Rightarrow> 'b"
  assumes "wf_graph g" and "sort_of g = Some order"
    and run: "efold (\<lambda>u m. ebind (F u m) (\<lambda>x. Inr (m(u := x)))) order m0 = Inr R"
    and local: "\<And>u m m'. m u = m0 u \<Longrightarrow> m' u = m0 u \<Longrightarrow> (\<And>d. (d, u) \<in> arcs g \<Longrightarrow> m d = m' d) \<Longrightarrow>
      F u m = F u m'"
    and v: "v \<in> vertices g"
  shows "F v (R(v := m0 v)) = Inr (R v)"
proof -
  have dist: "distinct order" "v \<in> set order" using sorted_all [OF assms(1,2)] v by auto
  then obtain i where i: "i < length order" "order ! i = v" by (metis in_set_conv_nth)
  have split: "order = take i order @ v # drop (Suc i) order"
    using i id_take_nth_drop by blast
  have "distinct (take i order @ v # drop (Suc i) order)"
    using dist(1) split by simp
  then have v: "v \<notin> set (take i order)" "v \<notin> set (drop (Suc i) order)"
    and tail: "\<And>d. d \<in> set (take i order) \<Longrightarrow> d \<notin> set (drop (Suc i) order)" by auto
  let ?f = "\<lambda>u m. ebind (F u m) (\<lambda>x. Inr (m(u := x)))"
  have "efold ?f (take i order @ v # drop (Suc i) order) m0 = Inr R" using run split by simp
  then obtain P x where P: "efold ?f (take i order) m0 = Inr P" and x: "F v P = Inr x"
    and R: "efold ?f (drop (Suc i) order) (P(v := x)) = Inr R"
    by (auto simp: efold_append eres)
  have Rv: "R v = x" using efold_frame [OF R v(2)] by simp
  have Pv: "P v = m0 v" using efold_frame [OF P v(1)] .
  have "F v (R(v := m0 v)) = F v P"
  proof (rule local)
    fix d assume "(d, v) \<in> arcs g"
    then have d: "d \<in> set (take i order)" using sorted_after_deps [OF assms(1,2) i(1)] i(2) by blast
    with v(1) have "d \<noteq> v" by blast
    with efold_frame [OF R tail [OF d]] show "(R(v := m0 v)) d = P d" by simp
  qed (simp_all add: Pv)
  with x Rv show ?thesis by simp
qed

lemma checked_outside:
  assumes "wf_graph g" and "sort_of g = Some order"
    and "efold (\<lambda>u m. ebind (F u m) (\<lambda>x. Inr (m(u := x)))) order m0 = Inr R" and "v \<notin> vertices g"
  shows "R v = m0 v"
  using efold_frame [OF assms(3)] sorted_all [OF assms(1,2)] assms(4) by blast

end

interpretation graph_order: topological_sorting graph_wf "\<lambda>nodes. set (graph_ids nodes)" edges table_order
  by unfold_locales (auto simp: table_order_acyclic dest: table_order_all)

section \<open>Depths and chains\<close>

lemma node_depths_eq:
  assumes "graph_wf nodes" and "table_order nodes = Some order" and "n \<in> set nodes"
  shows "node_depths nodes order (fst n) =
    1 + fold max (map (node_depths nodes order) (snd n)) 0"
proof -
  let ?F = "\<lambda>(u :: string) (m :: string \<Rightarrow> int). 1 + fold max (map m (deps_of_node nodes u)) 0"
  let ?R = "fold (\<lambda>u m. m(u := ?F u m)) order (\<lambda>_. 0)"
  have dep: "(d, u) \<in> edges nodes" if "d \<in> set (deps_of_node nodes u)" for d u
    using that map_of_SomeD [of nodes u]
    by (cases "map_of nodes u") (auto simp: deps_of_node_def edges_def)
  have "?R (fst n) = ?F (fst n) ?R"
  proof (rule graph_order.computed_along_order [OF assms(1,2), where F = ?F])
    fix u and m m' :: "string \<Rightarrow> int"
    assume m: "\<And>d. (d, u) \<in> edges nodes \<Longrightarrow> m d = m' d"
    have "map m (deps_of_node nodes u) = map m' (deps_of_node nodes u)"
      by (rule map_cong [OF refl]) (rule m, erule dep)
    then show "?F u m = ?F u m'" by (simp only:)
  next
    show "fst n \<in> set (graph_ids nodes)" using assms(3) by (simp add: graph_ids_def)
  qed
  moreover have "node_depths nodes order = ?R"
    unfolding node_depths_def depth_step_def [abs_def] ..
  ultimately show ?thesis
    by (simp only: deps_of_node_eq [OF assms(1,3)])
qed

definition chain :: "dep_table \<Rightarrow> string list \<Rightarrow> bool" where
  "chain nodes us =
     (us \<noteq> [] \<and> set us \<subseteq> set (graph_ids nodes) \<and> successively (\<lambda>d v. (d, v) \<in> edges nodes) us)"

lemma chain_snoc:
  "us \<noteq> [] \<Longrightarrow> chain nodes (us @ [v]) \<longleftrightarrow>
    chain nodes us \<and> v \<in> set (graph_ids nodes) \<and> (last us, v) \<in> edges nodes"
  by (auto simp: chain_def successively_append_iff)

lemma depth_bounds_chains:
  assumes "graph_wf nodes" and "table_order nodes = Some order"
  shows "chain nodes us \<Longrightarrow> int (length us) \<le> node_depths nodes order (last us)"
proof (induction us rule: rev_induct)
  case (snoc v us)
  from snoc.prems obtain n where n: "n \<in> set nodes" "fst n = v"
    by (auto simp: chain_def graph_ids_def)
  note D = node_depths_eq [OF assms n(1), unfolded n(2)]
  show ?case
  proof (cases "us = []")
    case True
    with D fold_max_ge(1) [of 0 "map (node_depths nodes order) (snd n)"] show ?thesis by simp
  next
    case False
    with snoc.prems have c: "chain nodes us" and e: "(last us, v) \<in> edges nodes"
      by (simp_all add: chain_snoc)
    from e edges_node [OF assms(1) n(1)] n(2) have "last us \<in> set (snd n)" by simp
    then have "node_depths nodes order (last us) \<le>
        fold max (map (node_depths nodes order) (snd n)) 0"
      by (intro fold_max_ge(2)) simp
    with D snoc.IH [OF c] show ?thesis by simp
  qed
qed (simp add: chain_def)

lemma depth_attained:
  assumes "graph_wf nodes" and "table_order nodes = Some order"
  shows "v \<in> set (graph_ids nodes) \<Longrightarrow>
    \<exists>us. chain nodes us \<and> last us = v \<and> int (length us) = node_depths nodes order v"
proof -
  have "wf (edges nodes)"
    using table_order_acyclic [OF assms(1)] assms(2) finite_edges finite_acyclic_wf by blast
  then show "v \<in> set (graph_ids nodes) \<Longrightarrow> ?thesis"
  proof (induction v rule: wf_induct_rule)
    case (less v)
    then obtain n where n: "n \<in> set nodes" "fst n = v" by (auto simp: graph_ids_def)
    note D = node_depths_eq [OF assms n(1), unfolded n(2)]
    let ?m = "fold max (map (node_depths nodes order) (snd n)) 0"
    consider (zero) "?m = 0" | (dep) d where "d \<in> set (snd n)" "?m = node_depths nodes order d"
      using fold_max_in [of "map (node_depths nodes order) (snd n)" 0] by auto
    then show ?case
    proof cases
      case zero
      with D less.prems show ?thesis by (intro exI [of _ "[v]"]) (simp add: chain_def)
    next
      case dep
      with n have e: "(d, v) \<in> edges nodes" using edges_node [OF assms(1)] by blast
      with edges_ids [OF assms(1)] have "d \<in> set (graph_ids nodes)" by blast
      from less.IH [OF e this] obtain us where us: "chain nodes us" "last us = d"
          "int (length us) = node_depths nodes order d" by blast
      then have "us \<noteq> []" by (simp add: chain_def)
      with us e dep D less.prems show ?thesis
        by (intro exI [of _ "us @ [v]"]) (simp add: chain_snoc)
    qed
  qed
qed

section \<open>Task graphs\<close>

definition topological_order :: "task_node list \<Rightarrow> string list res" where
  "topological_order nodes =
     of_option (AIError TASK_DAG_INVALID [(''reason'', JStr ''cycle'')]) (table_order (deps_table nodes))"

definition make_graph :: "task_graph \<Rightarrow> task_graph res" where
  "make_graph g =
     ensure (\<not> blank (tg_id g)) ValueError
       (ensure (distinct (graph_ids (deps_table (tg_nodes g))))
          (AIError TASK_DAG_INVALID [(''reason'', JStr ''duplicate_node_id'')])
         (ensure (graph_closed (deps_table (tg_nodes g)))
            (AIError TASK_DAG_INVALID [(''reason'', JStr ''dependency_unknown'')])
           (ebind (topological_order (tg_nodes g)) (\<lambda>_. Inr g))))"

definition validate_limits :: "task_node list \<Rightarrow> task_limits \<Rightarrow> unit res" where
  "validate_limits nodes limits =
     ensure (int (length nodes) \<le> max_nodes limits) (ai TASK_DAG_INVALID)
       (ebind (topological_order nodes) (\<lambda>order.
          let depths = node_depths (deps_table nodes) order in
          ensure (fold max (map depths order) 0 \<le> max_depth limits) (ai TASK_DAG_INVALID)
            (ensure (sum_list (map tn_cost nodes) \<le> max_budget limits) (ai TASK_DAG_INVALID)
              (Inr ()))))"

text \<open>\<open>validate_limits\<close> bounds the longest chain of dependencies.\<close>

lemma length_deps_table [simp]: "length (deps_table nodes) = length nodes"
  by (simp add: deps_table_def)

lemma validate_limits_iff:
  assumes "graph_wf (deps_table nodes)" and "1 \<le> max_depth limits"
  shows "validate_limits nodes limits = Inr () \<longleftrightarrow>
    int (length nodes) \<le> max_nodes limits \<and> acyclic (edges (deps_table nodes)) \<and>
    (\<forall>us. chain (deps_table nodes) us \<longrightarrow> int (length us) \<le> max_depth limits) \<and>
    sum_list (map tn_cost nodes) \<le> max_budget limits"
proof (cases "acyclic (edges (deps_table nodes))")
  case True
  let ?tab = "deps_table nodes"
  from True obtain order where o: "table_order ?tab = Some order"
    using table_order_acyclic [OF assms(1)] by blast
  have "fold max (map (node_depths ?tab order) order) 0 \<le> max_depth limits \<longleftrightarrow>
      (\<forall>v\<in>set (graph_ids ?tab). node_depths ?tab order v \<le> max_depth limits)"
    using assms(2) table_order_all(2) [OF assms(1) o] by (simp add: fold_max_le)
  also have "\<dots> \<longleftrightarrow> (\<forall>us. chain ?tab us \<longrightarrow> int (length us) \<le> max_depth limits)"
  proof
    assume b: "\<forall>v\<in>set (graph_ids ?tab). node_depths ?tab order v \<le> max_depth limits"
    show "\<forall>us. chain ?tab us \<longrightarrow> int (length us) \<le> max_depth limits"
    proof (intro allI impI)
      fix us assume c: "chain ?tab us"
      then have "last us \<in> set (graph_ids ?tab)" unfolding chain_def by (meson last_in_set subsetD)
      with b depth_bounds_chains [OF assms(1) o c] show "int (length us) \<le> max_depth limits"
        by fastforce
    qed
  next
    assume "\<forall>us. chain ?tab us \<longrightarrow> int (length us) \<le> max_depth limits"
    then show "\<forall>v\<in>set (graph_ids ?tab). node_depths ?tab order v \<le> max_depth limits"
      using depth_attained [OF assms(1) o] by metis
  qed
  finally show ?thesis
    using True by (auto simp: validate_limits_def topological_order_def o eres Let_def)
next
  case False
  then show ?thesis
    using table_order_acyclic [OF assms(1)]
    by (cases "table_order (deps_table nodes)")
      (auto simp: validate_limits_def topological_order_def eres)
qed

lemma make_graph_wf:
  assumes "make_graph g = Inr g'" and "\<forall>n\<in>set (tg_nodes g). distinct (tn_deps n)"
  shows "g' = g" and "graph_wf (deps_table (tg_nodes g))" and "acyclic (edges (deps_table (tg_nodes g)))"
proof -
  from assms(1) show "g' = g" by (auto simp: make_graph_def eres)
  show wf: "graph_wf (deps_table (tg_nodes g))"
    using assms by (auto simp: make_graph_def eres graph_wf_def list_all_iff deps_table_def)
  show "acyclic (edges (deps_table (tg_nodes g)))"
    using assms(1) table_order_acyclic [OF wf]
    by (auto simp: make_graph_def topological_order_def eres)
qed

text \<open>Building a graph fails exactly for a blank id, a repeated id, an unknown dependency or a cycle.\<close>

lemma make_graph_iff:
  assumes "\<forall>n\<in>set (tg_nodes g). distinct (tn_deps n)"
  shows "make_graph g = Inr g \<longleftrightarrow>
    \<not> blank (tg_id g) \<and> distinct (map tn_id (tg_nodes g)) \<and>
    (\<forall>n\<in>set (tg_nodes g). \<forall>d\<in>set (tn_deps n). \<exists>m\<in>set (tg_nodes g). tn_id m = d) \<and>
    acyclic {(d, tn_id n) | n d. n \<in> set (tg_nodes g) \<and> d \<in> set (tn_deps n)}"
proof -
  have ids: "graph_ids (deps_table (tg_nodes g)) = map tn_id (tg_nodes g)"
    by (simp add: graph_ids_def deps_table_def)
  have e: "edges (deps_table (tg_nodes g)) =
      {(d, tn_id n) | n d. n \<in> set (tg_nodes g) \<and> d \<in> set (tn_deps n)}"
    by (auto simp: edges_def deps_table_def)
  have cl: "graph_closed (deps_table (tg_nodes g)) \<longleftrightarrow>
      (\<forall>n\<in>set (tg_nodes g). \<forall>d\<in>set (tn_deps n). \<exists>m\<in>set (tg_nodes g). tn_id m = d)"
    by (auto simp: graph_closed_def ids list_all_iff) (fastforce simp: deps_table_def image_iff)+
  show ?thesis
  proof (cases "distinct (map tn_id (tg_nodes g)) \<and> graph_closed (deps_table (tg_nodes g))")
    case True
    then have wf: "graph_wf (deps_table (tg_nodes g))"
      using assms by (simp add: graph_wf_def ids) (simp add: list_all_iff deps_table_def)
    show ?thesis
      using table_order_acyclic [OF wf] True
      by (cases "table_order (deps_table (tg_nodes g))")
        (auto simp: make_graph_def topological_order_def ids e cl [symmetric] eres)
  next
    case False
    then show ?thesis by (simp only: make_graph_def ids eres cl [symmetric]) blast
  qed
qed

end
