(* ===== verification/Task_State.thy ===== *)
theory Task_State
  imports Task_Graph
begin

text \<open>
  The pure state functions of the task repository: \<open>ai/persistence/_task_state.py\<close> (the
  status of a graph from its nodes) and the module functions of
  \<open>ai/persistence/_task_repository.py\<close> (lease check, reconciliation of nodes with their
  dependencies, validation of an expansion).

  Reconciliation runs over the nodes in topological order; \<open>reconciled_view\<close> is the body
  of the loop.  \<open>reconcile_fixpoint\<close> shows that each node of the result is what the body
  makes of it from the \<^emph>\<open>final\<close> states of its dependencies, and \<open>reconcile_idempotent\<close> that
  a second pass changes nothing.
\<close>

section \<open>Status of a graph\<close>

definition require_canonical :: "task_status \<Rightarrow> unit res" where
  "require_canonical s = ensure (s \<notin> {READY, WAITING}) (ai STORAGE_INTEGRITY_ERROR) (Inr ())"

text \<open>
  \<open>any(node.status is s and policies[node.node_id] == "propagate" ...)\<close>, with the
  \<open>KeyError\<close> of the lookup; a node in another state is not looked up.
\<close>

fun any_propagated ::
  "task_status \<Rightarrow> (string \<Rightarrow> failure_policy option) \<Rightarrow> node_view list \<Rightarrow> bool res" where
  "any_propagated s policies [] = Inr False"
| "any_propagated s policies (v # vs) =
     (if nv_status v = s
      then (case policies (nv_id v) of
              None \<Rightarrow> Inl KeyError
            | Some Propagate \<Rightarrow> Inr True
            | Some Isolate \<Rightarrow> any_propagated s policies vs)
      else any_propagated s policies vs)"

definition aggregate_status ::
  "node_view list \<Rightarrow> (string \<Rightarrow> failure_policy option) \<Rightarrow> task_status res" where
  "aggregate_status nodes policies =
     (let statuses = map nv_status nodes in
      if RECOVERY_REQUIRED \<in> set statuses then Inr RECOVERY_REQUIRED
      else if RUNNING \<in> set statuses \<or> WAITING \<in> set statuses then Inr RUNNING
      else if PENDING \<in> set statuses \<or> READY \<in> set statuses then Inr PENDING
      else
        ebind (any_propagated FAILED policies nodes) (\<lambda>failed.
          if failed then Inr FAILED
          else ebind (any_propagated BLOCKED policies nodes) (\<lambda>blocked.
            if blocked then Inr BLOCKED
            else if CANCELLED \<in> set statuses then Inr CANCELLED
            else Inr SUCCEEDED)))"

definition policy_of :: "task_node list \<Rightarrow> string \<Rightarrow> failure_policy option" where
  "policy_of definitions = map_of (rev (map (\<lambda>n. (tn_id n, tn_failure n)) definitions))"

definition isolated_status :: "node_view list \<Rightarrow> task_node list \<Rightarrow> task_status res" where
  "isolated_status nodes definitions =
     ensure (set (map tn_id definitions) = set (map nv_id nodes)) (ai STORAGE_INTEGRITY_ERROR)
       (aggregate_status nodes (policy_of definitions))"

definition effective_status :: "graph_view \<Rightarrow> node_view list \<Rightarrow> task_node list option \<Rightarrow> task_status res" where
  "effective_status graph nodes definitions =
     ebind (isolated_status nodes (case definitions of None \<Rightarrow> gv_nodes graph | Some ds \<Rightarrow> ds))
       (\<lambda>isolated.
          if isolated = RECOVERY_REQUIRED then Inr isolated
          else if gv_status graph = CANCELLED
          then ensure (list_all (\<lambda>v. terminal (nv_status v)) nodes \<and>
                       list_ex (\<lambda>v. nv_status v = CANCELLED) nodes)
                 (ai STORAGE_INTEGRITY_ERROR) (Inr CANCELLED)
          else Inr isolated)"

lemma policy_of_known: "v \<in> set (map tn_id ds) \<Longrightarrow> policy_of ds v \<noteq> None"
  by (auto simp: policy_of_def map_of_eq_None_iff image_image)

lemma any_propagated_eq:
  "\<forall>v\<in>set vs. policies (nv_id v) \<noteq> None \<Longrightarrow>
    any_propagated s policies vs =
      Inr (\<exists>v\<in>set vs. nv_status v = s \<and> policies (nv_id v) = Some Propagate)"
  by (induction vs) (auto split: option.splits failure_policy.splits)

text \<open>
  The status of a graph whose nodes all have definitions, in one equation: what dominates
  is recovery, then activity, then waiting work, and only then the outcomes.
\<close>

lemma isolated_status_eq:
  assumes "set (map tn_id ds) = set (map nv_id vs)"
  defines "has s \<equiv> \<exists>v\<in>set vs. nv_status v = s"
  defines "counts s \<equiv> \<exists>v\<in>set vs. nv_status v = s \<and> policy_of ds (nv_id v) = Some Propagate"
  shows "isolated_status vs ds = Inr (
    if has RECOVERY_REQUIRED then RECOVERY_REQUIRED
    else if has RUNNING \<or> has WAITING then RUNNING
    else if has PENDING \<or> has READY then PENDING
    else if counts FAILED then FAILED
    else if counts BLOCKED then BLOCKED
    else if has CANCELLED then CANCELLED
    else SUCCEEDED)"
proof -
  have "\<forall>v\<in>set vs. policy_of ds (nv_id v) \<noteq> None"
    using assms(1) policy_of_known [of _ ds] by auto
  note any = any_propagated_eq [OF this]
  have has: "s \<in> set (map nv_status vs) \<longleftrightarrow> has s" for s
    by (auto simp: has_def)
  show ?thesis
    by (simp only: isolated_status_def assms(1) ensure_True aggregate_status_def Let_def has any
        ebind_Inr counts_def if_distrib [of Inr] simp_thms)
qed

lemma isolated_status_Inr:
  "isolated_status vs ds = Inr s \<Longrightarrow> set (map tn_id ds) = set (map nv_id vs)"
  by (simp add: isolated_status_def eres)

text \<open>A graph is over exactly when every node is.\<close>

lemma isolated_status_terminal:
  assumes "isolated_status vs ds = Inr s"
  shows "terminal s \<longleftrightarrow> (\<forall>v\<in>set vs. terminal (nv_status v))"
proof -
  have "terminal t \<longleftrightarrow> t \<notin> {RECOVERY_REQUIRED, RUNNING, WAITING, PENDING, READY}" for t
    by (cases t) simp_all
  with assms isolated_status_eq [OF isolated_status_Inr [OF assms]] show ?thesis
    by (auto split: if_splits)
qed

lemma isolated_status_canonical: "isolated_status vs ds = Inr s \<Longrightarrow> s \<notin> {READY, WAITING}"
  using isolated_status_eq [OF isolated_status_Inr, of vs ds s] by (auto split: if_splits)

section \<open>Leases\<close>

definition resolve_execution :: "string option \<Rightarrow> string option \<Rightarrow> string option res" where
  "resolve_execution current supplied =
     (if current = None then Inr supplied
      else if supplied = None \<or> supplied = current then Inr current
      else Inl (ai STORAGE_INTEGRITY_ERROR))"

definition require_live_lease :: "node_view \<Rightarrow> task_lease \<Rightarrow> int \<Rightarrow> unit res" where
  "require_live_lease v lease now =
     ensure (\<not> (nv_status v \<noteq> RUNNING \<or> nv_owner v \<noteq> Some (ls_owner lease) \<or>
              nv_fence v \<noteq> ls_fence lease \<or>
              (case nv_expires v of None \<Rightarrow> True | Some e \<Rightarrow> e \<le> now)))
       (ai TASK_FENCE_STALE) (Inr ())"

definition validate_lease_scope :: "task_lease \<Rightarrow> string \<Rightarrow> unit res" where
  "validate_lease_scope lease tenant =
     ensure (ls_tenant lease = tenant) (ai REQUEST_FIELD_INVALID) (Inr ())"

lemma require_live_lease_eq [eres]:
  "require_live_lease v lease now = Inr u \<longleftrightarrow>
    nv_status v = RUNNING \<and> nv_owner v = Some (ls_owner lease) \<and> nv_fence v = ls_fence lease \<and>
    (\<exists>e. nv_expires v = Some e \<and> now < e)"
  by (auto simp: require_live_lease_def eres split: option.splits)

section \<open>Reconciliation\<close>

definition expire_view :: "int option \<Rightarrow> node_view \<Rightarrow> node_view res" where
  "expire_view now v =
     (case (now, nv_expires v) of
        (Some t, Some e) \<Rightarrow>
          if nv_status v = RUNNING \<and> e \<le> t
          then make_view (v\<lparr>nv_status := READY, nv_owner := None, nv_expires := None,
                            nv_next_attempt := None, nv_occupies := False\<rparr>)
          else Inr v
      | _ \<Rightarrow> Inr v)"

definition settle_view :: "node_view \<Rightarrow> task_status \<Rightarrow> node_view res" where
  "settle_view v s =
     (if s = BLOCKED
      then make_view (v\<lparr>nv_status := BLOCKED,
             nv_error := Some (code_value TASK_DEPENDENCY_FAILED), nv_error_digest := None\<rparr>)
      else if s = READY \<and> nv_status v = PENDING then make_view (v\<lparr>nv_status := READY\<rparr>)
      else if s = PENDING \<and> nv_status v = READY then make_view (v\<lparr>nv_status := PENDING\<rparr>)
      else Inr v)"

definition settled :: "node_view \<Rightarrow> bool" where
  "settled v = (terminal (nv_status v) \<or> nv_status v = RECOVERY_REQUIRED \<or> nv_execution v \<noteq> None)"

definition reconciled_view ::
  "(string \<times> task_node) list \<Rightarrow> int option \<Rightarrow> string \<Rightarrow> node_view \<Rightarrow>
    (string \<Rightarrow> task_status option) \<Rightarrow> node_view res" where
  "reconciled_view defs now u v statuses =
     ensure (\<not> (nv_status v = RUNNING \<and> (nv_owner v = None \<or> nv_fence v < 1 \<or> nv_expires v = None)))
       (ai STORAGE_INTEGRITY_ERROR)
       (ebind (expire_view now v) (\<lambda>w.
          if settled w then Inr w
          else
            (case map_of defs u of
               None \<Rightarrow> Inl (ai STORAGE_INTEGRITY_ERROR)
             | Some n \<Rightarrow>
                 ensure (tn_deps n = nv_deps w) (ai STORAGE_INTEGRITY_ERROR)
                   (ebind (dependency_status n statuses) (settle_view w)))))"

definition reconcile_step ::
  "(string \<times> task_node) list \<Rightarrow> int option \<Rightarrow> string \<Rightarrow> (string \<Rightarrow> node_view option) \<Rightarrow>
    node_view option res" where
  "reconcile_step defs now u values =
     (case values u of
        None \<Rightarrow> Inl KeyError
      | Some v \<Rightarrow>
          ebind (reconciled_view defs now u v (\<lambda>d. map_option nv_status (values d)))
            (\<lambda>w. Inr (Some w)))"

definition views_table :: "node_view list \<Rightarrow> dep_table" where
  "views_table vs = map (\<lambda>v. (nv_id v, nv_deps v)) vs"

definition reconcile ::
  "node_view list \<Rightarrow> (string \<times> task_node) list \<Rightarrow> int option \<Rightarrow> node_view list res" where
  "reconcile vs defs now =
     ensure (distinct (map nv_id vs) \<and> set (map fst defs) = set (map nv_id vs))
       (ai STORAGE_INTEGRITY_ERROR)
       (ensure (graph_closed (views_table vs)) (ai STORAGE_INTEGRITY_ERROR)
         (ebind (of_option (ai STORAGE_INTEGRITY_ERROR) (table_order (views_table vs))) (\<lambda>order.
           ebind (efold (\<lambda>u values. ebind (reconcile_step defs now u values)
                     (\<lambda>x. Inr (values(u := x)))) order (map_of (map (\<lambda>v. (nv_id v, v)) vs)))
             (\<lambda>values. emap (\<lambda>v. of_option KeyError (values (nv_id v))) vs))))"

text \<open>What the loop body reads: the node itself and its dependencies.\<close>

lemma dependency_status_cong:
  "(\<And>d. d \<in> set (tn_deps n) \<Longrightarrow> f d = g d) \<Longrightarrow> dependency_status n f = dependency_status n g"
proof -
  assume eq: "\<And>d. d \<in> set (tn_deps n) \<Longrightarrow> f d = g d"
  have "emap (\<lambda>d. of_option KeyError (f d)) ds = emap (\<lambda>d. of_option KeyError (g d)) ds"
    if "set ds \<subseteq> set (tn_deps n)" for ds
    using that by (induction ds) (auto simp: eq)
  then show ?thesis by (simp add: dependency_status_def)
qed

lemma make_view_frame: "make_view v = Inr w \<Longrightarrow> w = v"
  by (simp add: make_view_Inr)

lemma expire_view_frame:
  "expire_view now v = Inr w \<Longrightarrow> nv_id w = nv_id v \<and> nv_deps w = nv_deps v \<and> nv_graph w = nv_graph v \<and>
    nv_fence w = nv_fence v \<and> nv_execution w = nv_execution v"
  by (auto simp: expire_view_def make_view_Inr split: option.splits if_splits)

lemma settle_view_frame:
  "settle_view v s = Inr w \<Longrightarrow> nv_id w = nv_id v \<and> nv_deps w = nv_deps v \<and> nv_graph w = nv_graph v \<and>
    nv_fence w = nv_fence v \<and> nv_execution w = nv_execution v"
  by (auto simp: settle_view_def make_view_Inr split: if_splits)

lemma reconciled_view_frame:
  assumes "reconciled_view defs now u v st = Inr w"
  shows "nv_id w = nv_id v \<and> nv_deps w = nv_deps v \<and> nv_graph w = nv_graph v \<and>
    nv_fence w = nv_fence v \<and> nv_execution w = nv_execution v"
proof -
  from assms obtain x where x: "expire_view now v = Inr x" and
    "w = x \<or> (\<exists>s. settle_view x s = Inr w)"
    by (auto simp: reconciled_view_def eres split: if_splits option.splits)
  then show ?thesis using expire_view_frame [OF x] by (auto dest: settle_view_frame)
qed

lemma reconciled_view_cong:
  "(\<And>d. d \<in> set (nv_deps v) \<Longrightarrow> f d = g d) \<Longrightarrow>
    reconciled_view defs now u v f = reconciled_view defs now u v g"
  unfolding reconciled_view_def
  by (intro arg_cong [where f = "ensure _ _"] ebind_cong refl)
    (auto simp: ensure_def split: option.split
      intro!: arg_cong [where f = "\<lambda>m. ebind m _"] dependency_status_cong dest: expire_view_frame)

text \<open>The run of \<open>reconcile\<close>, and what each node ends as.\<close>

definition view_of :: "node_view list \<Rightarrow> string \<Rightarrow> node_view option" where
  "view_of vs = map_of (map (\<lambda>v. (nv_id v, v)) vs)"

definition status_of :: "node_view list \<Rightarrow> string \<Rightarrow> task_status option" where
  "status_of vs u = map_option nv_status (view_of vs u)"

lemma view_of_eq: "distinct (map nv_id vs) \<Longrightarrow> view_of vs u = Some v \<longleftrightarrow> v \<in> set vs \<and> nv_id v = u"
  by (auto simp: view_of_def map_of_by_key)

lemma view_of_None: "view_of vs u = None \<longleftrightarrow> u \<notin> set (map nv_id vs)"
  by (auto simp: view_of_def map_of_eq_None_iff image_image)

definition views_wf :: "node_view list \<Rightarrow> bool" where
  "views_wf vs =
     (distinct (map nv_id vs) \<and> (\<forall>v\<in>set vs. distinct (nv_deps v) \<and> set (nv_deps v) \<subseteq> nv_id ` set vs))"

lemma views_wf_table: "views_wf vs \<longleftrightarrow> graph_wf (views_table vs)"
  by (auto simp: views_wf_def graph_wf_def graph_closed_def graph_ids_def views_table_def list_all_iff
      comp_def subset_iff)

lemma edges_views: "(d, u) \<in> edges (views_table vs) \<longleftrightarrow> (\<exists>v\<in>set vs. nv_id v = u \<and> d \<in> set (nv_deps v))"
  by (auto simp: edges_def views_table_def)

lemma ids_views: "set (graph_ids (views_table vs)) = nv_id ` set vs"
  by (simp add: graph_ids_def views_table_def image_image)

definition reconcile_body ::
  "(string \<times> task_node) list \<Rightarrow> int option \<Rightarrow> string \<Rightarrow> (string \<Rightarrow> node_view option) \<Rightarrow>
    (string \<Rightarrow> node_view option) res" where
  "reconcile_body defs now u values =
     ebind (reconcile_step defs now u values) (\<lambda>x. Inr (values(u := x)))"

lemma reconcile_run:
  assumes "reconcile vs defs now = Inr ws" and "\<forall>v\<in>set vs. distinct (nv_deps v)"
  obtains order R where "views_wf vs" "table_order (views_table vs) = Some order"
    "efold (reconcile_body defs now) order (view_of vs) = Inr R"
    "list_all2 (\<lambda>v w. R (nv_id v) = Some w) vs ws"
    "set (map fst defs) = set (map nv_id vs)"
proof -
  from assms(1) obtain order R where *: "distinct (map nv_id vs)" "graph_closed (views_table vs)"
      "table_order (views_table vs) = Some order" "set (map fst defs) = set (map nv_id vs)"
      "efold (reconcile_body defs now) order (view_of vs) = Inr R"
      "emap (\<lambda>v. of_option KeyError (R (nv_id v))) vs = Inr ws"
    unfolding reconcile_def view_of_def reconcile_body_def [abs_def]
    by (simp only: eres) blast
  have "graph_wf (views_table vs)"
    using *(1,2) assms(2) by (simp add: graph_wf_def) (simp add: graph_ids_def views_table_def list_all_iff comp_def)
  moreover have "list_all2 (\<lambda>v w. R (nv_id v) = Some w) vs ws"
    using *(6) by (simp add: emap_eq_Inr eres)
  ultimately show thesis using * that by (simp add: views_wf_table)
qed

lemma reconcile_step_local:
  assumes "views_wf vs" and "m u = view_of vs u" and "m' u = view_of vs u"
    and "\<And>d. (d, u) \<in> edges (views_table vs) \<Longrightarrow> m d = m' d"
  shows "reconcile_step defs now u m = reconcile_step defs now u m'"
proof (cases "view_of vs u")
  case (Some v)
  with assms(1) have v: "v \<in> set vs" "nv_id v = u" by (auto simp: view_of_eq views_wf_def)
  have "reconciled_view defs now u v (\<lambda>d. map_option nv_status (m d)) =
      reconciled_view defs now u v (\<lambda>d. map_option nv_status (m' d))"
  proof (rule reconciled_view_cong)
    fix d assume "d \<in> set (nv_deps v)"
    with v have "(d, u) \<in> edges (views_table vs)" by (auto simp: edges_views)
    then show "map_option nv_status (m d) = map_option nv_status (m' d)" by (simp only: assms(4))
  qed
  with Some assms(2,3) show ?thesis by (simp add: reconcile_step_def)
qed (use assms in \<open>simp add: reconcile_step_def\<close>)

lemma no_self_edge:
  assumes "table_order nodes = Some order" and "graph_wf nodes"
  shows "(v, v) \<notin> edges nodes"
  using table_order_acyclic [OF assms(2)] assms(1) by (auto simp: acyclic_def dest: r_into_trancl')

text \<open>
  Each node of the result is the loop body applied to the old node and the final states of
  its dependencies.
\<close>

lemma reconcile_fixpoint:
  assumes "reconcile vs defs now = Inr ws" and "\<forall>v\<in>set vs. distinct (nv_deps v)"
  shows "list_all2 (\<lambda>v w. reconciled_view defs now (nv_id v) v (status_of ws) = Inr w) vs ws"
    and "map nv_id ws = map nv_id vs" and "map nv_deps ws = map nv_deps vs"
proof -
  obtain order R where wf: "views_wf vs" and o: "table_order (views_table vs) = Some order"
    and run: "efold (reconcile_body defs now) order (view_of vs) = Inr R"
    and ws: "list_all2 (\<lambda>v w. R (nv_id v) = Some w) vs ws"
    using reconcile_run [OF assms] by metis
  note gwf = wf [unfolded views_wf_table]
  have body: "reconciled_view defs now (nv_id v) v (\<lambda>d. map_option nv_status (R d)) = Inr w"
    if v: "v \<in> set vs" and w: "R (nv_id v) = Some w" for v w
  proof -
    have vv: "view_of vs (nv_id v) = Some v" using wf v by (simp add: view_of_eq views_wf_def)
    have "reconcile_step defs now (nv_id v) (R(nv_id v := view_of vs (nv_id v))) = Inr (R (nv_id v))"
    proof (rule graph_order.checked_along_order [OF gwf o run [unfolded reconcile_body_def [abs_def]]])
      show "nv_id v \<in> set (graph_ids (views_table vs))" using v by (simp add: ids_views)
    qed (rule reconcile_step_local [OF wf])
    with vv w have "reconciled_view defs now (nv_id v) v
        (\<lambda>d. map_option nv_status ((R(nv_id v := Some v)) d)) = Inr w"
      by (auto simp: reconcile_step_def eres)
    moreover have "d \<noteq> nv_id v" if "d \<in> set (nv_deps v)" for d
      using that v no_self_edge [OF o gwf] by (auto simp: edges_views)
    ultimately show ?thesis
      by (subst reconciled_view_cong [where g = "\<lambda>d. map_option nv_status ((R(nv_id v := Some v)) d)"]) auto
  qed
  have frame: "nv_id w = nv_id v \<and> nv_deps w = nv_deps v" if "v \<in> set vs" "R (nv_id v) = Some w" for v w
    using body [OF that] reconciled_view_frame by blast
  have ids: "map nv_id ws = map nv_id vs" and deps: "map nv_deps ws = map nv_deps vs"
    using ws frame by (auto intro!: list_all2_map_eq elim!: list_all2_mono2)
  show "map nv_id ws = map nv_id vs" "map nv_deps ws = map nv_deps vs" by (fact ids deps)+
  have R: "R u = view_of ws u" if u: "u \<in> nv_id ` set vs" for u
  proof -
    from u obtain i where i: "i < length vs" "nv_id (vs ! i) = u" by (auto simp: in_set_conv_nth)
    with ws have "R u = Some (ws ! i)" and "i < length ws" by (auto simp: list_all2_conv_all_nth)
    moreover have "nv_id (ws ! i) = u" using ids i by (metis length_map nth_map)
    moreover have "distinct (map nv_id ws)" using ids wf by (simp add: views_wf_def)
    ultimately have "view_of ws u = Some (ws ! i)"
      by (intro view_of_eq [THEN iffD2]) simp_all
    with \<open>R u = Some (ws ! i)\<close> show ?thesis by simp
  qed
  show "list_all2 (\<lambda>v w. reconciled_view defs now (nv_id v) v (status_of ws) = Inr w) vs ws"
  proof (rule list_all2_all_nthI)
    show "length vs = length ws" using ws by (rule list_all2_lengthD)
    fix i assume i: "i < length vs"
    then have v: "vs ! i \<in> set vs" and w: "R (nv_id (vs ! i)) = Some (ws ! i)"
      using ws by (auto simp: list_all2_conv_all_nth)
    have "status_of ws d = map_option nv_status (R d)" if "d \<in> set (nv_deps (vs ! i))" for d
    proof -
      have "d \<in> nv_id ` set vs" using that v wf by (auto simp: views_wf_def)
      with R show ?thesis by (simp only: status_of_def)
    qed
    with body [OF v w] show "reconciled_view defs now (nv_id (vs ! i)) (vs ! i) (status_of ws) = Inr (ws ! i)"
      by (subst reconciled_view_cong [where g = "\<lambda>d. map_option nv_status (R d)"]) auto
  qed
qed

text \<open>A second pass changes nothing.\<close>

definition guard_ok :: "node_view \<Rightarrow> bool" where
  "guard_ok v =
     (\<not> (nv_status v = RUNNING \<and> (nv_owner v = None \<or> nv_fence v < 1 \<or> nv_expires v = None)))"

lemma expire_view_again:
  assumes "expire_view now v = Inr x" and "guard_ok v"
  shows "expire_view now x = Inr x \<and> guard_ok x"
  using assms by (auto simp: expire_view_def guard_ok_def make_view_Inr split: option.splits if_splits)

lemma settle_view_again:
  assumes "settle_view x s = Inr w" and "expire_view now x = Inr x" and "guard_ok x" and "\<not> settled x"
  shows "expire_view now w = Inr w \<and> guard_ok w \<and> (settled w \<or> settle_view w s = Inr w)"
proof -
  from assms(1) consider "w = x" "s \<noteq> BLOCKED" "\<not> (s = READY \<and> nv_status x = PENDING)"
      "\<not> (s = PENDING \<and> nv_status x = READY)"
    | "nv_status w = BLOCKED" | "s = READY" "nv_status w = READY" | "s = PENDING" "nv_status w = PENDING"
    by (auto simp: settle_view_def make_view_Inr split: if_splits)
  then show ?thesis
    using assms(2-4)
    by cases (auto simp: settle_view_def expire_view_def guard_ok_def settled_def split: option.splits)
qed

lemma reconciled_view_again:
  assumes "reconciled_view defs now u v st = Inr w"
  shows "reconciled_view defs now u w st = Inr w"
proof -
  from assms obtain x where g: "guard_ok v" and x: "expire_view now v = Inr x" and
    w: "settled x \<and> w = x \<or> \<not> settled x \<and> (\<exists>n s. map_of defs u = Some n \<and> tn_deps n = nv_deps x \<and>
      dependency_status n st = Inr s \<and> settle_view x s = Inr w)"
    by (auto simp: reconciled_view_def guard_ok_def eres split: if_splits option.splits)
  note x' = expire_view_again [OF x g]
  from w show ?thesis
  proof
    assume "settled x \<and> w = x"
    with x' show ?thesis by (simp add: reconciled_view_def guard_ok_def)
  next
    assume "\<not> settled x \<and> (\<exists>n s. map_of defs u = Some n \<and> tn_deps n = nv_deps x \<and>
      dependency_status n st = Inr s \<and> settle_view x s = Inr w)"
    then obtain n s where n: "map_of defs u = Some n" "tn_deps n = nv_deps x"
        "dependency_status n st = Inr s" and sv: "settle_view x s = Inr w" "\<not> settled x" by blast
    have "expire_view now w = Inr w \<and> guard_ok w \<and> (settled w \<or> settle_view w s = Inr w)"
      using settle_view_again [OF sv(1)] x' sv(2) by blast
    moreover have "nv_deps w = nv_deps x" using settle_view_frame [OF sv(1)] by simp
    ultimately show ?thesis using n by (auto simp: reconciled_view_def guard_ok_def)
  qed
qed

lemma efold_fixed:
  "(\<And>u. u \<in> set us \<Longrightarrow> F u R = Inr (R u)) \<Longrightarrow> efold (\<lambda>u m. ebind (F u m) (\<lambda>x. Inr (m(u := x)))) us R = Inr R"
  by (induction us) auto

lemma reconcile_idempotent:
  assumes "reconcile vs defs now = Inr ws" and "\<forall>v\<in>set vs. distinct (nv_deps v)"
  shows "reconcile ws defs now = Inr ws"
proof -
  obtain order where wf: "views_wf vs" and o: "table_order (views_table vs) = Some order"
    and ids_defs: "set (map fst defs) = set (map nv_id vs)"
    using reconcile_run [OF assms] by metis
  note fp = reconcile_fixpoint [OF assms]
  have tab: "views_table ws = views_table vs"
  proof -
    have "views_table xs = zip (map nv_id xs) (map nv_deps xs)" for xs
      by (simp add: views_table_def zip_map_map zip_same_conv_map)
    then show ?thesis using fp(2,3) by simp
  qed
  then have wf': "views_wf ws" using wf by (simp add: views_wf_table)
  have "reconcile_step defs now u (view_of ws) = Inr (view_of ws u)" if u: "u \<in> set order" for u
  proof -
    have "u \<in> set (map nv_id ws)"
      using u graph_order.sorted_all [OF wf [unfolded views_wf_table] o] fp(2) by (simp add: ids_views)
    then obtain i where i: "i < length ws" "nv_id (ws ! i) = u" by (auto simp: in_set_conv_nth)
    have iv: "i < length vs" "nv_id (vs ! i) = u"
      using i fp(2) by (metis length_map, metis length_map nth_map)
    have "reconciled_view defs now u (vs ! i) (status_of ws) = Inr (ws ! i)"
      using fp(1) iv by (auto simp: list_all2_conv_all_nth)
    then have "reconciled_view defs now u (ws ! i) (status_of ws) = Inr (ws ! i)"
      by (rule reconciled_view_again)
    moreover have "view_of ws u = Some (ws ! i)"
      using i wf' by (intro view_of_eq [THEN iffD2]) (simp_all add: views_wf_def)
    ultimately show ?thesis by (simp add: reconcile_step_def status_of_def [abs_def])
  qed
  then have run: "efold (reconcile_body defs now) order (view_of ws) = Inr (view_of ws)"
    unfolding reconcile_body_def [abs_def] by (rule efold_fixed)
  have "emap (\<lambda>v. of_option KeyError (view_of ws (nv_id v))) ws = Inr ws"
  proof -
    have "view_of ws (nv_id v) = Some v" if "v \<in> set ws" for v
      using that wf' by (simp add: view_of_eq views_wf_def)
    then show ?thesis using emap_Inr_id [of ws "\<lambda>v. of_option KeyError (view_of ws (nv_id v))" id] by simp
  qed
  moreover have "distinct (map nv_id ws)" "graph_closed (views_table ws)"
    using wf' wf by (simp add: views_wf_def, simp add: views_wf_table graph_wf_def tab)
  ultimately show ?thesis
    using run o ids_defs fp(2)
    unfolding reconcile_def reconcile_body_def [abs_def] view_of_def tab by simp
qed

text \<open>What a pass leaves alone: outcomes, recovery, and executions whose lease still runs.\<close>

lemma reconciled_view_cases:
  assumes "reconciled_view defs now u v st = Inr w"
  obtains (same) "w = v"
  | (expired) e t where "now = Some t" "nv_expires v = Some e" "e \<le> t" "nv_status v = RUNNING"
  | (settled) n s where "map_of defs u = Some n" "tn_deps n = nv_deps v" "dependency_status n st = Inr s"
      "nv_execution v = None" "\<not> terminal (nv_status v)" "nv_status v \<noteq> RECOVERY_REQUIRED" "settle_view v s = Inr w"
proof -
  from assms obtain x where x: "expire_view now v = Inr x" and
    w: "settled x \<and> w = x \<or> \<not> settled x \<and> (\<exists>n s. map_of defs u = Some n \<and> tn_deps n = nv_deps x \<and>
      dependency_status n st = Inr s \<and> settle_view x s = Inr w)"
    by (auto simp: reconciled_view_def eres split: if_splits option.splits)
  from x consider "x = v" | e t where "now = Some t" "nv_expires v = Some e" "e \<le> t" "nv_status v = RUNNING"
    by (auto simp: expire_view_def split: option.splits if_splits)
  then show thesis
  proof cases
    case 1
    with w show thesis by (auto simp: settled_def intro: same settled)
  qed (rule expired)
qed

section \<open>Expansion\<close>

definition expansion_error :: "string \<Rightarrow> string \<Rightarrow> string \<Rightarrow> string option \<Rightarrow> exc" where
  "expansion_error graph source reason conflict =
     AIError TASK_DAG_INVALID
       ([(''phase'', JStr ''task_graph_expansion''), (''reason'', JStr reason),
         (''graph_id'', JStr graph), (''source_node_id'', JStr source)] @
        (case conflict of None \<Rightarrow> [] | Some c \<Rightarrow> [(''conflict'', JStr c)]))"

fun first_unknown :: "string list \<Rightarrow> task_node list \<Rightarrow> string option" where
  "first_unknown ids [] = None"
| "first_unknown ids (n # ns) =
     (case List.find (\<lambda>d. d \<notin> set ids) (tn_deps n) of
        Some d \<Rightarrow> Some d
      | None \<Rightarrow> first_unknown ids ns)"

definition error_reason :: "details \<Rightarrow> string" where
  "error_reason ds = (case map_of ds ''reason'' of Some (JStr r) \<Rightarrow> r | _ \<Rightarrow> ''limits_exceeded'')"

definition refuse :: "('a \<Rightarrow> 'e) \<Rightarrow> 'a option \<Rightarrow> 'e + 'b \<Rightarrow> 'e + 'b" where
  "refuse f m k = (case m of None \<Rightarrow> k | Some x \<Rightarrow> Inl (f x))"

text \<open>\<open>TaskGraph(...).validate_limits(limits)\<close> with an \<open>AIError\<close> turned into the expansion error.\<close>

definition check_expanded :: "(string \<Rightarrow> exc) \<Rightarrow> task_graph \<Rightarrow> task_limits \<Rightarrow> unit res" where
  "check_expanded fail g limits =
     (case ebind (make_graph g) (\<lambda>g'. validate_limits (tg_nodes g') limits) of
        Inl (AIError _ ds) \<Rightarrow> Inl (fail (error_reason ds))
      | r \<Rightarrow> r)"

definition validate_expansion ::
  "task_graph \<Rightarrow> string \<Rightarrow> task_node list \<Rightarrow> task_limits \<Rightarrow> task_node list res" where
  "validate_expansion graph source expanded limits =
     (let fail = expansion_error (tg_id graph) source;
          existing = map tn_id (tg_nodes graph);
          added = map tn_id expanded;
          ordered = sort_key tn_id expanded in
      ebind (of_option (fail ''source_missing'' None)
               (List.find (\<lambda>n. tn_id n = source) (tg_nodes graph))) (\<lambda>src.
        ensure (\<not> (tn_expander src = None \<and> expanded \<noteq> [])) (fail ''source_has_no_expander'' None)
          (ensure (distinct added) (fail ''duplicate_node_id'' None)
            (refuse (\<lambda>c. fail ''node_id_conflict'' (Some c))
               (List.find (\<lambda>u. u \<in> set existing) added)
              (refuse (\<lambda>d. fail ''dependency_unknown'' (Some d))
                 (first_unknown (existing @ added) expanded)
                (ebind (check_expanded (\<lambda>r. fail r None)
                          \<lparr>tg_id = tg_id graph, tg_nodes = tg_nodes graph @ ordered\<rparr> limits)
                  (\<lambda>_. Inr ordered)))))))"

lemma refuse_eq_Inr [eres]: "refuse f m k = Inr y \<longleftrightarrow> m = None \<and> k = Inr y"
  by (auto simp: refuse_def split: option.splits)

lemma check_expanded_Inr [eres]:
  "check_expanded fail g limits = Inr u \<longleftrightarrow>
    make_graph g = Inr g \<and> validate_limits (tg_nodes g) limits = Inr ()"
proof -
  have "ebind (make_graph g) (\<lambda>g'. validate_limits (tg_nodes g') limits) = Inr u \<longleftrightarrow>
      make_graph g = Inr g \<and> validate_limits (tg_nodes g) limits = Inr ()"
    by (auto simp: ebind_eq_Inr make_graph_def ensure_eq_Inr)
  then show ?thesis
    by (auto simp: check_expanded_def split: sum.splits exc.splits)
qed

lemma find_None_all: "List.find P xs = None \<longleftrightarrow> (\<forall>x\<in>set xs. \<not> P x)"
  by (auto simp: find_None_iff)

text \<open>
  An accepted expansion: the new nodes are sorted, clash with nothing, depend on known nodes
  only, and the whole graph is acyclic and within the limits.
\<close>

lemma validate_expansion_Inr:
  assumes "validate_expansion graph source expanded limits = Inr added"
  shows "added = sort_key tn_id expanded"
    and "distinct (map tn_id expanded)"
    and "set (map tn_id (tg_nodes graph)) \<inter> set (map tn_id expanded) = {}"
    and "\<exists>src\<in>set (tg_nodes graph). tn_id src = source \<and> (expanded = [] \<or> tn_expander src \<noteq> None)"
    and "make_graph \<lparr>tg_id = tg_id graph, tg_nodes = tg_nodes graph @ added\<rparr> =
      Inr \<lparr>tg_id = tg_id graph, tg_nodes = tg_nodes graph @ added\<rparr>"
    and "validate_limits (tg_nodes graph @ added) limits = Inr ()"
proof -
  let ?g = "\<lparr>tg_id = tg_id graph, tg_nodes = tg_nodes graph @ sort_key tn_id expanded\<rparr>"
  from assms obtain src where src: "List.find (\<lambda>n. tn_id n = source) (tg_nodes graph) = Some src"
      and ex: "\<not> (tn_expander src = None \<and> expanded \<noteq> [])" and d: "distinct (map tn_id expanded)"
      and c: "List.find (\<lambda>u. u \<in> set (map tn_id (tg_nodes graph))) (map tn_id expanded) = None"
      and g: "make_graph ?g = Inr ?g" "validate_limits (tg_nodes ?g) limits = Inr ()"
      and a: "added = sort_key tn_id expanded"
    unfolding validate_expansion_def Let_def by (simp only: eres Inr_inject) blast
  show "added = sort_key tn_id expanded" "distinct (map tn_id expanded)" by (fact a d)+
  show "set (map tn_id (tg_nodes graph)) \<inter> set (map tn_id expanded) = {}"
    using c [unfolded find_None_all] by (simp only: set_map disjoint_iff) blast
  from src have "src \<in> set (tg_nodes graph)" "tn_id src = source"
    by (auto simp: find_Some_iff)
  with ex show "\<exists>src\<in>set (tg_nodes graph). tn_id src = source \<and> (expanded = [] \<or> tn_expander src \<noteq> None)" by blast
  show "make_graph \<lparr>tg_id = tg_id graph, tg_nodes = tg_nodes graph @ added\<rparr> =
      Inr \<lparr>tg_id = tg_id graph, tg_nodes = tg_nodes graph @ added\<rparr>"
    "validate_limits (tg_nodes graph @ added) limits = Inr ()" using g by (simp_all add: a)
qed

lemma settle_view_status:
  "settle_view v s = Inr w \<Longrightarrow> nv_status w =
    (if s = BLOCKED then BLOCKED else if s = READY \<and> nv_status v = PENDING then READY
     else if s = PENDING \<and> nv_status v = READY then PENDING else nv_status v)"
  by (auto simp: settle_view_def make_view_Inr split: if_splits)

end
