(* ===== verification/Datetimes.thy ===== *)
theory Datetimes
  imports Canonical_Json
begin

text \<open>
  The datetimes that payloads carry as text: \<open>datetime.isoformat\<close> and
  \<open>datetime.fromisoformat\<close> of the standard library, as \<open>ai/persistence/_task_events.py\<close> uses
  them and as the deadline of a budget is written.  A timezone-aware datetime is its instant, an \<open>int\<close> of microseconds since 1970; the
  code takes its times in UTC, so that is what \<open>isoformat\<close> writes.

  The reader accepts the form that \<open>isoformat\<close> writes, with any offset of hours and minutes.
  The other spellings of ISO 8601 that \<open>fromisoformat\<close> knows are refused, like every other
  string; text without an offset gives a naive datetime, which an event refuses with the same
  error.
\<close>

section \<open>The calendar\<close>

definition leap :: "int \<Rightarrow> bool" where
  "leap y = (y mod 4 = 0 \<and> (y mod 100 \<noteq> 0 \<or> y mod 400 = 0))"

definition month_lengths :: "int \<Rightarrow> int list" where
  "month_lengths y = [31, if leap y then 29 else 28, 31, 30, 31, 30, 31, 31, 30, 31, 30, 31]"

text \<open>The days before a year and before a month, and the number of a day, from 0 for 1 January of the year 1.\<close>

definition days_before_year :: "int \<Rightarrow> int" where
  "days_before_year y = 365 * (y - 1) + (y - 1) div 4 - (y - 1) div 100 + (y - 1) div 400"

definition day_number :: "int \<Rightarrow> nat \<Rightarrow> int \<Rightarrow> int" where
  "day_number y m d = days_before_year y + sum_list (take (m - 1) (month_lengths y)) + (d - 1)"

fun month_day :: "int list \<Rightarrow> int \<Rightarrow> nat \<times> int" where
  "month_day [] n = (1, n + 1)"
| "month_day (d # ds) n = (if n < d then (1, n + 1) else (case month_day ds (n - d) of (m, k) \<Rightarrow> (m + 1, k)))"

text \<open>
  The year of a day and its day in the year: whole cycles of 400, 100, 4 years and 1 year are
  split off, where the last day of a cycle belongs to its last year.
\<close>

definition year_day :: "int \<Rightarrow> int \<times> int" where
  "year_day n =
     (let a = n div 146097; r = n mod 146097;
          b = min 3 (r div 36524); s = r - 36524 * b;
          c = s div 1461; u = s mod 1461;
          e = min 3 (u div 365) in
      (400 * a + 100 * b + 4 * c + e + 1, u - 365 * e))"

lemma last_cycle:
  fixes r :: int
  assumes "0 \<le> r" and "r < d * (q + 1) + 1" and "0 < d" and "0 \<le> q"
  shows "0 \<le> min q (r div d)" and "min q (r div d) \<le> q" and "0 \<le> r - d * min q (r div d)"
    and "min q (r div d) < q \<longrightarrow> r - d * min q (r div d) < d" and "r - d * min q (r div d) \<le> d"
proof -
  have m: "r - d * (r div d) = r mod d" "0 \<le> r mod d" "r mod d < d" using assms(3) by (simp_all add: minus_mult_div_eq_mod)
  show "0 \<le> min q (r div d)" "min q (r div d) \<le> q" using assms by (simp_all add: pos_imp_zdiv_nonneg_iff)
  show "min q (r div d) < q \<longrightarrow> r - d * min q (r div d) < d" using m by (simp add: min_def)
  have "d * q \<le> r \<and> r - d * q \<le> d" if "q \<le> r div d"
  proof -
    have "d * q \<le> d * (r div d)" using that assms(3) by simp
    with m(2) m(1) have "d * q \<le> r" by linarith
    with assms(2) show ?thesis by (simp add: algebra_simps)
  qed
  then show "0 \<le> r - d * min q (r div d)" "r - d * min q (r div d) \<le> d" using m by (auto simp: min_def)
qed

lemma year_day_cycles:
  assumes "year_day n = (y, k)"
  obtains b c e where "y = 400 * (n div 146097) + 100 * b + 4 * c + e + 1"
    "n = 146097 * (n div 146097) + 36524 * b + 1461 * c + 365 * e + k"
    "0 \<le> b" "b \<le> 3" "b < 3 \<longrightarrow> 1461 * c + 365 * e + k < 36524" "0 \<le> c" "c \<le> 24" "0 \<le> e" "e \<le> 3"
    "0 \<le> k" "e < 3 \<longrightarrow> k < 365" "k \<le> 365"
proof -
  define r where "r = n mod 146097"
  define b s where "b = min 3 (r div 36524)" and "s = r - 36524 * b"
  define c u where "c = s div 1461" and "u = s mod 1461"
  define e where "e = min 3 (u div 365)"
  have y: "y = 400 * (n div 146097) + 100 * b + 4 * c + e + 1" and k: "k = u - 365 * e"
    using assms by (simp_all add: year_day_def Let_def r_def b_def s_def c_def u_def e_def)
  have r: "n = 146097 * (n div 146097) + r" "0 \<le> r" "r < 146097" by (simp_all add: r_def)
  have b: "0 \<le> b" "b \<le> 3" "0 \<le> s" "b < 3 \<longrightarrow> s < 36524" "s \<le> 36524"
    using last_cycle [of r 36524 3] r(2,3) by (simp_all add: b_def s_def)
  have c: "s = 1461 * c + u" "0 \<le> u" "u < 1461" by (simp_all add: c_def u_def)
  then have c4: "0 \<le> c" "c \<le> 24" using b(3,5) by simp_all
  have e: "0 \<le> e" "e \<le> 3" "0 \<le> k" "e < 3 \<longrightarrow> k < 365" "k \<le> 365"
    using last_cycle [of u 365 3] c(2,3) by (simp_all add: e_def k)
  have s: "s = 1461 * c + 365 * e + k" using c(1) k by simp
  then have n: "n = 146097 * (n div 146097) + 36524 * b + 1461 * c + 365 * e + k" using r(1) s_def by simp
  show ?thesis by (rule that [OF y n b(1,2) b(4) [unfolded s] c4 e])
qed

lemma year_day_eq:
  assumes "year_day n = (y, k)"
  shows "days_before_year y + k = n" and "0 \<le> k" and "k < (if leap y then 366 else 365)"
proof -
  define a where "a = n div 146097"
  from assms obtain b c e where
    y: "y = 400 * a + 100 * b + 4 * c + e + 1" and n: "n = 146097 * a + 36524 * b + 1461 * c + 365 * e + k"
    and b: "0 \<le> b" "b \<le> 3" "b < 3 \<longrightarrow> 1461 * c + 365 * e + k < 36524" and c: "0 \<le> c" "c \<le> 24"
    and e: "0 \<le> e" "e \<le> 3" "0 \<le> k" "e < 3 \<longrightarrow> k < 365" "k \<le> 365"
    unfolding a_def by (rule year_day_cycles)
  have "(y - 1) div 4 = 100 * a + 25 * b + c"
    by (rule int_div_pos_eq [where r = e]) (use y e in simp_all)
  moreover have "(y - 1) div 100 = 4 * a + b"
    by (rule int_div_pos_eq [where r = "4 * c + e"]) (use y e c in simp_all)
  moreover have "(y - 1) div 400 = a"
    by (rule int_div_pos_eq [where r = "100 * b + 4 * c + e"]) (use y e b c in simp_all)
  ultimately show "days_before_year y + k = n" unfolding days_before_year_def using y n by simp
  show "0 \<le> k" by (rule e(3))
  have "leap y" if "k = 365"
  proof -
    have e3: "e = 3" using e that by auto
    have y4: "y = 100 * (4 * a + b) + 4 * (c + 1)" unfolding y e3 by simp
    have "y mod 400 = 0" if "y mod 100 = 0"
    proof -
      have "(4 * (c + 1)) mod 100 = 0" using that by (simp only: y4 mod_mult_self4)
      then have "c = 24" using c by presburger
      with b e3 \<open>k = 365\<close> have "b = 3" by auto
      with \<open>c = 24\<close> have "y = 400 * (a + 1)" unfolding y4 by simp
      then show ?thesis by simp
    qed
    moreover have "y mod 4 = 0" unfolding y e3 by presburger
    ultimately show ?thesis unfolding leap_def by (cases "y mod 100 = 0") simp_all
  qed
  with e show "k < (if leap y then 366 else 365)" by (cases "k = 365") auto
qed

text \<open>The days of the years 1 to 9999 have their years in that range.\<close>

lemma year_day_range:
  assumes "year_day n = (y, k)" and "0 \<le> n" and "n < 3652059"
  shows "1 \<le> y" and "y \<le> 9999"
proof -
  define a where "a = n div 146097"
  from assms(1) obtain b c e where
    y: "y = 400 * a + 100 * b + 4 * c + e + 1" and n: "n = 146097 * a + 36524 * b + 1461 * c + 365 * e + k"
    and r: "0 \<le> b" "b \<le> 3" "0 \<le> c" "c \<le> 24" "0 \<le> e" "e \<le> 3" "0 \<le> k"
    unfolding a_def by (rule year_day_cycles)
  have "0 \<le> a" using assms(2) by (simp add: a_def pos_imp_zdiv_nonneg_iff)
  then show "1 \<le> y" using y r by simp
  show "y \<le> 9999"
  proof (cases "a \<le> 23")
    case True
    with y r show ?thesis by simp
  next
    case False
    with n r assms(3) have "a = 24" by simp
    with n r assms(3) have "\<not> (b = 3 \<and> c = 24 \<and> e = 3)" by auto
    with y r \<open>a = 24\<close> show ?thesis by linarith
  qed
qed

lemma month_day_eq:
  assumes "month_day ds n = (m, k)" and "0 \<le> n" and "n < sum_list ds" and "\<forall>d\<in>set ds. 0 < d"
  shows "1 \<le> m \<and> m \<le> length ds \<and> 1 \<le> k \<and> k \<le> ds ! (m - 1) \<and> sum_list (take (m - 1) ds) + (k - 1) = n"
  using assms
proof (induction ds n arbitrary: m k rule: month_day.induct)
  case (2 d ds n)
  show ?case
  proof (cases "n < d")
    case False
    then obtain m' where m': "month_day ds (n - d) = (m', k)" "m = m' + 1"
      using 2(2) by (auto split: prod.splits)
    have "1 \<le> m' \<and> m' \<le> length ds \<and> 1 \<le> k \<and> k \<le> ds ! (m' - 1) \<and> sum_list (take (m' - 1) ds) + (k - 1) = n - d"
      using 2(1) [OF False m'(1)] 2(3-5) False by simp
    then show ?thesis by (cases m') (auto simp: m'(2))
  qed (use 2 in simp)
qed simp

lemma month_lengths_sum: "sum_list (month_lengths y) = (if leap y then 366 else 365)"
  by (simp add: month_lengths_def)

lemma month_lengths_pos: "d \<in> set (month_lengths y) \<Longrightarrow> 0 < d \<and> d \<le> 31"
  by (auto simp: month_lengths_def split: if_splits)

section \<open>Text\<close>

fun padded :: "nat \<Rightarrow> int \<Rightarrow> string" where
  "padded 0 n = []"
| "padded (Suc k) n = padded k (n div 10) @ [hex_digit (nat (n mod 10))]"

definition digit_value :: "char \<Rightarrow> int" where
  "digit_value c = int (hex_val c)"

definition read_digits :: "nat \<Rightarrow> string \<Rightarrow> (int \<times> string) res" where
  "read_digits k s =
     ensure (k \<le> length s \<and> list_all is_digit (take k s)) ValueError
       (Inr (foldl (\<lambda>n c. 10 * n + digit_value c) 0 (take k s), drop k s))"

definition read_symbol :: "char \<Rightarrow> string \<Rightarrow> string res" where
  "read_symbol c s = (case s of [] \<Rightarrow> Inl ValueError | d # ds \<Rightarrow> ensure (d = c) ValueError (Inr ds))"

definition day_length :: int where
  "day_length = 86400000000"

text \<open>The instants of the years 1 to 9999, \<open>datetime.min\<close> to \<open>datetime.max\<close>.\<close>

definition datetime_ok :: "int \<Rightarrow> bool" where
  "datetime_ok t = (- 62135596800000000 \<le> t \<and> t < 253402300800000000)"

definition isoformat :: "int \<Rightarrow> string" where
  "isoformat t =
     (let (y, k) = year_day (t div day_length + 719162);
          (m, d) = month_day (month_lengths y) k;
          u = t mod day_length in
      padded 4 y @ ''-'' @ padded 2 (int m) @ ''-'' @ padded 2 d @ ''T'' @
      padded 2 (u div 3600000000) @ '':'' @ padded 2 (u div 60000000 mod 60) @ '':'' @
      padded 2 (u div 1000000 mod 60) @
      (if u mod 1000000 = 0 then [] else ''.'' @ padded 6 (u mod 1000000)) @ ''+00:00'')"

definition read_date :: "string \<Rightarrow> (int \<times> string) res" where
  "read_date s =
     ebind (read_digits 4 s) (\<lambda>(y, s).
     ebind (read_symbol (CHR ''-'') s) (\<lambda>s.
     ebind (read_digits 2 s) (\<lambda>(m, s).
     ebind (read_symbol (CHR ''-'') s) (\<lambda>s.
     ebind (read_digits 2 s) (\<lambda>(d, s).
       ensure (1 \<le> y \<and> 1 \<le> m \<and> m \<le> 12 \<and> 1 \<le> d \<and> d \<le> month_lengths y ! nat (m - 1)) ValueError
         (Inr (day_number y (nat m) d - 719162, s)))))))"

definition read_clock :: "string \<Rightarrow> (int \<times> string) res" where
  "read_clock s =
     ebind (read_digits 2 s) (\<lambda>(h, s).
     ebind (read_symbol (CHR '':'') s) (\<lambda>s.
     ebind (read_digits 2 s) (\<lambda>(mi, s).
       ensure (h \<le> 23 \<and> mi \<le> 59) ValueError (Inr (60 * h + mi, s)))))"

definition read_fraction :: "string \<Rightarrow> (int \<times> string) res" where
  "read_fraction s =
     (case s of
        c # s' \<Rightarrow> if c = CHR ''.'' then read_digits 6 s' else Inr (0, s)
      | [] \<Rightarrow> Inr (0, s))"

definition read_offset :: "string \<Rightarrow> int res" where
  "read_offset s =
     (case s of
        [] \<Rightarrow> Inl ValueError
      | c # s' \<Rightarrow>
          ensure (c = CHR ''+'' \<or> c = CHR ''-'') ValueError
            (ebind (read_clock s') (\<lambda>(n, s'').
              ensure (s'' = []) ValueError (Inr (if c = CHR ''-'' then - n else n)))))"

definition fromisoformat :: "string \<Rightarrow> int res" where
  "fromisoformat s =
     ebind (read_date s) (\<lambda>(day, s).
     ebind (read_symbol (CHR ''T'') s) (\<lambda>s.
     ebind (read_clock s) (\<lambda>(minutes, s).
     ebind (read_symbol (CHR '':'') s) (\<lambda>s.
     ebind (read_digits 2 s) (\<lambda>(seconds, s).
     ebind (ensure (seconds \<le> 59) ValueError (Inr ())) (\<lambda>_.
     ebind (read_fraction s) (\<lambda>(fraction, s).
     ebind (read_offset s) (\<lambda>offset.
       Inr (day * day_length + (minutes - offset) * 60000000 + seconds * 1000000 + fraction)))))))))"

section \<open>Reading what was written\<close>

lemma length_padded [simp]: "length (padded k n) = k"
  by (induction k arbitrary: n) simp_all

lemma digit_char:
  assumes "0 \<le> n" and "n < 10"
  shows "is_digit (hex_digit (nat n))" and "digit_value (hex_digit (nat n)) = n"
proof -
  show "is_digit (hex_digit (nat n))" by (rule hex_digit_is_digit) (use assms in simp)
  show "digit_value (hex_digit (nat n)) = n" using assms by (simp add: digit_value_def hex_val_digit)
qed

lemma padded_digits: "list_all is_digit (padded k n)"
  by (induction k arbitrary: n) (simp_all add: digit_char)

lemma padded_value: "0 \<le> n \<Longrightarrow> n < 10 ^ k \<Longrightarrow> foldl (\<lambda>n c. 10 * n + digit_value c) 0 (padded k n) = n"
proof (induction k arbitrary: n)
  case (Suc k)
  from Suc.prems have "n div 10 < 10 ^ k" by simp
  with Suc.IH [of "n div 10"] Suc.prems(1) show ?case by (simp add: digit_char pos_imp_zdiv_nonneg_iff)
qed simp

lemma read_padded [simp]: "0 \<le> n \<Longrightarrow> n < 10 ^ k \<Longrightarrow> read_digits k (padded k n @ s) = Inr (n, s)"
  by (simp add: read_digits_def padded_digits padded_value)

lemma read_symbol_Cons [simp]: "read_symbol c (c # s) = Inr s"
  by (simp add: read_symbol_def)

lemma read_clock_padded:
  "0 \<le> h \<Longrightarrow> h \<le> 23 \<Longrightarrow> 0 \<le> mi \<Longrightarrow> mi \<le> 59 \<Longrightarrow> read_clock (padded 2 h @ '':'' @ padded 2 mi @ s) = Inr (60 * h + mi, s)"
  by (simp add: read_clock_def)

lemma read_utc: "read_offset ''+00:00'' = Inr 0"
  by code_simp

lemma read_date_written:
  assumes "year_day n = (y, k)" and "month_day (month_lengths y) k = (m, d)" and "0 \<le> n" and "n < 3652059"
  shows "read_date (padded 4 y @ ''-'' @ padded 2 (int m) @ ''-'' @ padded 2 d @ s) = Inr (n - 719162, s)"
proof -
  note y = year_day_range [OF assms(1,3,4)]
  note yk = year_day_eq [OF assms(1)]
  have md: "1 \<le> m" "m \<le> 12" "1 \<le> d" "d \<le> month_lengths y ! (m - 1)"
      "sum_list (take (m - 1) (month_lengths y)) + (d - 1) = k"
    using month_day_eq [OF assms(2) yk(2)] yk(3) month_lengths_pos month_lengths_sum [of y]
    by (auto simp: month_lengths_def)
  have "m - 1 < length (month_lengths y)" using md(1,2) by (simp add: month_lengths_def)
  then have "month_lengths y ! (m - 1) \<in> set (month_lengths y)" by (rule nth_mem)
  with md(4) month_lengths_pos have d31: "d \<le> 31" by force
  have "day_number y m d = n" using yk(1) md(5) by (simp add: day_number_def)
  moreover have "nat (int m - 1) = m - 1" by simp
  ultimately show ?thesis using y md d31 by (simp add: read_date_def)
qed

text \<open>The fields of the time of a day give it back.\<close>

lemma clock_fields:
  fixes u :: int
  shows "(60 * (u div 3600000000) + u div 60000000 mod 60) * 60000000 + (u div 1000000 mod 60) * 1000000 + u mod 1000000 = u"
proof -
  define p q where "p = u div 1000000" and "q = p div 60"
  have q: "u div 60000000 = q" "u div 3600000000 = q div 60"
    by (simp_all add: p_def q_def zdiv_zmult2_eq [symmetric])
  have "u = 1000000 * p + u mod 1000000" "p = 60 * q + p mod 60" "q = 60 * (q div 60) + q mod 60"
    by (simp_all add: p_def q_def)
  then show ?thesis unfolding q p_def [symmetric] by (simp add: algebra_simps)
qed

lemma read_clock_written:
  assumes "0 \<le> h" and "h \<le> 23" and "0 \<le> mi" and "mi \<le> 59" and "0 \<le> se" and "se \<le> 59" and "0 \<le> fr" and "fr < 1000000"
    and "read_date w = Inr (day, ''T'' @ padded 2 h @ '':'' @ padded 2 mi @ '':'' @ padded 2 se @
      (if fr = 0 then [] else ''.'' @ padded 6 fr) @ ''+00:00'')"
  shows "fromisoformat w = Inr (day * day_length + (60 * h + mi) * 60000000 + se * 1000000 + fr)"
proof -
  have se: "read_digits 2 (padded 2 se @ s) = Inr (se, s)" for s using assms(5,6) by simp
  note w = read_clock_padded [OF assms(1-4)]
  show ?thesis
    unfolding fromisoformat_def assms(9)
    by (simp only: ebind_Inr prod.case append_Cons append_Nil read_symbol_Cons w [unfolded append_Cons append_Nil]
        se) (cases "fr = 0"; simp add: assms read_fraction_def read_utc)
qed

theorem fromisoformat_isoformat:
  assumes "datetime_ok t"
  shows "fromisoformat (isoformat t) = Inr t"
proof -
  define n u where "n = t div day_length + 719162" and "u = t mod day_length"
  obtain y k where y: "year_day n = (y, k)" by (cases "year_day n")
  obtain m d where m: "month_day (month_lengths y) k = (m, d)" by (cases "month_day (month_lengths y) k")
  have t: "t = (n - 719162) * day_length + u" by (simp add: n_def u_def)
  have u: "0 \<le> u" "u < 86400000000" by (simp_all add: u_def day_length_def)
  have n: "0 \<le> n" "n < 3652059" using assms t u by (simp_all add: datetime_ok_def day_length_def)
  have h: "0 \<le> u div 3600000000" "u div 3600000000 \<le> 23" using u by (simp_all add: pos_imp_zdiv_nonneg_iff)
  have iso: "isoformat t = padded 4 y @ ''-'' @ padded 2 (int m) @ ''-'' @ padded 2 d @ ''T'' @
      padded 2 (u div 3600000000) @ '':'' @ padded 2 (u div 60000000 mod 60) @ '':'' @ padded 2 (u div 1000000 mod 60) @
      (if u mod 1000000 = 0 then [] else ''.'' @ padded 6 (u mod 1000000)) @ ''+00:00''"
    unfolding isoformat_def n_def [symmetric] u_def [symmetric] y m prod.case Let_def ..
  have date: "read_date (isoformat t) = Inr (n - 719162, ''T'' @
      padded 2 (u div 3600000000) @ '':'' @ padded 2 (u div 60000000 mod 60) @ '':'' @ padded 2 (u div 1000000 mod 60) @
      (if u mod 1000000 = 0 then [] else ''.'' @ padded 6 (u mod 1000000)) @ ''+00:00'')"
    unfolding iso by (rule read_date_written [OF y m n])
  have "fromisoformat (isoformat t) = Inr ((n - 719162) * day_length +
      (60 * (u div 3600000000) + u div 60000000 mod 60) * 60000000 + (u div 1000000 mod 60) * 1000000 + u mod 1000000)"
    by (rule read_clock_written [OF h _ _ _ _ _ _ date]) simp_all
  then show ?thesis using clock_fields [of u] t by (simp only: add.assoc)
qed

end
