(* ===== verification/Task_Events.thy ===== *)
theory Task_Events
  imports Store_Contracts Task_State Datetimes
begin

text \<open>
  The durable event stream of a graph: \<open>TaskEvent\<close> of \<open>ai/task/_event.py\<close> and the helpers of
  \<open>ai/persistence/_task_events.py\<close>.

  An event is appended as a fact of the graph's stream with the next number of the graph's
  sequence, in the transaction that made the change; its payload is a JSON object, written field
  by field by \<open>event_data\<close> and read back, with every check of a type, by \<open>read_event\<close>.  \<open>stream_gapless\<close> is the property of
  the log that appends keep: the facts of the stream are numbered 1, 2, ... up to the value
  of the sequence.
\<close>

section \<open>Events\<close>

datatype event_type = GRAPH_ADMITTED | GRAPH_EXPANDED | GRAPH_CHANGED | NODE_CHANGED

primrec event_value :: "event_type \<Rightarrow> string" where
  "event_value GRAPH_ADMITTED = ''GRAPH_ADMITTED''"
| "event_value GRAPH_EXPANDED = ''GRAPH_EXPANDED''"
| "event_value GRAPH_CHANGED = ''GRAPH_CHANGED''"
| "event_value NODE_CHANGED = ''NODE_CHANGED''"

record event_draft =
  ed_type :: event_type
  ed_status :: task_status
  ed_previous :: "task_status option"
  ed_node :: "string option"
  ed_owner :: "string option"
  ed_fence :: int
  ed_execution :: "string option"
  ed_result :: "string option"
  ed_error :: "string option"
  ed_error_digest :: "string option"
  ed_source :: "string option"
  ed_added :: "string list"

definition plain_draft :: "event_type \<Rightarrow> task_status \<Rightarrow> event_draft" where
  "plain_draft ty s =
     \<lparr>ed_type = ty, ed_status = s, ed_previous = None, ed_node = None, ed_owner = None,
      ed_fence = 0, ed_execution = None, ed_result = None, ed_error = None,
      ed_error_digest = None, ed_source = None, ed_added = []\<rparr>"

record task_event =
  ev_graph :: string
  ev_seq :: int
  ev_at :: int
  ev_draft :: event_draft

definition graph_only_fields :: "event_draft \<Rightarrow> bool" where
  "graph_only_fields d =
     (ed_node d = None \<and> ed_owner d = None \<and> ed_fence d = 0 \<and> ed_execution d = None \<and>
      ed_result d = None \<and> ed_error d = None \<and> ed_error_digest d = None \<and>
      \<not> (ed_type d \<noteq> GRAPH_EXPANDED \<and> (ed_source d \<noteq> None \<or> ed_added d \<noteq> [])))"

primrec node_state_fields :: "task_status \<Rightarrow> event_draft \<Rightarrow> bool" where
  "node_state_fields PENDING d =
     (ed_owner d = None \<and> ed_execution d = None \<and> ed_result d = None \<and> ed_error d = None \<and>
      ed_error_digest d = None)"
| "node_state_fields READY d =
     (ed_owner d = None \<and> ed_result d = None \<and> ed_error d = None \<and> ed_error_digest d = None)"
| "node_state_fields RUNNING d =
     (ed_owner d \<noteq> None \<and> 1 \<le> ed_fence d \<and> ed_result d = None \<and> ed_error d = None \<and>
      ed_error_digest d = None)"
| "node_state_fields WAITING d =
     (ed_owner d = None \<and> 1 \<le> ed_fence d \<and> some_text (ed_execution d) \<and> ed_result d = None \<and>
      ed_error d = None \<and> ed_error_digest d = None)"
| "node_state_fields RECOVERY_REQUIRED d =
     (ed_owner d = None \<and> 1 \<le> ed_fence d \<and> ed_result d = None \<and> ed_error d \<noteq> None \<and>
      ed_error_digest d \<noteq> None)"
| "node_state_fields SUCCEEDED d =
     (ed_owner d = None \<and> 1 \<le> ed_fence d \<and> ed_result d \<noteq> None \<and> ed_error d = None \<and>
      ed_error_digest d = None)"
| "node_state_fields FAILED d =
     (ed_owner d = None \<and> 1 \<le> ed_fence d \<and> ed_result d = None \<and> ed_error d \<noteq> None \<and>
      ed_error_digest d \<noteq> None)"
| "node_state_fields BLOCKED d =
     (ed_owner d = None \<and> ed_execution d = None \<and> ed_result d = None \<and> ed_error d \<noteq> None)"
| "node_state_fields CANCELLED d =
     (ed_owner d = None \<and> ed_result d = None \<and> ed_error d = None \<and> ed_error_digest d = None)"

definition optional_sha :: "string option \<Rightarrow> bool" where
  "optional_sha s = (case s of None \<Rightarrow> True | Some t \<Rightarrow> is_sha256 t)"

definition optional_text :: "string option \<Rightarrow> bool" where
  "optional_text s = (case s of None \<Rightarrow> True | Some t \<Rightarrow> \<not> blank t)"

text \<open>The part of \<open>__post_init__\<close> that every event shares, then the part of its type.\<close>

definition event_common_ok :: "string \<Rightarrow> int \<Rightarrow> event_draft \<Rightarrow> bool" where
  "event_common_ok graph sequence d =
     (\<not> blank graph \<and> 1 \<le> sequence \<and> 0 \<le> ed_fence d \<and> optional_sha (ed_result d) \<and>
      optional_sha (ed_error_digest d) \<and> optional_text (ed_error d) \<and>
      list_all (\<lambda>u. \<not> blank u) (ed_added d) \<and> sort (remdups (ed_added d)) = ed_added d)"

primrec event_type_ok :: "event_type \<Rightarrow> event_draft \<Rightarrow> bool" where
  "event_type_ok GRAPH_ADMITTED d =
     (ed_status d \<in> {PENDING, SUCCEEDED} \<and> ed_previous d = None \<and> graph_only_fields d)"
| "event_type_ok GRAPH_EXPANDED d =
     (some_text (ed_source d) \<and> ed_added d \<noteq> [] \<and> ed_previous d = None \<and>
      ed_status d \<notin> {READY, WAITING} \<and> graph_only_fields d)"
| "event_type_ok GRAPH_CHANGED d =
     (ed_previous d \<noteq> None \<and> ed_status d \<notin> {READY, WAITING} \<and>
      ed_previous d \<notin> {Some READY, Some WAITING} \<and> ed_previous d \<noteq> Some (ed_status d) \<and>
      graph_only_fields d)"
| "event_type_ok NODE_CHANGED d =
     (some_text (ed_node d) \<and> ed_source d = None \<and> ed_added d = [] \<and> ed_previous d \<noteq> None \<and>
      (case ed_owner d of None \<Rightarrow> True | Some ow \<Rightarrow> text_ok 256 ow) \<and>
      optional_text (ed_execution d) \<and> node_state_fields (ed_status d) d)"

text \<open>
  The constructor.  That the time is a datetime, an instant of the years 1 to 9999, is the check of
  its type.
\<close>

definition make_event :: "string \<Rightarrow> int \<Rightarrow> int \<Rightarrow> event_draft \<Rightarrow> task_event res" where
  "make_event graph sequence now d =
     ensure (datetime_ok now \<and> event_common_ok graph sequence d) ValueError
       (ensure (event_type_ok (ed_type d) d) ValueError
         (Inr \<lparr>ev_graph = graph, ev_seq = sequence, ev_at = now, ev_draft = d\<rparr>))"

section \<open>Drafts\<close>

definition node_changed :: "node_view \<Rightarrow> node_view \<Rightarrow> bool" where
  "node_changed a b =
     (nv_status a \<noteq> nv_status b \<or> nv_owner a \<noteq> nv_owner b \<or> nv_fence a \<noteq> nv_fence b \<or>
      nv_execution a \<noteq> nv_execution b \<or> nv_result a \<noteq> nv_result b \<or> nv_error a \<noteq> nv_error b \<or>
      nv_error_digest a \<noteq> nv_error_digest b)"

definition node_drafts :: "node_view \<Rightarrow> node_view \<Rightarrow> event_draft list res" where
  "node_drafts prev after =
     ensure (nv_graph prev = nv_graph after \<and> nv_id prev = nv_id after) (ai STORAGE_INTEGRITY_ERROR)
       (Inr (if \<not> node_changed prev after then []
             else [(plain_draft NODE_CHANGED (nv_status after))
                    \<lparr>ed_previous := Some (nv_status prev), ed_node := Some (nv_id after),
                     ed_owner := nv_owner after, ed_fence := nv_fence after,
                     ed_execution := nv_execution after, ed_result := nv_result after,
                     ed_error := nv_error after, ed_error_digest := nv_error_digest after\<rparr>]))"

definition graph_drafts :: "graph_view \<Rightarrow> graph_view \<Rightarrow> event_draft list res" where
  "graph_drafts prev after =
     ensure (gv_id prev = gv_id after) (ai STORAGE_INTEGRITY_ERROR)
       (Inr (if gv_status prev = gv_status after then []
             else [(plain_draft GRAPH_CHANGED (gv_status after))\<lparr>ed_previous := Some (gv_status prev)\<rparr>]))"

record event_state =
  es_graph :: graph_view
  es_views :: "node_view list"

definition state_drafts :: "event_state option \<Rightarrow> event_state \<Rightarrow> event_draft list res" where
  "state_drafts prev after =
     (case prev of
        None \<Rightarrow> Inr [plain_draft GRAPH_ADMITTED (gv_status (es_graph after))]
      | Some b \<Rightarrow>
          ensure (gv_id (es_graph b) = gv_id (es_graph after)) (ai STORAGE_INTEGRITY_ERROR)
            (ensure (distinct (map nv_id (es_views b))) (ai STORAGE_INTEGRITY_ERROR)
              (ebind (emap (\<lambda>v.
                   ebind (of_option (ai STORAGE_INTEGRITY_ERROR) (view_of (es_views b) (nv_id v)))
                     (\<lambda>u. node_drafts u v)) (es_views after)) (\<lambda>dss.
               ensure (length (es_views b) = length (es_views after)) (ai STORAGE_INTEGRITY_ERROR)
                 (ebind (graph_drafts (es_graph b) (es_graph after)) (\<lambda>gs. Inr (concat dss @ gs)))))))"

definition completion_drafts ::
  "event_state \<Rightarrow> event_state \<Rightarrow> string \<Rightarrow> string list \<Rightarrow> event_draft list res" where
  "completion_drafts prev after source added =
     (let ids_before = map nv_id (es_views prev); ids_after = map nv_id (es_views after);
          old = (\<lambda>u. map_of (rev (map (\<lambda>v. (nv_id v, v)) (es_views prev))) u);
          new = (\<lambda>u. map_of (rev (map (\<lambda>v. (nv_id v, v)) (es_views after))) u) in
      ensure (set ids_before \<subseteq> set ids_after) (ai STORAGE_INTEGRITY_ERROR)
        (ebind (of_option (ai STORAGE_INTEGRITY_ERROR) (old source)) (\<lambda>sb.
         ebind (of_option (ai STORAGE_INTEGRITY_ERROR) (new source)) (\<lambda>sa.
         ebind (node_drafts sb sa) (\<lambda>ds.
         ensure (list_all (\<lambda>u. u \<in> set ids_before \<or> u \<in> set added) ids_after) (ai STORAGE_INTEGRITY_ERROR)
           (ebind (emap (\<lambda>u.
                ebind (of_option KeyError (old u)) (\<lambda>b.
                ebind (of_option KeyError (new u)) (\<lambda>a. node_drafts b a)))
                (filter (\<lambda>u. u \<noteq> source) (sort (remdups ids_before)))) (\<lambda>dss.
            ebind (graph_drafts (es_graph prev) (es_graph after)) (\<lambda>gs.
              Inr (ds @
                   (if added = [] then []
                    else [(plain_draft GRAPH_EXPANDED (gv_status (es_graph after)))
                            \<lparr>ed_source := Some source, ed_added := added\<rparr>]) @
                   concat dss @ gs)))))))))"

section \<open>The stream\<close>

text \<open>A payload is a JSON object; a status and an event type are strings in it.\<close>

type_synonym event_payload = details

definition json_text :: "string option \<Rightarrow> json" where
  "json_text s = (case s of None \<Rightarrow> JNull | Some t \<Rightarrow> JStr t)"

text \<open>\<open>_task_event_payload\<close>.\<close>

definition event_data :: "event_draft \<Rightarrow> int \<Rightarrow> event_payload" where
  "event_data d occurred_at =
     [(''version'', JInt 1),
      (''occurred_at'', JStr (isoformat occurred_at)),
      (''previous_status'', json_text (map_option status_value (ed_previous d))),
      (''status'', JStr (status_value (ed_status d))),
      (''node_id'', json_text (ed_node d)),
      (''owner'', json_text (ed_owner d)),
      (''fence'', JInt (ed_fence d)),
      (''execution_id'', json_text (ed_execution d)),
      (''result_digest'', json_text (ed_result d)),
      (''error_code'', json_text (ed_error d)),
      (''error_digest'', json_text (ed_error_digest d)),
      (''source_node_id'', json_text (ed_source d)),
      (''added_node_ids'', JList (map JStr (ed_added d)))]"

definition event_stream :: "(bytes \<Rightarrow> bytes) \<Rightarrow> string \<Rightarrow> string \<Rightarrow> string \<Rightarrow> string \<Rightarrow> bytes" where
  "event_stream sha ns tenant dmn graph = stream_digest sha ns tenant dmn ''task_event'' (JStr graph)"

definition event_sequence :: "(bytes \<Rightarrow> bytes) \<Rightarrow> string \<Rightarrow> string \<Rightarrow> string \<Rightarrow> string \<Rightarrow> bytes" where
  "event_sequence sha ns tenant dmn graph = sequence_key sha ns tenant dmn ''task_event'' (JStr graph)"

definition event_fact :: "bytes \<Rightarrow> bytes \<Rightarrow> task_event \<Rightarrow> event_payload stored_fact" where
  "event_fact stream owner ev =
     \<lparr>fact_stream = stream, fact_sequence = ev_seq ev, fact_owner = owner,
      fact_kind = event_value (ed_type (ev_draft ev)), fact_subject = None, fact_state = None,
      fact_data = event_data (ev_draft ev) (ev_at ev)\<rparr>"

definition guard_event_owner ::
  "bytes \<Rightarrow> error_code \<Rightarrow> ('d, 'f, 'o, 'd stored_record) action" where
  "guard_event_owner graph_key missing t =
     ebind (of_option (ai missing) (get_record t graph_key)) (\<lambda>r.
     ebind (guard_record graph_key (rec_revision r) t) (\<lambda>(guarded, t').
     ebind (of_option Task_event_append_conflict guarded) (\<lambda>g. Inr (g, t'))))"

definition number_events :: "string \<Rightarrow> int \<Rightarrow> int \<Rightarrow> event_draft list \<Rightarrow> task_event list res" where
  "number_events graph first now drafts =
     emap (\<lambda>(i, d). make_event graph (first + int i) now d) (enumerate 0 drafts)"

definition append_events ::
  "(bytes \<Rightarrow> bytes) \<Rightarrow> string \<Rightarrow> string \<Rightarrow> string \<Rightarrow> string \<Rightarrow> bytes \<Rightarrow> event_draft list \<Rightarrow> bool \<Rightarrow>
    ('d, event_payload, 'o, unit) action" where
  "append_events sha ns tenant dmn graph graph_key drafts owner_guarded t =
     (if drafts = [] then Inr ((), t)
      else
        ebind (if owner_guarded then Inr t
               else ebind (guard_event_owner graph_key STORAGE_INTEGRITY_ERROR t) (\<lambda>(_, t'). Inr t')) (\<lambda>t1.
        ebind (reserve_sequence (event_sequence sha ns tenant dmn graph) (int (length drafts)) t1)
          (\<lambda>(final, t2).
        ebind (number_events graph (final - int (length drafts) + 1) (t_now t2) drafts) (\<lambda>events.
          insert_facts (map (event_fact (event_stream sha ns tenant dmn graph) graph_key) events) t2))))"

section \<open>Decoding\<close>

text \<open>
  \<open>_decode_task_event\<close>.  \<open>TaskStatus(value)\<close> and \<open>TaskEventType(value)\<close> look a value up among
  the members of the enum and raise \<open>ValueError\<close>; a check of a type raises \<open>TypeError\<close>, a
  missing required field \<open>KeyError\<close>.  All three become an integrity error.
\<close>

definition all_statuses :: "task_status list" where
  "all_statuses = [PENDING, READY, RUNNING, WAITING, RECOVERY_REQUIRED, SUCCEEDED, FAILED, CANCELLED, BLOCKED]"

definition status_named :: "string \<Rightarrow> task_status res" where
  "status_named s = of_option ValueError (map_of (map (\<lambda>x. (status_value x, x)) all_statuses) s)"

definition event_named :: "string \<Rightarrow> event_type res" where
  "event_named s = of_option ValueError
     (map_of (map (\<lambda>x. (event_value x, x)) [GRAPH_ADMITTED, GRAPH_EXPANDED, GRAPH_CHANGED, NODE_CHANGED]) s)"

fun integer_field :: "json \<Rightarrow> int res" where
  "integer_field (JInt n) = Inr n"
| "integer_field _ = Inl TypeError"

fun text_field :: "json \<Rightarrow> string res" where
  "text_field (JStr s) = Inr s"
| "text_field _ = Inl TypeError"

fun optional_field :: "json option \<Rightarrow> string option res" where
  "optional_field None = Inr None"
| "optional_field (Some JNull) = Inr None"
| "optional_field (Some j) = ebind (text_field j) (\<lambda>s. Inr (Some s))"

fun texts_field :: "json option \<Rightarrow> string list res" where
  "texts_field None = Inr []"
| "texts_field (Some (JList js)) = emap text_field js"
| "texts_field (Some _) = Inl TypeError"

definition optional_status :: "string option \<Rightarrow> task_status option res" where
  "optional_status s = (case s of None \<Rightarrow> Inr None | Some t \<Rightarrow> ebind (status_named t) (\<lambda>x. Inr (Some x)))"

definition read_event :: "string \<Rightarrow> event_payload stored_fact \<Rightarrow> task_event res" where
  "read_event graph f =
     (let field = map_of (fact_data f) in
      ebind (ebind (of_option KeyError (field ''version'')) integer_field) (\<lambda>version.
      ensure (version = 1) (ai STORAGE_VERSION_UNSUPPORTED)
     (ebind (ebind (of_option KeyError (field ''occurred_at'')) text_field) (\<lambda>occurred_at.
      ebind (ebind (of_option KeyError (field ''status'')) text_field) (\<lambda>status.
      ebind (optional_field (field ''previous_status'')) (\<lambda>previous.
      ebind (optional_field (field ''node_id'')) (\<lambda>node.
      ebind (optional_field (field ''owner'')) (\<lambda>owner.
      ebind (case field ''fence'' of None \<Rightarrow> Inr 0 | Some j \<Rightarrow> integer_field j) (\<lambda>fence.
      ebind (optional_field (field ''execution_id'')) (\<lambda>execution.
      ebind (optional_field (field ''result_digest'')) (\<lambda>result.
      ebind (optional_field (field ''error_code'')) (\<lambda>error.
      ebind (optional_field (field ''error_digest'')) (\<lambda>error_digest.
      ebind (optional_field (field ''source_node_id'')) (\<lambda>source.
      ebind (texts_field (field ''added_node_ids'')) (\<lambda>added.
      ebind (event_named (fact_kind f)) (\<lambda>ty.
      ebind (fromisoformat occurred_at) (\<lambda>now.
      ebind (status_named status) (\<lambda>st.
      ebind (optional_status previous) (\<lambda>prev.
        make_event graph (fact_sequence f) now
          \<lparr>ed_type = ty, ed_status = st, ed_previous = prev, ed_node = node, ed_owner = owner,
           ed_fence = fence, ed_execution = execution, ed_result = result, ed_error = error,
           ed_error_digest = error_digest, ed_source = source, ed_added = added\<rparr>)))))))))))))))))))"

definition decode_event :: "string \<Rightarrow> event_payload stored_fact \<Rightarrow> task_event res" where
  "decode_event graph f =
     (case read_event graph f of
        Inl KeyError \<Rightarrow> Inl (ai STORAGE_INTEGRITY_ERROR)
      | Inl TypeError \<Rightarrow> Inl (ai STORAGE_INTEGRITY_ERROR)
      | Inl ValueError \<Rightarrow> Inl (ai STORAGE_INTEGRITY_ERROR)
      | r \<Rightarrow> r)"

section \<open>What the log shows\<close>

lemma make_event_Inr [eres]:
  "make_event graph n now d = Inr ev \<longleftrightarrow>
    datetime_ok now \<and> event_common_ok graph n d \<and> event_type_ok (ed_type d) d \<and>
    ev = \<lparr>ev_graph = graph, ev_seq = n, ev_at = now, ev_draft = d\<rparr>"
  by (auto simp: make_event_def eres)

lemma status_named_value [simp]: "status_named (status_value s) = Inr s"
  by (cases s) (simp_all add: status_named_def all_statuses_def of_option_def)

lemma event_named_value [simp]: "event_named (event_value e) = Inr e"
  by (cases e) (simp_all add: event_named_def of_option_def)

lemma optional_field_text [simp]: "optional_field (Some (json_text s)) = Inr s"
  by (cases s) (simp_all add: json_text_def)

lemma optional_status_value [simp]: "optional_status (map_option status_value s) = Inr s"
  by (cases s) (simp_all add: optional_status_def)

lemma text_fields_map [simp]: "emap text_field (map JStr xs) = Inr xs"
  by (induction xs) simp_all

text \<open>Every field of a payload is read as it was written.\<close>

lemma event_data_fields:
  defines "field \<equiv> \<lambda>d now. map_of (event_data d now)"
  shows "field d now ''version'' = Some (JInt 1)" "field d now ''occurred_at'' = Some (JStr (isoformat now))"
    "field d now ''status'' = Some (JStr (status_value (ed_status d)))"
    "field d now ''previous_status'' = Some (json_text (map_option status_value (ed_previous d)))"
    "field d now ''node_id'' = Some (json_text (ed_node d))" "field d now ''owner'' = Some (json_text (ed_owner d))"
    "field d now ''fence'' = Some (JInt (ed_fence d))" "field d now ''execution_id'' = Some (json_text (ed_execution d))"
    "field d now ''result_digest'' = Some (json_text (ed_result d))" "field d now ''error_code'' = Some (json_text (ed_error d))"
    "field d now ''error_digest'' = Some (json_text (ed_error_digest d))"
    "field d now ''source_node_id'' = Some (json_text (ed_source d))"
    "field d now ''added_node_ids'' = Some (JList (map JStr (ed_added d)))"
  by (simp_all add: field_def event_data_def)

text \<open>An event that was appended decodes to itself.\<close>

lemma decode_event_fact:
  assumes "make_event graph n now d = Inr ev"
  shows "decode_event graph (event_fact stream owner ev) = Inr ev"
proof -
  from assms have ev: "ev = \<lparr>ev_graph = graph, ev_seq = n, ev_at = now, ev_draft = d\<rparr>" and now: "datetime_ok now"
    by (simp_all add: make_event_Inr)
  have "read_event graph (event_fact stream owner ev) = make_event graph n now d"
    unfolding read_event_def Let_def event_fact_def ev
    by (cases d) (simp add: event_data_fields of_option_def fromisoformat_isoformat [OF now])
  with assms show ?thesis by (simp add: decode_event_def)
qed

text \<open>Whatever is decoded is a valid event of the graph with the number of its fact.\<close>

lemma decode_event_Inr:
  assumes "decode_event graph f = Inr ev"
  shows "ev_graph ev = graph" and "ev_seq ev = fact_sequence f" and "event_named (fact_kind f) = Inr (ed_type (ev_draft ev))"
proof -
  from assms have "read_event graph f = Inr ev" by (auto simp: decode_event_def split: sum.splits exc.splits)
  then show "ev_graph ev = graph" "ev_seq ev = fact_sequence f" "event_named (fact_kind f) = Inr (ed_type (ev_draft ev))"
    by (auto simp: read_event_def Let_def eres)
qed

definition log_length :: "('d, 'f, 'o) txn \<Rightarrow> bytes \<Rightarrow> int" where
  "log_length t sq = get_sequence t sq"

definition stream_gapless :: "('d, 'f, 'o) txn \<Rightarrow> bytes \<Rightarrow> bytes \<Rightarrow> bool" where
  "stream_gapless t stream sq \<longleftrightarrow>
     0 \<le> log_length t sq \<and> (\<forall>i. get_fact t stream i \<noteq> None \<longleftrightarrow> 1 \<le> i \<and> i \<le> log_length t sq)"

lemma number_events_nth:
  assumes "number_events graph first now drafts = Inr events"
  shows "length events = length drafts"
    and "i < length drafts \<Longrightarrow> make_event graph (first + int i) now (drafts ! i) = Inr (events ! i)"
proof -
  show len: "length events = length drafts"
    using emap_length [OF assms [unfolded number_events_def]] by simp
  show "make_event graph (first + int i) now (drafts ! i) = Inr (events ! i)" if "i < length drafts"
    using emap_nth [OF assms [unfolded number_events_def], of i] that by (simp add: nth_enumerate_eq)
qed

lemma event_seq_nth:
  "number_events graph first now drafts = Inr events \<Longrightarrow> i < length drafts \<Longrightarrow>
    ev_seq (events ! i) = first + int i \<and> ev_draft (events ! i) = drafts ! i"
  using number_events_nth(2) [of graph first now drafts events i] by (simp add: make_event_Inr)

text \<open>The effect of an append: nothing but the log of the graph (and the revision of its owner).\<close>

lemma append_events_guarded:
  assumes "append_events sha ns tn dm graph gk drafts True t = Inr (u, t')" and "drafts \<noteq> []"
  defines "sq \<equiv> event_sequence sha ns tn dm graph" and "st \<equiv> event_stream sha ns tn dm graph"
  obtains events where "number_events graph (get_sequence t sq + 1) (t_now t) drafts = Inr events"
    "insert_facts (map (event_fact st gk) events)
       (put_sequence sq (get_sequence t sq + int (length drafts)) t) = Inr ((), t')"
  using assms(1,2) by (auto simp: append_events_def eres reserve_sequence_eq sq_def st_def algebra_simps)

lemma map_of_event_facts:
  assumes "number_events graph first now drafts = Inr events" and "1 \<le> first"
  shows "map_of (map (\<lambda>f. (fact_key f, f)) (map (event_fact st gk) events)) (st, i) =
    (if first \<le> i \<and> i < first + int (length drafts)
     then Some (event_fact st gk (events ! nat (i - first))) else None)"
proof -
  note len = number_events_nth(1) [OF assms(1)]
  have k: "fact_key (event_fact st gk (events ! j)) = (st, first + int j)" if "j < length events" for j
    using event_seq_nth [OF assms(1), of j] that len by (simp add: fact_key_def event_fact_def)
  show ?thesis
  proof (cases "first \<le> i \<and> i < first + int (length drafts)")
    case True
    then have j: "nat (i - first) < length events" using len by (simp add: nat_less_iff)
    have "distinct (map fact_key (map (event_fact st gk) events))"
      using k by (auto simp: distinct_conv_nth)
    then have "map_of (map (\<lambda>f. (fact_key f, f)) (map (event_fact st gk) events)) (st, i) =
        Some (event_fact st gk (events ! nat (i - first)))"
      using j k [OF j] True by (subst map_of_by_key) auto
    with True show ?thesis by simp
  next
    case False
    have "(st, i) \<notin> fact_key ` set (map (event_fact st gk) events)"
      using False k len by (auto simp: in_set_conv_nth)
    then have "map_of (map (\<lambda>f. (fact_key f, f)) (map (event_fact st gk) events)) (st, i) = None"
      by (simp add: map_of_eq_None_iff image_image)
    with False show ?thesis by simp
  qed
qed

lemma append_events_get:
  assumes "append_events sha ns tn dm graph gk drafts True t = Inr (u, t')"
  defines "sq \<equiv> event_sequence sha ns tn dm graph" and "st \<equiv> event_stream sha ns tn dm graph"
  assumes gap: "stream_gapless t st sq"
  shows "get_record t' = get_record t \<and> t_guarded t' = t_guarded t \<and> t_now t' = t_now t \<and>
    t_error t' = t_error t \<and> t_aliases t' = t_aliases t \<and> t_operations t' = t_operations t \<and>
    get_sequence t' = (get_sequence t)(sq := get_sequence t sq + int (length drafts)) \<and>
    (\<exists>events. number_events graph (get_sequence t sq + 1) (t_now t) drafts = Inr events \<and>
      (\<forall>stream i. get_fact t' stream i =
        (if stream = st \<and> get_sequence t sq + 1 \<le> i \<and> i < get_sequence t sq + 1 + int (length drafts)
         then Some (event_fact st gk (events ! nat (i - (get_sequence t sq + 1))))
         else get_fact t stream i)))"
proof (cases "drafts = []")
  case True
  with assms(1) show ?thesis
    by (auto simp: append_events_def number_events_def)
next
  case False
  let ?n = "get_sequence t sq"
  obtain events where ev: "number_events graph (?n + 1) (t_now t) drafts = Inr events"
    and ins: "insert_facts (map (event_fact st gk) events) (put_sequence sq (?n + int (length drafts)) t) = Inr ((), t')"
    using append_events_guarded [OF assms(1) False] unfolding sq_def st_def by blast
  obtain F where F: "t' = (put_sequence sq (?n + int (length drafts)) t)\<lparr>t_facts := F\<rparr>"
    using insert_facts_frame [OF ins] by blast
  have pos: "1 \<le> ?n + 1" using gap by (simp add: stream_gapless_def log_length_def)
  note m = map_of_event_facts [OF ev pos, of st gk]
  have other: "map_of (map (\<lambda>f. (fact_key f, f)) (map (event_fact st gk) events)) (stream, i) = None"
    if "stream \<noteq> st" for stream i
    using that by (auto simp: map_of_eq_None_iff fact_key_def event_fact_def)
  have get: "get_fact t' stream i =
      (if stream = st \<and> ?n + 1 \<le> i \<and> i < ?n + 1 + int (length drafts)
       then Some (event_fact st gk (events ! nat (i - (?n + 1)))) else get_fact t stream i)" for stream i
    using insert_facts_get [OF ins, THEN fun_cong, of "(stream, i)"] m [of i] other [of stream i]
    by (cases "stream = st") (simp_all add: get_fact_def map_add_def)
  have "get_record t' = get_record t \<and> get_sequence t' = (get_sequence t)(sq := ?n + int (length drafts))"
    using get_sequence_put [of sq "?n + int (length drafts)" t]
    by (simp add: F get_record_def [abs_def] get_sequence_def [abs_def])
  with ev get show ?thesis by (simp add: F)
qed

text \<open>Appending keeps the numbering of the log gapless and never touches an earlier event.\<close>

lemma append_events_gapless:
  assumes "append_events sha ns tn dm graph gk drafts True t = Inr (u, t')"
    and "stream_gapless t (event_stream sha ns tn dm graph) (event_sequence sha ns tn dm graph)"
  shows "stream_gapless t' (event_stream sha ns tn dm graph) (event_sequence sha ns tn dm graph)"
proof -
  let ?sq = "event_sequence sha ns tn dm graph" and ?st = "event_stream sha ns tn dm graph"
  let ?n = "get_sequence t ?sq" and ?k = "int (length drafts)"
  obtain events where
    sq: "get_sequence t' = (get_sequence t)(?sq := ?n + ?k)" and
    get: "\<And>i. get_fact t' ?st i = (if ?n + 1 \<le> i \<and> i < ?n + 1 + ?k
      then Some (event_fact ?st gk (events ! nat (i - (?n + 1)))) else get_fact t ?st i)"
    using append_events_get [OF assms] by auto
  have old: "0 \<le> ?n" "get_fact t ?st i \<noteq> None \<longleftrightarrow> 1 \<le> i \<and> i \<le> ?n" for i
    using assms(2) unfolding stream_gapless_def log_length_def by blast+
  have "get_fact t' ?st i \<noteq> None \<longleftrightarrow> 1 \<le> i \<and> i \<le> ?n + ?k" for i
  proof (cases "?n + 1 \<le> i \<and> i < ?n + 1 + ?k")
    case True
    with get [of i] old(1) show ?thesis by simp
  next
    case False
    with get [of i] have "get_fact t' ?st i = get_fact t ?st i" by simp
    with False old(2) [of i] old(1) show ?thesis by (simp only:) linarith
  qed
  with old(1) show ?thesis by (simp add: stream_gapless_def log_length_def sq)
qed

lemma append_events_frame:
  assumes "append_events sha ns tn dm graph gk drafts True t = Inr (u, t')"
    and "stream_gapless t (event_stream sha ns tn dm graph) (event_sequence sha ns tn dm graph)"
  shows "get_record t' = get_record t" and "t_guarded t' = t_guarded t" and "t_now t' = t_now t"
  using append_events_get [OF assms] by auto

lemma append_events_new:
  assumes "append_events sha ns tn dm graph gk drafts True t = Inr (u, t')"
    and "stream_gapless t (event_stream sha ns tn dm graph) (event_sequence sha ns tn dm graph)"
    and "i < length drafts"
  shows "\<exists>ev. get_fact t' (event_stream sha ns tn dm graph)
        (get_sequence t (event_sequence sha ns tn dm graph) + 1 + int i) =
      Some (event_fact (event_stream sha ns tn dm graph) gk ev) \<and>
    make_event graph (get_sequence t (event_sequence sha ns tn dm graph) + 1 + int i) (t_now t) (drafts ! i) = Inr ev"
proof -
  let ?n = "get_sequence t (event_sequence sha ns tn dm graph)"
  obtain events where ev: "number_events graph (?n + 1) (t_now t) drafts = Inr events"
    and get: "\<And>stream i. get_fact t' stream i =
        (if stream = event_stream sha ns tn dm graph \<and> ?n + 1 \<le> i \<and> i < ?n + 1 + int (length drafts)
         then Some (event_fact (event_stream sha ns tn dm graph) gk (events ! nat (i - (?n + 1))))
         else get_fact t stream i)"
    using append_events_get [OF assms(1,2)] by blast
  from number_events_nth(2) [OF ev assms(3)] get [of _ "?n + 1 + int i"] assms(3)
  show ?thesis by auto
qed

lemma guard_event_owner_frame:
  assumes "guard_event_owner gk missing t = Inr (g, t1)"
  shows "t_facts t1 = t_facts t \<and> t_sequences t1 = t_sequences t \<and> t_now t1 = t_now t"
proof -
  from assms obtain e where "guard_record gk e t = Inr (Some g, t1)"
    unfolding guard_event_owner_def
    by (simp only: ebind_eq_Inr of_option_eq_Inr split_paired_Ex prod.case sum.inject prod.inject) blast
  then show ?thesis by (cases rule: guard_record_eq) simp_all
qed

lemma append_events_guard_first:
  assumes "append_events sha ns tn dm graph gk drafts guarded t = Inr (u, t')"
  obtains t1 where "append_events sha ns tn dm graph gk drafts True t1 = Inr (u, t')"
    "t_facts t1 = t_facts t" "t_sequences t1 = t_sequences t" "t_now t1 = t_now t"
proof (cases "guarded \<or> drafts = []")
  case True
  then have "append_events sha ns tn dm graph gk drafts guarded t =
      append_events sha ns tn dm graph gk drafts True t"
    by (cases guarded) (simp_all add: append_events_def)
  with assms that [of t] show ?thesis by simp
next
  case False
  with assms obtain g t1 where "guard_event_owner gk STORAGE_INTEGRITY_ERROR t = Inr (g, t1)"
      "append_events sha ns tn dm graph gk drafts True t1 = Inr (u, t')"
    by (auto simp: append_events_def ebind_eq_Inr)
  with guard_event_owner_frame that show ?thesis by blast
qed

end
