(* ===== verification/Budget_Values.thy ===== *)
theory Budget_Values
  imports Core_Values
begin

text \<open>
  The values of the shared run budget: \<open>RunBudget\<close> and \<open>BudgetUsage\<close> of
  \<open>ai/core/_budget.py\<close>, and the reservations of \<open>ai/persistence/_budget_records.py\<close>.
\<close>

section \<open>Limits and usage\<close>

record run_budget =
  rb_requests :: "int option"
  rb_tools :: "int option"
  rb_tokens :: "int option"
  rb_deadline :: "int option"

definition not_negative :: "int option \<Rightarrow> bool" where
  "not_negative v = (case v of None \<Rightarrow> True | Some n \<Rightarrow> 0 \<le> n)"

definition make_budget :: "run_budget \<Rightarrow> run_budget res" where
  "make_budget b =
     ensure (list_all not_negative [rb_requests b, rb_tools b, rb_tokens b]) ValueError (Inr b)"

record budget_usage =
  bu_scope :: string
  bu_limits :: run_budget
  bu_requests :: int
  bu_tools :: int
  bu_tokens :: int
  bu_in_flight :: int
  bu_unknown :: int

definition usage_ok :: "budget_usage \<Rightarrow> bool" where
  "usage_ok u =
     (bu_scope u \<noteq> [] \<and>
      list_all (\<lambda>n. 0 \<le> n) [bu_requests u, bu_tools u, bu_tokens u, bu_in_flight u, bu_unknown u] \<and>
      bu_in_flight u + bu_unknown u \<le> bu_requests u)"

definition make_usage :: "budget_usage \<Rightarrow> budget_usage res" where
  "make_usage u = ensure (usage_ok u) ValueError (Inr u)"

definition new_usage :: "string \<Rightarrow> run_budget \<Rightarrow> budget_usage" where
  "new_usage s b =
     \<lparr>bu_scope = s, bu_limits = b, bu_requests = 0, bu_tools = 0, bu_tokens = 0, bu_in_flight = 0,
      bu_unknown = 0\<rparr>"

lemma make_usage_Inr [eres]: "make_usage u = Inr v \<longleftrightarrow> usage_ok u \<and> v = u"
  by (auto simp: make_usage_def ensure_eq_Inr)

section \<open>Reservations\<close>

datatype reservation_status = In_flight | Settled | Unknown_usage

primrec reservation_value :: "reservation_status \<Rightarrow> string" where
  "reservation_value In_flight = ''in_flight''"
| "reservation_value Settled = ''settled''"
| "reservation_value Unknown_usage = ''unknown''"

lemma reservation_value_eq [simp]: "reservation_value a = reservation_value b \<longleftrightarrow> a = b"
  by (cases a; cases b) simp_all

record model_reservation =
  mr_scope :: string
  mr_request :: string
  mr_owner :: string
  mr_admission :: string
  mr_status :: reservation_status
  mr_tokens :: "int option"

definition model_reservation_ok :: "model_reservation \<Rightarrow> bool" where
  "model_reservation_ok m =
     (list_all (\<lambda>s. s \<noteq> []) [mr_scope m, mr_request m, mr_owner m, mr_admission m] \<and>
      (if mr_status m = Settled then (case mr_tokens m of None \<Rightarrow> False | Some n \<Rightarrow> 0 \<le> n)
       else mr_tokens m = None))"

definition make_model_reservation :: "model_reservation \<Rightarrow> model_reservation res" where
  "make_model_reservation m = ensure (model_reservation_ok m) ValueError (Inr m)"

record tool_reservation =
  tl_scope :: string
  tl_call :: string
  tl_admission :: string

definition make_tool_reservation :: "tool_reservation \<Rightarrow> tool_reservation res" where
  "make_tool_reservation c =
     ensure (list_all (\<lambda>s. s \<noteq> []) [tl_scope c, tl_call c, tl_admission c]) ValueError (Inr c)"

lemma make_model_reservation_Inr [eres]: "make_model_reservation m = Inr v \<longleftrightarrow> model_reservation_ok m \<and> v = m"
  by (auto simp: make_model_reservation_def ensure_eq_Inr)

lemma make_tool_reservation_Inr [eres]: "make_tool_reservation c = Inr v \<Longrightarrow> v = c"
  by (auto simp: make_tool_reservation_def ensure_eq_Inr)

end
