(* ===== verification/Admission_Values.thy ===== *)
theory Admission_Values
  imports State_Records Task_Graph Budget_Values Datetimes
begin

text \<open>
  What a caller submits: principals (\<open>ai/core/_value.py\<close>), correlation data
  (\<open>ai/core/_correlation.py\<close>), graph requests with their digest, admissions and launches
  (\<open>ai/task/_graph.py\<close>) and submissions (\<open>ai/task/_submission.py\<close>).
\<close>

section \<open>Principals and correlation\<close>

record principal =
  pr_id :: string
  pr_tenant :: string
  pr_kind :: string

definition make_principal :: "principal \<Rightarrow> principal res" where
  "make_principal p =
     ensure (\<not> isl (validate_principal_id (pr_id p)) \<and> \<not> isl (validate_tenant_id (pr_tenant p)) \<and>
             \<not> isl (validate_principal_kind (pr_kind p))) ValueError (Inr p)"

definition principal_payload :: "principal \<Rightarrow> json" where
  "principal_payload p =
     JObj [(''tenant_id'', JStr (pr_tenant p)), (''principal_id'', JStr (pr_id p)), (''kind'', JStr (pr_kind p))]"

text \<open>The values of a correlation mapping are strings and integers, its keys match a pattern.\<close>

definition is_alnum :: "char \<Rightarrow> bool" where
  "is_alnum c =
     (c \<in> set ''0123456789ABCDEFGHIJKLMNOPQRSTUVWXYZabcdefghijklmnopqrstuvwxyz'')"

definition correlation_key_ok :: "string \<Rightarrow> bool" where
  "correlation_key_ok k =
     (case k of
        [] \<Rightarrow> False
      | c # cs \<Rightarrow>
          is_alnum c \<and> length cs \<le> 127 \<and> list_all (\<lambda>d. is_alnum d \<or> d \<in> set ''._-'') cs \<and>
          \<not> prefix ''linktools.'' k)"

definition correlation_value :: "json \<Rightarrow> unit res" where
  "correlation_value v =
     (case v of
        JStr s \<Rightarrow> ensure (s \<noteq> [] \<and> length s \<le> 256) ValueError (Inr ())
      | JInt i \<Rightarrow> ensure (- (2 ^ 63) \<le> i \<and> i \<le> 2 ^ 63 - 1) ValueError (Inr ())
      | _ \<Rightarrow> Inl TypeError)"

definition normalize_correlation :: "(string \<times> json) list \<Rightarrow> (string \<times> json) list res" where
  "normalize_correlation kvs =
     ensure (length kvs \<le> 8) ValueError
       (ebind (emap (\<lambda>(k, v). ensure (correlation_key_ok k) ValueError (correlation_value v)) kvs) (\<lambda>_.
          ensure (length (canonical_json_bytes (JObj kvs)) \<le> 4 * 1024) ValueError (Inr kvs)))"

lemma normalize_correlation_Inr: "normalize_correlation kvs = Inr kvs' \<Longrightarrow> kvs' = kvs"
  by (auto simp: normalize_correlation_def eres)

section \<open>Request digests\<close>

definition json_option :: "('a \<Rightarrow> json) \<Rightarrow> 'a option \<Rightarrow> json" where
  "json_option f v = (case v of None \<Rightarrow> JNull | Some x \<Rightarrow> f x)"

definition budget_payload :: "run_budget \<Rightarrow> json" where
  "budget_payload b =
     JObj [(''model_requests'', json_option JInt (rb_requests b)), (''tool_calls'', json_option JInt (rb_tools b)),
           (''total_tokens'', json_option JInt (rb_tokens b)),
           (''deadline_at'', json_option (\<lambda>d. JStr (isoformat d)) (rb_deadline b))]"

primrec dependency_policy_value :: "dependency_policy \<Rightarrow> string" where
  "dependency_policy_value All_succeeded = ''all_succeeded''"
| "dependency_policy_value All_terminal = ''all_terminal''"
| "dependency_policy_value Any_succeeded = ''any_succeeded''"

primrec failure_policy_value :: "failure_policy \<Rightarrow> string" where
  "failure_policy_value Propagate = ''propagate''"
| "failure_policy_value Isolate = ''isolate''"

primrec effect_policy_value :: "effect_policy \<Rightarrow> string" where
  "effect_policy_value No_effect = ''none''"
| "effect_policy_value Replay_safe = ''replay_safe''"
| "effect_policy_value Non_replay_safe = ''non_replay_safe''"

definition revision_mapping :: "string \<times> int \<Rightarrow> json" where
  "revision_mapping = (\<lambda>(i, revision). JObj [(''id'', JStr i), (''revision'', JInt revision)])"

fun reference_mapping :: "result_ref \<Rightarrow> json" where
  "reference_mapping (Symbolic node) = JObj [(''node_id'', JStr node)]"
| "reference_mapping (Retained ns tenant graph node dg) =
     JObj [(''namespace'', JStr ns), (''tenant_id'', JStr tenant), (''graph_id'', JStr graph),
           (''node_id'', JStr node), (''result_digest'', JStr dg)]"

definition capture_mapping :: "input_capture \<Rightarrow> json" where
  "capture_mapping c =
     JObj [(''namespace'', JStr (ic_namespace c)), (''tenant_id'', JStr (ic_tenant c)),
           (''capture_id'', JStr (ic_capture c)), (''digest'', JStr (ic_digest c)),
           (''source_execution_id'', JStr (ic_source c))]"

definition optional_item :: "string \<Rightarrow> ('a \<Rightarrow> json) \<Rightarrow> 'a option \<Rightarrow> (string \<times> json) list" where
  "optional_item k f v = (case v of None \<Rightarrow> [] | Some x \<Rightarrow> [(k, f x)])"

definition to_mapping :: "task_node \<Rightarrow> json" where
  "to_mapping n = JObj (
     [(''node_id'', JStr (tn_id n)), (''dependencies'', JList (map JStr (sort (tn_deps n)))),
      (''input'', JObj (tn_input n)), (''budget_cost'', JInt (tn_cost n)),
      (''dependency_policy'', JStr (dependency_policy_value (tn_policy n))),
      (''failure_policy'', JStr (failure_policy_value (tn_failure n))),
      (''task'', json_option revision_mapping (tn_task n)),
      (''expander'', json_option revision_mapping (tn_expander n))] @
     (if tn_refs n = [] then []
      else [(''input_refs'', JObj (map (\<lambda>(k, r). (k, reference_mapping r)) (sort_key fst (tn_refs n))))]) @
     optional_item ''original_input'' JObj (tn_original n) @
     optional_item ''input_capture'' capture_mapping (tn_capture n) @
     optional_item ''timeout_seconds'' JFloat (tn_timeout n) @
     (if tn_attempts n \<noteq> 1 then [(''max_attempts'', JInt (tn_attempts n))] else []) @
     (if tn_delay n \<noteq> 0 then [(''retry_delay_seconds'', JFloat (tn_delay n))] else []) @
     optional_item ''output_contract'' JObj (tn_contract n) @
     (if tn_effects n \<noteq> No_effect then [(''effect_policy'', JStr (effect_policy_value (tn_effects n)))] else []) @
     (if tn_reconcile n then [(''reconcile'', JBool True)] else []))"

datatype tool_effects = Deny | Read_only | Live

primrec tool_effects_value :: "tool_effects \<Rightarrow> string" where
  "tool_effects_value Deny = ''deny''"
| "tool_effects_value Read_only = ''read_only''"
| "tool_effects_value Live = ''live''"

definition limits_mapping :: "task_limits \<Rightarrow> json" where
  "limits_mapping l =
     JObj [(''max_nodes'', JInt (max_nodes l)), (''max_depth'', JInt (max_depth l)),
           (''max_budget'', JInt (max_budget l)), (''max_concurrency'', JInt (max_concurrency l))]"

definition request_mapping ::
  "task_graph \<Rightarrow> principal \<Rightarrow> task_limits \<Rightarrow> run_budget option \<Rightarrow> tool_effects \<Rightarrow> json" where
  "request_mapping g p l b e = JObj (
     [(''principal'', principal_payload p), (''graph_id'', JStr (tg_id g))] @
     optional_item ''budget'' budget_payload b @
     (if e \<noteq> Live then [(''tool_effects'', JStr (tool_effects_value e))] else []) @
     [(''nodes'', JList (map to_mapping (sort_key tn_id (tg_nodes g)))), (''limits'', limits_mapping l)])"

definition request_digest ::
  "(bytes \<Rightarrow> bytes) \<Rightarrow> task_graph \<Rightarrow> principal \<Rightarrow> task_limits \<Rightarrow> run_budget option \<Rightarrow> tool_effects \<Rightarrow> string" where
  "request_digest sha g p l b e = canonical_sha256 sha (request_mapping g p l b e)"

section \<open>Requests, admissions and launches\<close>

record graph_request =
  gq_graph :: task_graph
  gq_principal :: principal
  gq_key :: string
  gq_limits :: task_limits
  gq_correlation :: "(string \<times> json) list"
  gq_budget :: "run_budget option"
  gq_effects :: tool_effects

definition make_request :: "graph_request \<Rightarrow> graph_request res" where
  "make_request q =
     ebind (validate_idempotency_key (gq_key q)) (\<lambda>_.
     ebind (validate_limits (tg_nodes (gq_graph q)) (gq_limits q)) (\<lambda>_.
     ebind (normalize_correlation (gq_correlation q)) (\<lambda>kvs. Inr (q\<lparr>gq_correlation := kvs\<rparr>))))"

record launch =
  la_graph :: string
  la_principal :: principal
  la_limits :: task_limits
  la_correlation :: "(string \<times> json) list"
  la_budget :: "run_budget option"

definition make_launch :: "launch \<Rightarrow> launch res" where
  "make_launch l =
     ensure (\<not> blank (la_graph l)) ValueError
       (ebind (normalize_correlation (la_correlation l)) (\<lambda>kvs. Inr (l\<lparr>la_correlation := kvs\<rparr>)))"

record admission =
  ad_version :: int
  ad_graph :: string
  ad_principal :: principal
  ad_limits :: task_limits
  ad_operation :: string
  ad_digest :: string
  ad_correlation :: "(string \<times> json) list"
  ad_budget :: "run_budget option"
  ad_budget_scope :: "string option"
  ad_effects :: tool_effects

definition graph_budget_scope :: "string \<Rightarrow> run_budget option \<Rightarrow> string option" where
  "graph_budget_scope g b = map_option (\<lambda>_. ''graph:'' @ g) b"

definition make_admission :: "admission \<Rightarrow> admission res" where
  "make_admission a =
     ensure (1 \<le> ad_version a \<and> \<not> blank (ad_graph a) \<and> is_sha256 (ad_operation a) \<and> is_sha256 (ad_digest a))
       ValueError
       (ensure (ad_budget_scope a = graph_budget_scope (ad_graph a) (ad_budget a)) ValueError
         (ebind (normalize_correlation (ad_correlation a)) (\<lambda>kvs. Inr (a\<lparr>ad_correlation := kvs\<rparr>))))"

definition idempotency_key_digest :: "(bytes \<Rightarrow> bytes) \<Rightarrow> string \<Rightarrow> string res" where
  "idempotency_key_digest sha key = ensure (key \<noteq> []) ValueError (Inr (hexdigest (sha key)))"

definition admission_from_request :: "(bytes \<Rightarrow> bytes) \<Rightarrow> graph_request \<Rightarrow> admission res" where
  "admission_from_request sha q =
     ebind (idempotency_key_digest sha (gq_key q)) (\<lambda>operation.
       make_admission
         \<lparr>ad_version = 1, ad_graph = tg_id (gq_graph q), ad_principal = gq_principal q, ad_limits = gq_limits q,
          ad_operation = operation,
          ad_digest = request_digest sha (gq_graph q) (gq_principal q) (gq_limits q) (gq_budget q) (gq_effects q),
          ad_correlation = gq_correlation q, ad_budget = gq_budget q,
          ad_budget_scope = graph_budget_scope (tg_id (gq_graph q)) (gq_budget q),
          ad_effects = gq_effects q\<rparr>)"

definition admission_launch :: "admission \<Rightarrow> launch res" where
  "admission_launch a =
     ensure (ad_version a = 1) (ai STORAGE_VERSION_UNSUPPORTED)
       (make_launch
          \<lparr>la_graph = ad_graph a, la_principal = ad_principal a, la_limits = ad_limits a,
           la_correlation = ad_correlation a, la_budget = ad_budget a\<rparr>)"

definition validate_graph :: "(bytes \<Rightarrow> bytes) \<Rightarrow> admission \<Rightarrow> task_graph \<Rightarrow> unit res" where
  "validate_graph sha a g =
     ensure (tg_id g = ad_graph a) (ai STORAGE_INTEGRITY_ERROR)
       (ebind (validate_limits (tg_nodes g) (ad_limits a)) (\<lambda>_.
          ensure (request_digest sha g (ad_principal a) (ad_limits a) (ad_budget a) (ad_effects a) = ad_digest a)
            (ai STORAGE_INTEGRITY_ERROR) (Inr ())))"

lemma make_admission_Inr: "make_admission a = Inr b \<Longrightarrow> b = a"
  by (auto simp: make_admission_def eres dest: normalize_correlation_Inr)

lemma make_launch_Inr: "make_launch l = Inr k \<Longrightarrow> k = l"
  by (auto simp: make_launch_def eres dest: normalize_correlation_Inr)

section \<open>Submissions\<close>

record submission_ref =
  sr_namespace :: string
  sr_tenant :: string
  sr_graph :: string
  sr_digest :: string
  sr_operation :: string
  sr_principal :: principal

definition make_submission_ref :: "submission_ref \<Rightarrow> submission_ref res" where
  "make_submission_ref s =
     ensure (sr_namespace s \<noteq> [] \<and> sr_graph s \<noteq> [] \<and> sr_tenant s = pr_tenant (sr_principal s) \<and>
             is_sha256 (sr_digest s) \<and> is_sha256 (sr_operation s)) ValueError (Inr s)"

record submission =
  sb_namespace :: string
  sb_admission :: admission
  sb_graph :: task_graph

definition make_submission :: "(bytes \<Rightarrow> bytes) \<Rightarrow> submission \<Rightarrow> submission res" where
  "make_submission sha s =
     ensure (sb_namespace s \<noteq> []) ValueError
       (ebind (admission_launch (sb_admission s)) (\<lambda>_.
        ebind (validate_graph sha (sb_admission s) (sb_graph s)) (\<lambda>_. Inr s)))"

definition submission_reference :: "submission \<Rightarrow> submission_ref res" where
  "submission_reference s =
     make_submission_ref
       \<lparr>sr_namespace = sb_namespace s, sr_tenant = pr_tenant (ad_principal (sb_admission s)),
        sr_graph = ad_graph (sb_admission s), sr_digest = ad_digest (sb_admission s),
        sr_operation = ad_operation (sb_admission s), sr_principal = ad_principal (sb_admission s)\<rparr>"

end
