(* ===== verification/Operation_Values.thy ===== *)
theory Operation_Values
  imports State_Records
begin

text \<open>
  The values of the operation ledger, \<open>ai/core/_operation.py\<close> and \<open>ai/core/_value.py\<close>: what an
  operation is, when a replay is the same operation, and what a later status may not change.
\<close>

section \<open>Operation ledger\<close>

datatype resource_kind =
    SESSION | EXECUTION | TASK_GRAPH | EVALUATION | APPROVAL | EXTERNAL_CALL | ARTIFACT | MEMORY
  | TOOL_OPERATION | DOWNLOAD_GRANT

datatype operation_kind =
    EXECUTION_START | MODEL | TOOL | TOOL_EFFECT_RESOLVE | OP_APPROVAL | EXTERNAL | BUDGET | RESULT
  | EVENT | EXECUTION_CANCEL | EXECUTION_RECOVER | TASK_CANCEL | TASK_RECOVER | SESSION_CREATE
  | SESSION_FORK | SESSION_UPDATE | SESSION_CLOSE | MEMORY_WRITE | MEMORY_DELETE | TASK_NODE
  | OP_DOWNLOAD_GRANT

datatype operation_status =
    OP_PENDING | OP_RUNNING | OP_SUCCEEDED | OP_FAILED | OP_CANCELLED | EFFECT_UNKNOWN | COMPACTED

primrec resource_value :: "resource_kind \<Rightarrow> string" where
  "resource_value SESSION = ''SESSION''"
| "resource_value EXECUTION = ''EXECUTION''"
| "resource_value TASK_GRAPH = ''TASK_GRAPH''"
| "resource_value EVALUATION = ''EVALUATION''"
| "resource_value APPROVAL = ''APPROVAL''"
| "resource_value EXTERNAL_CALL = ''EXTERNAL_CALL''"
| "resource_value ARTIFACT = ''ARTIFACT''"
| "resource_value MEMORY = ''MEMORY''"
| "resource_value TOOL_OPERATION = ''TOOL_OPERATION''"
| "resource_value DOWNLOAD_GRANT = ''DOWNLOAD_GRANT''"

primrec op_status_value :: "operation_status \<Rightarrow> string" where
  "op_status_value OP_PENDING = ''PENDING''"
| "op_status_value OP_RUNNING = ''RUNNING''"
| "op_status_value OP_SUCCEEDED = ''SUCCEEDED''"
| "op_status_value OP_FAILED = ''FAILED''"
| "op_status_value OP_CANCELLED = ''CANCELLED''"
| "op_status_value EFFECT_UNKNOWN = ''EFFECT_UNKNOWN''"
| "op_status_value COMPACTED = ''COMPACTED''"

record op_input =
  oi_id :: string
  oi_tenant :: string
  oi_resource_kind :: resource_kind
  oi_resource :: string
  oi_execution :: "string option"
  oi_kind :: operation_kind
  oi_status :: operation_status
  oi_request :: string
  oi_result_ref :: "string option"
  oi_result_digest :: "string option"
  oi_error :: "string option"
  oi_compactable :: bool
  oi_created :: int
  oi_updated :: int

record op_record = op_input +
  or_sequence :: int

definition operation_record :: "op_input \<Rightarrow> int \<Rightarrow> op_record" where
  "operation_record v n = op_input.extend v \<lparr>or_sequence = n\<rparr>"

text \<open>\<open>operation_replay_matches\<close>: everything but the times.\<close>

definition operation_matches :: "op_record \<Rightarrow> op_input \<Rightarrow> bool" where
  "operation_matches r c =
     (oi_id r = oi_id c \<and> oi_tenant r = oi_tenant c \<and> oi_resource_kind r = oi_resource_kind c \<and>
      oi_resource r = oi_resource c \<and> oi_execution r = oi_execution c \<and> oi_kind r = oi_kind c \<and>
      oi_status r = oi_status c \<and> oi_request r = oi_request c \<and> oi_result_ref r = oi_result_ref c \<and>
      oi_result_digest r = oi_result_digest c \<and> oi_error r = oi_error c \<and>
      oi_compactable r = oi_compactable c)"

definition cas_immutable_matches :: "op_record \<Rightarrow> op_record \<Rightarrow> bool" where
  "cas_immutable_matches r c =
     (oi_id r = oi_id c \<and> oi_tenant r = oi_tenant c \<and> oi_resource_kind r = oi_resource_kind c \<and>
      oi_resource r = oi_resource c \<and> oi_execution r = oi_execution c \<and> oi_kind r = oi_kind c \<and>
      oi_request r = oi_request c \<and> oi_compactable r = oi_compactable c \<and>
      or_sequence r = or_sequence c \<and> oi_created r = oi_created c \<and>
      (oi_kind r \<noteq> EXECUTION_RECOVER \<or>
       (oi_result_ref r = oi_result_ref c \<and> oi_result_digest r = None \<and> oi_result_digest c = None)))"

definition decode_operation :: "op_input stored_operation \<Rightarrow> op_record" where
  "decode_operation v = operation_record (op_data v) (op_sequence v)"

end
