(* ===== verification/Execution_Values.thy ===== *)
theory Execution_Values
  imports Admission_Values Operation_Values
begin

text \<open>
  The records of an execution, \<open>ai/execution/_records.py\<close>, with the statuses of
  \<open>ai/core/_value.py\<close>: the execution itself with what is needed to recover it, the record of its
  idempotency key, and the requests that start, cancel and end it.

  A value that the records carry without reading it is the JSON it is persisted as: the user
  input, diagnostics, asset references, cursors, and the parts of a binding and a payload beyond
  the named fields.  Times are aware, so the checks of their zone always pass.
\<close>

section \<open>Statuses\<close>

datatype execution_status =
    PENDING_START | STARTED | FINALIZING | START_UNKNOWN | EX_RECOVERY_REQUIRED | WAITING_DEFERRED
  | WAITING_RETRY | CANCELLING | EX_SUCCEEDED | EX_FAILED | EX_CANCELLED

primrec execution_value :: "execution_status \<Rightarrow> string" where
  "execution_value PENDING_START = ''PENDING_START''"
| "execution_value STARTED = ''STARTED''"
| "execution_value FINALIZING = ''FINALIZING''"
| "execution_value START_UNKNOWN = ''START_UNKNOWN''"
| "execution_value EX_RECOVERY_REQUIRED = ''RECOVERY_REQUIRED''"
| "execution_value WAITING_DEFERRED = ''WAITING_DEFERRED''"
| "execution_value WAITING_RETRY = ''WAITING_RETRY''"
| "execution_value CANCELLING = ''CANCELLING''"
| "execution_value EX_SUCCEEDED = ''SUCCEEDED''"
| "execution_value EX_FAILED = ''FAILED''"
| "execution_value EX_CANCELLED = ''CANCELLED''"

definition ended :: "execution_status \<Rightarrow> bool" where
  "ended s = (s \<in> {EX_SUCCEEDED, EX_FAILED, EX_CANCELLED})"

lemma ended_simps [simp]:
  "ended EX_SUCCEEDED" "ended EX_FAILED" "ended EX_CANCELLED" "\<not> ended PENDING_START" "\<not> ended STARTED"
  "\<not> ended FINALIZING" "\<not> ended START_UNKNOWN" "\<not> ended EX_RECOVERY_REQUIRED"
  "\<not> ended WAITING_DEFERRED" "\<not> ended WAITING_RETRY" "\<not> ended CANCELLING"
  by (simp_all add: ended_def)

datatype lineage_kind = RUN | SESSION_RESUME | RETRY | FORK | SUBAGENT

datatype idempotency_status =
    RESERVED | ID_STARTED | ID_START_UNKNOWN | COMPLETED | ID_FAILED | ID_CANCELLED

primrec idempotency_value :: "idempotency_status \<Rightarrow> string" where
  "idempotency_value RESERVED = ''RESERVED''"
| "idempotency_value ID_STARTED = ''STARTED''"
| "idempotency_value ID_START_UNKNOWN = ''START_UNKNOWN''"
| "idempotency_value COMPLETED = ''COMPLETED''"
| "idempotency_value ID_FAILED = ''FAILED''"
| "idempotency_value ID_CANCELLED = ''CANCELLED''"

definition normalize_execution_mode :: "string option \<Rightarrow> string option res" where
  "normalize_execution_mode v = ensure (v \<in> {Some ''run'', Some ''plan''}) (ai REQUEST_FIELD_INVALID) (Inr v)"

definition normalize_tool_effects :: "string \<Rightarrow> string res" where
  "normalize_tool_effects v =
     ensure (v \<in> {''deny'', ''read_only'', ''live''}) (ai REQUEST_FIELD_INVALID) (Inr v)"

definition normalize_thinking :: "json \<Rightarrow> json res" where
  "normalize_thinking v =
     (case v of
        JNull \<Rightarrow> Inr v
      | JBool _ \<Rightarrow> Inr v
      | JStr s \<Rightarrow>
          ensure (s \<in> {''minimal'', ''low'', ''medium'', ''high'', ''xhigh'', ''max''})
            (ai REQUEST_FIELD_INVALID) (Inr v)
      | _ \<Rightarrow> Inl (ai REQUEST_FIELD_INVALID))"

section \<open>Payloads and bindings\<close>

datatype payload_kind = Inline | Object

record stored_payload =
  sp_kind :: payload_kind
  sp_digest :: string
  sp_rest :: json

record payload_ref =
  pf_payload :: stored_payload
  pf_domain :: "string option"

datatype binding =
    Agent_binding (agent_of: string) (agent_digest: string) (agent_rest: json)
  | Task_binding (task_of: string) (task_attempts: int) (task_digest: string) (task_rest: json)

definition agent_bound :: "binding \<Rightarrow> bool" where
  "agent_bound b = (case b of Agent_binding _ _ _ \<Rightarrow> True | Task_binding _ _ _ _ \<Rightarrow> False)"

definition binding_digest :: "binding \<Rightarrow> string" where
  "binding_digest b = (case b of Agent_binding _ dg _ \<Rightarrow> dg | Task_binding _ _ dg _ \<Rightarrow> dg)"

section \<open>Recovery\<close>

record deferred_call =
  dc_call :: string
  dc_tool :: string
  dc_arguments :: stored_payload
  dc_metadata :: details
  dc_capability :: "json option"

definition make_deferred_call :: "deferred_call \<Rightarrow> deferred_call res" where
  "make_deferred_call c = ensure (dc_call c \<noteq> [] \<and> dc_tool c \<noteq> []) ValueError (Inr c)"

record tool_continuation =
  tc_source :: string
  tc_approvals :: "deferred_call list"
  tc_calls :: "deferred_call list"

definition make_continuation :: "tool_continuation \<Rightarrow> tool_continuation res" where
  "make_continuation c =
     ensure (tc_source c \<noteq> []) ValueError
       (let ids = map dc_call (tc_approvals c @ tc_calls c) in
        ensure (ids \<noteq> [] \<and> distinct ids) ValueError (Inr c))"

record instruction_barrier =
  ib_agent_run :: string
  ib_call :: string
  ib_arguments :: string

definition make_barrier :: "instruction_barrier \<Rightarrow> instruction_barrier res" where
  "make_barrier b =
     ensure (ib_agent_run b \<noteq> [] \<and> ib_call b \<noteq> [] \<and> is_sha256 (ib_arguments b)) ValueError (Inr b)"

datatype handoff_phase = No_handoff | Prepared_handoff | Completed_handoff

datatype recovery_state = Admitted | Active | Rec_waiting | Handoff | Rec_completed

datatype stop_reason =
    END_TURN | REFUSAL | TURN_LIMIT | OUTPUT_VALIDATION_FAILED | STOP_CANCELLED | STOP_ERROR

record usage_metrics =
  um_requests :: int
  um_tools :: int
  um_input :: int
  um_output :: int
  um_cache_read :: int
  um_cache_write :: int

definition make_metrics :: "usage_metrics \<Rightarrow> usage_metrics res" where
  "make_metrics u =
     ensure (list_all (\<lambda>n. 0 \<le> n)
       [um_requests u, um_tools u, um_input u, um_output u, um_cache_read u, um_cache_write u])
       ValueError (Inr u)"

record terminal_outcome =
  to_status :: execution_status
  to_error :: "string option"
  to_details :: details
  to_stop :: stop_reason
  to_output :: "stored_payload option"
  to_source :: "string option"
  to_usage :: usage_metrics
  to_event :: string
  to_payload :: details
  to_created :: int
  to_diagnostics :: "json option"

definition make_outcome :: "terminal_outcome \<Rightarrow> terminal_outcome res" where
  "make_outcome v =
     ensure (\<not> (to_status v = EX_SUCCEEDED \<and> to_output v = None)) ValueError
    (ensure (\<not> (to_status v \<noteq> EX_SUCCEEDED \<and> to_output v \<noteq> None)) ValueError
    (ensure (\<not> (to_output v = None \<and> to_source v \<noteq> None)) ValueError
    (ensure (case to_output v of None \<Rightarrow> True
             | Some p \<Rightarrow> (sp_kind p = Inline) = (to_source v = None)) ValueError
    (ensure (to_source v \<in> {None, Some ''execution'', Some ''checkpoint''}) ValueError
    (ensure (\<not> (to_status v \<noteq> EX_FAILED \<and> to_diagnostics v \<noteq> None)) ValueError (Inr v))))))"

record terminal_handoff =
  th_outcome :: terminal_outcome
  th_source :: "string option"
  th_conversation :: "json option"

definition make_handoff :: "terminal_handoff \<Rightarrow> terminal_handoff res" where
  "make_handoff h =
     ensure (\<not> (to_status (th_outcome h) = EX_SUCCEEDED \<and> th_source h = None)) ValueError
    (ensure (\<not> (th_conversation h \<noteq> None \<and> th_source h = None)) ValueError (Inr h))"

record recovery_detail =
  rd_agent_run :: "string option"
  rd_source :: "string option"
  rd_pending :: "tool_continuation option"
  rd_overlay :: "payload_ref option"
  rd_barriers :: "instruction_barrier list"
  rd_phase :: handoff_phase
  rd_handoff :: "terminal_handoff option"

definition make_recovery :: "recovery_detail \<Rightarrow> recovery_detail res" where
  "make_recovery d =
     ensure (rd_agent_run d \<noteq> Some [] \<and> rd_source d \<noteq> Some []) ValueError
    (ensure (\<not> (rd_agent_run d = None \<and> (rd_source d \<noteq> None \<or> rd_pending d \<noteq> None))) ValueError
    (ensure (distinct (map (\<lambda>b. (ib_agent_run b, ib_call b)) (rd_barriers d))) ValueError
    (ensure (\<not> (rd_phase d = No_handoff \<and> rd_handoff d \<noteq> None)) ValueError
    (ensure (\<not> (rd_phase d = Prepared_handoff \<and> rd_handoff d = None)) ValueError
    (ensure (\<not> (rd_phase d \<noteq> No_handoff \<and> rd_pending d \<noteq> None)) ValueError (Inr d))))))"

definition new_recovery :: recovery_detail where
  "new_recovery =
     \<lparr>rd_agent_run = None, rd_source = None, rd_pending = None, rd_overlay = None, rd_barriers = [],
      rd_phase = No_handoff, rd_handoff = None\<rparr>"

section \<open>The execution record\<close>

record result_value =
  rs_output :: "stored_payload option"
  rs_stop :: stop_reason
  rs_usage :: usage_metrics
  rs_created :: int

record execution =
  ex_id :: string
  ex_session :: "string option"
  ex_parent :: "string option"
  ex_root :: string
  ex_previous :: "string option"
  ex_fork_base :: "string option"
  ex_lineage :: lineage_kind
  ex_status :: execution_status
  ex_revision :: int
  ex_event_seq :: int
  ex_run_seq :: int
  ex_error :: "string option"
  ex_details :: details
  ex_created :: int
  ex_updated :: int
  ex_mode :: "string option"
  ex_planning :: "bool option"
  ex_thinking :: json
  ex_binding :: binding
  ex_principal :: string
  ex_principal_kind :: string
  ex_input :: json
  ex_generation :: int
  ex_claim :: "string option"
  ex_parent_call :: "string option"
  ex_memory :: "string option"
  ex_conversation_run :: "string option"
  ex_result :: "result_value option"
  ex_instructions :: "payload_ref option"
  ex_context :: "payload_ref option"
  ex_imported :: bool
  ex_diagnostics :: "json option"
  ex_correlation :: details
  ex_attempt :: int
  ex_deadline :: "int option"
  ex_next_attempt :: "int option"
  ex_holds :: "string list"
  ex_capture :: bool
  ex_closed :: bool
  ex_started :: "int option"
  ex_budget :: "string option"
  ex_tool_response :: "json option"
  ex_effects :: string
  ex_restart :: bool
  ex_trace :: bool
  ex_conversation :: bool
  ex_recovery :: "recovery_detail option"
  ex_seal :: "string option"

text \<open>\<open>ExecutionRecord.__post_init__\<close>, in its parts.\<close>

definition check_control :: "execution \<Rightarrow> unit res" where
  "check_control e =
     ebind (normalize_tool_effects (ex_effects e)) (\<lambda>_.
     ensure (0 \<le> ex_generation e) ValueError
    (ensure (case ex_claim e of None \<Rightarrow> True | Some c \<Rightarrow> c \<noteq> [] \<and> 1 \<le> ex_generation e) ValueError
    (ensure (case ex_budget e of None \<Rightarrow> True | Some s \<Rightarrow> \<not> blank s) ValueError
    (ensure (\<not> (ex_imported e \<and> (ex_context e = None \<or> ex_session e \<noteq> None))) ValueError
    (ensure (case ex_seal e of None \<Rightarrow> True | Some dg \<Rightarrow> ex_trace e \<and> length dg = 64) ValueError (Inr ()))))))"

definition check_agent :: "execution \<Rightarrow> unit res" where
  "check_agent e =
     ensure (\<not> (ex_status e = WAITING_DEFERRED \<and>
                (case ex_recovery e of None \<Rightarrow> True | Some d \<Rightarrow> rd_pending d = None))) ValueError
    (ebind (normalize_execution_mode (ex_mode e)) (\<lambda>mode.
     ebind (normalize_thinking (ex_thinking e)) (\<lambda>_.
     ensure (ex_planning e \<noteq> None) TypeError
    (ensure (\<not> (mode = Some ''plan'' \<and> ex_planning e \<noteq> Some True)) ValueError
    (ensure (ex_attempt e = 0 \<and> ex_deadline e = None \<and> ex_next_attempt e = None) ValueError (Inr ()))))))"

definition check_task :: "int \<Rightarrow> execution \<Rightarrow> unit res" where
  "check_task attempts e =
     ensure (ex_mode e = None \<and> ex_planning e = None \<and> ex_thinking e = JNull) ValueError
    (ensure (ex_session e = None \<and> ex_memory e = None \<and> ex_context e = None \<and> \<not> ex_imported e \<and>
             ex_tool_response e = None \<and> ex_effects e = ''live'' \<and> ex_conversation_run e = None \<and>
             ex_parent e = None \<and> ex_parent_call e = None \<and> ex_lineage e = RUN \<and> ex_run_seq e = 0) ValueError
    (ensure (0 \<le> ex_attempt e \<and> ex_attempt e \<le> attempts) ValueError (Inr ())))"

definition holds_ok :: "string list \<Rightarrow> bool" where
  "holds_ok hs = (list_all (\<lambda>h. \<not> blank h) hs \<and> distinct hs \<and> sort hs = hs)"

definition check_lineage :: "execution \<Rightarrow> unit res" where
  "check_lineage e =
     (if ex_lineage e = SUBAGENT
      then ensure (ex_parent e \<notin> {None, Some []} \<and> ex_parent_call e \<notin> {None, Some []} \<and>
                   ex_previous e = None \<and> ex_fork_base e = None) ValueError (Inr ())
      else ensure (ex_parent e = None \<and> ex_parent_call e = None) ValueError (Inr ()))"

definition make_execution :: "execution \<Rightarrow> execution res" where
  "make_execution e =
     ebind (check_control e) (\<lambda>_.
     ebind (case ex_binding e of
              Agent_binding _ _ _ \<Rightarrow> check_agent e
            | Task_binding _ attempts _ _ \<Rightarrow> check_task attempts e) (\<lambda>_.
     ensure (holds_ok (ex_holds e)) ValueError
    (ebind (normalize_correlation (ex_correlation e)) (\<lambda>_.
     ebind (check_lineage e) (\<lambda>_.
     ensure (ex_principal e \<noteq> [] \<and> ex_principal_kind e \<noteq> []) TypeError
    (ensure (ex_status e = EX_FAILED \<or> ex_diagnostics e = None) ValueError (Inr e)))))))"

definition recovery_state_of :: "execution \<Rightarrow> recovery_state option" where
  "recovery_state_of e =
     (case ex_recovery e of
        None \<Rightarrow> None
      | Some d \<Rightarrow> Some (
          if rd_phase d = Prepared_handoff then Handoff
          else if rd_phase d = Completed_handoff \<or> ended (ex_status e) then Rec_completed
          else if ex_status e = WAITING_DEFERRED then Rec_waiting
          else if rd_agent_run d = None then Admitted else Active))"

lemma make_execution_Inr [eres]: "make_execution e = Inr v \<longleftrightarrow> \<not> isl (make_execution e) \<and> v = e"
  by (auto simp: make_execution_def eres ebind_def ensure_def split: sum.splits if_splits)

section \<open>Idempotency, seals and requests\<close>

record idempotency =
  id_scope :: string
  id_key :: string
  id_request :: string
  id_kind :: resource_kind
  id_resource :: string
  id_status :: idempotency_status
  id_result :: "string option"
  id_error :: "string option"
  id_created :: int
  id_updated :: int

definition same_identity :: "idempotency \<Rightarrow> idempotency \<Rightarrow> bool" where
  "same_identity a b =
     (id_scope a = id_scope b \<and> id_key a = id_key b \<and> id_request a = id_request b \<and> id_kind a = id_kind b)"

definition same_idempotency :: "idempotency \<Rightarrow> idempotency \<Rightarrow> bool" where
  "same_idempotency a b = (same_identity a b \<and> id_resource a = id_resource b)"

record seal_head =
  sh_run :: string
  sh_events :: int
  sh_checkpoints :: int
  sh_messages :: int
  sh_projection :: string
  sh_interactions :: int

record history_seal =
  hs_execution :: string
  hs_heads :: "seal_head list"
  hs_high_water :: int

definition make_head :: "seal_head \<Rightarrow> seal_head res" where
  "make_head h =
     ensure (list_all (\<lambda>n. 0 \<le> n) [sh_events h, sh_checkpoints h, sh_messages h, sh_interactions h]) ValueError
       (ensure (sh_run h \<noteq> [] \<and> sh_projection h \<noteq> []) ValueError (Inr h))"

definition make_seal :: "history_seal \<Rightarrow> history_seal res" where
  "make_seal s =
     ensure (0 \<le> hs_high_water s) ValueError
       (ensure (hs_execution s \<noteq> []) ValueError
         (let runs = map sh_run (hs_heads s) in ensure (sort runs = runs \<and> distinct runs) ValueError (Inr s)))"

record start_claim =
  cl_execution :: string
  cl_revision :: int
  cl_event_seq :: int
  cl_scope :: string
  cl_key :: string
  cl_request :: string
  cl_started :: int

record cancel_request =
  cn_execution :: string
  cn_revision :: int
  cn_event_seq :: int
  cn_operation :: string
  cn_requested :: int

record start_reservation =
  sv_execution :: execution
  sv_idempotency :: idempotency
  sv_budget :: "run_budget option"
  sv_parent_generation :: "int option"

definition make_reservation :: "start_reservation \<Rightarrow> start_reservation res" where
  "make_reservation v =
     ensure (case sv_parent_generation v of
               None \<Rightarrow> True
             | Some n \<Rightarrow> 1 \<le> n \<and> ex_parent (sv_execution v) \<noteq> None) ValueError (Inr v)"

record idempotency_update =
  iu_scope :: string
  iu_key :: string
  iu_expected :: idempotency_status
  iu_next :: idempotency_status
  iu_request :: string
  iu_result :: "string option"
  iu_error :: "string option"

record operation_update =
  ou_id :: string
  ou_expected :: operation_status
  ou_next :: operation_status
  ou_result_ref :: "string option"
  ou_result :: "string option"
  ou_error :: "string option"

record terminal_commit =
  tm_revision :: int
  tm_event_seq :: int
  tm_execution :: execution
  tm_result :: result_value
  tm_event :: string
  tm_payload :: details
  tm_idempotency :: "idempotency_update option"
  tm_operation :: "operation_update option"
  tm_generation :: "int option"

definition make_commit :: "terminal_commit \<Rightarrow> terminal_commit res" where
  "make_commit c =
     (let e = tm_execution c; payload = map_of (tm_payload c) in
      ensure (case tm_generation c of None \<Rightarrow> True | Some n \<Rightarrow> 1 \<le> n) ValueError
     (ensure (ended (ex_status e)) ValueError
     (ensure ((rs_output (tm_result c) \<noteq> None) = (ex_status e = EX_SUCCEEDED)) ValueError
        (if ex_status e = EX_FAILED then
           ensure (tm_event c = ''EXECUTION_FAILED'') ValueError
          (ensure ((case payload ''error_code'' of None \<Rightarrow> JNull | Some v \<Rightarrow> v) = json_option JStr (ex_error e)) ValueError
          (ensure (case payload ''safe_error_details'' of
                     Some (JObj d) \<Rightarrow> sort_keys (JObj d) = sort_keys (JObj (ex_details e)) | _ \<Rightarrow> False) ValueError
          (ensure (map_option sort_keys (payload ''error_diagnostics'') = map_option sort_keys (ex_diagnostics e))
             ValueError (Inr c))))
         else ensure (payload ''error_diagnostics'' = None) ValueError (Inr c)))))"

record terminal_result =
  tv_execution :: execution
  tv_result :: result_value

record reservation_result =
  rv_execution :: execution
  rv_idempotency :: idempotency
  rv_created :: bool

record event_append =
  ea_type :: string
  ea_payload :: details

definition make_append :: "event_append \<Rightarrow> event_append res" where
  "make_append v = ensure (ea_type v \<noteq> []) ValueError (Inr v)"

record event_record =
  er_execution :: string
  er_seq :: int
  er_type :: string
  er_payload :: details

definition make_event_record :: "event_record \<Rightarrow> event_record res" where
  "make_event_record v = ensure (er_type v \<noteq> []) ValueError (Inr v)"

end
