(* ===== verification/Repo_Base.thy ===== *)
theory Repo_Base
  imports Task_Events Execution_Values
begin

text \<open>
  The base of the repositories, \<open>ai/persistence/_repository_common.py\<close>, with the persisted
  projections of \<open>ai/persistence/codec.py\<close>.

  The \<open>data\<close> of a record is its domain value in its persisted projection, which drops the
  nodes of a graph header and, of a node view, the dependencies and the lease: the lease
  lives in the columns of the record and the dependencies in the definition.  The wire
  encoding of the other fields is not modelled: a payload of another type than the decoder
  expects is an integrity error, as in the code.
\<close>

section \<open>Domain values\<close>

record prepared_input =
  pi_graph :: string
  pi_node :: string
  pi_tenant :: string
  pi_admission :: string
  pi_task :: "string \<times> int"
  pi_identity :: string
  pi_sources :: "(string \<times> result_ref) list"
  pi_stored_digest :: string
  pi_final :: string
  pi_request :: string
  pi_fence :: int

datatype domain_value =
    Graph graph_view
  | Node node_view
  | Definition task_node
  | Admission admission
  | Result result_record
  | Prepared prepared_input
  | Submission_ref submission_ref
  | Submission submission
  | Usage budget_usage
  | Model_reservation model_reservation
  | Tool_reservation tool_reservation
  | Execution execution
  | Idempotency idempotency
  | History_seal history_seal

definition persisted_view :: "node_view \<Rightarrow> node_view" where
  "persisted_view v = v\<lparr>nv_deps := [], nv_owner := None, nv_fence := 1, nv_expires := None\<rparr>"

fun domain_data :: "domain_value \<Rightarrow> domain_value" where
  "domain_data (Graph g) = Graph (g\<lparr>gv_nodes := []\<rparr>)"
| "domain_data (Node v) = Node (persisted_view v)"
| "domain_data d = d"

fun record_lease :: "domain_value \<Rightarrow> string option \<times> int \<times> int option" where
  "record_lease (Node v) = (nv_owner v, nv_fence v, nv_expires v)"
| "record_lease _ = (None, 0, None)"

text \<open>An execution whose handoff is prepared is listed under a state of its own.\<close>

definition execution_state :: "execution \<Rightarrow> string" where
  "execution_state e =
     (if (case ex_recovery e of None \<Rightarrow> False | Some d \<Rightarrow> rd_phase d = Prepared_handoff) then ''execution_handoff''
      else execution_value (ex_status e))"

fun record_state :: "domain_value \<Rightarrow> string option" where
  "record_state (Graph g) = Some (status_value (gv_status g))"
| "record_state (Node v) = Some (status_value (nv_status v))"
| "record_state (Execution e) = Some (execution_state e)"
| "record_state (Idempotency i) = Some (idempotency_value (id_status i))"
| "record_state _ = None"

fun projected_state :: "domain_value \<Rightarrow> string option \<Rightarrow> string option" where
  "projected_state (Execution e) st = Some (execution_state e)"
| "projected_state _ st = st"

fun canonical_identity :: "domain_value \<Rightarrow> json res" where
  "canonical_identity (Graph g) = Inr (JStr (gv_id g))"
| "canonical_identity (Node v) = Inr (JList [JStr (nv_graph v), JStr (nv_id v)])"
| "canonical_identity (Execution e) = Inr (JStr (ex_id e))"
| "canonical_identity (Idempotency i) = Inr (JList [JStr (id_scope i), JStr (id_key i)])"
| "canonical_identity _ = Inl TypeError"

type_synonym task_record = "domain_value stored_record"
type_synonym 'f value_txn = "(domain_value, 'f, op_input) txn"
type_synonym 'f value_store = "(domain_value, 'f, op_input) mem_store"
type_synonym ('f, 'a) value_action = "'f value_txn \<Rightarrow> ('a \<times> 'f value_txn) res"
type_synonym task_txn = "event_payload value_txn"
type_synonym task_store = "event_payload value_store"
type_synonym 'a task_action = "(event_payload, 'a) value_action"

section \<open>The repository\<close>

record repo =
  rp_sha :: "bytes \<Rightarrow> bytes"
  rp_ns :: string
  rp_tenant :: string
  rp_domain :: string

definition repo_key :: "repo \<Rightarrow> string \<Rightarrow> json \<Rightarrow> bytes" where
  "repo_key R knd ident = record_key_digest (rp_sha R) (rp_ns R) (rp_tenant R) (rp_domain R) knd ident"

definition repo_scope :: "repo \<Rightarrow> string \<Rightarrow> string \<Rightarrow> json \<Rightarrow> bytes" where
  "repo_scope R knd rel ident = scope_digest (rp_sha R) (rp_ns R) (rp_tenant R) (rp_domain R) knd rel ident"

definition repo_parent :: "repo \<Rightarrow> string \<Rightarrow> string \<Rightarrow> json \<Rightarrow> bytes" where
  "repo_parent R knd rel ident = parent_digest (rp_sha R) (rp_ns R) (rp_tenant R) (rp_domain R) knd rel ident"

fun default_scope :: "repo \<Rightarrow> string \<Rightarrow> domain_value \<Rightarrow> bytes option" where
  "default_scope R knd (Execution e) = map_option (\<lambda>s. repo_scope R knd ''session'' (JStr s)) (ex_session e)"
| "default_scope R knd (Idempotency i) =
     Some (repo_scope R knd ''resource'' (JList [JStr (resource_value (id_kind i)), JStr (id_resource i)]))"
| "default_scope R knd _ = None"

fun default_parent :: "repo \<Rightarrow> string \<Rightarrow> domain_value \<Rightarrow> bytes option" where
  "default_parent R knd (Node v) = Some (repo_parent R knd ''graph'' (JStr (nv_graph v)))"
| "default_parent R knd (Execution e) = map_option (\<lambda>p. repo_parent R knd ''execution'' (JStr p)) (ex_parent e)"
| "default_parent R knd _ = None"

definition project_record ::
  "repo \<Rightarrow> string \<Rightarrow> json \<Rightarrow> domain_value \<Rightarrow> bytes option \<Rightarrow> bytes option \<Rightarrow> string option \<Rightarrow> task_record" where
  "project_record R knd ident v scope parent st =
     (let (owner, fence, expires) = record_lease v in
      \<lparr>rec_key = repo_key R knd ident,
       rec_scope = (if scope = None then default_scope R knd v else scope),
       rec_parent = (if parent = None then default_parent R knd v else parent),
       rec_kind = knd, rec_sort = sortable_identity (rp_sha R) ident, rec_state = projected_state v st,
       rec_revision = 0, rec_owner = owner, rec_fence = fence, rec_expires = expires,
       rec_data = domain_data v\<rparr>)"

definition projected_record :: "repo \<Rightarrow> task_record \<Rightarrow> domain_value \<Rightarrow> task_record res" where
  "projected_record R current v =
     ebind (canonical_identity v) (\<lambda>ident.
       Inr ((project_record R (rec_kind current) ident v None None (record_state v))
              \<lparr>rec_revision := rec_revision current + 1\<rparr>))"

definition replace_checked :: "task_record \<Rightarrow> int \<Rightarrow> ('f, unit) value_action" where
  "replace_checked candidate expected t =
     ebind (replace_record candidate expected t) (\<lambda>(ok, t').
       ensure ok (ai STORAGE_CONFLICT) (Inr ((), t')))"

text \<open>\<open>if replacements: await transaction.replace_records(replacements)\<close>.\<close>

definition replace_all :: "domain_value record_replacement list \<Rightarrow> ('f, unit) value_action" where
  "replace_all ps t =
     (if ps = [] then Inr ((), t)
      else case replace_records ps t of (Inl e, _) \<Rightarrow> Inl e | (Inr u, t') \<Rightarrow> Inr ((), t'))"

definition require_tenant :: "repo \<Rightarrow> string \<Rightarrow> unit res" where
  "require_tenant R tenant = ensure (tenant = rp_tenant R) (ai STORAGE_OWNER_MISMATCH) (Inr ())"

section \<open>Decoding\<close>

text \<open>A constructor that rejects the stored fields is an integrity error; an \<open>AIError\<close> it raises passes.\<close>

definition integrity :: "'a res \<Rightarrow> 'a res" where
  "integrity m =
     (case m of
        Inl e \<Rightarrow> if exc_code e = None then Inl (ai STORAGE_INTEGRITY_ERROR) else Inl e
      | Inr x \<Rightarrow> Inr x)"

definition decode_graph :: "task_record \<Rightarrow> graph_view res" where
  "decode_graph r = (case rec_data r of Graph g \<Rightarrow> Inr g | _ \<Rightarrow> Inl (ai STORAGE_INTEGRITY_ERROR))"

definition decode_node :: "task_record \<Rightarrow> node_view res" where
  "decode_node r =
     (case rec_data r of
        Node v \<Rightarrow>
          ebind (integrity (make_view (persisted_view v))) (\<lambda>w.
            make_view (w\<lparr>nv_owner := rec_owner r, nv_fence := rec_fence r, nv_expires := rec_expires r\<rparr>))
      | _ \<Rightarrow> Inl (ai STORAGE_INTEGRITY_ERROR))"

definition decode_definition :: "task_record \<Rightarrow> task_node res" where
  "decode_definition r =
     (case rec_data r of
        Definition n \<Rightarrow> integrity (init_node n)
      | _ \<Rightarrow> Inl (ai STORAGE_INTEGRITY_ERROR))"

text \<open>The values nested in an admission are constructed with it.\<close>

definition make_stored_admission :: "admission \<Rightarrow> admission res" where
  "make_stored_admission a =
     ebind (make_principal (ad_principal a)) (\<lambda>_.
     ebind (make_limits (ad_limits a)) (\<lambda>_.
     ebind (case ad_budget a of None \<Rightarrow> Inr () | Some b \<Rightarrow> ebind (make_budget b) (\<lambda>_. Inr ())) (\<lambda>_.
       make_admission a)))"

definition decode_admission :: "task_record \<Rightarrow> admission res" where
  "decode_admission r =
     (case rec_data r of
        Admission a \<Rightarrow> integrity (make_stored_admission a)
      | _ \<Rightarrow> Inl (ai STORAGE_INTEGRITY_ERROR))"

definition decode_submission_ref :: "task_record \<Rightarrow> submission_ref res" where
  "decode_submission_ref r =
     (case rec_data r of
        Submission_ref s \<Rightarrow> integrity (ebind (make_principal (sr_principal s)) (\<lambda>_. make_submission_ref s))
      | _ \<Rightarrow> Inl (ai STORAGE_INTEGRITY_ERROR))"

definition decode_submission :: "(bytes \<Rightarrow> bytes) \<Rightarrow> task_record \<Rightarrow> submission res" where
  "decode_submission sha r =
     (case rec_data r of
        Submission s \<Rightarrow>
          integrity (ebind (make_stored_admission (sb_admission s)) (\<lambda>_.
            ebind (emap init_node (tg_nodes (sb_graph s))) (\<lambda>_.
            ebind (make_graph (sb_graph s)) (\<lambda>_. make_submission sha s))))
      | _ \<Rightarrow> Inl (ai STORAGE_INTEGRITY_ERROR))"

definition decode_result :: "task_record \<Rightarrow> result_record res" where
  "decode_result r =
     (case rec_data r of Result v \<Rightarrow> integrity (make_result v) | _ \<Rightarrow> Inl (ai STORAGE_INTEGRITY_ERROR))"

definition decode_prepared :: "task_record \<Rightarrow> prepared_input res" where
  "decode_prepared r = (case rec_data r of Prepared p \<Rightarrow> Inr p | _ \<Rightarrow> Inl (ai STORAGE_INTEGRITY_ERROR))"

lemma integrity_Inr [eres]: "integrity m = Inr x \<longleftrightarrow> m = Inr x"
  by (cases m) (simp_all add: integrity_def)

lemma persisted_view_idem [simp]: "persisted_view (persisted_view v) = persisted_view v"
  by (simp add: persisted_view_def)

text \<open>A view that was written and is read back is itself, without its dependencies.\<close>

lemma persisted_view_ok: "view_ok v \<Longrightarrow> view_ok (persisted_view v)"
  by (auto simp: view_ok_def persisted_view_def)

lemma view_ok_deps [simp]: "view_ok (v\<lparr>nv_deps := ds\<rparr>) = view_ok v"
  by (simp add: view_ok_def)

lemma decode_node_written:
  assumes "rec_data r = domain_data (Node v)" and "rec_owner r = nv_owner v"
    and "rec_fence r = nv_fence v" and "rec_expires r = nv_expires v" and "view_ok v"
  shows "decode_node r = Inr (v\<lparr>nv_deps := []\<rparr>)"
proof -
  have "(persisted_view v)\<lparr>nv_owner := nv_owner v, nv_fence := nv_fence v, nv_expires := nv_expires v\<rparr> =
      v\<lparr>nv_deps := []\<rparr>" by (simp add: persisted_view_def)
  with assms persisted_view_ok [OF assms(5)] show ?thesis
    by (simp add: decode_node_def make_view_def integrity_def)
qed

lemma decode_node_lease:
  "decode_node r = Inr v \<Longrightarrow>
    nv_owner v = rec_owner r \<and> nv_fence v = rec_fence r \<and> nv_expires v = rec_expires r \<and>
    nv_deps v = [] \<and> view_ok v"
  by (auto simp: decode_node_def persisted_view_def eres split: domain_value.splits)

section \<open>Operations of a repository\<close>

definition reserve_operation :: "repo \<Rightarrow> op_input \<Rightarrow> ('f, op_record \<times> bool) value_action" where
  "reserve_operation R v t =
     (case get_operation t (operation_key (rp_sha R) (rp_ns R) (rp_tenant R) (rp_domain R) (JStr (oi_id v))) of
        Some existing \<Rightarrow>
          ensure (operation_matches (decode_operation existing) v) (ai STORAGE_CONFLICT)
            (Inr ((decode_operation existing, True), t))
      | None \<Rightarrow>
          let (n, t') = next_sequence
                (sequence_key (rp_sha R) (rp_ns R) (rp_tenant R) (rp_domain R) ''operation''
                  (JList [JStr (resource_value (oi_resource_kind v)), JStr (oi_resource v)])) t
          in Inr ((operation_record v n, False), t'))"

definition operation_stream :: "repo \<Rightarrow> resource_kind \<Rightarrow> string \<Rightarrow> bytes" where
  "operation_stream R k i =
     stream_digest (rp_sha R) (rp_ns R) (rp_tenant R) (rp_domain R) ''operation''
       (JList [JStr (resource_value k), JStr i])"

definition put_operation :: "repo \<Rightarrow> op_input \<Rightarrow> int \<Rightarrow> ('f, unit) value_action" where
  "put_operation R v n =
     insert_operation
       \<lparr>op_key = operation_key (rp_sha R) (rp_ns R) (rp_tenant R) (rp_domain R) (JStr (oi_id v)),
        op_stream = operation_stream R (oi_resource_kind v) (oi_resource v),
        op_sequence = n, op_state = op_status_value (oi_status v), op_compactable = oi_compactable v,
        op_data = v\<rparr>"

definition append_operation :: "repo \<Rightarrow> op_input \<Rightarrow> ('f, op_record \<times> bool) value_action" where
  "append_operation R v t =
     ebind (reserve_operation R v t) (\<lambda>((operation, replayed), t1).
       if replayed then Inr ((operation, True), t1)
       else ebind (put_operation R v (or_sequence operation) t1)
              (\<lambda>(_, t2). Inr ((operation, False), t2)))"

definition operation_terminal :: "string \<Rightarrow> bool" where
  "operation_terminal s = (s \<in> {''SUCCEEDED'', ''FAILED'', ''CANCELLED''})"

definition stored_from_operation ::
  "op_record \<Rightarrow> op_input stored_operation \<Rightarrow> op_input stored_operation" where
  "stored_from_operation v current =
     current\<lparr>op_state := op_status_value (oi_status v), op_compactable := oi_compactable v,
             op_data := op_input.truncate v\<rparr>"

definition operation_cas ::
  "repo \<Rightarrow> string \<Rightarrow> string \<Rightarrow> operation_status \<Rightarrow> op_record \<Rightarrow> op_record task_action" where
  "operation_cas R i tenant expected v t =
     ensure (tenant = rp_tenant R \<and> oi_tenant v = rp_tenant R) (ai STORAGE_OWNER_MISMATCH)
       (ebind (of_option (ai STORAGE_CONFLICT)
                 (get_operation t (operation_key (rp_sha R) (rp_ns R) (rp_tenant R) (rp_domain R) (JStr i))))
         (\<lambda>current.
           ensure (op_state current = op_status_value expected) (ai STORAGE_CONFLICT)
             (ensure (\<not> (operation_terminal (op_state current) \<and> oi_status v \<noteq> expected))
                (ai STORAGE_CONFLICT)
               (ensure (cas_immutable_matches (decode_operation current) v) (ai STORAGE_CONFLICT)
                 (ebind (replace_operation (stored_from_operation v current) (op_status_value expected) t)
                   (\<lambda>(ok, t'). ensure ok (ai STORAGE_CONFLICT) (Inr (v, t'))))))))"

definition operations_list_pending ::
  "repo \<Rightarrow> resource_kind \<Rightarrow> string \<Rightarrow> nat \<Rightarrow> operation_status list option \<Rightarrow> int option \<Rightarrow> task_txn \<Rightarrow>
    op_record list" where
  "operations_list_pending R k i limit states after t =
     map decode_operation (list_operations
       \<lparr>oq_stream = Some (operation_stream R k i),
        oq_states = Some (case states of None \<Rightarrow> [''PENDING'', ''RUNNING''] | Some ss \<Rightarrow> map op_status_value ss),
        oq_through = None, oq_compactable = None, oq_limit = Some limit, oq_after = after\<rparr> t)"

text \<open>
  \<open>compact_terminal\<close> deletes the terminal compactable operations of a stream up to a
  sequence, all but the newest.  The digest it returns is of the deleted operations.
\<close>

definition compact_query :: "repo \<Rightarrow> resource_kind \<Rightarrow> string \<Rightarrow> int \<Rightarrow> operation_query" where
  "compact_query R k i through =
     \<lparr>oq_stream = Some (operation_stream R k i), oq_states = Some [''SUCCEEDED'', ''FAILED'', ''CANCELLED''],
      oq_through = Some through, oq_compactable = Some True, oq_limit = None, oq_after = None\<rparr>"

definition compact_terminal ::
  "repo \<Rightarrow> resource_kind \<Rightarrow> string \<Rightarrow> int \<Rightarrow> (op_input stored_operation list) task_action" where
  "compact_terminal R k i through t =
     (let candidates = list_operations (compact_query R k i through) t in
      if length candidates \<le> 1 then Inr ([], t)
      else
        let anchor = fold (\<lambda>v best. if (op_sequence best, op_key best) < (op_sequence v, op_key v)
                                    then v else best) (tl candidates) (hd candidates)
        in delete_operations (compact_query R k i (op_sequence anchor - 1)) t)"

end
