(* ===== verification/Task_Repo.thy ===== *)
theory Task_Repo
  imports Repo_Base
begin

text \<open>
  The records of \<open>TaskRepositoryImpl\<close> (\<open>ai/persistence/_task_repository.py\<close>) and the
  operations every transition shares: the keys and identities of the records, the
  projection of a graph with its nodes, the compare-and-set of a node, the transition of a
  whole graph and the retry of a transaction whose event append lost a race.

  A batched read \<open>get_records(keys)\<close> followed by lookups is \<open>get_record\<close> on the same
  transaction.
\<close>

section \<open>Keys\<close>

definition pair_ident :: "string \<Rightarrow> string \<Rightarrow> json" where
  "pair_ident g n = JList [JStr g, JStr n]"

definition graph_key :: "repo \<Rightarrow> string \<Rightarrow> bytes" where
  "graph_key R g = repo_key R ''task_graph'' (JStr g)"

definition definition_key :: "repo \<Rightarrow> string \<Rightarrow> string \<Rightarrow> bytes" where
  "definition_key R g n = repo_key R ''task_node_definition'' (pair_ident g n)"

definition state_key :: "repo \<Rightarrow> string \<Rightarrow> string \<Rightarrow> bytes" where
  "state_key R g n = repo_key R ''task_node_state'' (pair_ident g n)"

definition definition_parent :: "repo \<Rightarrow> string \<Rightarrow> bytes" where
  "definition_parent R g = repo_parent R ''task_node_definition'' ''graph'' (JStr g)"

definition state_parent :: "repo \<Rightarrow> string \<Rightarrow> bytes" where
  "state_parent R g = repo_parent R ''task_node_state'' ''graph'' (JStr g)"

definition admission_key :: "repo \<Rightarrow> string \<Rightarrow> bytes" where
  "admission_key R g = repo_key R ''task_admission'' (JStr g)"

definition recovery_scope :: "repo \<Rightarrow> bytes" where
  "recovery_scope R = repo_scope R ''task_admission'' ''recoverable'' (JStr ''graphs'')"

definition result_key :: "repo \<Rightarrow> string \<Rightarrow> string \<Rightarrow> bytes" where
  "result_key R g n = repo_key R ''task_result'' (pair_ident g n)"

definition prepared_key :: "repo \<Rightarrow> string \<Rightarrow> string \<Rightarrow> bytes" where
  "prepared_key R g n = repo_key R ''task_prepared_input'' (pair_ident g n)"

definition prepared_parent :: "repo \<Rightarrow> string \<Rightarrow> bytes" where
  "prepared_parent R g = repo_parent R ''task_prepared_input'' ''graph'' (JStr g)"

definition result_scope :: "repo \<Rightarrow> string \<Rightarrow> bytes" where
  "result_scope R g = repo_scope R ''task_result'' ''graph'' (JStr g)"

definition result_parent :: "repo \<Rightarrow> string \<Rightarrow> bytes" where
  "result_parent R g = repo_parent R ''task_result'' ''graph'' (JStr g)"

definition log_stream :: "repo \<Rightarrow> string \<Rightarrow> bytes" where
  "log_stream R g = event_stream (rp_sha R) (rp_ns R) (rp_tenant R) (rp_domain R) g"

definition log_sequence :: "repo \<Rightarrow> string \<Rightarrow> bytes" where
  "log_sequence R g = event_sequence (rp_sha R) (rp_ns R) (rp_tenant R) (rp_domain R) g"

lemmas key_defs = graph_key_def definition_key_def state_key_def admission_key_def result_key_def
  prepared_key_def repo_key_def pair_ident_def

lemma keys_distinct:
  assumes "collision_free (rp_sha R)"
  shows "graph_key R g \<noteq> state_key R g' n" "graph_key R g \<noteq> definition_key R g' n"
    "graph_key R g \<noteq> admission_key R g'" "graph_key R g \<noteq> result_key R g' n"
    "state_key R g n \<noteq> definition_key R g' m" "state_key R g n \<noteq> admission_key R g'"
    "state_key R g n \<noteq> result_key R g' m" "definition_key R g n \<noteq> result_key R g' m"
    "definition_key R g n \<noteq> admission_key R g'" "admission_key R g \<noteq> result_key R g' m"
    "state_key R g n = state_key R g' m \<longleftrightarrow> g = g' \<and> n = m"
    "definition_key R g n = definition_key R g' m \<longleftrightarrow> g = g' \<and> n = m"
    "graph_key R g = graph_key R g' \<longleftrightarrow> g = g'"
  using assms by (simp_all add: key_defs)

section \<open>Identity of records\<close>

definition validate_admission_record :: "repo \<Rightarrow> task_record \<Rightarrow> string \<Rightarrow> unit res" where
  "validate_admission_record R r g =
     ensure (\<not> (rec_kind r \<noteq> ''task_admission'' \<or> rec_key r \<noteq> admission_key R g \<or>
              rec_scope r \<noteq> Some (recovery_scope R) \<or> rec_parent r \<noteq> None \<or>
              rec_sort r \<noteq> sortable_identity (rp_sha R) (JStr g)))
       (ai STORAGE_INTEGRITY_ERROR) (Inr ())"

definition validate_graph_record :: "repo \<Rightarrow> task_record \<Rightarrow> string \<Rightarrow> unit res" where
  "validate_graph_record R r g =
     ensure (\<not> (rec_kind r \<noteq> ''task_graph'' \<or> rec_key r \<noteq> graph_key R g \<or>
              rec_scope r \<noteq> None \<or> rec_parent r \<noteq> None \<or>
              rec_sort r \<noteq> sortable_identity (rp_sha R) (JStr g)))
       (ai STORAGE_INTEGRITY_ERROR) (Inr ())"

definition validate_state_record :: "repo \<Rightarrow> task_record \<Rightarrow> string \<Rightarrow> string \<Rightarrow> unit res" where
  "validate_state_record R r g n =
     ensure (\<not> (rec_kind r \<noteq> ''task_node_state'' \<or> rec_key r \<noteq> state_key R g n \<or>
              rec_scope r \<noteq> None \<or> rec_parent r \<noteq> Some (state_parent R g) \<or>
              rec_sort r \<noteq> sortable_identity (rp_sha R) (pair_ident g n)))
       (ai STORAGE_INTEGRITY_ERROR) (Inr ())"

definition validate_definition_record :: "repo \<Rightarrow> task_record \<Rightarrow> string \<Rightarrow> string \<Rightarrow> unit res" where
  "validate_definition_record R r g n =
     ensure (\<not> (rec_kind r \<noteq> ''task_node_definition'' \<or> rec_key r \<noteq> definition_key R g n \<or>
              rec_scope r \<noteq> None \<or> rec_parent r \<noteq> Some (definition_parent R g) \<or>
              rec_sort r \<noteq> sortable_identity (rp_sha R) (pair_ident g n)))
       (ai STORAGE_INTEGRITY_ERROR) (Inr ())"

definition validate_result_record :: "repo \<Rightarrow> task_record \<Rightarrow> string \<Rightarrow> string \<Rightarrow> unit res" where
  "validate_result_record R r g n =
     ensure (\<not> (rec_kind r \<noteq> ''task_result'' \<or> rec_key r \<noteq> result_key R g n \<or>
              rec_scope r \<noteq> Some (result_scope R g) \<or> rec_parent r \<noteq> Some (result_parent R g) \<or>
              rec_sort r \<noteq> sortable_identity (rp_sha R) (pair_ident g n)))
       (ai STORAGE_INTEGRITY_ERROR) (Inr ())"

definition validate_prepared_record :: "repo \<Rightarrow> task_record \<Rightarrow> string \<Rightarrow> string \<Rightarrow> unit res" where
  "validate_prepared_record R r g n =
     ensure (\<not> (rec_kind r \<noteq> ''task_prepared_input'' \<or> rec_key r \<noteq> prepared_key R g n \<or>
              rec_scope r \<noteq> None \<or> rec_parent r \<noteq> Some (prepared_parent R g) \<or>
              rec_sort r \<noteq> sortable_identity (rp_sha R) (pair_ident g n)))
       (ai STORAGE_INTEGRITY_ERROR) (Inr ())"

lemma validate_state_record_Inr [eres]:
  "validate_state_record R r g n = Inr u \<longleftrightarrow>
    rec_kind r = ''task_node_state'' \<and> rec_key r = state_key R g n \<and> rec_scope r = None \<and>
    rec_parent r = Some (state_parent R g) \<and> rec_sort r = sortable_identity (rp_sha R) (pair_ident g n)"
  by (auto simp: validate_state_record_def eres)

section \<open>Reads\<close>

definition graph_limits :: "repo \<Rightarrow> string \<Rightarrow> task_txn \<Rightarrow> task_limits res" where
  "graph_limits R g t =
     ebind (of_option (ai STORAGE_INTEGRITY_ERROR) (get_record t (admission_key R g))) (\<lambda>r.
     ebind (validate_admission_record R r g) (\<lambda>_.
     ebind (decode_admission r) (\<lambda>a.
       ensure (ad_graph a = g) (ai STORAGE_INTEGRITY_ERROR) (Inr (ad_limits a)))))"

definition node_query :: "bytes \<Rightarrow> string \<Rightarrow> record_query" where
  "node_query parent knd =
     \<lparr>rq_scope = None, rq_parent = Some parent, rq_kind = Some knd, rq_states = None,
      rq_prefix = None, rq_after = None, rq_limit = None\<rparr>"

definition collect_definition ::
  "repo \<Rightarrow> string \<Rightarrow> task_record \<Rightarrow> (string \<times> task_node) list \<Rightarrow> (string \<times> task_node) list res" where
  "collect_definition R g r found =
     ebind (decode_definition r) (\<lambda>n.
     ebind (validate_definition_record R r g (tn_id n)) (\<lambda>_.
       ensure (tn_id n \<notin> set (map fst found)) (ai STORAGE_INTEGRITY_ERROR)
         (Inr (found @ [(tn_id n, n)]))))"

definition collect_state ::
  "repo \<Rightarrow> string \<Rightarrow> task_record \<Rightarrow> (string \<times> node_view) list \<Rightarrow> (string \<times> node_view) list res" where
  "collect_state R g r found =
     ebind (decode_node r) (\<lambda>v.
     ebind (validate_state_record R r g (nv_id v)) (\<lambda>_.
       ensure (nv_id v \<notin> set (map fst found)) (ai STORAGE_INTEGRITY_ERROR)
         (Inr (found @ [(nv_id v, v)]))))"

definition nodes_with_definitions ::
  "repo \<Rightarrow> string \<Rightarrow> task_txn \<Rightarrow> (task_node list \<times> node_view list) res" where
  "nodes_with_definitions R g t =
     ebind (efold (collect_definition R g)
              (list_records (node_query (definition_parent R g) ''task_node_definition'') t) []) (\<lambda>definitions.
     ebind (efold (collect_state R g)
              (list_records (node_query (state_parent R g) ''task_node_state'') t) []) (\<lambda>states.
       ensure (set (map fst definitions) = set (map fst states)) (ai STORAGE_INTEGRITY_ERROR)
         (let ordered = sort (map fst definitions) in
          ebind (emap (\<lambda>i. of_option KeyError (map_of definitions i)) ordered) (\<lambda>nodes.
          ebind (emap (\<lambda>i.
               ebind (of_option KeyError (map_of states i)) (\<lambda>v.
               ebind (of_option KeyError (map_of definitions i)) (\<lambda>n.
                 make_view (v\<lparr>nv_deps := tn_deps n\<rparr>)))) ordered) (\<lambda>views.
            Inr (nodes, views))))))"

definition event_state_in_txn :: "repo \<Rightarrow> string \<Rightarrow> task_txn \<Rightarrow> event_state option res" where
  "event_state_in_txn R g t =
     (case get_record t (graph_key R g) of
        None \<Rightarrow> Inr None
      | Some r \<Rightarrow>
          ebind (validate_graph_record R r g) (\<lambda>_.
          ebind (decode_graph r) (\<lambda>header.
          ebind (require_canonical (gv_status header)) (\<lambda>_.
          ebind (nodes_with_definitions R g t) (\<lambda>(nodes, views).
          ebind (make_graph \<lparr>tg_id = g, tg_nodes = nodes\<rparr>) (\<lambda>graph.
            ensure (map nv_id views = map tn_id nodes) (ai STORAGE_INTEGRITY_ERROR)
              (Inr (Some \<lparr>es_graph = \<lparr>gv_id = g, gv_status = gv_status header, gv_nodes = nodes\<rparr>,
                          es_views = views\<rparr>))))))))"

definition latest_query :: "bytes \<Rightarrow> fact_query" where
  "latest_query stream =
     \<lparr>fq_stream = stream, fq_after = None, fq_limit = Some 1, fq_subject = None,
      fq_latest = True, fq_latest_per_subject = False\<rparr>"

definition check_event_fact :: "repo \<Rightarrow> string \<Rightarrow> event_payload stored_fact \<Rightarrow> unit res" where
  "check_event_fact R g f =
     ensure (\<not> (fact_stream f \<noteq> log_stream R g \<or> fact_owner f \<noteq> graph_key R g \<or>
              fact_subject f \<noteq> None \<or> fact_state f \<noteq> None \<or> fact_sequence f < 1))
       (ai STORAGE_INTEGRITY_ERROR) (Inr ())"

definition graph_state_from_projection :: "repo \<Rightarrow> task_txn \<Rightarrow> event_state \<Rightarrow> graph_state res" where
  "graph_state_from_projection R t s =
     (let g = gv_id (es_graph s) in
      case list_facts (latest_query (log_stream R g)) t of
        [] \<Rightarrow> Inl (ai STORAGE_INTEGRITY_ERROR)
      | latest # _ \<Rightarrow>
          ebind (check_event_fact R g latest) (\<lambda>_.
          ebind (decode_event g latest) (\<lambda>_.
          ebind (effective_status (es_graph s) (es_views s) None) (\<lambda>status.
            make_graph_state
              \<lparr>gs_id = g, gs_status = status, gs_nodes = gv_nodes (es_graph s),
               gs_views = es_views s, gs_event_seq = fact_sequence latest\<rparr>))))"

definition graph_state_in_txn :: "repo \<Rightarrow> string \<Rightarrow> task_txn \<Rightarrow> graph_state option res" where
  "graph_state_in_txn R g t =
     ebind (event_state_in_txn R g t) (\<lambda>s.
       case s of None \<Rightarrow> Inr None
       | Some e \<Rightarrow> ebind (graph_state_from_projection R t e) (\<lambda>gs. Inr (Some gs)))"

definition node_in_txn :: "repo \<Rightarrow> string \<Rightarrow> string \<Rightarrow> error_code \<Rightarrow> task_txn \<Rightarrow> node_view res" where
  "node_in_txn R g n missing t =
     ebind (of_option (ai missing) (get_record t (state_key R g n))) (\<lambda>r.
     ebind (validate_state_record R r g n) (\<lambda>_.
     ebind (decode_node r) (\<lambda>v.
       ensure (nv_graph v = g \<and> nv_id v = n) (ai STORAGE_INTEGRITY_ERROR)
         (ebind (of_option (ai STORAGE_INTEGRITY_ERROR) (get_record t (definition_key R g n))) (\<lambda>d.
          ebind (validate_definition_record R d g n) (\<lambda>_.
          ebind (decode_definition d) (\<lambda>definition.
            make_view (v\<lparr>nv_deps := tn_deps definition\<rparr>))))))))"

definition get_prepared_input :: "repo \<Rightarrow> string \<Rightarrow> string \<Rightarrow> string \<Rightarrow> task_txn \<Rightarrow> prepared_input option res" where
  "get_prepared_input R g n tenant t =
     (if tenant \<noteq> rp_tenant R then Inr None
      else case get_record t (prepared_key R g n) of
          None \<Rightarrow> Inr None
        | Some r \<Rightarrow>
            ebind (validate_prepared_record R r g n) (\<lambda>_.
            ebind (decode_prepared r) (\<lambda>p.
              ensure (pi_graph p = g \<and> pi_node p = n \<and> pi_tenant p = tenant)
                (ai STORAGE_INTEGRITY_ERROR) (Inr (Some p)))))"

definition get_results :: "repo \<Rightarrow> string \<Rightarrow> string list \<Rightarrow> string \<Rightarrow> task_txn \<Rightarrow> (string \<times> result_record) list res" where
  "get_results R g ns tenant t =
     (if tenant \<noteq> rp_tenant R then Inr []
      else
        ensure (list_all (\<lambda>n. n \<noteq> []) ns) ValueError
          (ensure (distinct ns) ValueError
            (ebind (emap (\<lambda>n.
                 case get_record t (result_key R g n) of
                   None \<Rightarrow> Inr []
                 | Some r \<Rightarrow>
                     ebind (validate_result_record R r g n) (\<lambda>_.
                     ebind (decode_result r) (\<lambda>v.
                       ensure (rr_graph v = g \<and> rr_node v = n) (ai STORAGE_INTEGRITY_ERROR)
                         (Inr [(n, v)])))) ns)
              (\<lambda>xs. Inr (concat xs)))))"

section \<open>Writes\<close>

definition update_node :: "repo \<Rightarrow> node_view \<Rightarrow> node_view \<Rightarrow> task_record \<Rightarrow> unit task_action" where
  "update_node R current v r t =
     ebind (validate_state_record R r (nv_graph current) (nv_id current)) (\<lambda>_.
     ebind (decode_node r) (\<lambda>s.
     ebind (make_view (s\<lparr>nv_deps := nv_deps current\<rparr>)) (\<lambda>stored.
       ensure (stored = current) (ai STORAGE_CONFLICT)
         (ebind (projected_record R r (Node v)) (\<lambda>candidate.
            replace_checked candidate (rec_revision r) t)))))"

definition task_node_record :: "repo \<Rightarrow> task_record \<Rightarrow> node_view \<Rightarrow> task_record res" where
  "task_node_record R current v =
     ebind (validate_state_record R current (nv_graph v) (nv_id v)) (\<lambda>_.
       Inr ((project_record R ''task_node_state'' (pair_ident (nv_graph v) (nv_id v)) (Node v) None
               (Some (state_parent R (nv_graph v))) (Some (status_value (nv_status v))))
              \<lparr>rec_revision := rec_revision current + 1\<rparr>))"

text \<open>\<open>_apply_graph_transition\<close>: the changes, their replacements, then the events.\<close>

definition transition_changes :: "node_view list \<Rightarrow> node_view list \<Rightarrow> (node_view \<times> node_view) list" where
  "transition_changes prev after = filter (\<lambda>(a, b). a \<noteq> b) (zip prev after)"

definition transition_drafts ::
  "graph_view \<Rightarrow> (node_view \<times> node_view) list \<Rightarrow> task_status \<Rightarrow> event_draft list res" where
  "transition_drafts graph changes status =
     ebind (emap (\<lambda>(a, b). node_drafts a b) changes) (\<lambda>dss.
     ebind (graph_drafts graph (graph\<lparr>gv_status := status\<rparr>)) (\<lambda>gs. Inr (concat dss @ gs)))"

definition change_replacement ::
  "repo \<Rightarrow> string \<Rightarrow> task_txn \<Rightarrow> node_view \<times> node_view \<Rightarrow> domain_value record_replacement res" where
  "change_replacement R g t = (\<lambda>(current, v).
     ebind (of_option (ai STORAGE_INTEGRITY_ERROR) (get_record t (state_key R g (nv_id current)))) (\<lambda>r.
     ebind (validate_state_record R r g (nv_id current)) (\<lambda>_.
     ebind (decode_node r) (\<lambda>s.
     ebind (make_view (s\<lparr>nv_deps := nv_deps current\<rparr>)) (\<lambda>stored.
       ensure (stored = current) (ai STORAGE_CONFLICT)
         (ebind (task_node_record R r v) (\<lambda>candidate.
            Inr \<lparr>repl_record = candidate, repl_expected = rec_revision r\<rparr>)))))))"

definition apply_graph_transition ::
  "repo \<Rightarrow> event_state \<Rightarrow> task_record \<Rightarrow> node_view list \<Rightarrow> task_status \<Rightarrow> graph_view task_action" where
  "apply_graph_transition R prev graph_record next_nodes next_status t =
     ensure (length next_nodes = length (es_views prev)) (ai STORAGE_INTEGRITY_ERROR)
       (let graph = es_graph prev; g = gv_id graph;
            changes = transition_changes (es_views prev) next_nodes;
            graph_changed = (gv_status graph \<noteq> next_status \<or>
                             rec_state graph_record \<noteq> Some (status_value next_status)) in
        ebind (transition_drafts graph changes next_status) (\<lambda>drafts.
        ebind (if drafts = [] then Inr (graph_record, t)
               else guard_event_owner (graph_key R g) STORAGE_NOT_FOUND t) (\<lambda>(graph_record', t1).
        ebind (ensure (length (get_records t1 (map (\<lambda>(c, _). state_key R g (nv_id c)) changes)) = length changes)
                 (ai STORAGE_INTEGRITY_ERROR) (emap (change_replacement R g t1) changes)) (\<lambda>node_replacements.
        ebind (if graph_changed
               then ebind (projected_record R graph_record' (Graph (graph\<lparr>gv_status := next_status\<rparr>)))
                      (\<lambda>c. Inr [\<lparr>repl_record = c, repl_expected = rec_revision graph_record'\<rparr>])
               else Inr []) (\<lambda>graph_replacement.
        ebind (replace_all (node_replacements @ graph_replacement) t1) (\<lambda>(_, t2).
        ebind (append_events (rp_sha R) (rp_ns R) (rp_tenant R) (rp_domain R) g (graph_key R g)
                 drafts (drafts \<noteq> []) t2) (\<lambda>(_, t3).
          Inr (graph\<lparr>gv_status := next_status\<rparr>, t3))))))))"

section \<open>Retry\<close>

text \<open>
  \<open>_mutate_with_event_retry\<close>.  Other writers act between two attempts, and time passes:
  \<open>world i\<close> is the store that attempt \<open>i\<close> finds and \<open>clock i\<close> the time of its transaction
  (\<open>clock event_retry_limit\<close> that of a read-back after the last one).  The result is that of
  the last attempt with the store it leaves.
\<close>

definition event_retry_limit :: nat where
  "event_retry_limit = 16"

fun event_retry ::
  "nat \<Rightarrow> nat \<Rightarrow> (nat \<Rightarrow> task_store) \<Rightarrow> (nat \<Rightarrow> task_store \<Rightarrow> 'a res \<times> task_store) \<Rightarrow> 'a res \<times> task_store" where
  "event_retry 0 i world attempt = (Inl (ai STORAGE_CONFLICT), world i)"
| "event_retry (Suc n) i world attempt =
     (case attempt i (world i) of
        (Inl Task_event_append_conflict, m) \<Rightarrow>
          if n = 0 then (Inl (ai STORAGE_CONFLICT), m) else event_retry n (Suc i) world attempt
      | r \<Rightarrow> r)"

definition mutate_with_event_retry ::
  "(nat \<Rightarrow> int) \<Rightarrow> (nat \<Rightarrow> task_store) \<Rightarrow> 'a task_action \<Rightarrow> 'a res \<times> task_store" where
  "mutate_with_event_retry clock world fn =
     event_retry event_retry_limit 0 world (\<lambda>i. mem_mutate (clock i) fn)"

text \<open>The first attempt that does not lose the race decides the outcome.\<close>

lemma event_retry_first:
  assumes "0 < n"
  shows "\<exists>k<n. (\<forall>j<k. fst (attempt (i + j) (world (i + j))) = Inl Task_event_append_conflict) \<and>
     (let (r, m) = attempt (i + k) (world (i + k)) in
      event_retry n i world attempt =
        (if r = Inl Task_event_append_conflict then (Inl (ai STORAGE_CONFLICT), m) else (r, m)) \<and>
      (r = Inl Task_event_append_conflict \<longrightarrow> Suc k = n))"
  using assms
proof (induction n arbitrary: i)
  case (Suc n)
  obtain r m where a: "attempt i (world i) = (r, m)" by (cases "attempt i (world i)") auto
  show ?case
  proof (cases "r = Inl Task_event_append_conflict \<and> n \<noteq> 0")
    case True
    then have "0 < n" by simp
    from Suc.IH [OF this, of "Suc i"] obtain k where k: "k < n"
      "\<forall>j<k. fst (attempt (Suc i + j) (world (Suc i + j))) = Inl Task_event_append_conflict"
      "(let (r, m) = attempt (Suc i + k) (world (Suc i + k)) in
        event_retry n (Suc i) world attempt =
          (if r = Inl Task_event_append_conflict then (Inl (ai STORAGE_CONFLICT), m) else (r, m)) \<and>
        (r = Inl Task_event_append_conflict \<longrightarrow> Suc k = n))" by blast
    have "fst (attempt (i + j) (world (i + j))) = Inl Task_event_append_conflict" if "j < Suc k" for j
      using that k(2) a True by (cases j) auto
    with k a True show ?thesis by (intro exI [of _ "Suc k"]) auto
  next
    case False
    with a show ?thesis by (intro exI [of _ 0]) (auto split: sum.split exc.split)
  qed
qed simp

end
