(* ===== verification/Task_Lease_Ops.thy ===== *)
theory Task_Lease_Ops
  imports Task_Repo
begin

text \<open>
  The operations of a worker that executes a node, from
  \<open>ai/persistence/_task_repository.py\<close>: \<open>claim\<close>, \<open>renew\<close>, \<open>bind_execution\<close>,
  \<open>handoff_execution\<close>, \<open>requeue_retry\<close>, \<open>requeue_waiting_retry\<close> and
  \<open>publish_prepared_input\<close>.  A definition \<open>_txn\<close> is the callback that runs in the
  transaction; the definition without the suffix is the method: its checks, the mutation
  with its retries and what it makes of a conflict by reading the node back.
\<close>

section \<open>Shared steps\<close>

definition microseconds :: "int \<Rightarrow> int" where
  "microseconds s = s * 1000000"

text \<open>Guard the graph, compare-and-set the node, append its event.\<close>

definition commit_node_change ::
  "repo \<Rightarrow> string \<Rightarrow> task_record \<Rightarrow> node_view \<Rightarrow> node_view \<Rightarrow> task_record \<Rightarrow> unit task_action" where
  "commit_node_change R g graph_record node v node_record t =
     ebind (guard_record (graph_key R g) (rec_revision graph_record) t) (\<lambda>(guarded, t1).
       ensure (guarded \<noteq> None) Task_event_append_conflict
         (ebind (update_node R node v node_record t1) (\<lambda>(_, t2).
          ebind (node_drafts node v) (\<lambda>drafts.
            append_events (rp_sha R) (rp_ns R) (rp_tenant R) (rp_domain R) g (graph_key R g)
              drafts True t2))))"

definition live_node ::
  "repo \<Rightarrow> task_lease \<Rightarrow> task_txn \<Rightarrow> (task_record \<times> task_record \<times> node_view) res" where
  "live_node R lease t =
     (let g = ls_graph lease; n = ls_node lease in
      ebind (of_option (ai TASK_FENCE_STALE) (get_record t (graph_key R g))) (\<lambda>graph_record.
      ebind (of_option (ai TASK_FENCE_STALE) (get_record t (state_key R g n))) (\<lambda>node_record.
      ebind (validate_graph_record R graph_record g) (\<lambda>_.
      ebind (validate_state_record R node_record g n) (\<lambda>_.
      ebind (node_in_txn R g n TASK_FENCE_STALE t) (\<lambda>node.
        Inr (graph_record, node_record, node)))))))"

definition require_scope :: "repo \<Rightarrow> task_lease \<Rightarrow> string \<Rightarrow> 'a res \<Rightarrow> 'a res" where
  "require_scope R lease tenant k =
     ebind (validate_lease_scope lease tenant) (\<lambda>_. ebind (require_tenant R tenant) (\<lambda>_. k))"

definition readback_code :: "exc \<Rightarrow> bool" where
  "readback_code e = (exc_code e \<in> {Some STORAGE_CONFLICT, Some STORAGE_COMMIT_UNKNOWN})"

definition read_node :: "repo \<Rightarrow> string \<Rightarrow> string \<Rightarrow> int \<Rightarrow> task_store \<Rightarrow> node_view res" where
  "read_node R g n now m = node_in_txn R g n STORAGE_NOT_FOUND (begin_txn now m)"

definition recovery_error :: "string \<Rightarrow> string \<Rightarrow> string \<Rightarrow> exc" where
  "recovery_error phase g n =
     AIError STORAGE_RECOVERY_REQUIRED
       [(''phase'', JStr phase), (''graph_id'', JStr g), (''node_id'', JStr n)]"

section \<open>Claim\<close>

definition claim_records ::
  "repo \<Rightarrow> string \<Rightarrow> string \<Rightarrow> task_txn \<Rightarrow>
    (task_record \<times> task_record \<times> graph_view \<times> task_node \<times> node_view) res" where
  "claim_records R g n t =
     ebind (of_option (ai TASK_NOT_READY) (get_record t (graph_key R g))) (\<lambda>graph_record.
     ebind (of_option (ai TASK_NOT_READY) (get_record t (state_key R g n))) (\<lambda>node_record.
     ebind (validate_graph_record R graph_record g) (\<lambda>_.
     ebind (validate_state_record R node_record g n) (\<lambda>_.
     ebind (decode_graph graph_record) (\<lambda>graph.
     ebind (require_canonical (gv_status graph)) (\<lambda>_.
       ensure (\<not> (terminal (gv_status graph) \<or> gv_status graph = RECOVERY_REQUIRED)) (ai TASK_NOT_READY)
         (ebind (of_option (ai STORAGE_INTEGRITY_ERROR) (get_record t (definition_key R g n))) (\<lambda>d.
          ebind (decode_definition d) (\<lambda>definition.
          ebind (validate_definition_record R d g (tn_id definition)) (\<lambda>_.
          ebind (decode_node node_record) (\<lambda>v.
          ebind (make_view (v\<lparr>nv_deps := tn_deps definition\<rparr>)) (\<lambda>node.
            Inr (graph_record, node_record, graph, definition, node)))))))))))))"

definition max_pending_operations :: nat where
  "max_pending_operations = 64"

text \<open>A cancellation that is pending for the graph, or for this node's execution, blocks the claim.\<close>

definition claim_operations :: "repo \<Rightarrow> string \<Rightarrow> node_view \<Rightarrow> task_txn \<Rightarrow> unit res" where
  "claim_operations R g node t =
     (let pending = list_operations
            \<lparr>oq_stream = Some (operation_stream R TASK_GRAPH g),
             oq_states = Some (map op_status_value [OP_PENDING, OP_RUNNING, EFFECT_UNKNOWN]),
             oq_through = None, oq_compactable = None,
             oq_limit = Some (max_pending_operations + 1), oq_after = None\<rparr> t in
      ensure (length pending \<le> max_pending_operations) (ai TOO_MANY_PENDING_OPERATIONS)
        (ensure (list_all (\<lambda>v. let operation = decode_operation v in
             \<not> (oi_kind operation = TASK_CANCEL \<and>
                (oi_execution operation = None \<or> oi_execution operation = nv_execution node))) pending)
           (ai TASK_NOT_READY) (Inr ())))"

definition claim_dependency :: "repo \<Rightarrow> string \<Rightarrow> task_txn \<Rightarrow> string \<Rightarrow> (string \<times> node_view) res" where
  "claim_dependency R g t d =
     (case get_record t (state_key R g d) of
        None \<Rightarrow>
          Inl (ai (if get_record t (definition_key R g d) = None then TASK_DAG_INVALID
                   else STORAGE_INTEGRITY_ERROR))
      | Some r \<Rightarrow>
          ebind (validate_state_record R r g d) (\<lambda>_.
          ebind (decode_node r) (\<lambda>v.
            ensure (nv_graph v = g \<and> nv_id v = d) (ai STORAGE_INTEGRITY_ERROR) (Inr (d, v)))))"

definition active_record :: "repo \<Rightarrow> string \<Rightarrow> int \<Rightarrow> task_record \<Rightarrow> int \<Rightarrow> int res" where
  "active_record R g now r active =
     ebind (decode_node r) (\<lambda>v.
     ebind (validate_state_record R r g (nv_id v)) (\<lambda>_.
       if nv_status v = WAITING \<and> nv_occupies v then Inr (active + 1)
       else if nv_status v \<noteq> RUNNING then Inr active
       else ensure (\<not> (nv_owner v = None \<or> nv_fence v < 1 \<or> nv_expires v = None))
              (ai STORAGE_INTEGRITY_ERROR)
              (Inr (if (case nv_expires v of None \<Rightarrow> False | Some e \<Rightarrow> now < e) then active + 1 else active))))"

definition count_active :: "repo \<Rightarrow> string \<Rightarrow> task_txn \<Rightarrow> int res" where
  "count_active R g t =
     efold (active_record R g (t_now t))
       (list_records ((node_query (state_parent R g) ''task_node_state'')
          \<lparr>rq_states := Some [status_value RUNNING, status_value WAITING]\<rparr>) t) 0"

text \<open>The conditions on the node itself, in the order of the code.\<close>

definition claimable :: "task_node \<Rightarrow> node_view \<Rightarrow> (string \<times> node_view) list \<Rightarrow> string \<Rightarrow> int \<Rightarrow> unit res" where
  "claimable definition node dependencies owner now =
     (let expired = (case nv_expires node of None \<Rightarrow> False | Some e \<Rightarrow> e \<le> now) in
      ensure (\<not> (nv_status node = RUNNING \<and> nv_owner node \<notin> {None, Some owner} \<and> \<not> expired))
        (ai TASK_OWNER_CONFLICT)
        (ebind (dependency_status definition (\<lambda>d. map_option nv_status (map_of dependencies d))) (\<lambda>ds.
           ensure (nv_status node \<in> {PENDING, READY} \<or> (nv_status node = RUNNING \<and> expired))
             (ai TASK_NOT_READY)
             (ensure (\<not> (nv_status node = READY \<and>
                         (case nv_next_attempt node of None \<Rightarrow> False | Some a \<Rightarrow> now < a)))
                (ai TASK_NOT_READY)
               (ensure (ds = READY) (ai TASK_NOT_READY) (Inr ()))))))"

definition claimed_view :: "node_view \<Rightarrow> string \<Rightarrow> int \<Rightarrow> node_view res" where
  "claimed_view node owner expires =
     make_view (node\<lparr>nv_status := RUNNING, nv_owner := Some owner, nv_fence := nv_fence node + 1,
                     nv_expires := Some expires, nv_next_attempt := None, nv_occupies := False\<rparr>)"

definition claim_txn :: "repo \<Rightarrow> string \<Rightarrow> string \<Rightarrow> string \<Rightarrow> string \<Rightarrow> int \<Rightarrow> task_lease task_action" where
  "claim_txn R g n tenant owner seconds t =
     ebind (claim_records R g n t) (\<lambda>(graph_record, node_record, graph, definition, node).
     ebind (claim_operations R g node t) (\<lambda>_.
       ensure (gv_id graph = g \<and> nv_graph node = g \<and> nv_id node = n) (ai STORAGE_INTEGRITY_ERROR)
         (ebind (emap (claim_dependency R g t) (tn_deps definition)) (\<lambda>dependencies.
          ebind (graph_limits R g t) (\<lambda>limits.
          ebind (count_active R g t) (\<lambda>active.
            ensure (active < max_concurrency limits) (ai TASK_NOT_READY)
              (ebind (claimable definition node dependencies owner (t_now t)) (\<lambda>_.
               let expires = t_now t + microseconds seconds in
               ebind (claimed_view node owner expires) (\<lambda>v.
               ebind (commit_node_change R g graph_record node v node_record t) (\<lambda>(_, t').
               ebind (make_lease \<lparr>ls_graph = g, ls_node = n, ls_tenant = tenant, ls_owner = owner,
                                  ls_fence = nv_fence node + 1, ls_expires = expires,
                                  ls_execution = nv_execution v\<rparr>) (\<lambda>lease.
                 Inr (lease, t'))))))))))))"

definition claim_readback ::
  "repo \<Rightarrow> string \<Rightarrow> string \<Rightarrow> string \<Rightarrow> string \<Rightarrow> int option \<Rightarrow> exc \<Rightarrow> int \<Rightarrow> task_store \<Rightarrow> task_lease res" where
  "claim_readback R g n tenant owner expected e now m =
     (if \<not> readback_code e then Inl e
      else
        ebind (read_node R g n now m) (\<lambda>current.
          if nv_status current = RUNNING
          then
            ensure (nv_owner current = Some owner) (ai TASK_OWNER_CONFLICT)
              (ensure (expected = Some (nv_fence current)) (ai TASK_FENCE_STALE)
                (ebind (of_option (ai STORAGE_INTEGRITY_ERROR) (nv_expires current)) (\<lambda>expires.
                   make_lease \<lparr>ls_graph = g, ls_node = n, ls_tenant = tenant, ls_owner = owner,
                               ls_fence = nv_fence current, ls_expires = expires,
                               ls_execution = nv_execution current\<rparr>)))
          else if terminal (nv_status current) \<or> nv_status current = RECOVERY_REQUIRED
          then Inl (ai TASK_NOT_READY)
          else if exc_code e = Some STORAGE_COMMIT_UNKNOWN then Inl (recovery_error ''task_claim'' g n)
          else Inl (ai STORAGE_CONFLICT)))"

text \<open>
  The method.  The fence that the readback expects is the one the last attempt computed:
  \<open>claim_fence\<close> of the store that attempt found.
\<close>

definition claim_fence :: "repo \<Rightarrow> string \<Rightarrow> string \<Rightarrow> int \<Rightarrow> task_store \<Rightarrow> int option" where
  "claim_fence R g n now m =
     (case claim_records R g n (begin_txn now m) of
        Inr (_, _, _, _, node) \<Rightarrow> Some (nv_fence node + 1)
      | Inl _ \<Rightarrow> None)"

definition claim ::
  "repo \<Rightarrow> string \<Rightarrow> string \<Rightarrow> string \<Rightarrow> string \<Rightarrow> int \<Rightarrow> (nat \<Rightarrow> int) \<Rightarrow> (nat \<Rightarrow> task_store) \<Rightarrow>
    task_lease res \<times> task_store" where
  "claim R g n tenant owner seconds clock world =
     (case ebind (require_tenant R tenant) (\<lambda>_.
             ebind (validate_lease_owner owner) (\<lambda>_. validate_lease_seconds seconds)) of
        Inl e \<Rightarrow> (Inl e, world 0)
      | Inr _ \<Rightarrow>
          (case mutate_with_event_retry clock world (claim_txn R g n tenant owner seconds) of
             (Inr lease, m) \<Rightarrow> (Inr lease, m)
           | (Inl e, m) \<Rightarrow>
               (claim_readback R g n tenant owner (claim_fence R g n (clock event_retry_limit) m) e (clock event_retry_limit) m, m)))"

section \<open>Renew\<close>

text \<open>\<open>clock\<close> is the time at which the store applies the transition.\<close>

definition renew_txn :: "repo \<Rightarrow> task_lease \<Rightarrow> int \<Rightarrow> int \<Rightarrow> task_lease task_action" where
  "renew_txn R lease seconds clock t =
     ebind (live_node R lease t) (\<lambda>(graph_record, node_record, node).
     ebind (require_live_lease node lease (t_now t)) (\<lambda>_.
     ebind (transition_record_lease clock (rec_key node_record) (rec_revision node_record)
              \<lparr>lt_operation = Renew, lt_owner = Some (ls_owner lease), lt_fence = ls_fence lease,
               lt_duration = Some (microseconds seconds)\<rparr> t) (\<lambda>(renewed, t').
     ebind (of_option (ai TASK_FENCE_STALE) (Option.bind renewed rec_expires)) (\<lambda>expires.
     ebind (make_lease (lease\<lparr>ls_expires := expires\<rparr>)) (\<lambda>l. Inr (l, t'))))))"

definition renew ::
  "repo \<Rightarrow> task_lease \<Rightarrow> string \<Rightarrow> int \<Rightarrow> int \<Rightarrow> int \<Rightarrow> task_store \<Rightarrow> task_lease res \<times> task_store" where
  "renew R lease tenant seconds now clock m =
     (case require_scope R lease tenant (validate_lease_seconds seconds) of
        Inl e \<Rightarrow> (Inl e, m)
      | Inr _ \<Rightarrow>
          (case mem_mutate now (renew_txn R lease seconds clock) m of
             (Inl e, m') \<Rightarrow>
               (Inl (if exc_code e = Some STORAGE_CONFLICT then ai TASK_FENCE_STALE else e), m')
           | r \<Rightarrow> r))"

section \<open>Bind an execution\<close>

definition bind_execution_txn :: "repo \<Rightarrow> task_lease \<Rightarrow> string \<Rightarrow> node_view task_action" where
  "bind_execution_txn R lease execution t =
     ebind (live_node R lease t) (\<lambda>(graph_record, node_record, node).
     ebind (require_live_lease node lease (t_now t)) (\<lambda>_.
       if nv_execution node \<noteq> None
       then ensure (nv_execution node = Some execution) (ai TASK_RESULT_CONFLICT) (Inr (node, t))
       else
         ebind (make_view (node\<lparr>nv_execution := Some execution\<rparr>)) (\<lambda>v.
         ebind (commit_node_change R (ls_graph lease) graph_record node v node_record t) (\<lambda>(_, t').
           Inr (v, t')))))"

definition bind_execution ::
  "repo \<Rightarrow> task_lease \<Rightarrow> string \<Rightarrow> string \<Rightarrow> (nat \<Rightarrow> int) \<Rightarrow> (nat \<Rightarrow> task_store) \<Rightarrow> node_view res \<times> task_store" where
  "bind_execution R lease tenant execution clock world =
     (case require_scope R lease tenant (ensure (\<not> blank execution) ValueError (Inr ())) of
        Inl e \<Rightarrow> (Inl e, world 0)
      | Inr _ \<Rightarrow> mutate_with_event_retry clock world (bind_execution_txn R lease execution))"

section \<open>Hand off to an execution\<close>

definition handoff_txn :: "repo \<Rightarrow> task_lease \<Rightarrow> string \<Rightarrow> bool \<Rightarrow> node_view task_action" where
  "handoff_txn R lease execution occupies t =
     ebind (live_node R lease t) (\<lambda>(graph_record, node_record, node).
       if nv_status node = WAITING \<and> nv_execution node = Some execution
       then
         ensure (nv_fence node = ls_fence lease) (ai TASK_FENCE_STALE)
           (ensure (nv_owner node = None \<and> nv_expires node = None) (ai STORAGE_INTEGRITY_ERROR)
             (ensure (nv_occupies node = occupies) (ai STORAGE_CONFLICT) (Inr (node, t))))
       else
         ebind (require_live_lease node lease (t_now t)) (\<lambda>_.
           ensure (nv_execution node = None \<or> nv_execution node = Some execution)
             (ai STORAGE_INTEGRITY_ERROR)
             (ebind (make_view (node\<lparr>nv_status := WAITING, nv_owner := None, nv_expires := None,
                       nv_execution := Some execution, nv_result := None, nv_error := None,
                       nv_error_digest := None, nv_next_attempt := None, nv_occupies := occupies\<rparr>)) (\<lambda>v.
              ebind (commit_node_change R (ls_graph lease) graph_record node v node_record t) (\<lambda>(_, t').
                Inr (v, t'))))))"

definition handoff_readback ::
  "repo \<Rightarrow> task_lease \<Rightarrow> string \<Rightarrow> bool \<Rightarrow> exc \<Rightarrow> int \<Rightarrow> task_store \<Rightarrow> node_view res" where
  "handoff_readback R lease execution occupies e now m =
     (let lost = (if exc_code e = Some STORAGE_COMMIT_UNKNOWN
                  then recovery_error ''task_execution_handoff'' (ls_graph lease) (ls_node lease)
                  else ai STORAGE_CONFLICT) in
      if \<not> readback_code e then Inl e
      else
        ebind (read_node R (ls_graph lease) (ls_node lease) now m) (\<lambda>current.
          ensure (nv_fence current = ls_fence lease) (ai TASK_FENCE_STALE)
            (if nv_status current = WAITING \<and> nv_execution current = Some execution
             then ensure (nv_owner current = None \<and> nv_expires current = None \<and>
                          nv_occupies current = occupies) (ai STORAGE_CONFLICT) (Inr current)
             else if nv_execution current = Some execution \<and>
                     (terminal (nv_status current) \<or> nv_status current = RECOVERY_REQUIRED)
             then Inl (ai TASK_NOT_READY)
             else if nv_status current = RUNNING \<and> nv_execution current = Some execution then Inl lost
             else if nv_execution current \<noteq> None then Inl (ai STORAGE_INTEGRITY_ERROR)
             else if nv_owner current \<noteq> Some (ls_owner lease) then Inl (ai TASK_OWNER_CONFLICT)
             else Inl lost)))"

definition handoff_execution ::
  "repo \<Rightarrow> task_lease \<Rightarrow> string \<Rightarrow> string \<Rightarrow> bool \<Rightarrow> (nat \<Rightarrow> int) \<Rightarrow> (nat \<Rightarrow> task_store) \<Rightarrow> node_view res \<times> task_store" where
  "handoff_execution R lease tenant execution occupies clock world =
     (case require_scope R lease tenant (ensure (\<not> blank execution) ValueError (Inr ())) of
        Inl e \<Rightarrow> (Inl e, world 0)
      | Inr _ \<Rightarrow>
          (case mutate_with_event_retry clock world (handoff_txn R lease execution occupies) of
             (Inl e, m) \<Rightarrow> (handoff_readback R lease execution occupies e (clock event_retry_limit) m, m)
           | r \<Rightarrow> r))"

section \<open>Retries\<close>

definition replace_view :: "node_view list \<Rightarrow> string \<Rightarrow> node_view \<Rightarrow> node_view list" where
  "replace_view views n v = map (\<lambda>u. if nv_id u = n then v else u) views"

definition find_view :: "node_view list \<Rightarrow> string \<Rightarrow> node_view option" where
  "find_view views n = List.find (\<lambda>v. nv_id v = n) views"

definition requeue_retry_txn :: "repo \<Rightarrow> task_lease \<Rightarrow> string \<Rightarrow> int \<Rightarrow> node_view task_action" where
  "requeue_retry_txn R lease execution next_attempt t =
     ebind (event_state_in_txn R (ls_graph lease) t) (\<lambda>s.
     ebind (of_option (ai TASK_FENCE_STALE) s) (\<lambda>prev.
     ebind (of_option (ai TASK_FENCE_STALE) (get_record t (graph_key R (ls_graph lease)))) (\<lambda>graph_record.
     ebind (of_option (ai TASK_FENCE_STALE) (find_view (es_views prev) (ls_node lease))) (\<lambda>current.
     ebind (require_live_lease current lease (t_now t)) (\<lambda>_.
       ensure (nv_execution current = Some execution) (ai TASK_RESULT_CONFLICT)
         (ebind (make_view (current\<lparr>nv_status := READY, nv_owner := None, nv_expires := None,
                   nv_next_attempt := Some next_attempt, nv_occupies := False, nv_result := None,
                   nv_error := None, nv_error_digest := None\<rparr>)) (\<lambda>v.
          let next_nodes = replace_view (es_views prev) (ls_node lease) v in
          ebind (isolated_status next_nodes (gv_nodes (es_graph prev))) (\<lambda>status.
          ebind (apply_graph_transition R prev graph_record next_nodes status t) (\<lambda>(_, t').
            Inr (v, t'))))))))))"

definition requeue_retry ::
  "repo \<Rightarrow> task_lease \<Rightarrow> string \<Rightarrow> string \<Rightarrow> int \<Rightarrow> (nat \<Rightarrow> int) \<Rightarrow> (nat \<Rightarrow> task_store) \<Rightarrow> node_view res \<times> task_store" where
  "requeue_retry R lease tenant execution next_attempt clock world =
     (case require_scope R lease tenant (ensure (\<not> blank execution) (ai REQUEST_FIELD_INVALID) (Inr ())) of
        Inl e \<Rightarrow> (Inl e, world 0)
      | Inr _ \<Rightarrow> mutate_with_event_retry clock world (requeue_retry_txn R lease execution next_attempt))"

definition requeue_waiting_txn ::
  "repo \<Rightarrow> string \<Rightarrow> string \<Rightarrow> int \<Rightarrow> string \<Rightarrow> int \<Rightarrow> node_view task_action" where
  "requeue_waiting_txn R g n fence execution next_attempt t =
     ebind (event_state_in_txn R g t) (\<lambda>s.
     ebind (of_option (ai TASK_FENCE_STALE) s) (\<lambda>prev.
     ebind (of_option (ai TASK_FENCE_STALE) (get_record t (graph_key R g))) (\<lambda>graph_record.
     ebind (of_option (ai TASK_FENCE_STALE) (find_view (es_views prev) n)) (\<lambda>current.
       ensure (\<not> (nv_status current \<noteq> WAITING \<or> nv_fence current \<noteq> fence \<or>
                nv_execution current \<noteq> Some execution \<or> nv_owner current \<noteq> None \<or>
                nv_expires current \<noteq> None)) (ai TASK_FENCE_STALE)
         (ebind (make_view (current\<lparr>nv_status := READY, nv_owner := None, nv_expires := None,
                   nv_next_attempt := Some next_attempt, nv_occupies := False, nv_result := None,
                   nv_error := None, nv_error_digest := None, nv_origin := None, nv_details := []\<rparr>)) (\<lambda>v.
          let next_nodes = replace_view (es_views prev) n v in
          ebind (isolated_status next_nodes (gv_nodes (es_graph prev))) (\<lambda>status.
          ebind (apply_graph_transition R prev graph_record next_nodes status t) (\<lambda>(_, t').
            Inr (v, t')))))))))"

definition requeue_waiting_readback ::
  "repo \<Rightarrow> string \<Rightarrow> string \<Rightarrow> int \<Rightarrow> string \<Rightarrow> int \<Rightarrow> exc \<Rightarrow> int \<Rightarrow> task_store \<Rightarrow> node_view res" where
  "requeue_waiting_readback R g n fence execution next_attempt e now m =
     (if \<not> readback_code e then Inl e
      else
        ebind (read_node R g n now m) (\<lambda>current.
          if nv_status current = READY \<and> nv_fence current = fence \<and>
             nv_execution current = Some execution \<and> nv_next_attempt current = Some next_attempt
          then Inr current
          else if exc_code e = Some STORAGE_COMMIT_UNKNOWN then Inl (recovery_error ''task_waiting_retry'' g n)
          else Inl (ai STORAGE_CONFLICT)))"

definition requeue_waiting_retry ::
  "repo \<Rightarrow> string \<Rightarrow> string \<Rightarrow> string \<Rightarrow> int \<Rightarrow> string \<Rightarrow> int \<Rightarrow> (nat \<Rightarrow> int) \<Rightarrow> (nat \<Rightarrow> task_store) \<Rightarrow>
    node_view res \<times> task_store" where
  "requeue_waiting_retry R g n tenant fence execution next_attempt clock world =
     (case ebind (require_tenant R tenant) (\<lambda>_.
             ensure (\<not> blank g \<and> \<not> blank n \<and> 1 \<le> fence \<and> \<not> blank execution)
               (ai REQUEST_FIELD_INVALID) (Inr ())) of
        Inl e \<Rightarrow> (Inl e, world 0)
      | Inr _ \<Rightarrow>
          (case mutate_with_event_retry clock world
                  (requeue_waiting_txn R g n fence execution next_attempt) of
             (Inl e, m) \<Rightarrow> (requeue_waiting_readback R g n fence execution next_attempt e (clock event_retry_limit) m, m)
           | r \<Rightarrow> r))"

section \<open>Prepared inputs\<close>

definition reuse_prepared :: "prepared_input \<Rightarrow> prepared_input \<Rightarrow> prepared_input res" where
  "reuse_prepared existing candidate =
     ensure (pi_graph existing = pi_graph candidate \<and> pi_node existing = pi_node candidate \<and>
             pi_tenant existing = pi_tenant candidate \<and> pi_admission existing = pi_admission candidate \<and>
             pi_task existing = pi_task candidate \<and> pi_identity existing = pi_identity candidate \<and>
             pi_sources existing = pi_sources candidate \<and> pi_final existing = pi_final candidate \<and>
             pi_request existing = pi_request candidate \<and>
             pi_stored_digest existing = pi_stored_digest candidate)
       (AIError STORAGE_INTEGRITY_ERROR [(''reason'', JStr ''input_projection_nondeterministic'')])
       (Inr existing)"

definition publish_prepared_txn :: "repo \<Rightarrow> task_lease \<Rightarrow> prepared_input \<Rightarrow> prepared_input task_action" where
  "publish_prepared_txn R lease p t =
     (let g = ls_graph lease; n = ls_node lease; stale = ai TASK_FENCE_STALE in
      ebind (of_option stale (get_record t (graph_key R g))) (\<lambda>graph_record.
      ebind (of_option stale (get_record t (state_key R g n))) (\<lambda>state_record.
      ebind (of_option stale (get_record t (definition_key R g n))) (\<lambda>definition_record.
      ebind (of_option stale (get_record t (admission_key R g))) (\<lambda>admission_record.
      ebind (validate_graph_record R graph_record g) (\<lambda>_.
      ebind (validate_state_record R state_record g n) (\<lambda>_.
      ebind (validate_definition_record R definition_record g n) (\<lambda>_.
      ebind (validate_admission_record R admission_record g) (\<lambda>_.
      ebind (decode_admission admission_record) (\<lambda>admission.
      ebind (decode_definition definition_record) (\<lambda>definition.
      ebind (decode_node state_record) (\<lambda>node.
        ensure (\<not> (ad_graph admission \<noteq> pi_graph p \<or> ad_digest admission \<noteq> pi_admission p \<or>
                 tn_task definition \<noteq> Some (pi_task p))) (ai STORAGE_INTEGRITY_ERROR)
          (ebind (require_live_lease node lease (t_now t)) (\<lambda>_.
           case get_record t (prepared_key R g n) of
             Some existing_record \<Rightarrow>
               ebind (validate_prepared_record R existing_record g n) (\<lambda>_.
               ebind (decode_prepared existing_record) (\<lambda>existing.
               ebind (reuse_prepared existing p) (\<lambda>q. Inr (q, t))))
           | None \<Rightarrow>
               ebind (guard_record (graph_key R g) (rec_revision graph_record) t) (\<lambda>(g1, t1).
                 ensure (g1 \<noteq> None) stale
                   (ebind (guard_record (state_key R g n) (rec_revision state_record) t1) (\<lambda>(g2, t2).
                      ensure (g2 \<noteq> None) stale
                        (ebind (insert_record
                             (project_record R ''task_prepared_input'' (pair_ident g n) (Prepared p) None
                                (Some (prepared_parent R g)) None) t2) (\<lambda>(_, t3).
                           Inr (p, t3))))))))))))))))))))"

definition publish_prepared_input ::
  "repo \<Rightarrow> task_lease \<Rightarrow> prepared_input \<Rightarrow> string \<Rightarrow> int \<Rightarrow> task_store \<Rightarrow> prepared_input res \<times> task_store" where
  "publish_prepared_input R lease p tenant now m =
     (case require_scope R lease tenant
             (ensure (pi_graph p = ls_graph lease \<and> pi_node p = ls_node lease \<and> pi_tenant p = tenant \<and>
                      pi_fence p = ls_fence lease) (ai REQUEST_FIELD_INVALID) (Inr ())) of
        Inl e \<Rightarrow> (Inl e, m)
      | Inr _ \<Rightarrow>
          (case mem_mutate now (publish_prepared_txn R lease p) m of
             (Inl e, m') \<Rightarrow>
               (if \<not> readback_code e then Inl e
                else ebind (get_prepared_input R (ls_graph lease) (ls_node lease) tenant (begin_txn now m'))
                       (\<lambda>existing. case existing of None \<Rightarrow> Inl e | Some q \<Rightarrow> reuse_prepared q p), m')
           | r \<Rightarrow> r))"

end
