(* ===== verification/Task_Lease_Facts.thy ===== *)
theory Task_Lease_Facts
  imports Task_Lease_Ops
begin

text \<open>
  What the operations of a worker do to the store.  \<open>node_moved\<close> says that a transaction
  moved one node of a graph to a view and appended the events of the move, and nothing else;
  every operation that changes one node is shown to be such a move, so that what a property
  needs of an operation is its guard and the view it writes.
\<close>

section \<open>The move of a node\<close>

text \<open>The facts that take a chain of checks and binds apart.\<close>

lemma unit_ex: "(\<exists>u::unit. P u) \<longleftrightarrow> P ()"
  by auto

lemmas chain = unit_ex sum.inject(2) prod.inject split_paired_Ex prod.case

definition log_gapless :: "repo \<Rightarrow> string \<Rightarrow> task_txn \<Rightarrow> bool" where
  "log_gapless R g t = stream_gapless t (log_stream R g) (log_sequence R g)"

definition stored_view :: "task_txn \<Rightarrow> bytes \<Rightarrow> node_view option" where
  "stored_view t k = (case get_record t k of None \<Rightarrow> None | Some r \<Rightarrow>
     (case decode_node r of Inl _ \<Rightarrow> None | Inr v \<Rightarrow> Some v))"

definition record_identity :: "'d stored_record \<Rightarrow> bytes \<times> string \<times> bytes option \<times> bytes option \<times> string" where
  "record_identity r = (rec_key r, rec_kind r, rec_scope r, rec_parent r, rec_sort r)"

definition node_moved :: "repo \<Rightarrow> string \<Rightarrow> node_view \<Rightarrow> node_view \<Rightarrow> task_txn \<Rightarrow> task_txn \<Rightarrow> bool" where
  "node_moved R g node v t t' \<longleftrightarrow>
     (let k = state_key R g (nv_id node) in
      stored_view t k = Some (node\<lparr>nv_deps := []\<rparr>) \<and> stored_view t' k = Some (v\<lparr>nv_deps := []\<rparr>) \<and>
      map_option rec_revision (get_record t' k) = map_option (\<lambda>r. rec_revision r + 1) (get_record t k) \<and>
      map_option record_identity (get_record t' k) = map_option record_identity (get_record t k) \<and>
      Option.bind (get_record t' k) rec_state = Some (status_value (nv_status v)) \<and>
      (\<forall>j. j \<noteq> k \<longrightarrow> j \<noteq> graph_key R g \<longrightarrow> get_record t' j = get_record t j) \<and>
      map_option (rec_revision_update (\<lambda>_. 0)) (get_record t' (graph_key R g)) =
        map_option (rec_revision_update (\<lambda>_. 0)) (get_record t (graph_key R g)) \<and>
      (\<exists>drafts. node_drafts node v = Inr drafts \<and>
         get_sequence t' (log_sequence R g) = get_sequence t (log_sequence R g) + int (length drafts)) \<and>
      log_gapless R g t' \<and> txn_ok t' \<and> t_now t' = t_now t)"

lemma replacement_identity:
  "validate_record_replacement current candidate = Inr () \<longleftrightarrow> record_identity candidate = record_identity current"
  by (auto simp: validate_record_replacement_def record_identity_def)

lemma projected_node:
  "projected_record R r (Node v) = Inr c \<longleftrightarrow>
    c = (project_record R (rec_kind r) (pair_ident (nv_graph v) (nv_id v)) (Node v) None None
           (Some (status_value (nv_status v))))\<lparr>rec_revision := rec_revision r + 1\<rparr>"
  by (auto simp: projected_record_def pair_ident_def)

lemma decode_projected:
  assumes "projected_record R r (Node v) = Inr c" and "view_ok v"
  shows "decode_node c = Inr (v\<lparr>nv_deps := []\<rparr>)"
  using assms by (intro decode_node_written) (auto simp: projected_node project_record_def Let_def)

lemma replace_checked_Inr [eres]:
  "replace_checked c e t = Inr (u, t') \<longleftrightarrow> replace_record c e t = Inr (True, t')"
  by (auto simp: replace_checked_def eres)

lemma update_node_effect:
  assumes "update_node R node v r t = Inr (u, t')" and "view_ok v"
    and "nv_graph v = nv_graph node" and "nv_id v = nv_id node"
  obtains c old where "get_record t (state_key R (nv_graph node) (nv_id node)) = Some old"
    "rec_revision old = rec_revision r" "rec_revision c = rec_revision r + 1"
    "rec_kind c = ''task_node_state''" "rec_key c = state_key R (nv_graph node) (nv_id node)"
    "decode_node c = Inr (v\<lparr>nv_deps := []\<rparr>)" "decode_node r = Inr (node\<lparr>nv_deps := []\<rparr>)"
    "record_identity c = record_identity old" "rec_state c = Some (status_value (nv_status v))"
    "t' = put_record (state_key R (nv_graph node) (nv_id node)) c t"
proof -
  from assms(1) obtain s c where
    k: "rec_kind r = ''task_node_state''" and s: "decode_node r = Inr s" and
    n: "s\<lparr>nv_deps := nv_deps node\<rparr> = node" and
    c: "projected_record R r (Node v) = Inr c" and
    w: "replace_record c (rec_revision r) t = Inr (True, t')"
    unfolding update_node_def by (simp only: eres) blast
  have key: "rec_key c = state_key R (nv_graph node) (nv_id node)" "rec_kind c = ''task_node_state''"
    using c k assms(3,4) by (simp_all add: projected_node project_record_def state_key_def Let_def split: prod.splits)
  have "s = node\<lparr>nv_deps := []\<rparr>"
    using n decode_node_lease [OF s] by (metis node_view.update_convs(3) node_view.surjective)
  with s have "decode_node r = Inr (node\<lparr>nv_deps := []\<rparr>)" by simp
  moreover obtain old where "get_record t (rec_key c) = Some old" "rec_revision old = rec_revision r"
      "rec_revision c = rec_revision r + 1" "t' = put_record (rec_key c) c t"
      "record_identity c = record_identity old"
    using w unfolding replace_record_True replacement_identity by blast
  moreover have "rec_state c = Some (status_value (nv_status v))"
    using c by (simp add: projected_node project_record_def Let_def split: prod.splits)
  ultimately show ?thesis
    using that decode_projected [OF c assms(2)] key by simp
qed


lemma guard_graph_effect:
  assumes "guard_record k (rec_revision r) t = Inr (Some q, t1)" and "get_record t k = Some r" and "txn_ok t"
  shows "txn_ok t1 \<and> (\<exists>r1. get_record t1 = (get_record t)(k \<mapsto> r1) \<and> q = r1 \<and>
      r1\<lparr>rec_revision := 0\<rparr> = r\<lparr>rec_revision := 0\<rparr>) \<and> t_facts t1 = t_facts t \<and>
    t_sequences t1 = t_sequences t \<and> t_now t1 = t_now t"
  using assms(1)
proof (cases rule: guard_record_eq)
  case guarded
  with assms show ?thesis by (auto simp: fun_upd_idem)
next
  case (fresh c)
  with assms(2) have "c = r" by simp
  with fresh txn_ok_guard [OF assms(1,3)] show ?thesis by (simp add: get_record_put)
qed

lemma log_gapless_cong:
  "t_facts t' = t_facts t \<Longrightarrow> t_sequences t' = t_sequences t \<Longrightarrow> log_gapless R g t' = log_gapless R g t"
  by (simp add: log_gapless_def stream_gapless_def log_length_def get_fact_def get_sequence_def)

lemma txn_ok_append_events:
  assumes "append_events sha ns tn dm graph gk drafts True t = Inr (u, t')" and "txn_ok t"
  shows "txn_ok t'"
  using assms by (cases "drafts = []")
    (auto simp: append_events_def eres reserve_sequence_eq intro: txn_ok_insert_facts txn_ok_put_sequence)

text \<open>\<open>append_events\<close> in the names of the repository.\<close>

lemma append_log:
  assumes "append_events (rp_sha R) (rp_ns R) (rp_tenant R) (rp_domain R) g gk drafts True t = Inr (u, t')"
    and "log_gapless R g t" and "txn_ok t"
  shows "log_gapless R g t' \<and> txn_ok t' \<and> get_record t' = get_record t \<and> t_now t' = t_now t \<and>
    get_sequence t' (log_sequence R g) = get_sequence t (log_sequence R g) + int (length drafts)"
  using append_events_get [OF assms(1)] append_events_gapless [OF assms(1)] txn_ok_append_events [OF assms(1,3)] assms(2)
  unfolding log_gapless_def log_stream_def log_sequence_def by simp

lemma commit_node_change_effect:
  assumes "commit_node_change R g gr node v nr t = Inr (u, t')" and "view_ok v"
    and "get_record t (graph_key R g) = Some gr" and "get_record t (state_key R g (nv_id node)) = Some nr"
    and "rec_kind gr = ''task_graph''" and "rec_kind nr = ''task_node_state''" and "nv_graph node = g"
    and "txn_ok t" and "log_gapless R g t"
  shows "node_moved R g node v t t'"
proof -
  let ?k = "state_key R g (nv_id node)" and ?g = "graph_key R g"
  from assms(1) obtain q t1 u2 t2 drafts where
    gd: "guard_record ?g (rec_revision gr) t = Inr (Some q, t1)" and
    up: "update_node R node v nr t1 = Inr (u2, t2)" and
    dr: "node_drafts node v = Inr drafts" and
    ap: "append_events (rp_sha R) (rp_ns R) (rp_tenant R) (rp_domain R) g ?g drafts True t2 = Inr (u, t')"
    unfolding commit_node_change_def by (simp only: eres split_paired_Ex prod.case) blast
  have ids: "nv_graph v = nv_graph node" "nv_id v = nv_id node" using dr by (auto simp: node_drafts_def eres)
  have ne: "?k \<noteq> ?g" using assms(3-6) by auto
  obtain r1 where ok1: "txn_ok t1" and g1: "get_record t1 = (get_record t)(?g \<mapsto> r1)" and
      rev: "r1\<lparr>rec_revision := 0\<rparr> = gr\<lparr>rec_revision := 0\<rparr>" and
      fr: "t_facts t1 = t_facts t" "t_sequences t1 = t_sequences t" "t_now t1 = t_now t"
    using guard_graph_effect [OF gd assms(3,8)] by blast
  obtain c old where old: "get_record t1 ?k = Some old" "rec_revision old = rec_revision nr" and
      c: "rec_revision c = rec_revision nr + 1" "rec_key c = ?k" "decode_node c = Inr (v\<lparr>nv_deps := []\<rparr>)"
      "decode_node nr = Inr (node\<lparr>nv_deps := []\<rparr>)" "record_identity c = record_identity old"
      "rec_state c = Some (status_value (nv_status v))" and t2: "t2 = put_record ?k c t1"
    using update_node_effect [OF up assms(2) ids] assms(7) by metis
  have gl2: "log_gapless R g t2" and ok2: "txn_ok t2"
    using assms(9) fr txn_ok_put [OF ok1 c(2)] log_gapless_cong [of t2 t R g] by (simp_all add: t2)
  have sq: "get_sequence t2 = get_sequence t" by (simp add: t2 get_sequence_def [abs_def] fr)
  have rec: "get_record t2 = (get_record t)(?g \<mapsto> r1, ?k \<mapsto> c)" by (simp add: t2 get_record_put g1)
  note app = append_log [OF ap gl2 ok2]
  have now: "t_now t' = t_now t" using app by (simp add: t2 fr)
  have sq': "get_sequence t' (log_sequence R g) = get_sequence t (log_sequence R g) + int (length drafts)"
    using app sq by simp
  have rec': "get_record t' = (get_record t)(?g \<mapsto> r1, ?k \<mapsto> c)" using app rec by simp
  have "stored_view t ?k = Some (node\<lparr>nv_deps := []\<rparr>)" "stored_view t' ?k = Some (v\<lparr>nv_deps := []\<rparr>)"
    using assms(4) c by (simp_all add: stored_view_def rec')
  moreover have "map_option rec_revision (get_record t' ?k) = map_option (\<lambda>r. rec_revision r + 1) (get_record t ?k)"
    by (simp add: rec' c(1) assms(4))
  moreover have "map_option record_identity (get_record t' ?k) = map_option record_identity (get_record t ?k)"
      "Option.bind (get_record t' ?k) rec_state = Some (status_value (nv_status v))"
    using c old ne g1 by (simp_all add: rec')
  moreover have "map_option (rec_revision_update (\<lambda>_. 0)) (get_record t' ?g) =
      map_option (rec_revision_update (\<lambda>_. 0)) (get_record t ?g)"
    using ne by (simp add: rec' assms(3) rev)
  moreover have "\<forall>j. j \<noteq> ?k \<longrightarrow> j \<noteq> ?g \<longrightarrow> get_record t' j = get_record t j" by (simp add: rec')
  moreover have "log_gapless R g t'" "txn_ok t'" using app by blast+
  ultimately show ?thesis
    unfolding node_moved_def Let_def using dr sq' now by blast
qed


section \<open>Claim\<close>

lemma claim_records_Inr:
  assumes "claim_records R g n t = Inr (gr, nr, graph, d, node)"
  obtains dr where "get_record t (graph_key R g) = Some gr" "get_record t (state_key R g n) = Some nr"
    "rec_kind gr = ''task_graph''" "rec_kind nr = ''task_node_state''" "decode_graph gr = Inr graph"
    "\<not> terminal (gv_status graph)" "gv_status graph \<noteq> RECOVERY_REQUIRED"
    "get_record t (definition_key R g n) = Some dr" "decode_definition dr = Inr d" "nv_deps node = tn_deps d"
    "decode_node nr = Inr (node\<lparr>nv_deps := []\<rparr>)"
proof -
  from assms obtain dr v where
    a: "get_record t (graph_key R g) = Some gr" "get_record t (state_key R g n) = Some nr"
      "validate_graph_record R gr g = Inr ()" "rec_kind nr = ''task_node_state''" "decode_graph gr = Inr graph"
      "\<not> (terminal (gv_status graph) \<or> gv_status graph = RECOVERY_REQUIRED)"
      "get_record t (definition_key R g n) = Some dr" "decode_definition dr = Inr d" and
    v: "decode_node nr = Inr v" and node: "node = v\<lparr>nv_deps := tn_deps d\<rparr>"
    unfolding claim_records_def by (simp only: eres chain) blast
  have "rec_kind gr = ''task_graph''" using a(3) by (auto simp: validate_graph_record_def eres)
  moreover have "node\<lparr>nv_deps := []\<rparr> = v" "nv_deps node = tn_deps d"
    using decode_node_lease [OF v] node by (simp_all)
  ultimately show ?thesis using that a v by blast
qed

definition claimed :: "node_view \<Rightarrow> string \<Rightarrow> int \<Rightarrow> node_view" where
  "claimed node owner expires =
     node\<lparr>nv_status := RUNNING, nv_owner := Some owner, nv_fence := nv_fence node + 1,
          nv_expires := Some expires, nv_next_attempt := None, nv_occupies := False\<rparr>"

lemma claimed_view_Inr [eres]:
  "claimed_view node owner expires = Inr v \<longleftrightarrow>
    view_ok (claimed node owner expires) \<and> v = claimed node owner expires"
  by (auto simp: claimed_view_def claimed_def make_view_Inr)

lemma claim_dependency_stored:
  "claim_dependency R g t d = Inr (d', v) \<Longrightarrow> d' = d \<and> stored_view t (state_key R g d) = Some v"
  by (auto simp: claim_dependency_def stored_view_def eres split: option.splits)

lemma claim_dependencies_stored:
  assumes "emap (claim_dependency R g t) ds = Inr dependencies" and "d \<in> set ds"
  shows "map_of dependencies d = stored_view t (state_key R g d)"
  using assms
proof (induction ds arbitrary: dependencies)
  case (Cons e ds)
  then obtain e' v rest where e: "claim_dependency R g t e = Inr (e', v)"
      and r: "emap (claim_dependency R g t) ds = Inr rest" and dep: "dependencies = (e', v) # rest"
    by (auto simp: eres)
  with claim_dependency_stored [OF e] Cons.IH [OF r] Cons.prems(2) show ?case by auto
qed simp

definition node_expired :: "int \<Rightarrow> node_view \<Rightarrow> bool" where
  "node_expired now v = (nv_status v = RUNNING \<and> (\<exists>e. nv_expires v = Some e \<and> e \<le> now))"

lemma claimable_Inr:
  assumes "claimable d node deps owner now = Inr u"
  shows "nv_status node \<in> {PENDING, READY} \<or> node_expired now node"
    and "dependency_status d (\<lambda>x. map_option nv_status (map_of deps x)) = Inr READY"
    and "nv_status node = READY \<Longrightarrow> nv_next_attempt node = Some a \<Longrightarrow> a \<le> now"
  using assms by (auto simp: claimable_def Let_def eres node_expired_def split: option.splits)

lemma claim_txn_Inr:
  assumes "claim_txn R g n tenant owner seconds t = Inr (lease, t')"
  obtains gr nr graph d node dependencies limits active where
    "claim_records R g n t = Inr (gr, nr, graph, d, node)" "claim_operations R g node t = Inr ()"
    "nv_graph node = g" "nv_id node = n" "emap (claim_dependency R g t) (tn_deps d) = Inr dependencies"
    "graph_limits R g t = Inr limits" "count_active R g t = Inr active" "active < max_concurrency limits"
    "claimable d node dependencies owner (t_now t) = Inr ()"
    "view_ok (claimed node owner (t_now t + microseconds seconds))"
    "commit_node_change R g gr node (claimed node owner (t_now t + microseconds seconds)) nr t = Inr ((), t')"
    "lease = \<lparr>ls_graph = g, ls_node = n, ls_tenant = tenant, ls_owner = owner,
       ls_fence = nv_fence node + 1, ls_expires = t_now t + microseconds seconds,
       ls_execution = nv_execution node\<rparr>"
    "make_lease lease = Inr lease"
proof -
  from assms obtain gr nr graph d node where r: "claim_records R g n t = Inr (gr, nr, graph, d, node)"
    by (cases "claim_records R g n t") (auto simp: claim_txn_def)
  let ?e = "t_now t + microseconds seconds"
  let ?l = "\<lparr>ls_graph = g, ls_node = n, ls_tenant = tenant, ls_owner = owner,
     ls_fence = nv_fence node + 1, ls_expires = ?e, ls_execution = nv_execution node\<rparr>"
  note run = assms [unfolded claim_txn_def r ebind_Inr prod.case Let_def, simplified eres chain]
  from run obtain dependencies limits active v where
    a: "claim_operations R g node t = Inr ()" "nv_graph node = g" "nv_id node = n"
      "emap (claim_dependency R g t) (tn_deps d) = Inr dependencies" "graph_limits R g t = Inr limits"
      "count_active R g t = Inr active" "active < max_concurrency limits"
      "claimable d node dependencies owner (t_now t) = Inr ()" "view_ok (claimed node owner ?e)" and
    v: "v = claimed node owner ?e" and
    c: "commit_node_change R g gr node v nr t = Inr ((), t')" and
    l: "make_lease \<lparr>ls_graph = g, ls_node = n, ls_tenant = tenant, ls_owner = owner,
       ls_fence = nv_fence node + 1, ls_expires = ?e, ls_execution = nv_execution v\<rparr> = Inr lease"
    by blast
  have "nv_execution v = nv_execution node" by (simp add: v claimed_def)
  with l have l': "make_lease ?l = Inr lease" by simp
  from make_lease_Inr [OF this] l' that r a c [unfolded v] show ?thesis by blast
qed


lemma claim_txn_effect:
  assumes "claim_txn R g n tenant owner seconds t = Inr (lease, t')" and "txn_ok t" and "log_gapless R g t"
  obtains node where "nv_graph node = g" "nv_id node = n"
    "node_moved R g node (claimed node owner (t_now t + microseconds seconds)) t t'"
    "nv_status node \<in> {PENDING, READY} \<or> node_expired (t_now t) node"
    "ls_graph lease = g" "ls_node lease = n" "ls_owner lease = owner" "ls_tenant lease = tenant"
    "ls_fence lease = nv_fence node + 1" "ls_expires lease = t_now t + microseconds seconds"
proof -
  from claim_txn_Inr [OF assms(1)] obtain gr nr graph d node dependencies where
    r: "claim_records R g n t = Inr (gr, nr, graph, d, node)" and id: "nv_graph node = g" "nv_id node = n" and
    c: "claimable d node dependencies owner (t_now t) = Inr ()" and
    ok: "view_ok (claimed node owner (t_now t + microseconds seconds))" and
    m: "commit_node_change R g gr node (claimed node owner (t_now t + microseconds seconds)) nr t = Inr ((), t')" and
    l: "lease = \<lparr>ls_graph = g, ls_node = n, ls_tenant = tenant, ls_owner = owner,
       ls_fence = nv_fence node + 1, ls_expires = t_now t + microseconds seconds,
       ls_execution = nv_execution node\<rparr>" .
  from claim_records_Inr [OF r] id have "get_record t (graph_key R g) = Some gr"
      "get_record t (state_key R g (nv_id node)) = Some nr" "rec_kind gr = ''task_graph''"
      "rec_kind nr = ''task_node_state''" by blast+
  from commit_node_change_effect [OF m ok this id(1) assms(2,3)] claimable_Inr(1) [OF c] id l
  show ?thesis by (intro that) auto
qed

lemma claim_txn_dependencies:
  assumes "claim_txn R g n tenant owner seconds t = Inr (lease, t')"
  shows "\<exists>r d. get_record t (definition_key R g n) = Some r \<and> decode_definition r = Inr d \<and>
    dependency_status d (\<lambda>x. map_option nv_status (stored_view t (state_key R g x))) = Inr READY"
proof -
  from claim_txn_Inr [OF assms] obtain gr nr graph d node dependencies where
    r: "claim_records R g n t = Inr (gr, nr, graph, d, node)" and
    deps: "emap (claim_dependency R g t) (tn_deps d) = Inr dependencies" and
    c: "claimable d node dependencies owner (t_now t) = Inr ()" .
  have "dependency_status d (\<lambda>x. map_option nv_status (map_of dependencies x)) =
      dependency_status d (\<lambda>x. map_option nv_status (stored_view t (state_key R g x)))"
    by (rule dependency_status_cong) (simp add: claim_dependencies_stored [OF deps])
  with claimable_Inr(2) [OF c] claim_records_Inr [OF r] show ?thesis by metis
qed

text \<open>The three policies in terms of the states of the dependencies.\<close>

lemma dependency_status_eq:
  assumes "\<forall>d\<in>set (tn_deps n). states d \<noteq> None"
  shows "dependency_status n states = Inr (
    let some = \<lambda>P. \<exists>d\<in>set (tn_deps n). \<exists>s. states d = Some s \<and> P s in
    case tn_policy n of
      All_succeeded \<Rightarrow>
        if some (\<lambda>s. terminal s \<and> s \<noteq> SUCCEEDED) then BLOCKED
        else if some (\<lambda>s. s \<noteq> SUCCEEDED) then PENDING else READY
    | All_terminal \<Rightarrow> if some (\<lambda>s. \<not> terminal s) then PENDING else READY
    | Any_succeeded \<Rightarrow>
        if some (\<lambda>s. \<not> terminal s) then PENDING
        else if some (\<lambda>s. s = SUCCEEDED) then READY else BLOCKED)"
proof -
  let ?f = "\<lambda>d. the (states d)"
  have m: "emap (\<lambda>d. of_option KeyError (states d)) (tn_deps n) = Inr (map ?f (tn_deps n))"
    using assms by (intro emap_Inr_id) auto
  have some: "(\<exists>s. states d = Some s \<and> P s) \<longleftrightarrow> P (?f d)" if "d \<in> set (tn_deps n)" for d P
    using assms that by auto
  have ex: "(\<exists>d\<in>set (tn_deps n). \<exists>s. states d = Some s \<and> P s) \<longleftrightarrow> (\<exists>d\<in>set (tn_deps n). P (?f d))" for P
    using some by blast
  show ?thesis
    unfolding dependency_status_def m ebind_Inr Let_def ex
    by (cases "tn_policy n") (auto simp: list_ex_iff list_all_iff image_iff Bex_def)
qed

lemma dependency_status_known:
  "dependency_status n states = Inr s \<Longrightarrow> d \<in> set (tn_deps n) \<Longrightarrow> states d \<noteq> None"
  by (auto simp: dependency_status_def eres dest!: emap_ex)


section \<open>Concurrency\<close>

text \<open>
  The nodes of a graph that hold one of its execution slots: a running node whose lease is
  live, or a waiting node that keeps its slot.  The claim counts them from the state columns
  of the records; \<open>columns_agree\<close> says that the columns are those of the stored views.
\<close>

definition occupies_slot :: "int \<Rightarrow> node_view \<Rightarrow> bool" where
  "occupies_slot now v \<longleftrightarrow>
     nv_status v = WAITING \<and> nv_occupies v \<or>
     nv_status v = RUNNING \<and> (\<exists>e. nv_expires v = Some e \<and> now < e)"

definition graph_node :: "repo \<Rightarrow> string \<Rightarrow> task_record \<Rightarrow> bool" where
  "graph_node R g r \<longleftrightarrow> rec_kind r = ''task_node_state'' \<and> rec_parent r = Some (state_parent R g)"

definition slot_keys :: "repo \<Rightarrow> string \<Rightarrow> int \<Rightarrow> task_txn \<Rightarrow> bytes set" where
  "slot_keys R g now t =
     {k. \<exists>r v. get_record t k = Some r \<and> graph_node R g r \<and> decode_node r = Inr v \<and> occupies_slot now v}"

definition columns_agree :: "task_txn \<Rightarrow> bool" where
  "columns_agree t \<longleftrightarrow>
     (\<forall>k r v. get_record t k = Some r \<longrightarrow> rec_kind r = ''task_node_state'' \<longrightarrow> decode_node r = Inr v \<longrightarrow>
        rec_state r = Some (status_value (nv_status v)))"

lemma active_record_Inr:
  "active_record R g now r a = Inr b \<Longrightarrow>
    \<exists>v. decode_node r = Inr v \<and> b = a + (if occupies_slot now v then 1 else 0)"
  unfolding active_record_def ebind_eq_Inr
  by (elim exE conjE, rule exI, erule conjI)
    (auto simp: occupies_slot_def ensure_eq_Inr split: if_splits option.splits)

lemma efold_active:
  "efold (active_record R g now) rs a = Inr b \<Longrightarrow>
    b = a + int (length (filter (\<lambda>r. \<exists>v. decode_node r = Inr v \<and> occupies_slot now v) rs))"
proof (induction rs arbitrary: a)
  case (Cons r rs)
  then obtain c where c: "active_record R g now r a = Inr c" and r: "efold (active_record R g now) rs c = Inr b"
    by (auto simp: eres)
  from active_record_Inr [OF c] Cons.IH [OF r] show ?case by (auto split: if_splits)
qed simp

lemma status_value_inj [simp]: "status_value s = status_value s' \<longleftrightarrow> s = s'"
  by (cases s; cases s') simp_all

lemma set_list_all_records:
  assumes "txn_ok t" and "rq_after q = None" and "rq_limit q = None"
  shows "set (list_records q t) = {r. get_record t (rec_key r) = Some r \<and> matches_record q r}"
    and "distinct (map rec_key (list_records q t))"
proof -
  have k: "keyed rec_key (t_records t)" using txn_okD(1) [OF assms(1)] .
  show "set (list_records q t) = {r. get_record t (rec_key r) = Some r \<and> matches_record q r}"
    using keyed_values [OF k] by (auto simp: list_records_def limited_def after_key_def assms(2,3) get_record_def)
  show "distinct (map rec_key (list_records q t))"
    using keyed_distinct [OF k] distinct_map_filter
    by (simp add: list_records_def limited_def after_key_def assms(2,3) distinct_map_sort_key)
qed

lemma count_active_card:
  assumes "count_active R g t = Inr a" and "txn_ok t" and "columns_agree t"
  shows "a = int (card (slot_keys R g (t_now t) t))" and "finite (slot_keys R g (t_now t) t)"
proof -
  define q where "q = (node_query (state_parent R g) ''task_node_state'')
          \<lparr>rq_states := Some [status_value RUNNING, status_value WAITING]\<rparr>"
  define P where "P r \<longleftrightarrow> (\<exists>v. decode_node r = Inr v \<and> occupies_slot (t_now t) v)" for r
  let ?ls = "list_records q t"
  have a: "a = int (length (filter P ?ls))"
    using efold_active [OF assms(1) [unfolded count_active_def]] unfolding q_def P_def by simp
  have q: "rq_after q = None" "rq_limit q = None" by (simp_all add: q_def node_query_def)
  note ls = set_list_all_records [OF assms(2) q]
  have m: "matches_record q r \<longleftrightarrow> graph_node R g r \<and>
      rec_state r \<in> {Some (status_value RUNNING), Some (status_value WAITING)}" for r :: task_record
    by (auto simp: matches_record_def q_def node_query_def graph_node_def split: option.splits)
  have col: "rec_state r \<in> {Some (status_value RUNNING), Some (status_value WAITING)}"
    if "get_record t (rec_key r) = Some r" "graph_node R g r" "P r" for r
    using assms(3) that unfolding columns_agree_def graph_node_def P_def occupies_slot_def by (metis insertCI)
  have member: "k \<in> slot_keys R g (t_now t) t \<longleftrightarrow> (\<exists>r. get_record t k = Some r \<and> graph_node R g r \<and> P r)" for k
    by (auto simp: slot_keys_def P_def)
  have "slot_keys R g (t_now t) t = rec_key ` set (filter P ?ls)"
  proof (intro set_eqI iffI)
    fix k assume "k \<in> slot_keys R g (t_now t) t"
    then obtain r where r: "get_record t k = Some r" "graph_node R g r" "P r" using member by blast
    with txn_ok_record_key [OF assms(2) r(1)] col have "r \<in> set (filter P ?ls)" "rec_key r = k"
      by (simp_all add: ls(1) m)
    then show "k \<in> rec_key ` set (filter P ?ls)" by blast
  next
    fix k assume "k \<in> rec_key ` set (filter P ?ls)"
    then obtain r where r: "k = rec_key r" "r \<in> set ?ls" "P r" by auto
    from r(2) have "get_record t (rec_key r) = Some r \<and> matches_record q r" unfolding ls(1) by blast
    with r member m show "k \<in> slot_keys R g (t_now t) t" by blast
  qed
  moreover have "inj_on rec_key (set (filter P ?ls))" "distinct (filter P ?ls)"
    using ls(2) by (auto simp: distinct_map inj_on_def)
  ultimately show "a = int (card (slot_keys R g (t_now t) t))" and "finite (slot_keys R g (t_now t) t)"
    using a by (simp_all add: card_image distinct_card del: set_filter)
qed


lemma same_but_revision:
  assumes "map_option (rec_revision_update (\<lambda>_. 0)) a = map_option (rec_revision_update (\<lambda>_. 0)) b"
  shows "map_option record_identity a = map_option record_identity b"
    and "map_option decode_node a = map_option decode_node b"
    and "map_option rec_state a = map_option rec_state b"
proof -
  have "record_identity (r\<lparr>rec_revision := 0\<rparr>) = record_identity r" for r :: task_record
    by (simp add: record_identity_def)
  moreover have "decode_node (r\<lparr>rec_revision := 0\<rparr>) = decode_node r" for r :: task_record
    by (simp add: decode_node_def split: domain_value.split)
  moreover have "rec_state (r\<lparr>rec_revision := 0\<rparr>) = rec_state r" for r :: task_record by simp
  ultimately show "map_option record_identity a = map_option record_identity b"
      "map_option decode_node a = map_option decode_node b" "map_option rec_state a = map_option rec_state b"
    using assms by (cases a; cases b; simp; metis)+
qed

lemma graph_node_identity: "record_identity r = record_identity r' \<Longrightarrow> graph_node R g r = graph_node R g r'"
  by (simp add: record_identity_def graph_node_def)

text \<open>What a move changes of the views, seen as a function of the key.\<close>

lemma node_moved_at:
  assumes "node_moved R g node v t t'" and "j \<noteq> state_key R g (nv_id node)"
  shows "map_option record_identity (get_record t' j) = map_option record_identity (get_record t j)"
    and "map_option decode_node (get_record t' j) = map_option decode_node (get_record t j)"
    and "map_option rec_state (get_record t' j) = map_option rec_state (get_record t j)"
proof -
  have frame: "j \<noteq> graph_key R g \<Longrightarrow> get_record t' j = get_record t j"
    and graph: "map_option (rec_revision_update (\<lambda>_. 0)) (get_record t' (graph_key R g)) =
        map_option (rec_revision_update (\<lambda>_. 0)) (get_record t (graph_key R g))"
    using assms unfolding node_moved_def Let_def by blast+
  have "map_option record_identity (get_record t' j) = map_option record_identity (get_record t j) \<and>
      map_option decode_node (get_record t' j) = map_option decode_node (get_record t j) \<and>
      map_option rec_state (get_record t' j) = map_option rec_state (get_record t j)"
    using frame same_but_revision [OF graph] by (cases "j = graph_key R g") auto
  then show "map_option record_identity (get_record t' j) = map_option record_identity (get_record t j)"
    "map_option decode_node (get_record t' j) = map_option decode_node (get_record t j)"
    "map_option rec_state (get_record t' j) = map_option rec_state (get_record t j)" by blast+
qed

lemma slot_keys_at:
  assumes "map_option record_identity (get_record t' j) = map_option record_identity (get_record t j)"
    and "map_option decode_node (get_record t' j) = map_option decode_node (get_record t j)"
  shows "j \<in> slot_keys R g now t' \<longleftrightarrow> j \<in> slot_keys R g now t"
proof -
  have member: "j \<in> slot_keys R g now s \<longleftrightarrow>
      (\<exists>r v. get_record s j = Some r \<and> graph_node R g r \<and> decode_node r = Inr v \<and> occupies_slot now v)" for s
    by (simp add: slot_keys_def)
  show ?thesis
  proof (cases "get_record t j")
    case None
    with assms(1) have "get_record t' j = None" by simp
    with None show ?thesis by (simp add: member)
  next
    case (Some r)
    with assms(1) obtain r' where r': "get_record t' j = Some r'" by (cases "get_record t' j") auto
    with Some assms have "record_identity r' = record_identity r" "decode_node r' = decode_node r" by simp_all
    with Some r' graph_node_identity [of r' r R g] show ?thesis by (simp add: member)
  qed
qed

text \<open>A move into a slot takes exactly the key of the node.\<close>

lemma slot_keys_moved:
  assumes "node_moved R g node v t t'" and "get_record t (state_key R g (nv_id node)) = Some r" and "graph_node R g r"
  shows "slot_keys R g now t' =
    (if occupies_slot now v then insert (state_key R g (nv_id node)) (slot_keys R g now t)
     else slot_keys R g now t - {state_key R g (nv_id node)})"
    and "state_key R g (nv_id node) \<in> slot_keys R g now t \<longleftrightarrow> occupies_slot now node"
proof -
  let ?k = "state_key R g (nv_id node)"
  from assms(1,2) obtain r' where r': "get_record t' ?k = Some r'" "decode_node r' = Inr (v\<lparr>nv_deps := []\<rparr>)"
      "record_identity r' = record_identity r"
    unfolding node_moved_def Let_def stored_view_def by (auto split: option.splits sum.splits)
  have slot: "occupies_slot now (u\<lparr>nv_deps := []\<rparr>) = occupies_slot now u" for u
    by (simp add: occupies_slot_def)
  have "graph_node R g r'" using graph_node_identity [OF r'(3)] assms(3) by blast
  with r' have new: "?k \<in> slot_keys R g now t' \<longleftrightarrow> occupies_slot now v"
    by (auto simp: slot_keys_def slot)
  have "decode_node r = Inr (node\<lparr>nv_deps := []\<rparr>)"
    using assms(1,2) unfolding node_moved_def Let_def stored_view_def by (auto split: sum.splits)
  with assms(2,3) show "?k \<in> slot_keys R g now t \<longleftrightarrow> occupies_slot now node"
    by (auto simp: slot_keys_def slot)
  have "j \<in> slot_keys R g now t' \<longleftrightarrow> j \<in> slot_keys R g now t" if "j \<noteq> ?k" for j
    using slot_keys_at node_moved_at [OF assms(1) that] by blast
  then have "j \<in> slot_keys R g now t' \<longleftrightarrow> (if j = ?k then occupies_slot now v else j \<in> slot_keys R g now t)" for j
    using new by (cases "j = ?k") simp_all
  then show "slot_keys R g now t' = (if occupies_slot now v then insert ?k (slot_keys R g now t)
     else slot_keys R g now t - {?k})" by (auto simp: set_eq_iff)
qed

lemma columns_agree_moved:
  assumes "node_moved R g node v t t'" and "columns_agree t"
  shows "columns_agree t'"
  unfolding columns_agree_def
proof (intro allI impI)
  fix j r u assume r: "get_record t' j = Some r" "rec_kind r = ''task_node_state''" "decode_node r = Inr u"
  show "rec_state r = Some (status_value (nv_status u))"
  proof (cases "j = state_key R g (nv_id node)")
    case True
    with assms(1) r show ?thesis unfolding node_moved_def Let_def stored_view_def by auto
  next
    case False
    note same = node_moved_at [OF assms(1) False]
    from same(1) r(1) obtain q where q: "get_record t j = Some q" by (cases "get_record t j") auto
    with same r(1,3) have "decode_node q = Inr u" "rec_state q = rec_state r"
        "record_identity q = record_identity r" by auto
    with q r(2) assms(2) show ?thesis unfolding columns_agree_def record_identity_def by (metis prod.inject)
  qed
qed

text \<open>A claim takes one free slot, so a graph never holds more than its limit.\<close>

lemma claim_txn_slots:
  assumes "claim_txn R g n tenant owner seconds t = Inr (lease, t')" and "txn_ok t" and "log_gapless R g t"
    and "columns_agree t" and "1 \<le> seconds"
  shows "\<exists>limits. graph_limits R g t = Inr limits \<and>
    card (slot_keys R g (t_now t) t') = card (slot_keys R g (t_now t) t) + 1 \<and>
    int (card (slot_keys R g (t_now t) t')) \<le> max_concurrency limits"
proof -
  from claim_txn_Inr [OF assms(1)] obtain gr nr graph d node dependencies limits active where
    r: "claim_records R g n t = Inr (gr, nr, graph, d, node)" and id: "nv_graph node = g" "nv_id node = n" and
    lim: "graph_limits R g t = Inr limits" and act: "count_active R g t = Inr active" "active < max_concurrency limits" and
    c: "claimable d node dependencies owner (t_now t) = Inr ()" .
  let ?k = "state_key R g n" and ?v = "claimed node owner (t_now t + microseconds seconds)"
  obtain node' where mv: "node_moved R g node' (claimed node' owner (t_now t + microseconds seconds)) t t'"
      and id': "nv_id node' = n"
      and st: "nv_status node' \<in> {PENDING, READY} \<or> node_expired (t_now t) node'"
    using claim_txn_effect [OF assms(1-3)] by metis
  have nr: "get_record t ?k = Some nr" and gn: "graph_node R g nr"
    using r unfolding claim_records_def graph_node_def by (simp_all only: eres chain) blast+
  note sl = slot_keys_moved [OF mv, unfolded id', OF nr gn, of "t_now t"]
  have "occupies_slot (t_now t) (claimed node' owner (t_now t + microseconds seconds))"
    using assms(5) by (simp add: occupies_slot_def claimed_def microseconds_def)
  moreover have "\<not> occupies_slot (t_now t) node'"
    using st by (auto simp: occupies_slot_def node_expired_def)
  ultimately have "slot_keys R g (t_now t) t' = insert ?k (slot_keys R g (t_now t) t)"
      "?k \<notin> slot_keys R g (t_now t) t" using sl by simp_all
  with count_active_card [OF act(1) assms(2,4)] act(2) lim show ?thesis by auto
qed

end
