(* ===== verification/Task_Fence.thy ===== *)
theory Task_Fence
  imports Task_Lease_Facts
begin

text \<open>
  The operations that a worker runs with a lease.  Each of them succeeds only for the lease
  the stored node carries: same owner, same fence, not expired.  A worker whose claim was
  superseded is refused by all of them, whatever it tries to write.
\<close>

lemma node_in_txn_Inr:
  assumes "node_in_txn R g n missing t = Inr v"
  shows "nv_graph v = g" and "nv_id v = n" and "stored_view t (state_key R g n) = Some (v\<lparr>nv_deps := []\<rparr>)"
    and "view_ok v"
proof -
  from assms obtain r u and d :: task_node where r: "get_record t (state_key R g n) = Some r" "decode_node r = Inr u"
      "nv_graph u = g" "nv_id u = n" and v: "view_ok (u\<lparr>nv_deps := tn_deps d\<rparr>)" "v = u\<lparr>nv_deps := tn_deps d\<rparr>"
    unfolding node_in_txn_def by (simp only: eres chain) blast
  with decode_node_lease [OF r(2)] show "nv_graph v = g" "nv_id v = n" "view_ok v"
      "stored_view t (state_key R g n) = Some (v\<lparr>nv_deps := []\<rparr>)"
    by (simp_all add: stored_view_def)
qed

lemma live_node_Inr:
  assumes "live_node R lease t = Inr (gr, nr, node)"
  shows "get_record t (graph_key R (ls_graph lease)) = Some gr"
    and "get_record t (state_key R (ls_graph lease) (ls_node lease)) = Some nr"
    and "rec_kind gr = ''task_graph''" and "graph_node R (ls_graph lease) nr"
    and "nv_graph node = ls_graph lease" and "nv_id node = ls_node lease"
    and "stored_view t (state_key R (ls_graph lease) (ls_node lease)) = Some (node\<lparr>nv_deps := []\<rparr>)"
    and "view_ok node"
proof -
  let ?g = "ls_graph lease" and ?n = "ls_node lease"
  from assms have r: "get_record t (graph_key R ?g) = Some gr" "get_record t (state_key R ?g ?n) = Some nr"
      "validate_graph_record R gr ?g = Inr ()" "validate_state_record R nr ?g ?n = Inr ()" and
    n: "node_in_txn R ?g ?n TASK_FENCE_STALE t = Inr node"
    unfolding live_node_def Let_def by (simp_all only: ebind_eq_Inr of_option_eq_Inr chain) blast+
  show "get_record t (graph_key R ?g) = Some gr" "get_record t (state_key R ?g ?n) = Some nr" by fact+
  show "rec_kind gr = ''task_graph''" "graph_node R ?g nr"
    using r(3,4) by (auto simp: validate_graph_record_def graph_node_def eres)
  show "nv_graph node = ?g" "nv_id node = ?n" "view_ok node"
      "stored_view t (state_key R ?g ?n) = Some (node\<lparr>nv_deps := []\<rparr>)"
    using node_in_txn_Inr [OF n] by blast+
qed

text \<open>The lease a stored view carries.\<close>

definition holds_lease :: "node_view \<Rightarrow> task_lease \<Rightarrow> int \<Rightarrow> bool" where
  "holds_lease v lease now \<longleftrightarrow>
     nv_status v = RUNNING \<and> nv_owner v = Some (ls_owner lease) \<and> nv_fence v = ls_fence lease \<and>
     (\<exists>e. nv_expires v = Some e \<and> now < e)"

lemma holds_lease_deps [simp]: "holds_lease (v\<lparr>nv_deps := ds\<rparr>) lease now = holds_lease v lease now"
  by (simp add: holds_lease_def)

lemma require_live_lease_holds: "require_live_lease v lease now = Inr u \<longleftrightarrow> holds_lease v lease now"
  by (simp add: require_live_lease_eq holds_lease_def)

abbreviation leased_view :: "repo \<Rightarrow> task_lease \<Rightarrow> task_txn \<Rightarrow> node_view option" where
  "leased_view R lease t \<equiv> stored_view t (state_key R (ls_graph lease) (ls_node lease))"

section \<open>Renew\<close>

lemma lease_apply_renew:
  assumes "lease_apply tr r clock = Some r'" and "lt_operation tr = Renew" and "lt_duration tr = Some d"
  shows "r' = r\<lparr>rec_revision := rec_revision r + 1, rec_expires := Some (clock + d)\<rparr>"
    and "lease_live r clock"
proof -
  from assms have "rec_fence r = lt_fence tr" "rec_owner r = lt_owner tr" "lease_live r clock" and
    r': "r' = r\<lparr>rec_revision := rec_revision r + 1, rec_owner := lt_owner tr, rec_fence := lt_fence tr,
      rec_expires := Some (clock + d)\<rparr>"
    by (auto simp: lease_apply_def split: if_splits)
  then show "r' = r\<lparr>rec_revision := rec_revision r + 1, rec_expires := Some (clock + d)\<rparr>" "lease_live r clock"
    by simp_all
qed

lemma renew_txn_Inr:
  assumes "renew_txn R lease seconds clock t = Inr (l, t')"
  obtains nr node where "leased_view R lease t = Some (node\<lparr>nv_deps := []\<rparr>)" "holds_lease node lease (t_now t)"
    "get_record t (state_key R (ls_graph lease) (ls_node lease)) = Some nr" "lease_live nr clock"
    "l = lease\<lparr>ls_expires := clock + microseconds seconds\<rparr>"
    "t' = put_record (rec_key nr) (nr\<lparr>rec_revision := rec_revision nr + 1,
             rec_expires := Some (clock + microseconds seconds)\<rparr>) t"
proof -
  let ?tr = "\<lambda>node_record. transition_record_lease clock (rec_key node_record) (rec_revision node_record)
              \<lparr>lt_operation = Renew, lt_owner = Some (ls_owner lease), lt_fence = ls_fence lease,
               lt_duration = Some (microseconds seconds)\<rparr> t"
  note run = assms [unfolded renew_txn_def, simplified ebind_eq_Inr of_option_eq_Inr chain]
  from run obtain gr nr node renewed expires where
    live: "live_node R lease t = Inr (gr, nr, node)" and hold: "require_live_lease node lease (t_now t) = Inr ()" and
    tr: "?tr nr = Inr (renewed, t')" and ex: "Option.bind renewed rec_expires = Some expires" and
    l: "make_lease (lease\<lparr>ls_expires := expires\<rparr>) = Inr l"
    by blast
  from ex obtain r' where r': "renewed = Some r'" "rec_expires r' = Some expires" by (cases renewed) auto
  note nr = live_node_Inr [OF live]
  obtain c where c: "get_record t (rec_key nr) = Some c"
      "lease_apply \<lparr>lt_operation = Renew, lt_owner = Some (ls_owner lease), lt_fence = ls_fence lease,
               lt_duration = Some (microseconds seconds)\<rparr> c clock = Some r'" "t' = put_record (rec_key nr) r' t"
    using transition_record_lease_Some [OF tr [unfolded r'(1)]] by blast
  have key: "rec_key nr = state_key R (ls_graph lease) (ls_node lease)"
    using live unfolding live_node_def Let_def by (simp only: eres chain) blast
  with c(1) nr(2) have "c = nr" by simp
  with lease_apply_renew [OF c(2)] have "r' = nr\<lparr>rec_revision := rec_revision nr + 1,
      rec_expires := Some (clock + microseconds seconds)\<rparr>" "lease_live nr clock" by simp_all
  moreover from this r'(2) have "expires = clock + microseconds seconds" by simp
  moreover have "l = lease\<lparr>ls_expires := expires\<rparr>" using make_lease_Inr [OF l] .
  ultimately show ?thesis using that nr hold c(3) by (simp add: require_live_lease_holds)
qed

section \<open>Bind and hand off\<close>

lemma bind_execution_txn_Inr:
  assumes "bind_execution_txn R lease execution t = Inr (v, t')" and "txn_ok t" and "log_gapless R (ls_graph lease) t"
  obtains (replay) "t' = t" "leased_view R lease t = Some (v\<lparr>nv_deps := []\<rparr>)" "holds_lease v lease (t_now t)"
      "nv_execution v = Some execution"
  | (bound) node where "nv_id node = ls_node lease" "holds_lease node lease (t_now t)" "nv_execution node = None"
      "v = node\<lparr>nv_execution := Some execution\<rparr>" "node_moved R (ls_graph lease) node v t t'"
proof -
  let ?g = "ls_graph lease"
  note run = assms(1) [unfolded bind_execution_txn_def, simplified ebind_eq_Inr chain]
  from run obtain gr nr node where live: "live_node R lease t = Inr (gr, nr, node)" and
    hold: "require_live_lease node lease (t_now t) = Inr ()" and
    rest: "(if nv_execution node \<noteq> None
       then ensure (nv_execution node = Some execution) (ai TASK_RESULT_CONFLICT) (Inr (node, t))
       else ebind (make_view (node\<lparr>nv_execution := Some execution\<rparr>)) (\<lambda>v.
         ebind (commit_node_change R ?g gr node v nr t) (\<lambda>(_, t'). Inr (v, t')))) = Inr (v, t')"
    by blast
  note nr = live_node_Inr [OF live]
  show ?thesis
  proof (cases "nv_execution node = None")
    case False
    with rest have "nv_execution node = Some execution" "v = node" "t' = t" by (auto simp: eres)
    with nr hold show ?thesis by (intro replay) (auto simp: require_live_lease_holds)
  next
    case True
    with rest have v: "v = node\<lparr>nv_execution := Some execution\<rparr>" "view_ok v" and
      m: "commit_node_change R ?g gr node v nr t = Inr ((), t')" by (auto simp: eres)
    have "rec_kind nr = ''task_node_state''" using nr(4) by (simp add: graph_node_def)
    with commit_node_change_effect [OF m v(2) nr(1)] nr assms(2,3)
    have "node_moved R ?g node v t t'" by simp
    with nr hold v True show ?thesis by (intro bound) (auto simp: require_live_lease_holds)
  qed
qed


lemma handoff_txn_Inr:
  assumes "handoff_txn R lease execution occupies t = Inr (v, t')" and "txn_ok t" and "log_gapless R (ls_graph lease) t"
  obtains (replay) "t' = t" "leased_view R lease t = Some (v\<lparr>nv_deps := []\<rparr>)" "nv_status v = WAITING"
      "nv_execution v = Some execution" "nv_fence v = ls_fence lease" "nv_owner v = None"
      "nv_occupies v = occupies"
  | (handed) node where "nv_id node = ls_node lease" "holds_lease node lease (t_now t)"
      "nv_execution node \<in> {None, Some execution}"
      "v = node\<lparr>nv_status := WAITING, nv_owner := None, nv_expires := None, nv_execution := Some execution,
         nv_result := None, nv_error := None, nv_error_digest := None, nv_next_attempt := None,
         nv_occupies := occupies\<rparr>"
      "node_moved R (ls_graph lease) node v t t'"
proof -
  let ?g = "ls_graph lease"
  let ?w = "\<lambda>node. node\<lparr>nv_status := WAITING, nv_owner := None, nv_expires := None,
         nv_execution := Some execution, nv_result := None, nv_error := None, nv_error_digest := None,
         nv_next_attempt := None, nv_occupies := occupies\<rparr>"
  from assms(1) obtain gr nr node where live: "live_node R lease t = Inr (gr, nr, node)"
    unfolding handoff_txn_def by (cases "live_node R lease t") auto
  note nr = live_node_Inr [OF live]
  show ?thesis
  proof (cases "nv_status node = WAITING \<and> nv_execution node = Some execution")
    case True
    with assms(1) have "v = node" "t' = t" "nv_fence node = ls_fence lease" "nv_owner node = None"
        "nv_occupies node = occupies"
      by (auto simp: handoff_txn_def live eres)
    with True nr show ?thesis by (intro replay) auto
  next
    case False
    with assms(1) have hold: "holds_lease node lease (t_now t)"
      and ex: "nv_execution node = None \<or> nv_execution node = Some execution"
      and v: "v = ?w node" "view_ok v"
      and m: "commit_node_change R ?g gr node v nr t = Inr ((), t')"
      unfolding handoff_txn_def live ebind_Inr prod.case if_not_P [OF False]
      by (auto simp: ebind_eq_Inr ensure_eq_Inr make_view_Inr require_live_lease_holds)
    have "rec_kind nr = ''task_node_state''" using nr(4) by (simp add: graph_node_def)
    with commit_node_change_effect [OF m v(2) nr(1)] nr assms(2,3)
    have "node_moved R ?g node v t t'" by simp
    with nr hold ex v show ?thesis by (intro handed) auto
  qed
qed

section \<open>The views of a graph\<close>

lemma collect_state_Inr:
  assumes "efold (collect_state R g) rs found = Inr states"
    and "\<forall>r\<in>set rs. get_record t (rec_key r) = Some r"
    and "\<forall>(i, v)\<in>set found. nv_id v = i \<and> stored_view t (state_key R g i) = Some v"
  shows "\<forall>(i, v)\<in>set states. nv_id v = i \<and> stored_view t (state_key R g i) = Some v"
proof (rule efold_invariant [where P = "\<lambda>l. \<forall>(i, v)\<in>set l. nv_id v = i \<and> stored_view t (state_key R g i) = Some v",
      OF assms(1,3)])
  fix r found states assume r: "r \<in> set rs"
    and inv: "\<forall>(i, v)\<in>set found. nv_id v = i \<and> stored_view t (state_key R g i) = Some v"
    and step: "collect_state R g r found = Inr states"
  from step obtain v where "decode_node r = Inr v" "rec_key r = state_key R g (nv_id v)"
      "states = found @ [(nv_id v, v)]"
    unfolding collect_state_def by (auto simp: eres)
  with inv r assms(2) show "\<forall>(i, v)\<in>set states. nv_id v = i \<and> stored_view t (state_key R g i) = Some v"
    by (auto simp: stored_view_def)
qed

lemma event_state_views:
  assumes "event_state_in_txn R g t = Inr (Some s)" and "txn_ok t" and "v \<in> set (es_views s)"
  shows "stored_view t (state_key R g (nv_id v)) = Some (v\<lparr>nv_deps := []\<rparr>)" and "view_ok v"
proof -
  let ?q = "node_query (state_parent R g) ''task_node_state''"
  obtain r where r: "get_record t (graph_key R g) = Some r"
    using assms(1) by (cases "get_record t (graph_key R g)") (auto simp: event_state_in_txn_def)
  from assms(1) obtain nodes views where nv: "nodes_with_definitions R g t = Inr (nodes, views)" "es_views s = views"
    unfolding event_state_in_txn_def r option.case by (simp only: eres chain) fastforce
  from nv(1) obtain states ordered and definitions :: "(string \<times> task_node) list" where
    st: "efold (collect_state R g) (list_records ?q t) [] = Inr states" and
    vs: "emap (\<lambda>i. ebind (of_option KeyError (map_of states i)) (\<lambda>v.
           ebind (of_option KeyError (map_of definitions i)) (\<lambda>n. make_view (v\<lparr>nv_deps := tn_deps n\<rparr>))))
         ordered = Inr views"
    unfolding nodes_with_definitions_def Let_def by (simp only: ebind_eq_Inr ensure_eq_Inr chain) blast
  have "\<forall>r\<in>set (list_records ?q t). get_record t (rec_key r) = Some r"
    using set_list_all_records(1) [OF assms(2), of ?q] by (simp add: node_query_def)
  note all = collect_state_Inr [OF st this, simplified]
  from assms(3) nv(2) emap_set [OF vs, of v] obtain i u and n :: task_node where
    u: "map_of states i = Some u" and v: "view_ok v" "v = u\<lparr>nv_deps := tn_deps n\<rparr>"
    by (auto simp: eres)
  from map_of_SomeD [OF u] all have iu: "nv_id u = i" "stored_view t (state_key R g i) = Some u" by auto
  then obtain q where "decode_node q = Inr u" by (auto simp: stored_view_def split: option.splits sum.splits)
  from decode_node_lease [OF this] v(2) have "v\<lparr>nv_deps := []\<rparr> = u" by simp
  with iu v show "stored_view t (state_key R g (nv_id v)) = Some (v\<lparr>nv_deps := []\<rparr>)" "view_ok v" by auto
qed

lemma find_view_Some: "find_view vs n = Some v \<Longrightarrow> v \<in> set vs \<and> nv_id v = n"
  by (auto simp: find_view_def find_Some_iff)

lemma requeue_retry_txn_holds:
  assumes "requeue_retry_txn R lease execution next_attempt t = Inr (v, t')" and "txn_ok t"
  shows "\<exists>node. leased_view R lease t = Some node \<and> holds_lease node lease (t_now t) \<and>
    nv_execution node = Some execution"
proof -
  from assms(1) obtain prev current where
    b: "event_state_in_txn R (ls_graph lease) t = Inr (Some prev)" and
    f: "find_view (es_views prev) (ls_node lease) = Some current" and
    h: "holds_lease current lease (t_now t)" and x: "nv_execution current = Some execution"
    unfolding requeue_retry_txn_def
    by (simp only: ebind_eq_Inr ensure_eq_Inr of_option_eq_Inr require_live_lease_holds chain) blast
  from find_view_Some [OF f] event_state_views(1) [OF b assms(2)]
  have "leased_view R lease t = Some (current\<lparr>nv_deps := []\<rparr>)" by metis
  with h x show ?thesis by auto
qed

lemma publish_prepared_txn_holds:
  assumes "publish_prepared_txn R lease p t = Inr (q, t')"
  shows "\<exists>node. leased_view R lease t = Some node \<and> holds_lease node lease (t_now t)"
proof -
  from assms obtain r node where "get_record t (state_key R (ls_graph lease) (ls_node lease)) = Some r"
      "decode_node r = Inr node" "holds_lease node lease (t_now t)"
    unfolding publish_prepared_txn_def Let_def
    by (simp only: ebind_eq_Inr ensure_eq_Inr of_option_eq_Inr require_live_lease_holds chain) blast
  then show ?thesis by (auto simp: stored_view_def)
qed

lemma renew_txn_holds:
  "renew_txn R lease seconds clock t = Inr (l, t') \<Longrightarrow>
    \<exists>node. leased_view R lease t = Some node \<and> holds_lease node lease (t_now t)"
  by (erule renew_txn_Inr) (auto simp: holds_lease_def)

lemma bind_execution_txn_holds:
  assumes "bind_execution_txn R lease execution t = Inr (v, t')"
  shows "\<exists>node. leased_view R lease t = Some node \<and> holds_lease node lease (t_now t)"
proof -
  from assms obtain gr nr node where live: "live_node R lease t = Inr (gr, nr, node)"
      and "holds_lease node lease (t_now t)"
    unfolding bind_execution_txn_def by (simp only: ebind_eq_Inr require_live_lease_holds chain) blast
  with live_node_Inr(7) [OF live] show ?thesis by auto
qed

lemma handoff_txn_fence:
  assumes "handoff_txn R lease execution occupies t = Inr (v, t')"
  shows "\<exists>node. leased_view R lease t = Some node \<and> nv_fence node = ls_fence lease"
proof -
  from assms obtain gr nr node where live: "live_node R lease t = Inr (gr, nr, node)"
    unfolding handoff_txn_def by (cases "live_node R lease t") auto
  from assms have "nv_fence node = ls_fence lease"
    by (auto simp: handoff_txn_def live eres holds_lease_def split: if_splits)
  with live_node_Inr(7) [OF live] show ?thesis by auto
qed

end
