(* ===== verification/Task_Quiet.thy ===== *)
theory Task_Quiet
  imports Task_Fence
begin

text \<open>
  Steps of a transaction that write records only: no record disappears or changes its identity,
  and the event log is left alone.
\<close>

section \<open>Quiet steps\<close>

text \<open>A write that keeps the identity of every record, or adds records.\<close>

definition extends_records :: "task_txn \<Rightarrow> task_txn \<Rightarrow> bool" where
  "extends_records t t' \<longleftrightarrow>
     (\<forall>j r. get_record t j = Some r \<longrightarrow>
        (\<exists>r'. get_record t' j = Some r' \<and> record_identity r' = record_identity r))"

lemma extends_refl [intro]: "extends_records t t"
  by (simp add: extends_records_def)

lemma extends_trans [trans]: "extends_records t t1 \<Longrightarrow> extends_records t1 t2 \<Longrightarrow> extends_records t t2"
  unfolding extends_records_def by metis

text \<open>A step that writes records only.\<close>

definition quiet :: "task_txn \<Rightarrow> task_txn \<Rightarrow> bool" where
  "quiet t t' \<longleftrightarrow> txn_ok t' \<and> extends_records t t' \<and> t_facts t' = t_facts t \<and>
     t_sequences t' = t_sequences t \<and> t_now t' = t_now t"

lemma quiet_refl: "txn_ok t \<Longrightarrow> quiet t t"
  by (simp add: quiet_def extends_refl)

lemma quiet_trans: "quiet t t1 \<Longrightarrow> quiet t1 t2 \<Longrightarrow> quiet t t2"
  unfolding quiet_def by (metis extends_trans)

lemma quiet_ok: "quiet t t' \<Longrightarrow> txn_ok t'"
  by (simp add: quiet_def)

lemma quiet_log: "quiet t t' \<Longrightarrow> log_gapless R g t' = log_gapless R g t"
  unfolding quiet_def by (metis log_gapless_cong)

lemma quiet_put:
  assumes "txn_ok t" and "get_record t k = Some old" and "record_identity c = record_identity old"
  shows "quiet t (put_record k c t)"
proof -
  have "rec_key c = k" using assms txn_ok_record_key [of t k old] by (simp add: record_identity_def)
  with assms show ?thesis by (auto simp: quiet_def txn_ok_put extends_records_def get_record_put)
qed

lemma quiet_guard:
  assumes "guard_record k (rec_revision r) t = Inr (Some q, t1)" and "get_record t k = Some r" and "txn_ok t"
  shows "quiet t t1" and "get_record t1 = (get_record t)(k \<mapsto> q)" and "record_identity q = record_identity r"
proof -
  obtain r1 where g: "txn_ok t1" "get_record t1 = (get_record t)(k \<mapsto> r1)" "q = r1"
      "r1\<lparr>rec_revision := 0\<rparr> = r\<lparr>rec_revision := 0\<rparr>" "t_facts t1 = t_facts t" "t_sequences t1 = t_sequences t"
      "t_now t1 = t_now t"
    using guard_graph_effect [OF assms] by blast
  have id: "record_identity (x\<lparr>rec_revision := 0\<rparr>) = record_identity x" for x :: task_record
    by (simp add: record_identity_def)
  from arg_cong [OF g(4), of record_identity] g(3) show i: "record_identity q = record_identity r" by (simp only: id)
  from g show "get_record t1 = (get_record t)(k \<mapsto> q)" by simp
  with i assms(2) g show "quiet t t1" by (auto simp: quiet_def extends_records_def)
qed

lemma quiet_insert_records:
  assumes "insert_records rs t = Inr (u, t')" and "txn_ok t"
  shows "quiet t t'"
proof -
  have "get_record t' = get_record t ++ map_of (map (\<lambda>r. (rec_key r, r)) rs)" using insert_records_get [OF assms(1)] .
  moreover have "map_of (map (\<lambda>r. (rec_key r, r)) rs) j = None" if "get_record t j \<noteq> None" for j
    using insert_records_eq(2) [OF assms(1)] that by (auto simp: map_of_eq_None_iff)
  ultimately have "get_record t' j = Some r" if "get_record t j = Some r" for j r
    using that by (simp add: map_add_def)
  then show ?thesis
    using txn_ok_insert_records [OF assms] insert_records_eq(3) [OF assms(1)]
    by (simp add: quiet_def extends_records_def)
qed

lemma insert_records_keep:
  assumes "insert_records rs t = Inr (u, t')" and "get_record t j = Some r"
  shows "get_record t' j = Some r"
proof -
  have "map_of (map (\<lambda>r. (rec_key r, r)) rs) j = None"
    using insert_records_eq(2) [OF assms(1)] assms(2) by (auto simp: map_of_eq_None_iff)
  with insert_records_get [OF assms(1)] assms(2) show ?thesis by (simp add: map_add_def)
qed


section \<open>Batches of replacements\<close>

lemma replace_all_effect:
  assumes "replace_all ps t = Inr (u, t')" and "txn_ok t"
  shows "quiet t t'" and "distinct (map (rec_key \<circ> repl_record) ps)"
    and "p \<in> set ps \<Longrightarrow> \<exists>c. get_record t (rec_key (repl_record p)) = Some c \<and>
      record_identity (repl_record p) = record_identity c"
    and "get_record t' k = Some r \<longleftrightarrow> (\<exists>p\<in>set ps. repl_record p = r \<and> rec_key r = k) \<or>
      (get_record t k = Some r \<and> (\<forall>p\<in>set ps. rec_key (repl_record p) \<noteq> k))"
proof -
  have "quiet t t' \<and> distinct (map (rec_key \<circ> repl_record) ps) \<and>
    (\<forall>p\<in>set ps. \<exists>c. get_record t (rec_key (repl_record p)) = Some c \<and>
      record_identity (repl_record p) = record_identity c) \<and>
    (\<forall>k r. get_record t' k = Some r \<longleftrightarrow> (\<exists>p\<in>set ps. repl_record p = r \<and> rec_key r = k) \<or>
      (get_record t k = Some r \<and> (\<forall>p\<in>set ps. rec_key (repl_record p) \<noteq> k)))"
  proof (cases "ps = []")
    case True
    with assms show ?thesis by (simp add: replace_all_def quiet_refl)
  next
    case False
    with assms(1) have w: "replace_records ps t = (Inr (), t')"
      by (auto simp: replace_all_def split: prod.splits sum.splits)
    note e = replace_records_effect [OF w]
    let ?rs = "map repl_record (sort_key (rec_key \<circ> repl_record) ps)"
    have d: "distinct (map rec_key ?rs)" using e(1) by (simp add: distinct_map_sort_key)
    have g: "get_record t' = get_record t ++ map_of (map (\<lambda>r. (rec_key r, r)) ?rs)"
      unfolding e(3) by (rule get_record_put_all [OF d])
    have m: "map_of (map (\<lambda>r. (rec_key r, r)) ?rs) k = Some r \<longleftrightarrow> (\<exists>p\<in>set ps. repl_record p = r \<and> rec_key r = k)" for k r
      unfolding map_of_by_key [OF d] by auto
    have n: "map_of (map (\<lambda>r. (rec_key r, r)) ?rs) k = None \<longleftrightarrow> (\<forall>p\<in>set ps. rec_key (repl_record p) \<noteq> k)" for k
      by (auto simp: map_of_eq_None_iff image_iff)
    have iff: "get_record t' k = Some r \<longleftrightarrow> (\<exists>p\<in>set ps. repl_record p = r \<and> rec_key r = k) \<or>
      (get_record t k = Some r \<and> (\<forall>p\<in>set ps. rec_key (repl_record p) \<noteq> k))" for k r
      unfolding g map_add_Some_iff m n by blast
    have ids: "\<exists>c. get_record t (rec_key (repl_record p)) = Some c \<and> record_identity (repl_record p) = record_identity c"
      if "p \<in> set ps" for p
      using e(2) [OF that] unfolding replacement_identity by blast
    have "\<exists>r'. get_record t' j = Some r' \<and> record_identity r' = record_identity r" if "get_record t j = Some r" for j r
    proof (cases "\<exists>p\<in>set ps. rec_key (repl_record p) = j")
      case True
      then obtain p where p: "p \<in> set ps" "rec_key (repl_record p) = j" by blast
      with ids [OF p(1)] that have "record_identity (repl_record p) = record_identity r" by simp
      moreover have "get_record t' j = Some (repl_record p)" using p iff by blast
      ultimately show ?thesis by blast
    next
      case False
      with that iff show ?thesis by blast
    qed
    moreover have "txn_ok t'" using txn_ok_replace_records [OF w assms(2)] .
    moreover have "t_facts t' = t_facts t" "t_sequences t' = t_sequences t" "t_now t' = t_now t"
      unfolding e(3) by simp_all
    ultimately have "quiet t t'" by (simp add: quiet_def extends_records_def)
    with e(1) ids iff show ?thesis by blast
  qed
  then show "quiet t t'" "distinct (map (rec_key \<circ> repl_record) ps)"
    "p \<in> set ps \<Longrightarrow> \<exists>c. get_record t (rec_key (repl_record p)) = Some c \<and> record_identity (repl_record p) = record_identity c"
    "get_record t' k = Some r \<longleftrightarrow> (\<exists>p\<in>set ps. repl_record p = r \<and> rec_key r = k) \<or>
      (get_record t k = Some r \<and> (\<forall>p\<in>set ps. rec_key (repl_record p) \<noteq> k))" by blast+
qed

lemma quiet_event_guard:
  assumes "guard_event_owner k missing t = Inr (q, t1)" and "txn_ok t"
  obtains r where "get_record t k = Some r" "quiet t t1" "get_record t1 = (get_record t)(k \<mapsto> q)"
    "record_identity q = record_identity r" "rec_data q = rec_data r" "rec_state q = rec_state r"
proof -
  from assms(1) obtain r where r: "get_record t k = Some r" "guard_record k (rec_revision r) t = Inr (Some q, t1)"
    unfolding guard_event_owner_def by (simp only: eres chain) blast
  from guard_graph_effect [OF r(2,1) assms(2)] have "q\<lparr>rec_revision := 0\<rparr> = r\<lparr>rec_revision := 0\<rparr>" by blast
  then have "rec_data (q\<lparr>rec_revision := 0\<rparr>) = rec_data (r\<lparr>rec_revision := 0\<rparr>)"
    "rec_state (q\<lparr>rec_revision := 0\<rparr>) = rec_state (r\<lparr>rec_revision := 0\<rparr>)" by simp_all
  with quiet_guard [OF r(2,1) assms(2)] r(1) that show ?thesis by simp
qed


section \<open>State columns\<close>

definition column_ok :: "task_record \<Rightarrow> bool" where
  "column_ok r \<longleftrightarrow> (rec_kind r = ''task_node_state'' \<longrightarrow>
     (\<forall>v. decode_node r = Inr v \<longrightarrow> rec_state r = Some (status_value (nv_status v))))"

lemma columns_agree_iff: "columns_agree t \<longleftrightarrow> (\<forall>k r. get_record t k = Some r \<longrightarrow> column_ok r)"
  by (auto simp: columns_agree_def column_ok_def)

lemma column_ok_kind: "rec_kind r \<noteq> ''task_node_state'' \<Longrightarrow> column_ok r"
  by (simp add: column_ok_def)

lemma column_ok_decoded: "decode_node r = Inr v \<Longrightarrow> rec_state r = Some (status_value (nv_status v)) \<Longrightarrow> column_ok r"
  by (simp add: column_ok_def)

lemma column_ok_revision: "q\<lparr>rec_revision := 0\<rparr> = r\<lparr>rec_revision := 0\<rparr> \<Longrightarrow> column_ok q = column_ok r"
proof -
  assume a: "q\<lparr>rec_revision := 0\<rparr> = r\<lparr>rec_revision := 0\<rparr>"
  have "decode_node (r\<lparr>rec_revision := 0\<rparr>) = decode_node r" for r :: task_record
    by (simp add: decode_node_def split: domain_value.split)
  with a have "decode_node q = decode_node r" by metis
  moreover from arg_cong [OF a, of rec_kind] arg_cong [OF a, of rec_state]
  have "rec_kind q = rec_kind r" "rec_state q = rec_state r" by simp_all
  ultimately show ?thesis by (simp add: column_ok_def)
qed

lemma columns_put: "columns_agree t \<Longrightarrow> column_ok c \<Longrightarrow> columns_agree (put_record k c t)"
  by (auto simp: columns_agree_iff get_record_put)

lemma columns_insert:
  assumes "insert_records rs t = Inr (u, t')" and "columns_agree t" and "\<forall>r\<in>set rs. column_ok r"
  shows "columns_agree t'"
proof -
  have "column_ok r" if "get_record t' k = Some r" for k r
  proof (cases "map_of (map (\<lambda>r. (rec_key r, r)) rs) k")
    case None
    with that insert_records_get [OF assms(1)] have "get_record t k = Some r" by (simp add: map_add_def)
    with assms(2) show ?thesis by (simp add: columns_agree_iff)
  next
    case (Some q)
    with that insert_records_get [OF assms(1)] have "q = r" by (simp add: map_add_def)
    with map_of_SomeD [OF Some] assms(3) show ?thesis by auto
  qed
  then show ?thesis by (simp add: columns_agree_iff)
qed

lemma columns_guard:
  assumes "guard_record k (rec_revision r) t = Inr (Some q, t1)" and "get_record t k = Some r" and "txn_ok t"
    and "columns_agree t"
  shows "columns_agree t1"
proof -
  obtain r1 where g: "get_record t1 = (get_record t)(k \<mapsto> r1)" "r1\<lparr>rec_revision := 0\<rparr> = r\<lparr>rec_revision := 0\<rparr>"
    using guard_graph_effect [OF assms(1-3)] by blast
  have "column_ok r1" using column_ok_revision [OF g(2)] assms(2,4) by (simp add: columns_agree_iff)
  with assms(4) show ?thesis by (simp add: columns_agree_iff g(1))
qed

lemma columns_same: "get_record t' = get_record t \<Longrightarrow> columns_agree t' = columns_agree t"
  by (simp add: columns_agree_iff)

end
