(* ===== verification/Task_Projection.thy ===== *)
theory Task_Projection
  imports Task_Quiet
begin

text \<open>
  The projection of a graph from its records (\<open>_event_state_in_transaction\<close> and
  \<open>_nodes_with_definitions_in_transaction\<close>) and the transition of a whole graph
  (\<open>_apply_graph_transition\<close>): what the projection holds, and that a transition stores exactly
  the views it was given.
\<close>

section \<open>Reading the nodes and their definitions\<close>

text \<open>The loop that both readings share: decode, check the identity, refuse a second one.\<close>

lemma collect_eq:
  assumes "efold (\<lambda>r found. ebind (dec r) (\<lambda>x. ebind (chk r x) (\<lambda>_::unit.
      ensure (ident x \<notin> set (map fst found)) e (Inr (found @ [(ident x, x)]))))) rs found = Inr out"
  obtains xs where "list_all2 (\<lambda>r x. dec r = Inr x \<and> chk r x = Inr ()) rs xs"
    "out = found @ map (\<lambda>x. (ident x, x)) xs" "distinct (map ident xs)"
    "\<forall>x\<in>set xs. ident x \<notin> set (map fst found)"
  using assms
proof (induction rs arbitrary: found thesis)
  case (Cons r rs)
  from Cons.prems(2) obtain x where x: "dec r = Inr x" "chk r x = Inr ()" "ident x \<notin> set (map fst found)"
    and rest: "efold (\<lambda>r found. ebind (dec r) (\<lambda>x. ebind (chk r x) (\<lambda>_::unit.
      ensure (ident x \<notin> set (map fst found)) e (Inr (found @ [(ident x, x)]))))) rs (found @ [(ident x, x)]) = Inr out"
    by (auto simp: eres)
  from Cons.IH [OF _ rest] obtain xs where "list_all2 (\<lambda>r x. dec r = Inr x \<and> chk r x = Inr ()) rs xs"
    "out = (found @ [(ident x, x)]) @ map (\<lambda>x. (ident x, x)) xs" "distinct (map ident xs)"
    "\<forall>y\<in>set xs. ident y \<notin> set (map fst (found @ [(ident x, x)]))" by blast
  with x show ?case by (intro Cons.prems(1) [of "x # xs"]) auto
qed simp

lemma collect_ok:
  assumes "list_all2 (\<lambda>r x. dec r = Inr x \<and> chk r x = Inr ()) rs xs" and "distinct (map ident xs)"
    and "\<forall>x\<in>set xs. ident x \<notin> set (map fst found)"
  shows "efold (\<lambda>r found. ebind (dec r) (\<lambda>x. ebind (chk r x) (\<lambda>_::unit.
      ensure (ident x \<notin> set (map fst found)) e (Inr (found @ [(ident x, x)]))))) rs found =
    Inr (found @ map (\<lambda>x. (ident x, x)) xs)"
  using assms
proof (induction rs xs arbitrary: found rule: list_all2_induct)
  case (Cons r rs x xs)
  have "\<forall>y\<in>set xs. ident y \<notin> set (map fst (found @ [(ident x, x)]))"
    using Cons.prems by (auto simp: image_iff)
  with Cons.IH [OF _ this] Cons.hyps Cons.prems show ?case by (simp del: set_map)
qed simp

definition definition_record :: "repo \<Rightarrow> string \<Rightarrow> task_record \<Rightarrow> bool" where
  "definition_record R g r \<longleftrightarrow>
     rec_kind r = ''task_node_definition'' \<and> rec_parent r = Some (definition_parent R g)"

definition reads_definition :: "repo \<Rightarrow> string \<Rightarrow> task_record \<Rightarrow> task_node \<Rightarrow> bool" where
  "reads_definition R g r d \<longleftrightarrow>
     decode_definition r = Inr d \<and> validate_definition_record R r g (tn_id d) = Inr ()"

definition reads_state :: "repo \<Rightarrow> string \<Rightarrow> task_record \<Rightarrow> node_view \<Rightarrow> bool" where
  "reads_state R g r v \<longleftrightarrow>
     decode_node r = Inr (v\<lparr>nv_deps := []\<rparr>) \<and> validate_state_record R r g (nv_id v) = Inr ()"

text \<open>
  The nodes of a projection are the stored definitions of the graph and its views the stored
  views with the dependencies of their definitions, both in the order of their ids.
\<close>

definition projects :: "repo \<Rightarrow> string \<Rightarrow> task_txn \<Rightarrow> task_node list \<Rightarrow> node_view list \<Rightarrow> bool" where
  "projects R g t nodes views \<longleftrightarrow>
     map tn_id nodes = map nv_id views \<and> distinct (map nv_id views) \<and> sorted (map nv_id views) \<and>
     (\<forall>r. get_record t (rec_key r) = Some r \<longrightarrow> definition_record R g r \<longrightarrow> (\<exists>d\<in>set nodes. reads_definition R g r d)) \<and>
     (\<forall>d\<in>set nodes. \<exists>r. get_record t (definition_key R g (tn_id d)) = Some r \<and> reads_definition R g r d) \<and>
     (\<forall>r. get_record t (rec_key r) = Some r \<longrightarrow> graph_node R g r \<longrightarrow> (\<exists>v\<in>set views. reads_state R g r v)) \<and>
     (\<forall>v\<in>set views. \<exists>r. get_record t (state_key R g (nv_id v)) = Some r \<and> reads_state R g r v) \<and>
     (\<forall>v\<in>set views. \<exists>d\<in>set nodes. tn_id d = nv_id v \<and> nv_deps v = tn_deps d)"

lemma matches_definition:
  "matches_record (node_query (definition_parent R g) ''task_node_definition'') r \<longleftrightarrow> definition_record R g r"
  by (auto simp: matches_record_def node_query_def definition_record_def split: option.splits)

lemma matches_state:
  "matches_record (node_query (state_parent R g) ''task_node_state'') r \<longleftrightarrow> graph_node R g r"
  by (auto simp: matches_record_def node_query_def graph_node_def split: option.splits)

lemma set_node_query:
  "txn_ok t \<Longrightarrow> set (list_records (node_query p knd) t) =
    {r. get_record t (rec_key r) = Some r \<and> matches_record (node_query p knd) r}"
  by (rule set_list_all_records) (simp_all add: node_query_def)

lemma validate_definition_record_Inr [eres]:
  "validate_definition_record R r g n = Inr u \<longleftrightarrow>
    rec_kind r = ''task_node_definition'' \<and> rec_key r = definition_key R g n \<and> rec_scope r = None \<and>
    rec_parent r = Some (definition_parent R g) \<and> rec_sort r = sortable_identity (rp_sha R) (pair_ident g n)"
  by (auto simp: validate_definition_record_def eres)

lemma list_all2_in_left: "list_all2 P xs ys \<Longrightarrow> x \<in> set xs \<Longrightarrow> \<exists>y\<in>set ys. P x y"
  by (induction rule: list_all2_induct) auto

lemma list_all2_in_right: "list_all2 P xs ys \<Longrightarrow> y \<in> set ys \<Longrightarrow> \<exists>x\<in>set xs. P x y"
  by (induction rule: list_all2_induct) auto

lemma reads_definition_eq:
  "list_all2 (\<lambda>r x. decode_definition r = Inr x \<and> validate_definition_record R r g (tn_id x) = Inr ()) rs ds \<longleftrightarrow>
    list_all2 (reads_definition R g) rs ds"
  by (simp add: reads_definition_def [abs_def])

lemma no_deps: "nv_deps v = [] \<Longrightarrow> v\<lparr>nv_deps := []\<rparr> = v"
  by (cases v) simp

lemma decode_no_deps: "decode_node r = Inr v \<Longrightarrow> v\<lparr>nv_deps := []\<rparr> = v \<and> nv_deps v = []"
  using no_deps [of v] decode_node_lease by blast

lemma reads_state_eq:
  "list_all2 (\<lambda>r x. decode_node r = Inr x \<and> validate_state_record R r g (nv_id x) = Inr ()) rs us \<longleftrightarrow>
    list_all2 (reads_state R g) rs us \<and> (\<forall>u\<in>set us. nv_deps u = [])"
proof -
  have eq: "decode_node r = Inr x \<and> validate_state_record R r g (nv_id x) = Inr () \<longleftrightarrow>
      reads_state R g r x \<and> nv_deps x = []" for r x
    unfolding reads_state_def by (metis decode_no_deps no_deps)
  show ?thesis unfolding eq by (induction rs us rule: list_induct2') auto
qed

lemma reads_definition_key: "reads_definition R g r d \<Longrightarrow> rec_key r = definition_key R g (tn_id d) \<and> definition_record R g r"
  by (simp add: reads_definition_def definition_record_def eres)

lemma reads_state_key: "reads_state R g r v \<Longrightarrow> rec_key r = state_key R g (nv_id v) \<and> graph_node R g r"
  by (simp add: reads_state_def graph_node_def eres)

lemma reads_state_ok: "reads_state R g r v \<Longrightarrow> view_ok v"
  using decode_node_lease [of r "v\<lparr>nv_deps := []\<rparr>"] by (simp add: reads_state_def)

lemma reads_state_deps [simp]: "reads_state R g r (v\<lparr>nv_deps := ds\<rparr>) = reads_state R g r v"
  by (simp add: reads_state_def)

lemma reads_definition_unique: "reads_definition R g r d \<Longrightarrow> reads_definition R g r d' \<Longrightarrow> d = d'"
  by (simp add: reads_definition_def)

lemma reads_state_unique: "reads_state R g r u \<Longrightarrow> reads_state R g r v \<Longrightarrow> u\<lparr>nv_deps := []\<rparr> = v\<lparr>nv_deps := []\<rparr>"
  by (simp add: reads_state_def)

lemma view_eq_deps: "u\<lparr>nv_deps := []\<rparr> = v\<lparr>nv_deps := []\<rparr> \<Longrightarrow> nv_id u = nv_id v \<and> u\<lparr>nv_deps := ds\<rparr> = v\<lparr>nv_deps := ds\<rparr>"
  by (cases u; cases v) simp

lemma nodes_with_definitions_Inr:
  assumes "nodes_with_definitions R g t = Inr (nodes, views)" and ok: "txn_ok t"
  shows "projects R g t nodes views"
proof -
  let ?dq = "node_query (definition_parent R g) ''task_node_definition''"
  let ?sq = "node_query (state_parent R g) ''task_node_state''"
  from assms(1) obtain definitions states where
    d: "efold (collect_definition R g) (list_records ?dq t) [] = Inr definitions" and
    s: "efold (collect_state R g) (list_records ?sq t) [] = Inr states" and
    same: "set (map fst definitions) = set (map fst states)" and
    ns: "emap (\<lambda>i. of_option KeyError (map_of definitions i)) (sort (map fst definitions)) = Inr nodes" and
    vs: "emap (\<lambda>i. ebind (of_option KeyError (map_of states i)) (\<lambda>v.
           ebind (of_option KeyError (map_of definitions i)) (\<lambda>n. make_view (v\<lparr>nv_deps := tn_deps n\<rparr>))))
         (sort (map fst definitions)) = Inr views"
    unfolding nodes_with_definitions_def Let_def by (simp only: ebind_eq_Inr ensure_eq_Inr chain) blast
  obtain ds where ds: "list_all2 (reads_definition R g) (list_records ?dq t) ds"
      "definitions = map (\<lambda>x. (tn_id x, x)) ds" "distinct (map tn_id ds)"
    by (rule collect_eq [OF d [unfolded collect_definition_def [abs_def]], unfolded reads_definition_eq]) auto
  obtain us where us: "list_all2 (reads_state R g) (list_records ?sq t) us"
      "states = map (\<lambda>x. (nv_id x, x)) us" "distinct (map nv_id us)"
    by (rule collect_eq [OF s [unfolded collect_state_def [abs_def]], unfolded reads_state_eq]) auto
  let ?ids = "sort (map fst definitions)"
  have ids: "sorted ?ids" "distinct ?ids" "set ?ids = tn_id ` set ds" "set ?ids = nv_id ` set us"
    using ds(2,3) us(2) same by (auto simp: comp_def)
  have dof: "map_of definitions i = Some x \<longleftrightarrow> x \<in> set ds \<and> tn_id x = i" for i x
    unfolding ds(2) by (rule map_of_by_key [OF ds(3)])
  have sof: "map_of states i = Some x \<longleftrightarrow> x \<in> set us \<and> nv_id x = i" for i x
    unfolding us(2) by (rule map_of_by_key [OF us(3)])
  have nid: "map tn_id nodes = ?ids"
    using emap_map [OF ns, of tn_id "\<lambda>i. i"] by (simp add: of_option_eq_Inr dof)
  have "map nv_id views = map (\<lambda>i. i) ?ids"
    by (rule emap_map [OF vs]) (auto simp: eres sof)
  then have vid: "map nv_id views = ?ids" by simp
  have nset: "set nodes = set ds" using emap_set [OF ns] ids(3) by (auto simp: of_option_eq_Inr dof)
  have view: "\<exists>u d. u \<in> set us \<and> d \<in> set ds \<and> tn_id d = nv_id u \<and> v = u\<lparr>nv_deps := tn_deps d\<rparr>" if "v \<in> set views" for v
    using emap_set [OF vs, of v] that by (auto simp: eres sof dof) metis
  have viewed: "\<exists>d :: task_node. u\<lparr>nv_deps := tn_deps d\<rparr> \<in> set views" if "u \<in> set us" for u
  proof -
    from that ids(4) vid obtain v where v: "v \<in> set views" "nv_id v = nv_id u" by (metis imageE imageI set_map)
    from view [OF v(1)] obtain u' and d :: task_node where u': "u' \<in> set us" "v = u'\<lparr>nv_deps := tn_deps d\<rparr>" by blast
    with v(2) that us(3) have "u' = u" by (auto simp: distinct_map inj_on_def)
    with u'(2) v(1) show ?thesis by blast
  qed
  show ?thesis
    unfolding projects_def nset
  proof (intro conjI allI impI ballI)
    show "map tn_id nodes = map nv_id views" "distinct (map nv_id views)" "sorted (map nv_id views)"
      using ids(1,2) by (simp_all only: nid vid)
  next
    fix r assume "get_record t (rec_key r) = Some r" "definition_record R g r"
    then have "r \<in> set (list_records ?dq t)" using set_node_query [OF ok] matches_definition by blast
    from list_all2_in_left [OF ds(1) this] show "\<exists>d\<in>set ds. reads_definition R g r d" .
  next
    fix d assume "d \<in> set ds"
    from list_all2_in_right [OF ds(1) this] set_node_query [OF ok] reads_definition_key
    show "\<exists>r. get_record t (definition_key R g (tn_id d)) = Some r \<and> reads_definition R g r d" by fastforce
  next
    fix r assume "get_record t (rec_key r) = Some r" "graph_node R g r"
    then have "r \<in> set (list_records ?sq t)" using set_node_query [OF ok] matches_state by blast
    from list_all2_in_left [OF us(1) this] viewed show "\<exists>v\<in>set views. reads_state R g r v"
      by (metis reads_state_deps)
  next
    fix v assume "v \<in> set views"
    from view [OF this] obtain u d where u: "u \<in> set us" "d \<in> set ds" "tn_id d = nv_id u" "v = u\<lparr>nv_deps := tn_deps d\<rparr>"
      by blast
    from list_all2_in_right [OF us(1) u(1)] set_node_query [OF ok] reads_state_key u(4)
    show "\<exists>r. get_record t (state_key R g (nv_id v)) = Some r \<and> reads_state R g r v" by fastforce
    from u show "\<exists>d\<in>set ds. tn_id d = nv_id v \<and> nv_deps v = tn_deps d" by auto
  qed
qed

lemma list_records_distinct_keys:
  assumes "txn_ok t"
  shows "distinct (map rec_key (list_records (node_query p knd) t))"
  by (rule set_list_all_records(2) [OF assms]) (simp_all add: node_query_def)

text \<open>A reader of each listed record exists, so the loop collects all of them.\<close>

lemma collected_list:
  assumes "\<forall>r\<in>set rs. \<exists>x. P r x" and "distinct (map rec_key rs)"
    and "\<And>r x. P r x \<Longrightarrow> rec_key r = key (ident x)"
  obtains xs where "list_all2 P rs xs" "distinct (map ident xs)"
  using assms(1,2)
proof (induction rs arbitrary: thesis)
  case (Cons r rs)
  then obtain xs where xs: "list_all2 P rs xs" "distinct (map ident xs)" by auto
  from Cons.prems obtain x where x: "P r x" by auto
  have "ident x \<notin> ident ` set xs"
  proof
    assume "ident x \<in> ident ` set xs"
    then obtain y where y: "y \<in> set xs" "ident y = ident x" by auto
    from list_all2_in_right [OF xs(1) y(1)] obtain q where "q \<in> set rs" "P q y" by blast
    with assms(3) x y(2) Cons.prems(3) show False by (metis distinct.simps(2) image_eqI list.simps(9) set_map)
  qed
  with x xs show ?case by (intro Cons.prems(1) [of "x # xs"]) auto
qed simp

lemma projectsD:
  assumes "projects R g t nodes views"
  shows "map tn_id nodes = map nv_id views" "distinct (map nv_id views)" "sorted (map nv_id views)"
    and "get_record t (rec_key r) = Some r \<Longrightarrow> definition_record R g r \<Longrightarrow> \<exists>d\<in>set nodes. reads_definition R g r d"
    and "d \<in> set nodes \<Longrightarrow> \<exists>r. get_record t (definition_key R g (tn_id d)) = Some r \<and> reads_definition R g r d"
    and "get_record t (rec_key r) = Some r \<Longrightarrow> graph_node R g r \<Longrightarrow> \<exists>v\<in>set views. reads_state R g r v"
    and "v \<in> set views \<Longrightarrow> \<exists>r. get_record t (state_key R g (nv_id v)) = Some r \<and> reads_state R g r v"
    and "v \<in> set views \<Longrightarrow> \<exists>d\<in>set nodes. tn_id d = nv_id v \<and> nv_deps v = tn_deps d"
  using assms unfolding projects_def by blast+

lemma projects_listed:
  assumes p: "projects R g t nodes views" and ok: "txn_ok t"
  obtains ds us where
    "list_all2 (reads_definition R g) (list_records (node_query (definition_parent R g) ''task_node_definition'') t) ds"
    "distinct (map tn_id ds)" "set ds = set nodes"
    "list_all2 (reads_state R g) (list_records (node_query (state_parent R g) ''task_node_state'') t) us"
    "distinct (map nv_id us)" "\<forall>u\<in>set us. nv_deps u = []"
    "set us = (\<lambda>v. v\<lparr>nv_deps := []\<rparr>) ` set views"
proof -
  let ?dq = "list_records (node_query (definition_parent R g) ''task_node_definition'') t"
  let ?sq = "list_records (node_query (state_parent R g) ''task_node_state'') t"
  have dr: "\<forall>r\<in>set ?dq. \<exists>d. reads_definition R g r d \<and> d \<in> set nodes"
    using projectsD(4) [OF p] set_node_query [OF ok] matches_definition by blast
  have sr: "\<forall>r\<in>set ?sq. \<exists>u. reads_state R g r u \<and> nv_deps u = [] \<and> u \<in> (\<lambda>v. v\<lparr>nv_deps := []\<rparr>) ` set views"
  proof
    fix r assume "r \<in> set ?sq"
    then obtain v where "v \<in> set views" "reads_state R g r v"
      using projectsD(6) [OF p] set_node_query [OF ok] matches_state by blast
    then show "\<exists>u. reads_state R g r u \<and> nv_deps u = [] \<and> u \<in> (\<lambda>v. v\<lparr>nv_deps := []\<rparr>) ` set views"
      by (intro exI [of _ "v\<lparr>nv_deps := []\<rparr>"]) auto
  qed
  obtain ds where ds: "list_all2 (\<lambda>r d. reads_definition R g r d \<and> d \<in> set nodes) ?dq ds" "distinct (map tn_id ds)"
    by (rule collected_list [OF dr list_records_distinct_keys [OF ok],
          where ident = tn_id and key = "definition_key R g"]) (blast dest: reads_definition_key)+
  obtain us where us: "list_all2 (\<lambda>r u. reads_state R g r u \<and> nv_deps u = [] \<and> u \<in> (\<lambda>v. v\<lparr>nv_deps := []\<rparr>) ` set views) ?sq us"
      "distinct (map nv_id us)"
    by (rule collected_list [OF sr list_records_distinct_keys [OF ok],
          where ident = nv_id and key = "state_key R g"]) (blast dest: reads_state_key)+
  have "d \<in> set ds" if d: "d \<in> set nodes" for d
  proof -
    from projectsD(5) [OF p d] obtain r where r: "get_record t (definition_key R g (tn_id d)) = Some r" "reads_definition R g r d"
      by blast
    with reads_definition_key [OF r(2)] have "r \<in> set ?dq" using set_node_query [OF ok] matches_definition by auto
    from list_all2_in_left [OF ds(1) this] r(2) show ?thesis using reads_definition_unique by blast
  qed
  with list_all2_in_right [OF ds(1)] have "set ds = set nodes" by blast
  moreover have "v\<lparr>nv_deps := []\<rparr> \<in> set us" if v: "v \<in> set views" for v
  proof -
    from projectsD(7) [OF p v] obtain r where r: "get_record t (state_key R g (nv_id v)) = Some r" "reads_state R g r v"
      by blast
    with reads_state_key [OF r(2)] have "r \<in> set ?sq" using set_node_query [OF ok] matches_state by auto
    from list_all2_in_left [OF us(1) this] obtain u where "u \<in> set us" "reads_state R g r u" "nv_deps u = []" by blast
    with reads_state_unique [OF r(2)] no_deps [of u] show ?thesis by metis
  qed
  with list_all2_in_right [OF us(1)] have "set us = (\<lambda>v. v\<lparr>nv_deps := []\<rparr>) ` set views" by blast
  moreover have "list_all2 (reads_definition R g) ?dq ds" "list_all2 (reads_state R g) ?sq us"
    using ds(1) us(1) by (auto elim: list_all2_mono)
  moreover have "\<forall>u\<in>set us. nv_deps u = []" using list_all2_in_right [OF us(1)] by blast
  ultimately show ?thesis using that ds(2) us(2) by blast
qed

lemma emap_map_id: "(\<And>x. x \<in> set xs \<Longrightarrow> f (g x) = Inr x) \<Longrightarrow> emap f (map g xs) = Inr xs"
  by (induction xs) simp_all

lemma sort_ids: "distinct (map f xs) \<Longrightarrow> map f ys = is \<Longrightarrow> sorted is \<Longrightarrow> distinct is \<Longrightarrow> set xs = set ys \<Longrightarrow> sort (map f xs) = is"
  by (metis distinct_sort set_map set_sort sorted_distinct_set_unique sorted_sort)

lemma projects_nodes:
  assumes p: "projects R g t nodes views" and ok: "txn_ok t"
  shows "nodes_with_definitions R g t = Inr (nodes, views)"
proof -
  obtain ds us where ds:
    "list_all2 (reads_definition R g) (list_records (node_query (definition_parent R g) ''task_node_definition'') t) ds"
    "distinct (map tn_id ds)" "set ds = set nodes" and us:
    "list_all2 (reads_state R g) (list_records (node_query (state_parent R g) ''task_node_state'') t) us"
    "distinct (map nv_id us)" "\<forall>u\<in>set us. nv_deps u = []" "set us = (\<lambda>v. v\<lparr>nv_deps := []\<rparr>) ` set views"
    by (rule projects_listed [OF p ok])
  have d: "efold (collect_definition R g)
      (list_records (node_query (definition_parent R g) ''task_node_definition'') t) [] = Inr (map (\<lambda>x. (tn_id x, x)) ds)"
    using collect_ok [OF ds(1) [folded reads_definition_eq] ds(2), of "[]"]
    by (simp add: collect_definition_def [abs_def])
  have s: "efold (collect_state R g)
      (list_records (node_query (state_parent R g) ''task_node_state'') t) [] = Inr (map (\<lambda>x. (nv_id x, x)) us)"
    using collect_ok [OF reads_state_eq [THEN iffD2, OF conjI, OF us(1,3)] us(2), of "[]"]
    by (simp add: collect_state_def [abs_def])
  have dof: "map_of (map (\<lambda>x. (tn_id x, x)) ds) i = Some x \<longleftrightarrow> x \<in> set nodes \<and> tn_id x = i" for i x
    using map_of_by_key [OF ds(2)] ds(3) by simp
  have sof: "map_of (map (\<lambda>x. (nv_id x, x)) us) i = Some x \<longleftrightarrow> x \<in> set us \<and> nv_id x = i" for i x
    by (rule map_of_by_key [OF us(2)])
  note pd = projectsD [OF p]
  have ids: "sort (map tn_id ds) = map nv_id views"
    by (rule sort_ids [OF ds(2) pd(1)]) (use pd(2,3) ds(3) in auto)
  have same: "set (map tn_id ds) = set (map nv_id us)"
    using ds(3) us(4) pd(1) by (simp add: image_image) (metis set_map)
  have ns: "emap (\<lambda>i. of_option KeyError (map_of (map (\<lambda>x. (tn_id x, x)) ds) i)) (map nv_id views) = Inr nodes"
    unfolding pd(1) [symmetric] emap_eq_Inr
    by (auto simp: list_all2_conv_all_nth of_option_eq_Inr dof)
  have deps: "nv_deps v = tn_deps d" if "v \<in> set views" "d \<in> set nodes" "tn_id d = nv_id v" for v d
  proof -
    from pd(8) [OF that(1)] obtain e where e: "e \<in> set nodes" "tn_id e = nv_id v" "nv_deps v = tn_deps e" by blast
    have "inj_on tn_id (set nodes)" using pd(1,2) by (metis distinct_map)
    with e that show ?thesis by (auto simp: inj_on_def)
  qed
  let ?view = "\<lambda>i. ebind (of_option KeyError (map_of (map (\<lambda>x. (nv_id x, x)) us) i)) (\<lambda>v.
      ebind (of_option KeyError (map_of (map (\<lambda>x. (tn_id x, x)) ds) i)) (\<lambda>n. make_view (v\<lparr>nv_deps := tn_deps n\<rparr>)))"
  have step: "?view (nv_id v) = Inr v" if v: "v \<in> set views" for v
  proof -
    from v have u: "v\<lparr>nv_deps := []\<rparr> \<in> set us" using us(4) by blast
    from pd(8) [OF v] obtain d where d: "d \<in> set nodes" "tn_id d = nv_id v" by blast
    have "view_ok v" using pd(7) [OF v] reads_state_ok by blast
    moreover have "map_of (map (\<lambda>x. (nv_id x, x)) us) (nv_id v) = Some (v\<lparr>nv_deps := []\<rparr>)" using u by (simp add: sof)
    moreover have "map_of (map (\<lambda>x. (tn_id x, x)) ds) (nv_id v) = Some d" using d by (simp add: dof)
    moreover have "v\<lparr>nv_deps := tn_deps d\<rparr> = v" using deps [OF v d] by (cases v) simp
    ultimately show ?thesis by (simp add: make_view_Inr)
  qed
  have vs: "emap ?view (map nv_id views) = Inr views"
    by (rule emap_map_id) (rule step)
  have m: "map fst (map (\<lambda>x. (f x, x)) xs) = map f xs" for f :: "'b \<Rightarrow> string" and xs by (simp add: comp_def)
  show ?thesis
    unfolding nodes_with_definitions_def d s ebind_Inr m Let_def ids ns vs prod.case ensure_def using same by simp
qed

theorem nodes_with_definitions_iff:
  "txn_ok t \<Longrightarrow> nodes_with_definitions R g t = Inr (nodes, views) \<longleftrightarrow> projects R g t nodes views"
  using nodes_with_definitions_Inr projects_nodes by blast

lemma event_state_iff:
  assumes "txn_ok t"
  shows "event_state_in_txn R g t = Inr (Some s) \<longleftrightarrow>
    (\<exists>r header. get_record t (graph_key R g) = Some r \<and> validate_graph_record R r g = Inr () \<and>
      decode_graph r = Inr header \<and> gv_status header \<notin> {READY, WAITING} \<and>
      s = \<lparr>es_graph = \<lparr>gv_id = g, gv_status = gv_status header, gv_nodes = gv_nodes (es_graph s)\<rparr>, es_views = es_views s\<rparr> \<and>
      projects R g t (gv_nodes (es_graph s)) (es_views s) \<and>
      make_graph \<lparr>tg_id = g, tg_nodes = gv_nodes (es_graph s)\<rparr> \<in> range Inr)"
    (is "?l \<longleftrightarrow> ?r")
proof
  assume ?l
  then obtain r where r: "get_record t (graph_key R g) = Some r"
    by (cases "get_record t (graph_key R g)") (auto simp: event_state_in_txn_def)
  from \<open>?l\<close> obtain header nodes views graph where v: "validate_graph_record R r g = Inr ()"
      "decode_graph r = Inr header" "require_canonical (gv_status header) = Inr ()"
      "nodes_with_definitions R g t = Inr (nodes, views)" "make_graph \<lparr>tg_id = g, tg_nodes = nodes\<rparr> = Inr graph" and
    s: "s = \<lparr>es_graph = \<lparr>gv_id = g, gv_status = gv_status header, gv_nodes = nodes\<rparr>, es_views = views\<rparr>"
    unfolding event_state_in_txn_def r option.case
    by (simp only: ebind_eq_Inr ensure_eq_Inr unit_ex sum.inject option.inject split_paired_Ex prod.case) blast
  from v(3) have "gv_status header \<notin> {READY, WAITING}" by (auto simp: require_canonical_def eres)
  with r v(1,2,5) nodes_with_definitions_Inr [OF v(4) assms] show ?r
    by (intro exI [of _ r] exI [of _ header]) (simp add: s)
next
  assume ?r
  then obtain r header graph where r: "get_record t (graph_key R g) = Some r" "validate_graph_record R r g = Inr ()"
      "decode_graph r = Inr header" "gv_status header \<notin> {READY, WAITING}"
      "make_graph \<lparr>tg_id = g, tg_nodes = gv_nodes (es_graph s)\<rparr> = Inr graph" and
    s: "s = \<lparr>es_graph = \<lparr>gv_id = g, gv_status = gv_status header, gv_nodes = gv_nodes (es_graph s)\<rparr>, es_views = es_views s\<rparr>" and
    p: "projects R g t (gv_nodes (es_graph s)) (es_views s)" by blast
  have "require_canonical (gv_status header) = Inr ()" using r(4) by (simp add: require_canonical_def)
  with r projects_nodes [OF p assms] projectsD(1) [OF p] show ?l
    by (simp add: event_state_in_txn_def s [symmetric])
qed

end
