(* ===== verification/Task_Transition.thy ===== *)
theory Task_Transition
  imports Task_Projection
begin

text \<open>
  \<open>_apply_graph_transition\<close> against its specification: the stored graph is an abstract state,
  the status and the views that \<open>_event_state_in_transaction\<close> projects, and the transition
  replaces it by the given one.  \<open>transition_refines\<close> is that refinement; the operations of
  \<open>Task_Control_Ops\<close> are instances of it.
\<close>

lemma change_replacement_Inr:
  assumes "change_replacement R g t (v, w) = Inr p" and "view_ok w" and "nv_id w = nv_id v"
  shows "\<exists>r. get_record t (state_key R g (nv_id v)) = Some r \<and> reads_state R g r v"
    and "rec_key (repl_record p) = state_key R g (nv_id v)" and "reads_state R g (repl_record p) w"
    and "rec_state (repl_record p) = Some (status_value (nv_status w))"
proof -
  from assms(1) obtain r s c where r: "get_record t (state_key R g (nv_id v)) = Some r"
      "validate_state_record R r g (nv_id v) = Inr ()" "decode_node r = Inr s" "s\<lparr>nv_deps := nv_deps v\<rparr> = v" and
    c: "task_node_record R r w = Inr c" and p: "repl_record p = c"
    unfolding change_replacement_def by (auto simp: eres)
  have "s = v\<lparr>nv_deps := []\<rparr>"
    using r(4) decode_no_deps [OF r(3)] by (metis node_view.update_convs(3) node_view.surjective)
  with r show "\<exists>r. get_record t (state_key R g (nv_id v)) = Some r \<and> reads_state R g r v"
    by (simp add: reads_state_def)
  from c have same: "state_key R (nv_graph w) (nv_id w) = state_key R g (nv_id v)"
      "state_parent R (nv_graph w) = state_parent R g"
      "sortable_identity (rp_sha R) (pair_ident (nv_graph w) (nv_id w)) = sortable_identity (rp_sha R) (pair_ident g (nv_id v))"
    using r(2) by (auto simp: task_node_record_def eres)
  have eq: "c = (project_record R ''task_node_state'' (pair_ident (nv_graph w) (nv_id w)) (Node w) None
      (Some (state_parent R (nv_graph w))) (Some (status_value (nv_status w))))\<lparr>rec_revision := rec_revision r + 1\<rparr>"
    using c by (auto simp: task_node_record_def eres)
  have "decode_node c = Inr (w\<lparr>nv_deps := []\<rparr>)"
    by (rule decode_node_written) (simp_all add: eq assms(2) project_record_def Let_def)
  with same assms(3) show "rec_key (repl_record p) = state_key R g (nv_id v)" "reads_state R g (repl_record p) w"
      "rec_state (repl_record p) = Some (status_value (nv_status w))"
    by (simp_all add: p reads_state_def eres) (simp_all add: eq project_record_def Let_def state_key_def)
qed

definition same_frames :: "node_view list \<Rightarrow> node_view list \<Rightarrow> bool" where
  "same_frames vs ws \<longleftrightarrow>
     list_all2 (\<lambda>v w. nv_id w = nv_id v \<and> nv_deps w = nv_deps v \<and> view_ok w) vs ws"

lemma same_frames_ids: "same_frames vs ws \<Longrightarrow> map nv_id ws = map nv_id vs"
  by (auto simp: same_frames_def intro: list_all2_map_eq elim: list_all2_mono)

lemma same_framesD:
  "same_frames vs ws \<Longrightarrow> (v, w) \<in> set (zip vs ws) \<Longrightarrow> nv_id w = nv_id v \<and> nv_deps w = nv_deps v \<and> view_ok w"
  by (auto simp: same_frames_def list_all2_iff)

lemma projected_graph_Inr:
  assumes "projected_record R r (Graph v) = Inr c" and "rec_kind r = ''task_graph''"
  shows "rec_key c = graph_key R (gv_id v)" and "rec_state c = Some (status_value (gv_status v))"
    and "decode_graph c = Inr (v\<lparr>gv_nodes := []\<rparr>)" and "rec_kind c = ''task_graph''"
  using assms by (auto simp: projected_record_def project_record_def Let_def graph_key_def decode_graph_def)

text \<open>
  The records after a transition: every node record reads as the new view of its node, the graph
  record as the new status, and nothing else changed.
\<close>

definition transitioned ::
  "repo \<Rightarrow> string \<Rightarrow> node_view list \<Rightarrow> node_view list \<Rightarrow> task_status \<Rightarrow> task_txn \<Rightarrow> task_txn \<Rightarrow> bool" where
  "transitioned R g vs ws status t t' \<longleftrightarrow>
     txn_ok t' \<and> extends_records t t' \<and> t_now t' = t_now t \<and>
     (\<exists>r r' h. get_record t (graph_key R g) = Some r \<and> get_record t' (graph_key R g) = Some r' \<and>
        record_identity r' = record_identity r \<and> decode_graph r' = Inr h \<and> gv_status h = status \<and>
        rec_state r' = Some (status_value status)) \<and>
     (\<forall>(v, w)\<in>set (zip vs ws). \<exists>r r'. get_record t (state_key R g (nv_id v)) = Some r \<and>
        get_record t' (state_key R g (nv_id v)) = Some r' \<and> reads_state R g r' w \<and>
        (r' = r \<and> v = w \<or> rec_state r' = Some (status_value (nv_status w)))) \<and>
     (\<forall>j. j \<noteq> graph_key R g \<longrightarrow> j \<notin> state_key R g ` nv_id ` set vs \<longrightarrow> get_record t' j = get_record t j)"

lemma apply_graph_transition_Inr:
  assumes "apply_graph_transition R prev gr ws status t = Inr (view, t')"
  defines "g \<equiv> gv_id (es_graph prev)" and "changes \<equiv> transition_changes (es_views prev) ws"
  obtains drafts q t1 nps gps t2 where
    "if drafts = [] then q = gr \<and> t1 = t else guard_event_owner (graph_key R g) STORAGE_NOT_FOUND t = Inr (q, t1)"
    "emap (change_replacement R g t1) changes = Inr nps"
    "if gv_status (es_graph prev) \<noteq> status \<or> rec_state gr \<noteq> Some (status_value status)
     then \<exists>c. projected_record R q (Graph ((es_graph prev)\<lparr>gv_status := status\<rparr>)) = Inr c \<and>
       gps = [\<lparr>repl_record = c, repl_expected = rec_revision q\<rparr>]
     else gps = []"
    "replace_all (nps @ gps) t1 = Inr ((), t2)"
    "append_events (rp_sha R) (rp_ns R) (rp_tenant R) (rp_domain R) g (graph_key R g) drafts True t2 = Inr ((), t')"
    "view = (es_graph prev)\<lparr>gv_status := status\<rparr>" "length ws = length (es_views prev)"
    "transition_drafts (es_graph prev) changes status = Inr drafts"
proof -
  from assms(1) obtain drafts q t1 nps gps t2 where
    len: "length ws = length (es_views prev)" and dr: "transition_drafts (es_graph prev) changes status = Inr drafts" and
    gd: "(if drafts = [] then Inr (gr, t) else guard_event_owner (graph_key R g) STORAGE_NOT_FOUND t) = Inr (q, t1)" and
    ns: "emap (change_replacement R g t1) changes = Inr nps" and
    gs: "(if gv_status (es_graph prev) \<noteq> status \<or> rec_state gr \<noteq> Some (status_value status)
       then ebind (projected_record R q (Graph ((es_graph prev)\<lparr>gv_status := status\<rparr>)))
         (\<lambda>c. Inr [\<lparr>repl_record = c, repl_expected = rec_revision q\<rparr>]) else Inr []) = Inr gps" and
    rep: "replace_all (nps @ gps) t1 = Inr ((), t2)" and
    app: "append_events (rp_sha R) (rp_ns R) (rp_tenant R) (rp_domain R) g (graph_key R g) drafts (drafts \<noteq> []) t2 = Inr ((), t')" and
    view: "view = (es_graph prev)\<lparr>gv_status := status\<rparr>"
    unfolding apply_graph_transition_def Let_def g_def changes_def
    by (simp only: ebind_eq_Inr ensure_eq_Inr chain) blast
  have "append_events (rp_sha R) (rp_ns R) (rp_tenant R) (rp_domain R) g (graph_key R g) drafts True t2 = Inr ((), t')"
    using app by (cases "drafts = []") (simp_all add: append_events_def)
  with that [of drafts q t1 nps gps t2] len dr gd ns gs rep view show ?thesis
    by (auto simp: eres split: if_splits)
qed


lemma transition_changes_iff: "(v, w) \<in> set (transition_changes vs ws) \<longleftrightarrow> (v, w) \<in> set (zip vs ws) \<and> v \<noteq> w"
  by (auto simp: transition_changes_def)

text \<open>The replacements are those of the changed views.\<close>

lemma change_replacements:
  assumes ns: "emap (change_replacement R g t) (transition_changes vs ws) = Inr nps" and frames: "same_frames vs ws"
  shows "p \<in> set nps \<Longrightarrow> \<exists>v w. (v, w) \<in> set (zip vs ws) \<and> v \<noteq> w \<and> rec_key (repl_record p) = state_key R g (nv_id v) \<and>
      reads_state R g (repl_record p) w \<and> rec_state (repl_record p) = Some (status_value (nv_status w))"
    and "(v, w) \<in> set (zip vs ws) \<Longrightarrow> v \<noteq> w \<Longrightarrow> \<exists>p\<in>set nps. rec_key (repl_record p) = state_key R g (nv_id v) \<and>
      reads_state R g (repl_record p) w \<and> rec_state (repl_record p) = Some (status_value (nv_status w))"
proof -
  show "\<exists>v w. (v, w) \<in> set (zip vs ws) \<and> v \<noteq> w \<and> rec_key (repl_record p) = state_key R g (nv_id v) \<and>
      reads_state R g (repl_record p) w \<and> rec_state (repl_record p) = Some (status_value (nv_status w))"
    if pin: "p \<in> set nps"
  proof -
    from emap_set [OF ns, of p] pin obtain v w where vw: "(v, w) \<in> set (transition_changes vs ws)"
      "change_replacement R g t (v, w) = Inr p" by auto
    then have z: "(v, w) \<in> set (zip vs ws)" "v \<noteq> w" by (simp_all add: transition_changes_iff)
    with change_replacement_Inr [OF vw(2)] same_framesD [OF frames z(1)] show ?thesis by blast
  qed
  show "\<exists>p\<in>set nps. rec_key (repl_record p) = state_key R g (nv_id v) \<and>
      reads_state R g (repl_record p) w \<and> rec_state (repl_record p) = Some (status_value (nv_status w))"
    if z: "(v, w) \<in> set (zip vs ws)" "v \<noteq> w"
  proof -
    have "(v, w) \<in> set (transition_changes vs ws)" using z by (simp add: transition_changes_iff)
    from emap_ex [OF ns this] obtain p where p: "change_replacement R g t (v, w) = Inr p" by blast
    with emap_set [OF ns] \<open>(v, w) \<in> set (transition_changes vs ws)\<close> have "p \<in> set nps" by blast
    with change_replacement_Inr [OF p] same_framesD [OF frames z(1)] show ?thesis by blast
  qed
qed

text \<open>Two views of a projection share no record, so an unchanged view is not replaced.\<close>

lemma unchanged_key:
  assumes pj: "projects R g t nodes vs" and z: "(v', w') \<in> set (zip vs ws)" "v' \<noteq> w'" "(v, v) \<in> set (zip vs ws)"
  shows "state_key R g (nv_id v') \<noteq> state_key R g (nv_id v)"
proof
  assume k: "state_key R g (nv_id v') = state_key R g (nv_id v)"
  from projectsD(7) [OF pj set_zip_leftD [OF z(1)]] projectsD(7) [OF pj set_zip_leftD [OF z(3)]] k
  obtain r where "reads_state R g r v'" "reads_state R g r v" by auto
  from reads_state_unique [OF this] have "nv_id v' = nv_id v" using view_eq_deps by blast
  with projectsD(2) [OF pj] set_zip_leftD [OF z(1)] set_zip_leftD [OF z(3)] have "v' = v"
    by (auto simp: distinct_map inj_on_def)
  moreover have "distinct vs" using projectsD(2) [OF pj] by (simp add: distinct_map)
  moreover from z(1) obtain i where "i < length vs" "vs ! i = v'" "ws ! i = w'" by (auto simp: in_set_zip)
  moreover from z(3) obtain j where "j < length vs" "vs ! j = v" "ws ! j = v" by (auto simp: in_set_zip)
  ultimately have "i = j" "ws ! i = w'" "ws ! j = v" using nth_eq_iff_index_eq [of vs i j] by simp_all
  then have "w' = v" by simp
  with \<open>v' = v\<close> z(2) show False by simp
qed

lemma apply_graph_transition_records:
  assumes run: "apply_graph_transition R prev gr ws status t = Inr (view, t')"
    and ev: "event_state_in_txn R g t = Inr (Some prev)" and gr: "get_record t (graph_key R g) = Some gr"
    and frames: "same_frames (es_views prev) ws" and ok: "txn_ok t" "log_gapless R g t"
  shows "transitioned R g (es_views prev) ws status t t'" and "log_gapless R g t'"
    and "view = (es_graph prev)\<lparr>gv_status := status\<rparr>"
proof -
  let ?gk = "graph_key R g" and ?sk = "\<lambda>v :: node_view. state_key R g (nv_id v)" and ?vs = "es_views prev"
  from ev [unfolded event_state_iff [OF ok(1)]] gr obtain header where
    hd: "validate_graph_record R gr g = Inr ()" "decode_graph gr = Inr header"
      "gv_status (es_graph prev) = gv_status header" and
    gid: "gv_id (es_graph prev) = g" and pj: "projects R g t (gv_nodes (es_graph prev)) ?vs"
    by (auto simp: event_state.surjective graph_view.surjective) (metis event_state.select_convs(1) graph_view.select_convs(1,2))
  have kind: "rec_kind gr = ''task_graph''" using hd(1) by (simp add: validate_graph_record_def eres)
  from apply_graph_transition_Inr [OF run, unfolded gid] obtain drafts q t1 nps gps t2 where
    gd: "if drafts = [] then q = gr \<and> t1 = t else guard_event_owner ?gk STORAGE_NOT_FOUND t = Inr (q, t1)" and
    ns: "emap (change_replacement R g t1) (transition_changes ?vs ws) = Inr nps" and
    gs: "if gv_status (es_graph prev) \<noteq> status \<or> rec_state gr \<noteq> Some (status_value status)
      then \<exists>c. projected_record R q (Graph ((es_graph prev)\<lparr>gv_status := status\<rparr>)) = Inr c \<and>
        gps = [\<lparr>repl_record = c, repl_expected = rec_revision q\<rparr>]
      else gps = []" and
    rep: "replace_all (nps @ gps) t1 = Inr ((), t2)" and
    app: "append_events (rp_sha R) (rp_ns R) (rp_tenant R) (rp_domain R) g ?gk drafts True t2 = Inr ((), t')" and
    view: "view = (es_graph prev)\<lparr>gv_status := status\<rparr>"
    by metis
  show "view = (es_graph prev)\<lparr>gv_status := status\<rparr>" by (fact view)
  have g1: "quiet t t1" "get_record t1 = (get_record t)(?gk \<mapsto> q)" "record_identity q = record_identity gr"
      "rec_data q = rec_data gr" "rec_state q = rec_state gr"
    using gd gr ok(1) by (auto simp: quiet_refl fun_upd_idem elim: quiet_event_guard split: if_splits)
  have qk: "rec_kind q = ''task_graph''" using g1(3) kind by (simp add: record_identity_def)
  note r2 = replace_all_effect [OF rep quiet_ok [OF g1(1)]]
  have q2: "quiet t t2" using quiet_trans [OF g1(1) r2(1)] .
  note a = append_log [OF app quiet_log [OF q2, THEN iffD2, OF ok(2)] quiet_ok [OF q2]]
  then show "log_gapless R g t'" by blast
  have rec': "get_record t' = get_record t2" using a by blast
  have reads: "\<exists>r. get_record t (?sk v) = Some r \<and> reads_state R g r v \<and> ?sk v \<noteq> ?gk" if "v \<in> set ?vs" for v
  proof -
    from projectsD(7) [OF pj that] obtain r where r: "get_record t (?sk v) = Some r" "reads_state R g r v" by blast
    from reads_state_key [OF r(2)] r(1) gr kind have "?sk v \<noteq> ?gk" by (auto simp: graph_node_def)
    with r show ?thesis by blast
  qed
  note np = change_replacements(1) [OF ns frames] and pn = change_replacements(2) [OF ns frames]
  have gp: "rec_key (repl_record p) = ?gk \<and> rec_state (repl_record p) = Some (status_value status) \<and>
      (\<exists>h. decode_graph (repl_record p) = Inr h \<and> gv_status h = status)" if "p \<in> set gps" for p
    using gs that projected_graph_Inr [OF _ qk] by (auto simp: gid split: if_splits)
  have untouched: "get_record t' j = get_record t j" if "j \<noteq> ?gk" "\<forall>p\<in>set nps. rec_key (repl_record p) \<noteq> j" for j
  proof -
    have "get_record t2 j = Some r \<longleftrightarrow> get_record t1 j = Some r" for r
      using r2(4) [of j r] that gp by auto
    then have "get_record t2 j = get_record t1 j" by (metis option.exhaust)
    with rec' g1(2) that(1) show ?thesis by simp
  qed
  have nodes: "\<exists>r r'. get_record t (?sk v) = Some r \<and> get_record t' (?sk v) = Some r' \<and> reads_state R g r' w \<and>
      (r' = r \<and> v = w \<or> rec_state r' = Some (status_value (nv_status w)))" if z: "(v, w) \<in> set (zip ?vs ws)" for v w
  proof (cases "v = w")
    case False
    from pn [OF z False] obtain p where p: "p \<in> set nps" "rec_key (repl_record p) = ?sk v"
      "reads_state R g (repl_record p) w" "rec_state (repl_record p) = Some (status_value (nv_status w))" by blast
    then have "get_record t' (?sk v) = Some (repl_record p)" using r2(4) rec' by auto
    with p reads set_zip_leftD [OF z] show ?thesis by blast
  next
    case True
    from reads set_zip_leftD [OF z] obtain r where r: "get_record t (?sk v) = Some r" "reads_state R g r v" "?sk v \<noteq> ?gk"
      by blast
    have "rec_key (repl_record p) \<noteq> ?sk v" if "p \<in> set nps" for p
      using np [OF that] unchanged_key [OF pj] z [folded True] by metis
    with untouched r(3) have "get_record t' (?sk v) = Some r" using r(1) by simp
    with r True show ?thesis by blast
  qed
  have graph: "\<exists>r r' h. get_record t ?gk = Some r \<and> get_record t' ?gk = Some r' \<and>
      record_identity r' = record_identity r \<and> decode_graph r' = Inr h \<and> gv_status h = status \<and>
      rec_state r' = Some (status_value status)"
  proof -
    have nk: "\<forall>p\<in>set nps. rec_key (repl_record p) \<noteq> ?gk" using np reads set_zip_leftD by metis
    have "extends_records t t2" using q2 by (simp add: quiet_def)
    with gr obtain r' where r': "get_record t2 ?gk = Some r'" "record_identity r' = record_identity gr"
      by (auto simp: extends_records_def)
    from r'(1) r2(4) [of ?gk r'] nk have "(\<exists>p\<in>set gps. repl_record p = r') \<or> (gps = [] \<and> r' = q)"
      using gs g1(2) gp by (auto split: if_splits)
    then have "rec_state r' = Some (status_value status) \<and> (\<exists>h. decode_graph r' = Inr h \<and> gv_status h = status)"
    proof
      assume "gps = [] \<and> r' = q"
      moreover from this gs have "gv_status (es_graph prev) = status" "rec_state gr = Some (status_value status)"
        by (auto split: if_splits)
      ultimately show ?thesis using g1(4,5) hd(2,3) by (auto simp: decode_graph_def)
    qed (use gp in blast)
    with r' rec' gr show ?thesis by auto
  qed
  have nodes': "\<forall>(v, w)\<in>set (zip ?vs ws). \<exists>r r'. get_record t (?sk v) = Some r \<and> get_record t' (?sk v) = Some r' \<and>
      reads_state R g r' w \<and> (r' = r \<and> v = w \<or> rec_state r' = Some (status_value (nv_status w)))"
    by (rule ballI, simp only: split_paired_all prod.case, rule nodes)
  have "\<forall>p\<in>set nps. rec_key (repl_record p) \<in> state_key R g ` nv_id ` set ?vs"
  proof
    fix p assume "p \<in> set nps"
    from np [OF this] obtain v w where v: "(v, w) \<in> set (zip ?vs ws)" "rec_key (repl_record p) = ?sk v" by blast
    from set_zip_leftD [OF v(1)] v(2) show "rec_key (repl_record p) \<in> state_key R g ` nv_id ` set ?vs" by auto
  qed
  with untouched have "\<forall>j. j \<noteq> ?gk \<longrightarrow> j \<notin> state_key R g ` nv_id ` set ?vs \<longrightarrow> get_record t' j = get_record t j" by metis
  moreover have "txn_ok t'" "extends_records t t'" "t_now t' = t_now t"
    using a q2 by (simp_all add: quiet_def extends_records_def)
  ultimately show "transitioned R g ?vs ws status t t'"
    unfolding transitioned_def using graph nodes' by (intro conjI) assumption+
qed


section \<open>The refinement\<close>

lemma transitionedD:
  assumes "transitioned R g vs ws status t t'"
  shows "txn_ok t'" "extends_records t t'" "t_now t' = t_now t"
    and "\<exists>r r' h. get_record t (graph_key R g) = Some r \<and> get_record t' (graph_key R g) = Some r' \<and>
        record_identity r' = record_identity r \<and> decode_graph r' = Inr h \<and> gv_status h = status \<and>
        rec_state r' = Some (status_value status)"
    and "(v, w) \<in> set (zip vs ws) \<Longrightarrow> \<exists>r r'. get_record t (state_key R g (nv_id v)) = Some r \<and>
        get_record t' (state_key R g (nv_id v)) = Some r' \<and> reads_state R g r' w \<and>
        (r' = r \<and> v = w \<or> rec_state r' = Some (status_value (nv_status w)))"
    and "j \<noteq> graph_key R g \<Longrightarrow> j \<notin> state_key R g ` nv_id ` set vs \<Longrightarrow> get_record t' j = get_record t j"
  using assms unfolding transitioned_def by (blast, blast, blast, blast, fast, blast)

lemma same_frames_zip:
  assumes "same_frames vs ws"
  shows "v \<in> set vs \<Longrightarrow> \<exists>w. (v, w) \<in> set (zip vs ws)" and "w \<in> set ws \<Longrightarrow> \<exists>v. (v, w) \<in> set (zip vs ws)"
proof -
  have "length vs = length ws" using assms by (simp add: same_frames_def list_all2_iff)
  then show "v \<in> set vs \<Longrightarrow> \<exists>w. (v, w) \<in> set (zip vs ws)" "w \<in> set ws \<Longrightarrow> \<exists>v. (v, w) \<in> set (zip vs ws)"
    by (metis in_set_impl_in_set_zip1, metis in_set_impl_in_set_zip2)
qed

lemma transitioned_other_kind:
  assumes tr: "transitioned R g vs ws status t t'" and frames: "same_frames vs ws"
    and gk: "get_record t (graph_key R g) = Some gr" "rec_kind gr = ''task_graph''"
    and r: "get_record t' j = Some r" and knd: "rec_kind r \<noteq> ''task_graph''"
  shows "(\<exists>v w. (v, w) \<in> set (zip vs ws) \<and> j = state_key R g (nv_id v) \<and> reads_state R g r w) \<or>
    (j \<notin> state_key R g ` nv_id ` set vs \<and> get_record t j = Some r)"
proof (cases "j \<in> state_key R g ` nv_id ` set vs")
  case True
  then obtain v where v: "v \<in> set vs" "j = state_key R g (nv_id v)" by blast
  from same_frames_zip(1) [OF frames v(1)] obtain w where z: "(v, w) \<in> set (zip vs ws)" by blast
  with transitionedD(5) [OF tr z] v r show ?thesis by force
next
  case False
  from transitionedD(4) [OF tr] gk r knd have "j \<noteq> graph_key R g" by (auto simp: record_identity_def)
  with False transitionedD(6) [OF tr] r show ?thesis by simp
qed

lemma transitioned_projects:
  assumes tr: "transitioned R g vs ws status t t'" and pj: "projects R g t nodes vs" and frames: "same_frames vs ws"
    and gk: "get_record t (graph_key R g) = Some gr" "rec_kind gr = ''task_graph''" and ok: "txn_ok t"
  shows "projects R g t' nodes ws"
  unfolding projects_def
proof (intro conjI allI impI ballI)
  note pd = projectsD [OF pj] and ids = same_frames_ids [OF frames]
  show "map tn_id nodes = map nv_id ws" "distinct (map nv_id ws)" "sorted (map nv_id ws)"
    using pd(1-3) ids by simp_all
  have keep: "get_record t' (rec_key r) = get_record t (rec_key r)"
    if "get_record t (rec_key r) = Some r" "rec_kind r \<notin> {''task_graph'', ''task_node_state''}" for r
  proof (rule transitionedD(6) [OF tr])
    show "rec_key r \<noteq> graph_key R g" using that gk by auto
    show "rec_key r \<notin> state_key R g ` nv_id ` set vs"
    proof
      assume "rec_key r \<in> state_key R g ` nv_id ` set vs"
      then obtain v where v: "v \<in> set vs" "rec_key r = state_key R g (nv_id v)" by blast
      from pd(7) [OF v(1)] v(2) that(1) reads_state_key have "graph_node R g r" by fastforce
      with that(2) show False by (simp add: graph_node_def)
    qed
  qed
  show "\<exists>d\<in>set nodes. reads_definition R g r d"
    if "get_record t' (rec_key r) = Some r" "definition_record R g r" for r
  proof -
    from that(2) have "rec_kind r \<noteq> ''task_graph''" "\<not> graph_node R g r"
      by (simp_all add: definition_record_def graph_node_def)
    with transitioned_other_kind [OF tr frames gk that(1)] reads_state_key have "get_record t (rec_key r) = Some r" by blast
    with pd(4) that(2) show ?thesis by blast
  qed
  show "\<exists>r. get_record t' (definition_key R g (tn_id d)) = Some r \<and> reads_definition R g r d" if "d \<in> set nodes" for d
  proof -
    from pd(5) [OF that] obtain r where r: "get_record t (definition_key R g (tn_id d)) = Some r" "reads_definition R g r d"
      by blast
    with reads_definition_key [OF r(2)] keep [of r] show ?thesis by (auto simp: definition_record_def)
  qed
  show "\<exists>w\<in>set ws. reads_state R g r w" if "get_record t' (rec_key r) = Some r" "graph_node R g r" for r
  proof -
    from that(2) have "rec_kind r \<noteq> ''task_graph''" by (simp add: graph_node_def)
    from transitioned_other_kind [OF tr frames gk that(1) this] show ?thesis
    proof (elim disjE exE conjE)
      fix v w assume "(v, w) \<in> set (zip vs ws)" "reads_state R g r w"
      with set_zip_rightD show ?thesis by fast
    next
      assume "rec_key r \<notin> state_key R g ` nv_id ` set vs" "get_record t (rec_key r) = Some r"
      with pd(6) that(2) reads_state_key show ?thesis by blast
    qed
  qed
  show "\<exists>r. get_record t' (state_key R g (nv_id w)) = Some r \<and> reads_state R g r w" if "w \<in> set ws" for w
  proof -
    from same_frames_zip(2) [OF frames that] obtain v where z: "(v, w) \<in> set (zip vs ws)" by blast
    from transitionedD(5) [OF tr z] same_framesD [OF frames z] show ?thesis by auto
  qed
  show "\<exists>d\<in>set nodes. tn_id d = nv_id w \<and> nv_deps w = tn_deps d" if "w \<in> set ws" for w
  proof -
    from same_frames_zip(2) [OF frames that] obtain v where z: "(v, w) \<in> set (zip vs ws)" by blast
    from pd(8) [OF set_zip_leftD [OF z]] same_framesD [OF frames z] show ?thesis by auto
  qed
qed

lemma event_state_graph:
  assumes "event_state_in_txn R g t = Inr (Some s)" and "txn_ok t"
  obtains r header where "get_record t (graph_key R g) = Some r" "rec_kind r = ''task_graph''"
    "validate_graph_record R r g = Inr ()" "decode_graph r = Inr header" "gv_status (es_graph s) = gv_status header"
    "gv_id (es_graph s) = g" "projects R g t (gv_nodes (es_graph s)) (es_views s)"
    "make_graph \<lparr>tg_id = g, tg_nodes = gv_nodes (es_graph s)\<rparr> \<in> range Inr"
proof -
  from assms(1) [unfolded event_state_iff [OF assms(2)]] obtain r header where
    r: "get_record t (graph_key R g) = Some r" "validate_graph_record R r g = Inr ()"
      "decode_graph r = Inr header" and
    s: "s = \<lparr>es_graph = \<lparr>gv_id = g, gv_status = gv_status header, gv_nodes = gv_nodes (es_graph s)\<rparr>, es_views = es_views s\<rparr>" and
    p: "projects R g t (gv_nodes (es_graph s)) (es_views s)"
      "make_graph \<lparr>tg_id = g, tg_nodes = gv_nodes (es_graph s)\<rparr> \<in> range Inr" by blast
  from s have "gv_status (es_graph s) = gv_status header" "gv_id (es_graph s) = g"
    by (metis event_state.select_convs(1) graph_view.select_convs(2), metis event_state.select_convs(1) graph_view.select_convs(1))
  moreover have "rec_kind r = ''task_graph''" using r(2) by (simp add: validate_graph_record_def eres)
  ultimately show ?thesis using that r p by blast
qed

lemma validate_graph_identity:
  "record_identity r' = record_identity r \<Longrightarrow> validate_graph_record R r' g = validate_graph_record R r g"
  by (simp add: validate_graph_record_def record_identity_def)

theorem transition_refines:
  assumes run: "apply_graph_transition R prev gr ws status t = Inr (view, t')"
    and ev: "event_state_in_txn R g t = Inr (Some prev)" and gr: "get_record t (graph_key R g) = Some gr"
    and frames: "same_frames (es_views prev) ws" and canonical: "status \<notin> {READY, WAITING}"
    and ok: "txn_ok t" "log_gapless R g t"
  shows "event_state_in_txn R g t' = Inr (Some \<lparr>es_graph = (es_graph prev)\<lparr>gv_status := status\<rparr>, es_views = ws\<rparr>)"
proof -
  note tr = apply_graph_transition_records(1) [OF run ev gr frames ok]
  from ev ok(1) obtain r header where r: "get_record t (graph_key R g) = Some r" "rec_kind r = ''task_graph''"
    "validate_graph_record R r g = Inr ()" "gv_id (es_graph prev) = g"
    "projects R g t (gv_nodes (es_graph prev)) (es_views prev)"
    "make_graph \<lparr>tg_id = g, tg_nodes = gv_nodes (es_graph prev)\<rparr> \<in> range Inr"
    by (rule event_state_graph)
  note pj = transitioned_projects [OF tr r(5) frames r(1,2) ok(1)]
  from transitionedD(4) [OF tr] r(1) obtain r' h where r': "get_record t' (graph_key R g) = Some r'"
    "record_identity r' = record_identity r" "decode_graph r' = Inr h" "gv_status h = status" by auto
  have "validate_graph_record R r' g = Inr ()" using validate_graph_identity [OF r'(2)] r(3) by simp
  with r' r(4,6) pj canonical show ?thesis
    unfolding event_state_iff [OF transitionedD(1) [OF tr]]
    by (intro exI [of _ r'] exI [of _ h]) (simp add: graph_view.equality)
qed

lemma transitioned_columns:
  assumes tr: "transitioned R g vs ws status t t'" and frames: "same_frames vs ws"
    and gk: "get_record t (graph_key R g) = Some gr" "rec_kind gr = ''task_graph''"
    and c: "columns_agree t"
  shows "columns_agree t'"
  unfolding columns_agree_def
proof (intro allI impI)
  fix k r v assume r: "get_record t' k = Some r" "rec_kind r = ''task_node_state''" "decode_node r = Inr v"
  then have "rec_kind r \<noteq> ''task_graph''" by simp
  from transitioned_other_kind [OF tr frames gk r(1) this]
  show "rec_state r = Some (status_value (nv_status v))"
  proof (elim disjE exE conjE)
    fix u w assume z: "(u, w) \<in> set (zip vs ws)" "k = state_key R g (nv_id u)" "reads_state R g r w"
    from transitionedD(5) [OF tr z(1)] z(2) r(1) obtain r0 where r0: "get_record t k = Some r0"
      "r = r0 \<or> rec_state r = Some (status_value (nv_status w))" by auto
    have "nv_status v = nv_status w" using z(3) r(3) by (simp add: reads_state_def)
    with r0 r c show ?thesis by (auto simp: columns_agree_def)
  next
    assume "get_record t k = Some r"
    with c r show ?thesis by (auto simp: columns_agree_def)
  qed
qed

end
