(* ===== verification/Task_Terminal_Ops.thy ===== *)
theory Task_Terminal_Ops
  imports Task_Fence
begin

text \<open>
  The two operations that end a node, \<open>complete\<close> and \<open>fail\<close> of
  \<open>ai/persistence/_task_repository.py\<close>, with the projection of the graph that they read
  (\<open>_terminal_state_in_transaction\<close>) and the readback of a lost commit.  Both exist with a
  lease, for the worker that holds it, and without one, for the execution a node waits for;
  \<open>target\<close> is the graph and node the call is about.
\<close>

section \<open>The projection of a graph for one node\<close>

text \<open>
  Only the definitions that the status of the graph can depend on are read: of the node itself
  and of the nodes that failed or are blocked.
\<close>

definition read_state :: "repo \<Rightarrow> string \<Rightarrow> task_record \<Rightarrow> node_view res" where
  "read_state R g r =
     ebind (decode_node r) (\<lambda>v. ebind (validate_state_record R r g (nv_id v)) (\<lambda>_. Inr v))"

definition read_definition :: "repo \<Rightarrow> string \<Rightarrow> task_txn \<Rightarrow> string \<Rightarrow> task_node res" where
  "read_definition R g t i =
     ebind (of_option (ai STORAGE_INTEGRITY_ERROR) (get_record t (definition_key R g i))) (\<lambda>r.
     ebind (decode_definition r) (\<lambda>d.
     ebind (validate_definition_record R r g (tn_id d)) (\<lambda>_. Inr d)))"

definition relevant_ids :: "string \<Rightarrow> node_view list \<Rightarrow> string list" where
  "relevant_ids n states =
     sort (remdups (n # map nv_id (filter (\<lambda>v. nv_status v \<in> {FAILED, BLOCKED}) states)))"

definition with_target_deps :: "string \<Rightarrow> string list \<Rightarrow> node_view list \<Rightarrow> node_view list res" where
  "with_target_deps n ds states =
     emap (\<lambda>v. if nv_id v = n then make_view (v\<lparr>nv_deps := ds\<rparr>) else Inr v) states"

definition terminal_state :: "repo \<Rightarrow> task_record \<Rightarrow> string \<Rightarrow> string \<Rightarrow> task_txn \<Rightarrow> event_state res" where
  "terminal_state R graph_record g n t =
     ebind (decode_graph graph_record) (\<lambda>header.
     ebind (require_canonical (gv_status header)) (\<lambda>_.
     ebind (emap (read_state R g) (list_records (node_query (state_parent R g) ''task_node_state'') t)) (\<lambda>states.
       let ids = relevant_ids n states in
       ebind (emap (read_definition R g t) ids) (\<lambda>nodes.
         case map_of (zip ids nodes) n of
           None \<Rightarrow> Inl KeyError
         | Some d \<Rightarrow>
             ebind (with_target_deps n (tn_deps d) states) (\<lambda>views.
               Inr \<lparr>es_graph = header\<lparr>gv_nodes := nodes\<rparr>, es_views = views\<rparr>)))))"

section \<open>Targets\<close>

definition some_blank :: "string option \<Rightarrow> bool" where
  "some_blank s = (case s of None \<Rightarrow> True | Some x \<Rightarrow> blank x)"

definition resolve_target ::
  "task_lease option \<Rightarrow> string \<Rightarrow> string option \<Rightarrow> string option \<Rightarrow> (string \<times> string) res" where
  "resolve_target lease tenant graph node =
     (case lease of
        None \<Rightarrow>
          ensure (\<not> some_blank graph \<and> \<not> some_blank node) (ai REQUEST_FIELD_INVALID)
            (Inr (the graph, the node))
      | Some l \<Rightarrow>
          ebind (validate_lease_scope l tenant) (\<lambda>_.
            ensure (graph = None \<or> graph = Some (ls_graph l)) (ai STORAGE_INTEGRITY_ERROR)
              (ensure (node = None \<or> node = Some (ls_node l)) (ai STORAGE_INTEGRITY_ERROR)
                (Inr (ls_graph l, ls_node l)))))"

definition terminal_of ::
  "task_lease option \<Rightarrow> string \<Rightarrow> int \<Rightarrow> task_status \<Rightarrow> string option \<Rightarrow> string option \<Rightarrow> string option \<Rightarrow>
    string option \<Rightarrow> terminal_record res" where
  "terminal_of lease n fence status result error error_digest execution =
     make_terminal \<lparr>tr_node = n, tr_owner = map_option ls_owner lease, tr_fence = fence, tr_status = status,
                    tr_result = result, tr_error = error, tr_error_digest = error_digest,
                    tr_execution = execution\<rparr>"

text \<open>The fences a repeated call must still present.\<close>

definition same_fence :: "task_lease option \<Rightarrow> int option \<Rightarrow> node_view \<Rightarrow> bool" where
  "same_fence lease expected v =
     ((case lease of None \<Rightarrow> True | Some l \<Rightarrow> nv_fence v = ls_fence l) \<and>
      (case expected of None \<Rightarrow> True | Some f \<Rightarrow> nv_fence v = f))"

section \<open>Complete\<close>

definition complete_without_lease :: "node_view \<Rightarrow> string option \<Rightarrow> int option \<Rightarrow> bool" where
  "complete_without_lease v execution expected =
     (if nv_status v \<in> {WAITING, READY}
      then \<not> (nv_execution v = None \<or> execution \<noteq> nv_execution v \<or> nv_owner v \<noteq> None \<or>
              nv_expires v \<noteq> None \<or> (nv_status v = READY \<and> expected = None) \<or>
              (expected \<noteq> None \<and> Some (nv_fence v) \<noteq> expected))
      else if nv_status v = RUNNING \<and> expected \<noteq> None
      then \<not> (nv_execution v = None \<or> execution \<noteq> nv_execution v \<or> Some (nv_fence v) \<noteq> expected \<or>
              nv_owner v = None \<or> nv_expires v = None)
      else if nv_status v = RECOVERY_REQUIRED
      then \<not> (expected \<noteq> Some (nv_fence v) \<or> nv_execution v = None \<or> execution \<noteq> nv_execution v)
      else False)"

definition terminal_execution ::
  "task_lease option \<Rightarrow> bool \<Rightarrow> node_view \<Rightarrow> string option \<Rightarrow> int \<Rightarrow> string option res" where
  "terminal_execution lease allowed v execution now =
     (case lease of
        None \<Rightarrow> ensure allowed (ai TASK_FENCE_STALE) (Inr (nv_execution v))
      | Some l \<Rightarrow> ebind (require_live_lease v l now) (\<lambda>_. resolve_execution (nv_execution v) execution))"

definition succeeded_view :: "node_view \<Rightarrow> string \<Rightarrow> string option \<Rightarrow> node_view" where
  "succeeded_view v result execution =
     v\<lparr>nv_status := SUCCEEDED, nv_owner := None, nv_expires := None, nv_result := Some result,
       nv_error := None, nv_error_digest := None, nv_execution := execution, nv_next_attempt := None,
       nv_occupies := False\<rparr>"

definition complete_replay ::
  "task_lease option \<Rightarrow> int option \<Rightarrow> string option \<Rightarrow> string \<Rightarrow> event_state \<Rightarrow> result_record option \<Rightarrow>
    string \<Rightarrow> string \<Rightarrow> bool \<Rightarrow> node_view \<Rightarrow> terminal_record res" where
  "complete_replay lease expected execution result prev current_result g n expanded v =
     ensure (same_fence lease expected v) (ai TASK_FENCE_STALE)
       (ensure (nv_status v = SUCCEEDED) (ai TASK_TERMINAL_CONFLICT)
         (ensure (\<not> (nv_result v \<noteq> Some result \<or> (execution \<noteq> None \<and> nv_execution v \<noteq> execution)))
            (ai TASK_RESULT_CONFLICT)
           (ebind (of_option (ai STORAGE_INTEGRITY_ERROR) current_result) (\<lambda>current.
              ensure (Some (rr_execution current) = nv_execution v) (ai TASK_RESULT_CONFLICT)
                (ebind
                  (if expanded
                   then ebind (of_option RuntimeError (List.find (\<lambda>d. tn_id d = n) (gv_nodes (es_graph prev))))
                     (\<lambda>source. ensure (tn_expander source \<noteq> None)
                        (expansion_error g n ''source_has_no_expander'' None) (Inr ()))
                   else Inr ())
                  (\<lambda>_. terminal_of lease n (nv_fence v) SUCCEEDED (Some result) None None (nv_execution v)))))))"

text \<open>The views of the nodes an expansion adds, in the order of the graph.\<close>

definition added_view :: "string \<Rightarrow> task_node \<Rightarrow> task_status \<Rightarrow> node_view res" where
  "added_view g d status =
     make_view \<lparr>nv_graph = g, nv_id = tn_id d, nv_deps = tn_deps d, nv_status = status, nv_owner = None,
       nv_fence = 0, nv_expires = None, nv_result = None,
       nv_error = (if status = BLOCKED then Some (code_value TASK_DEPENDENCY_FAILED) else None),
       nv_error_digest = None, nv_execution = None, nv_next_attempt = None, nv_occupies = False,
       nv_origin = None, nv_details = []\<rparr>"

definition add_node ::
  "string \<Rightarrow> task_node list \<Rightarrow> string list \<Rightarrow> string \<Rightarrow> (string \<times> node_view) list \<Rightarrow> (string \<times> node_view) list res" where
  "add_node g next_nodes added_ids i views =
     (if i \<notin> set added_ids then Inr views
      else
        ebind (of_option KeyError (map_of (rev (map (\<lambda>d. (tn_id d, d)) next_nodes)) i)) (\<lambda>d.
        ebind (dependency_status d (\<lambda>x. map_option nv_status (map_of views x))) (\<lambda>status.
        ebind (added_view g d (if tn_deps d \<noteq> [] then PENDING else status)) (\<lambda>v.
          Inr (AList.update i v views)))))"

definition expand_views ::
  "string \<Rightarrow> task_node list \<Rightarrow> task_node list \<Rightarrow> (string \<times> node_view) list \<Rightarrow> (string \<times> node_view) list res" where
  "expand_views g next_nodes added views =
     (if added = [] then Inr views
      else
        ebind (make_graph \<lparr>tg_id = g, tg_nodes = next_nodes\<rparr>) (\<lambda>graph.
        ebind (topological_order (tg_nodes graph)) (\<lambda>order.
          efold (add_node g next_nodes (map tn_id added)) order views)))"

definition views_dict :: "node_view list \<Rightarrow> (string \<times> node_view) list" where
  "views_dict views = fold (\<lambda>v. AList.update (nv_id v) v) views []"

definition added_records :: "repo \<Rightarrow> string \<Rightarrow> (string \<times> node_view) list \<Rightarrow> task_node list \<Rightarrow> task_record list res" where
  "added_records R g views added =
     ebind (emap (\<lambda>d. ebind (of_option KeyError (map_of views (tn_id d))) (\<lambda>v.
        Inr [project_record R ''task_node_definition'' (pair_ident g (tn_id d)) (Definition d) None
               (Some (definition_parent R g)) None,
             project_record R ''task_node_state'' (pair_ident g (tn_id d)) (Node v) None
               (Some (state_parent R g)) (Some (status_value (nv_status v)))])) added)
       (\<lambda>rs. Inr (concat rs))"

definition graph_replacements ::
  "repo \<Rightarrow> graph_view \<Rightarrow> task_record \<Rightarrow> task_status \<Rightarrow> domain_value record_replacement list res" where
  "graph_replacements R graph guarded status =
     (if status \<noteq> gv_status graph \<or> rec_state guarded \<noteq> Some (status_value status)
      then ebind (projected_record R guarded (Graph (graph\<lparr>gv_status := status\<rparr>))) (\<lambda>c.
             Inr [\<lparr>repl_record = c, repl_expected = rec_revision guarded\<rparr>])
      else Inr [])"

definition current_result_of ::
  "repo \<Rightarrow> string \<Rightarrow> string \<Rightarrow> node_view \<Rightarrow> task_txn \<Rightarrow> result_record option res" where
  "current_result_of R g n node t =
     (case get_record t (result_key R g n) of
        None \<Rightarrow> Inr None
      | Some r \<Rightarrow>
          ebind (validate_result_record R r g n) (\<lambda>_.
          ebind (decode_result r) (\<lambda>v.
            ensure (\<not> (rr_graph v \<noteq> g \<or> rr_node v \<noteq> n \<or> Some (rr_digest v) \<noteq> nv_result node \<or>
                     Some (rr_execution v) \<noteq> nv_execution node))
              (ai STORAGE_INTEGRITY_ERROR) (Inr (Some v)))))"


text \<open>The graph after the completion: its nodes, their views and its status.\<close>

definition completed_state ::
  "string \<Rightarrow> event_state \<Rightarrow> bool \<Rightarrow> task_node list \<Rightarrow> node_view \<Rightarrow> event_state res" where
  "completed_state g prev expanded added source =
     (let next_nodes = sort_key tn_id (gv_nodes (es_graph prev) @ added) in
      ebind (expand_views g next_nodes added
               (AList.update (nv_id source) source (views_dict (es_views prev)))) (\<lambda>by_id.
        let views = map snd by_id in
        ebind (if expanded then isolated_status views next_nodes
               else aggregate_status views (policy_of next_nodes)) (\<lambda>status.
          Inr \<lparr>es_graph = \<lparr>gv_id = g, gv_status = status, gv_nodes = next_nodes\<rparr>, es_views = views\<rparr>)))"

text \<open>The writes of a completion, in the order of the code.\<close>

definition write_completion ::
  "repo \<Rightarrow> string \<Rightarrow> string \<Rightarrow> event_state \<Rightarrow> event_state \<Rightarrow> task_node list \<Rightarrow> bool \<Rightarrow> node_view \<Rightarrow>
    node_view \<Rightarrow> task_record \<Rightarrow> task_record \<Rightarrow> string \<Rightarrow> unit task_action" where
  "write_completion R g n prev after added has_result node source graph_record node_record result t =
     ebind (completion_drafts prev after n (map tn_id added)) (\<lambda>drafts.
     ebind (guard_record (graph_key R g) (rec_revision graph_record) t) (\<lambda>(guarded, t1).
     ebind (of_option Task_event_append_conflict guarded) (\<lambda>guarded_graph.
     ebind (graph_replacements R (es_graph prev) guarded_graph (gv_status (es_graph after))) (\<lambda>replacements.
     ensure (\<not> has_result) (ai STORAGE_INTEGRITY_ERROR)
       (ebind (of_option (ai STORAGE_INTEGRITY_ERROR) (nv_execution source)) (\<lambda>execution.
        ebind (make_result \<lparr>rr_graph = g, rr_node = n, rr_digest = result, rr_execution = execution\<rparr>) (\<lambda>value.
        ebind (if added = [] then Inr ((), t1)
               else ebind (added_records R g (map (\<lambda>v. (nv_id v, v)) (es_views after)) added)
                      (\<lambda>rs. insert_records rs t1)) (\<lambda>(_, t2).
        ebind (insert_record
                 (project_record R ''task_result'' (pair_ident g n) (Result value) (Some (result_scope R g))
                    (Some (result_parent R g)) None) t2) (\<lambda>(_, t3).
        ebind (update_node R node source node_record t3) (\<lambda>(_, t4).
        ebind (replace_all replacements t4) (\<lambda>(_, t5).
          append_events (rp_sha R) (rp_ns R) (rp_tenant R) (rp_domain R) g (graph_key R g) drafts True t5)))))))))))"

definition complete_txn ::
  "repo \<Rightarrow> task_lease option \<Rightarrow> string \<Rightarrow> string \<Rightarrow> string option \<Rightarrow> string \<Rightarrow> task_node list \<Rightarrow> int option \<Rightarrow>
    terminal_record task_action" where
  "complete_txn R lease g n execution result expanded expected t =
     (let stale = ai TASK_FENCE_STALE in
      ebind (of_option stale (get_record t (graph_key R g))) (\<lambda>graph_record.
      ebind (of_option stale (get_record t (state_key R g n))) (\<lambda>node_record.
      ebind (validate_graph_record R graph_record g) (\<lambda>_.
      ebind (validate_state_record R node_record g n) (\<lambda>_.
      ebind (if expanded \<noteq> [] then event_state_in_txn R g t
             else ebind (terminal_state R graph_record g n t) (\<lambda>s. Inr (Some s))) (\<lambda>state.
      ebind (of_option stale state) (\<lambda>prev.
      ebind (of_option stale (find_view (es_views prev) n)) (\<lambda>node.
      ebind (current_result_of R g n node t) (\<lambda>current_result.
        if terminal (nv_status node)
        then ebind (complete_replay lease expected execution result prev current_result g n (expanded \<noteq> []) node)
               (\<lambda>r. Inr (r, t))
        else
          ebind (terminal_execution lease (complete_without_lease node execution expected) node execution (t_now t))
            (\<lambda>resolved.
          ebind (if expanded = [] then Inr []
                 else ebind (graph_limits R g t) (\<lambda>limits.
                      ebind (make_graph \<lparr>tg_id = g, tg_nodes = gv_nodes (es_graph prev)\<rparr>) (\<lambda>graph.
                        validate_expansion graph n expanded limits))) (\<lambda>added.
          ebind (make_view (succeeded_view node result resolved)) (\<lambda>source.
          ebind (completed_state g prev (expanded \<noteq> []) added source) (\<lambda>after.
          ebind (write_completion R g n prev after added (current_result \<noteq> None) node source
                   graph_record node_record result t) (\<lambda>(_, t').
          ebind (terminal_of lease n (nv_fence source) SUCCEEDED (Some result) None None resolved) (\<lambda>r.
            Inr (r, t'))))))))))))))))"

section \<open>Readback of a lost commit\<close>

definition lost_commit :: "exc \<Rightarrow> string \<Rightarrow> string \<Rightarrow> exc" where
  "lost_commit e g n =
     (if exc_code e = Some STORAGE_COMMIT_UNKNOWN then recovery_error ''task_terminal_commit'' g n
      else ai STORAGE_CONFLICT)"

definition classify_terminal_readback ::
  "repo \<Rightarrow> task_lease \<Rightarrow> string \<Rightarrow> task_status \<Rightarrow> string option \<Rightarrow> string option \<Rightarrow> string option \<Rightarrow>
    string option \<Rightarrow> exc \<Rightarrow> int \<Rightarrow> task_store \<Rightarrow> terminal_record res" where
  "classify_terminal_readback R lease tenant status execution result error error_digest conflict now m =
     (let g = ls_graph lease; n = ls_node lease in
      ebind (require_tenant R tenant) (\<lambda>_.
      ebind (read_node R g n now m) (\<lambda>current.
        ensure (nv_fence current = ls_fence lease) (ai TASK_FENCE_STALE)
          (if nv_status current = status
           then
             ensure (\<not> (nv_result current \<noteq> result \<or> nv_error current \<noteq> error \<or>
                      nv_error_digest current \<noteq> error_digest \<or>
                      (execution \<noteq> None \<and> nv_execution current \<noteq> execution))) (ai TASK_RESULT_CONFLICT)
               (ebind
                 (if status = SUCCEEDED
                  then ebind (get_results R g [n] tenant (begin_txn now m)) (\<lambda>results.
                       case map_of results n of
                         None \<Rightarrow> Inl (ai STORAGE_INTEGRITY_ERROR)
                       | Some v \<Rightarrow>
                           ensure (Some (rr_digest v) = nv_result current) (ai STORAGE_INTEGRITY_ERROR)
                             (ensure (Some (rr_execution v) = nv_execution current)
                               (ai STORAGE_INTEGRITY_ERROR) (Inr ())))
                  else Inr ())
                 (\<lambda>_. terminal_of (Some lease) n (ls_fence lease) status result error error_digest
                        (nv_execution current)))
           else if nv_status current \<in> {SUCCEEDED, FAILED, CANCELLED, BLOCKED, RECOVERY_REQUIRED}
           then Inl (ai TASK_TERMINAL_CONFLICT)
           else if nv_owner current \<noteq> Some (ls_owner lease) then Inl (ai TASK_FENCE_STALE)
           else Inl (lost_commit conflict g n)))))"

definition complete_readback ::
  "repo \<Rightarrow> string \<Rightarrow> string \<Rightarrow> string \<Rightarrow> string option \<Rightarrow> string \<Rightarrow> exc \<Rightarrow> int \<Rightarrow> task_store \<Rightarrow>
    terminal_record res" where
  "complete_readback R g n tenant execution result e now m =
     ebind (require_tenant R tenant) (\<lambda>_.
     ebind (read_node R g n now m) (\<lambda>current.
       if nv_status current = SUCCEEDED \<and> nv_result current = Some result \<and> nv_execution current = execution
       then terminal_of None n (nv_fence current) SUCCEEDED (Some result) None None (nv_execution current)
       else Inl (lost_commit e g n)))"

definition complete ::
  "repo \<Rightarrow> task_lease option \<Rightarrow> string \<Rightarrow> string option \<Rightarrow> string \<Rightarrow> string option \<Rightarrow> string option \<Rightarrow>
    task_node list \<Rightarrow> int option \<Rightarrow> (nat \<Rightarrow> int) \<Rightarrow> (nat \<Rightarrow> task_store) \<Rightarrow> terminal_record res \<times> task_store" where
  "complete R lease tenant execution result graph node expanded expected clock world =
     (case ensure (tenant = rp_tenant R) (ai STORAGE_OWNER_MISMATCH)
             (ensure (is_sha256 result) (ai REQUEST_FIELD_INVALID)
               (resolve_target lease tenant graph node)) of
        Inl e \<Rightarrow> (Inl e, world 0)
      | Inr (g, n) \<Rightarrow>
          (case mutate_with_event_retry clock world
                  (complete_txn R lease g n execution result expanded expected) of
             (Inr r, m) \<Rightarrow> (Inr r, m)
           | (Inl e, m) \<Rightarrow>
               (if \<not> readback_code e then Inl e
                else case lease of
                    None \<Rightarrow> complete_readback R g n tenant execution result e (clock event_retry_limit) m
                  | Some l \<Rightarrow>
                      classify_terminal_readback R l tenant SUCCEEDED execution (Some result) None None e (clock event_retry_limit) m,
                m)))"

section \<open>Fail\<close>

text \<open>Error details are JSON objects: equal up to the order of their keys.\<close>

definition same_details :: "details \<Rightarrow> details \<Rightarrow> bool" where
  "same_details a b = (sort_keys (JObj a) = sort_keys (JObj b))"

record failure =
  fl_error :: string
  fl_digest :: string
  fl_origin :: string
  fl_details :: details

definition fail_without_lease :: "node_view \<Rightarrow> string option \<Rightarrow> int option \<Rightarrow> bool" where
  "fail_without_lease v execution expected =
     (case expected of
        None \<Rightarrow>
          \<not> (nv_status v \<noteq> WAITING \<or> nv_execution v = None \<or> execution \<noteq> nv_execution v \<or>
             nv_owner v \<noteq> None \<or> nv_expires v \<noteq> None)
      | Some f \<Rightarrow>
          \<not> (nv_status v \<notin> {WAITING, READY, RUNNING, RECOVERY_REQUIRED} \<or> nv_fence v \<noteq> f \<or>
             nv_execution v = None \<or> execution \<noteq> nv_execution v \<or>
             (nv_status v \<noteq> RUNNING \<and> (nv_owner v \<noteq> None \<or> nv_expires v \<noteq> None)) \<or>
             (nv_status v = RUNNING \<and> (nv_owner v = None \<or> nv_expires v = None))))"

definition same_failure :: "failure \<Rightarrow> node_view \<Rightarrow> bool" where
  "same_failure f v =
     (nv_error v = Some (fl_error f) \<and> nv_error_digest v = Some (fl_digest f) \<and>
      nv_origin v = Some (fl_origin f) \<and> same_details (nv_details v) (fl_details f))"

definition failed_view :: "node_view \<Rightarrow> failure \<Rightarrow> string option \<Rightarrow> node_view" where
  "failed_view v f execution =
     v\<lparr>nv_status := FAILED, nv_owner := None, nv_expires := None, nv_result := None,
       nv_error := Some (fl_error f), nv_error_digest := Some (fl_digest f), nv_execution := execution,
       nv_origin := Some (fl_origin f), nv_details := fl_details f, nv_next_attempt := None,
       nv_occupies := False\<rparr>"

definition fail_replay ::
  "task_lease option \<Rightarrow> int option \<Rightarrow> string option \<Rightarrow> failure \<Rightarrow> string \<Rightarrow> node_view \<Rightarrow> terminal_record res" where
  "fail_replay lease expected execution f n v =
     ensure (same_fence lease expected v) (ai TASK_FENCE_STALE)
       (ensure (nv_status v = FAILED) (ai TASK_TERMINAL_CONFLICT)
         (ensure (same_failure f v \<and> \<not> (execution \<noteq> None \<and> nv_execution v \<noteq> execution))
            (ai TASK_RESULT_CONFLICT)
           (terminal_of lease n (nv_fence v) FAILED None (Some (fl_error f)) (Some (fl_digest f)) (nv_execution v))))"

definition fail_txn ::
  "repo \<Rightarrow> task_lease option \<Rightarrow> string \<Rightarrow> string \<Rightarrow> string option \<Rightarrow> failure \<Rightarrow> int option \<Rightarrow>
    terminal_record task_action" where
  "fail_txn R lease g n execution f expected t =
     (let stale = ai TASK_FENCE_STALE in
      ebind (of_option stale (get_record t (graph_key R g))) (\<lambda>graph_record.
      ebind (of_option stale (get_record t (state_key R g n))) (\<lambda>node_record.
      ebind (validate_graph_record R graph_record g) (\<lambda>_.
      ebind (validate_state_record R node_record g n) (\<lambda>_.
      ebind (terminal_state R graph_record g n t) (\<lambda>prev.
      ebind (of_option stale (find_view (es_views prev) n)) (\<lambda>node.
        if terminal (nv_status node)
        then ebind (fail_replay lease expected execution f n node) (\<lambda>r. Inr (r, t))
        else
          ebind (terminal_execution lease (fail_without_lease node execution expected) node execution (t_now t))
            (\<lambda>resolved.
          ebind (make_view (failed_view node f resolved)) (\<lambda>value.
          ebind (guard_record (graph_key R g) (rec_revision graph_record) t) (\<lambda>(guarded, t1).
          ebind (of_option Task_event_append_conflict guarded) (\<lambda>guarded_graph.
            let views = replace_view (es_views prev) n value in
            ebind (aggregate_status views (policy_of (gv_nodes (es_graph prev)))) (\<lambda>status.
              let after = \<lparr>es_graph = \<lparr>gv_id = g, gv_status = status, gv_nodes = gv_nodes (es_graph prev)\<rparr>,
                           es_views = views\<rparr> in
              ebind (graph_replacements R (es_graph prev) guarded_graph status) (\<lambda>replacements.
              ebind (update_node R node value node_record t1) (\<lambda>(_, t2).
              ebind (replace_all replacements t2) (\<lambda>(_, t3).
              ebind (completion_drafts prev after n []) (\<lambda>drafts.
              ebind (append_events (rp_sha R) (rp_ns R) (rp_tenant R) (rp_domain R) g (graph_key R g)
                       drafts True t3) (\<lambda>(_, t4).
              ebind (terminal_of lease n (nv_fence value) FAILED None (Some (fl_error f)) (Some (fl_digest f)) resolved)
                (\<lambda>r. Inr (r, t4)))))))))))))))))))"

definition fail_readback ::
  "repo \<Rightarrow> string \<Rightarrow> string \<Rightarrow> string \<Rightarrow> string option \<Rightarrow> failure \<Rightarrow> int option \<Rightarrow> exc \<Rightarrow> int \<Rightarrow> task_store \<Rightarrow>
    terminal_record res" where
  "fail_readback R g n tenant execution f expected e now m =
     ebind (require_tenant R tenant) (\<lambda>_.
     ebind (read_node R g n now m) (\<lambda>current.
       if nv_status current = FAILED \<and> nv_execution current = execution \<and> same_failure f current \<and>
          (expected = None \<or> Some (nv_fence current) = expected)
       then terminal_of None n (nv_fence current) FAILED None (Some (fl_error f)) (Some (fl_digest f))
              (nv_execution current)
       else Inl (lost_commit e g n)))"

definition fail ::
  "repo \<Rightarrow> task_lease option \<Rightarrow> string \<Rightarrow> string option \<Rightarrow> failure \<Rightarrow> string option \<Rightarrow> string option \<Rightarrow>
    int option \<Rightarrow> (nat \<Rightarrow> int) \<Rightarrow> (nat \<Rightarrow> task_store) \<Rightarrow> terminal_record res \<times> task_store" where
  "fail R lease tenant execution f graph node expected clock world =
     (case ensure (tenant = rp_tenant R) (ai STORAGE_OWNER_MISMATCH)
             (ensure (case expected of None \<Rightarrow> True | Some x \<Rightarrow> 1 \<le> x) (ai REQUEST_FIELD_INVALID)
               (ensure (fl_origin f \<in> {''node'', ''execution''}) (ai REQUEST_FIELD_INVALID)
                 (ensure (\<not> (fl_origin f = ''execution'' \<and> fl_details f \<noteq> [])) (ai REQUEST_FIELD_INVALID)
                   (resolve_target lease tenant graph node)))) of
        Inl e \<Rightarrow> (Inl e, world 0)
      | Inr (g, n) \<Rightarrow>
          (case mutate_with_event_retry clock world (fail_txn R lease g n execution f expected) of
             (Inr r, m) \<Rightarrow> (Inr r, m)
           | (Inl e, m) \<Rightarrow>
               (if \<not> readback_code e then Inl e
                else case lease of
                    None \<Rightarrow> fail_readback R g n tenant execution f expected e (clock event_retry_limit) m
                  | Some l \<Rightarrow>
                      classify_terminal_readback R l tenant FAILED execution None (Some (fl_error f))
                        (Some (fl_digest f)) e (clock event_retry_limit) m,
                m)))"

end
