(* ===== verification/Task_Control_Ops.thy ===== *)
theory Task_Control_Ops
  imports Task_Transition Task_Terminal_Ops
begin

text \<open>
  The operations that control a graph from outside a worker, from
  \<open>ai/persistence/_task_repository.py\<close>: \<open>mark_recovery_required\<close>, \<open>recover_graph\<close>,
  \<open>requeue_recovery\<close>, \<open>scheduler_state\<close>, \<open>cancel_node\<close>, \<open>cancel_graph\<close> and
  \<open>register_cancel_request\<close>.  Each computes the next views from the projection and hands them
  to \<open>apply_graph_transition\<close>; a definition \<open>_txn\<close> is the callback in the transaction.
\<close>

section \<open>Reading back a lost commit\<close>

text \<open>A constructor that rejects the projection is an integrity error, as is a missing key.\<close>

fun values_as_integrity :: "'a res \<Rightarrow> 'a res" where
  "values_as_integrity (Inl KeyError) = Inl (ai STORAGE_INTEGRITY_ERROR)"
| "values_as_integrity (Inl ValueError) = Inl (ai STORAGE_INTEGRITY_ERROR)"
| "values_as_integrity r = r"

definition projection_read :: "repo \<Rightarrow> string \<Rightarrow> task_txn \<Rightarrow> (graph_view \<times> bool) res" where
  "projection_read R g t =
     ebind (of_option (ai STORAGE_NOT_FOUND) (get_record t (graph_key R g))) (\<lambda>r.
     ebind (validate_graph_record R r g) (\<lambda>_.
     ebind (decode_graph r) (\<lambda>header.
       ensure (gv_id header = g) (ai STORAGE_INTEGRITY_ERROR)
         (ebind (require_canonical (gv_status header)) (\<lambda>_.
          ebind (event_state_in_txn R g t) (\<lambda>s.
          ebind (of_option (ai STORAGE_NOT_FOUND) s) (\<lambda>state.
          ebind (effective_status (es_graph state) (es_views state) None) (\<lambda>status.
          ebind (make_graph_state
                   \<lparr>gs_id = gv_id (es_graph state), gs_status = status, gs_nodes = gv_nodes (es_graph state),
                    gs_views = es_views state, gs_event_seq = 0\<rparr>) (\<lambda>gs.
            Inr (\<lparr>gv_id = gs_id gs, gv_status = gs_status gs, gv_nodes = gs_nodes gs\<rparr>,
                 gv_status header = gs_status gs \<and> rec_state r = Some (status_value (gs_status gs))))))))))))"

definition projection_readback :: "repo \<Rightarrow> string \<Rightarrow> string \<Rightarrow> int \<Rightarrow> task_store \<Rightarrow> (graph_view \<times> bool) res" where
  "projection_readback R g tenant now m =
     ebind (require_tenant R tenant) (\<lambda>_. values_as_integrity (projection_read R g (begin_txn now m)))"

definition lost_node_commit :: "string \<Rightarrow> exc \<Rightarrow> string \<Rightarrow> string \<Rightarrow> exc" where
  "lost_node_commit phase e g n =
     (if exc_code e = Some STORAGE_COMMIT_UNKNOWN then recovery_error phase g n else ai STORAGE_CONFLICT)"

definition lost_graph_commit :: "string \<Rightarrow> exc \<Rightarrow> string \<Rightarrow> exc" where
  "lost_graph_commit phase e g =
     (if exc_code e = Some STORAGE_COMMIT_UNKNOWN
      then AIError STORAGE_RECOVERY_REQUIRED [(''phase'', JStr phase), (''graph_id'', JStr g)]
      else ai STORAGE_CONFLICT)"

definition definitions_dict :: "task_node list \<Rightarrow> (string \<times> task_node) list" where
  "definitions_dict nodes = rev (map (\<lambda>n. (tn_id n, n)) nodes)"

text \<open>The projection and the graph record, or what the operation raises without them.\<close>

definition projected :: "repo \<Rightarrow> string \<Rightarrow> error_code \<Rightarrow> task_txn \<Rightarrow> (event_state \<times> task_record) res" where
  "projected R g missing t =
     ebind (event_state_in_txn R g t) (\<lambda>s.
     ebind (of_option (ai missing) s) (\<lambda>prev.
     ebind (of_option (ai missing) (get_record t (graph_key R g))) (\<lambda>graph_record.
       Inr (prev, graph_record))))"

text \<open>\<open>_apply_graph_transition\<close> to the isolated status of the next views.\<close>

definition apply_isolated :: "repo \<Rightarrow> event_state \<Rightarrow> task_record \<Rightarrow> node_view list \<Rightarrow> graph_view task_action" where
  "apply_isolated R prev graph_record next_nodes t =
     ebind (isolated_status next_nodes (gv_nodes (es_graph prev))) (\<lambda>status.
       apply_graph_transition R prev graph_record next_nodes status t)"

section \<open>Mark a node for recovery\<close>

definition recovery_required_codes :: "string list" where
  "recovery_required_codes = map code_value
     [TASK_INPUT_PROJECTION_FAILED, TASK_EFFECT_UNKNOWN, TOOL_EFFECT_UNKNOWN, STORAGE_COMMIT_UNKNOWN,
      STORAGE_RECOVERY_REQUIRED, EXECUTION_START_UNKNOWN]"

definition mark_without_lease :: "node_view \<Rightarrow> string option \<Rightarrow> int option \<Rightarrow> bool" where
  "mark_without_lease v execution expected =
     (\<not> (nv_status v \<notin> {WAITING, READY, RUNNING} \<or> nv_execution v \<noteq> execution \<or>
         (nv_status v \<in> {READY, RUNNING} \<and> expected = None) \<or>
         (expected \<noteq> None \<and> Some (nv_fence v) \<noteq> expected) \<or>
         (nv_status v \<noteq> RUNNING \<and> (nv_owner v \<noteq> None \<or> nv_expires v \<noteq> None)) \<or>
         (nv_status v = RUNNING \<and> (nv_owner v = None \<or> nv_expires v = None))))"

definition marked_view :: "node_view \<Rightarrow> failure \<Rightarrow> string option \<Rightarrow> node_view" where
  "marked_view v f execution =
     v\<lparr>nv_status := RECOVERY_REQUIRED, nv_owner := None, nv_expires := None, nv_next_attempt := None,
       nv_occupies := False, nv_result := None, nv_error := Some (fl_error f),
       nv_error_digest := Some (fl_digest f), nv_execution := execution,
       nv_origin := Some (fl_origin f), nv_details := fl_details f\<rparr>"

definition mark_target ::
  "task_lease option \<Rightarrow> string \<Rightarrow> string option \<Rightarrow> string option \<Rightarrow> string option \<Rightarrow> int option \<Rightarrow>
    (string \<times> string) res" where
  "mark_target lease tenant execution graph node expected =
     (case lease of
        None \<Rightarrow>
          ensure (\<not> some_blank graph \<and> \<not> some_blank node \<and> \<not> some_blank execution)
            (ai REQUEST_FIELD_INVALID) (Inr (the graph, the node))
      | Some l \<Rightarrow>
          ebind (validate_lease_scope l tenant) (\<lambda>_.
            ensure (expected = None \<or> expected = Some (ls_fence l)) (ai TASK_FENCE_STALE)
              (ensure (graph = None \<or> graph = Some (ls_graph l)) (ai STORAGE_INTEGRITY_ERROR)
                (ensure (node = None \<or> node = Some (ls_node l)) (ai STORAGE_INTEGRITY_ERROR)
                  (Inr (ls_graph l, ls_node l))))))"

definition mark_recovery_txn ::
  "repo \<Rightarrow> task_lease option \<Rightarrow> string \<Rightarrow> string \<Rightarrow> string option \<Rightarrow> failure \<Rightarrow> int option \<Rightarrow>
    node_view task_action" where
  "mark_recovery_txn R lease g n execution f expected t =
     ebind (projected R g TASK_FENCE_STALE t) (\<lambda>(prev, graph_record).
     ebind (of_option (ai TASK_FENCE_STALE) (find_view (es_views prev) n)) (\<lambda>current.
       if nv_status current = RECOVERY_REQUIRED
       then
         ensure (same_fence lease expected current) (ai TASK_FENCE_STALE)
           (ebind (resolve_execution (nv_execution current) execution) (\<lambda>resolved.
              ensure (nv_error current = Some (fl_error f) \<and> nv_error_digest current = Some (fl_digest f) \<and>
                      nv_execution current = resolved) (ai TASK_RESULT_CONFLICT) (Inr (current, t))))
       else
         ebind (case lease of
             None \<Rightarrow> ensure (mark_without_lease current execution expected) (ai TASK_FENCE_STALE) (Inr ())
           | Some l \<Rightarrow> require_live_lease current l (t_now t)) (\<lambda>_.
         ebind (resolve_execution (nv_execution current) execution) (\<lambda>resolved.
         ebind (make_view (marked_view current f resolved)) (\<lambda>v.
         ebind (apply_isolated R prev graph_record (replace_view (es_views prev) n v) t) (\<lambda>(_, t').
           Inr (v, t')))))))"

definition mark_recovery_readback ::
  "repo \<Rightarrow> task_lease option \<Rightarrow> string \<Rightarrow> string \<Rightarrow> string \<Rightarrow> string option \<Rightarrow> failure \<Rightarrow> int option \<Rightarrow> exc \<Rightarrow>
    int \<Rightarrow> task_store \<Rightarrow> node_view res" where
  "mark_recovery_readback R lease g n tenant execution f expected e now m =
     (if \<not> readback_code e then Inl e
      else
        ebind (require_tenant R tenant) (\<lambda>_.
        ebind (read_node R g n now m) (\<lambda>current.
        ebind (projection_readback R g tenant now m) (\<lambda>(view, converged).
          if converged \<and> gv_status view = RECOVERY_REQUIRED \<and> nv_status current = RECOVERY_REQUIRED \<and>
             same_fence lease expected current \<and> nv_error current = Some (fl_error f) \<and>
             nv_error_digest current = Some (fl_digest f) \<and> nv_execution current = execution
          then Inr current
          else if (case lease of None \<Rightarrow> False | Some l \<Rightarrow> nv_fence current \<noteq> ls_fence l)
          then Inl (ai TASK_FENCE_STALE)
          else Inl (lost_node_commit ''task_recovery_required'' e g n)))))"

definition mark_recovery_required ::
  "repo \<Rightarrow> task_lease option \<Rightarrow> string \<Rightarrow> string option \<Rightarrow> failure \<Rightarrow> string option \<Rightarrow> string option \<Rightarrow>
    int option \<Rightarrow> (nat \<Rightarrow> int) \<Rightarrow> (nat \<Rightarrow> task_store) \<Rightarrow> node_view res \<times> task_store" where
  "mark_recovery_required R lease tenant execution f graph node expected clock world =
     (case ebind (require_tenant R tenant) (\<lambda>_.
             ensure (fl_error f \<in> set recovery_required_codes \<and> is_sha256 (fl_digest f)) (ai REQUEST_FIELD_INVALID)
               (ensure (fl_origin f \<in> {''node'', ''execution''}) (ai REQUEST_FIELD_INVALID)
                 (mark_target lease tenant execution graph node expected))) of
        Inl e \<Rightarrow> (Inl e, world 0)
      | Inr (g, n) \<Rightarrow>
          (case mutate_with_event_retry clock world (mark_recovery_txn R lease g n execution f expected) of
             (Inl e, m) \<Rightarrow> (mark_recovery_readback R lease g n tenant execution f expected e (clock event_retry_limit) m, m)
           | r \<Rightarrow> r))"

section \<open>Recover a graph\<close>

text \<open>A node whose claimed execution may have started without being bound stays in recovery.\<close>

definition unbound_claim :: "node_view \<Rightarrow> bool" where
  "unbound_claim v =
     (nv_error v = Some (code_value EXECUTION_START_UNKNOWN) \<and> nv_origin v = Some ''execution'' \<and>
      nv_execution v = None \<and> map_of (nv_details v) ''reason'' = Some (JStr ''claimed_execution_unbound''))"

definition cleared_view :: "node_view \<Rightarrow> node_view res" where
  "cleared_view v =
     (if nv_status v = RECOVERY_REQUIRED \<and> \<not> unbound_claim v
      then make_view (v\<lparr>nv_status := (if nv_execution v \<noteq> None then READY else PENDING), nv_owner := None,
             nv_expires := None, nv_next_attempt := (if nv_execution v \<noteq> None then nv_next_attempt v else None),
             nv_occupies := False, nv_result := None, nv_error := None, nv_error_digest := None,
             nv_origin := None, nv_details := []\<rparr>)
      else Inr v)"

definition recover_graph_txn :: "repo \<Rightarrow> string \<Rightarrow> bool \<Rightarrow> graph_view task_action" where
  "recover_graph_txn R g cancel_requested t =
     ebind (event_state_in_txn R g t) (\<lambda>s.
     ebind (of_option (ai STORAGE_NOT_FOUND) s) (\<lambda>prev.
     ebind (effective_status (es_graph prev) (es_views prev) None) (\<lambda>status.
       ensure (status = RECOVERY_REQUIRED) (ai TASK_NOT_READY)
         (ebind (of_option (ai STORAGE_NOT_FOUND) (get_record t (graph_key R g))) (\<lambda>graph_record.
            if cancel_requested then Inr (es_graph prev, t)
            else
              ebind (emap cleared_view (es_views prev)) (\<lambda>cleared.
              ebind (reconcile cleared (definitions_dict (gv_nodes (es_graph prev))) None) (\<lambda>next_nodes.
                apply_isolated R prev graph_record next_nodes t)))))))"

definition recover_graph ::
  "repo \<Rightarrow> string \<Rightarrow> string \<Rightarrow> bool \<Rightarrow> (nat \<Rightarrow> int) \<Rightarrow> (nat \<Rightarrow> task_store) \<Rightarrow> graph_view res \<times> task_store" where
  "recover_graph R g tenant cancel_requested clock world =
     (case require_tenant R tenant of
        Inl e \<Rightarrow> (Inl e, world 0)
      | Inr _ \<Rightarrow>
          (case mutate_with_event_retry clock world (recover_graph_txn R g cancel_requested) of
             (Inr r, m) \<Rightarrow> (Inr r, m)
           | (Inl e, m) \<Rightarrow>
               (if \<not> readback_code e then Inl e
                else
                  ebind (projection_readback R g tenant (clock event_retry_limit) m) (\<lambda>(view, converged).
                    if converged \<and> (gv_status view = RECOVERY_REQUIRED \<longleftrightarrow> cancel_requested) then Inr view
                    else Inl (lost_graph_commit ''task_recover'' e g)), m)))"

section \<open>Requeue one node\<close>

definition requeued_view :: "node_view \<Rightarrow> int option \<Rightarrow> node_view" where
  "requeued_view v next_attempt =
     v\<lparr>nv_status := READY, nv_owner := None, nv_expires := None, nv_result := None, nv_error := None,
       nv_error_digest := None, nv_next_attempt := next_attempt, nv_occupies := False\<rparr>"

definition requeue_recovery_txn ::
  "repo \<Rightarrow> string \<Rightarrow> string \<Rightarrow> int \<Rightarrow> string option \<Rightarrow> int option \<Rightarrow> graph_view task_action" where
  "requeue_recovery_txn R g n expected execution next_attempt t =
     ebind (projected R g STORAGE_NOT_FOUND t) (\<lambda>(prev, graph_record).
     ebind (of_option (ai STORAGE_NOT_FOUND) (find_view (es_views prev) n)) (\<lambda>selected.
       ensure (\<not> (nv_status selected \<noteq> RECOVERY_REQUIRED \<or> nv_fence selected \<noteq> expected \<or>
                nv_execution selected = None \<or>
                (execution \<noteq> None \<and> nv_execution selected \<noteq> execution))) (ai TASK_FENCE_STALE)
         (ebind (make_view (requeued_view selected next_attempt)) (\<lambda>v.
          ebind (reconcile (replace_view (es_views prev) n v) (definitions_dict (gv_nodes (es_graph prev))) None)
            (\<lambda>next_nodes. apply_isolated R prev graph_record next_nodes t)))))"

definition requeue_recovery_readback ::
  "repo \<Rightarrow> string \<Rightarrow> string \<Rightarrow> string \<Rightarrow> int \<Rightarrow> string option \<Rightarrow> int option \<Rightarrow> exc \<Rightarrow> int \<Rightarrow> task_store \<Rightarrow>
    graph_view res" where
  "requeue_recovery_readback R g n tenant expected execution next_attempt e now m =
     (if \<not> readback_code e then Inl e
      else
        ebind (projection_readback R g tenant now m) (\<lambda>(view, converged).
        ebind (if converged
               then ebind (nodes_with_definitions R g (begin_txn now m)) (\<lambda>(_, views). Inr (find_view views n))
               else Inr None) (\<lambda>current.
          case current of
            Some v \<Rightarrow>
              if nv_status v = READY \<and> nv_fence v = expected \<and> nv_execution v \<noteq> None \<and>
                 (execution = None \<or> nv_execution v = execution) \<and> nv_next_attempt v = next_attempt
              then Inr view
              else Inl (lost_node_commit ''task_requeue_recovery'' e g n)
          | None \<Rightarrow> Inl (lost_node_commit ''task_requeue_recovery'' e g n))))"

definition requeue_recovery ::
  "repo \<Rightarrow> string \<Rightarrow> string \<Rightarrow> string \<Rightarrow> int \<Rightarrow> string option \<Rightarrow> int option \<Rightarrow> (nat \<Rightarrow> int) \<Rightarrow> (nat \<Rightarrow> task_store) \<Rightarrow>
    graph_view res \<times> task_store" where
  "requeue_recovery R g n tenant expected execution next_attempt clock world =
     (case ebind (require_tenant R tenant) (\<lambda>_.
             ensure (1 \<le> expected \<and> (case execution of None \<Rightarrow> True | Some x \<Rightarrow> \<not> blank x))
               (ai REQUEST_FIELD_INVALID) (Inr ())) of
        Inl e \<Rightarrow> (Inl e, world 0)
      | Inr _ \<Rightarrow>
          (case mutate_with_event_retry clock world (requeue_recovery_txn R g n expected execution next_attempt) of
             (Inl e, m) \<Rightarrow> (requeue_recovery_readback R g n tenant expected execution next_attempt e (clock event_retry_limit) m, m)
           | r \<Rightarrow> r))"

section \<open>The state for the scheduler\<close>

definition scheduler_state_txn :: "repo \<Rightarrow> string \<Rightarrow> graph_state task_action" where
  "scheduler_state_txn R g t =
     ebind (projected R g STORAGE_NOT_FOUND t) (\<lambda>(prev, graph_record).
     ebind (reconcile (es_views prev) (definitions_dict (gv_nodes (es_graph prev))) (Some (t_now t))) (\<lambda>next_nodes.
     ebind (apply_isolated R prev graph_record next_nodes t) (\<lambda>(applied, t').
     ebind (graph_state_from_projection R t' \<lparr>es_graph = applied, es_views = next_nodes\<rparr>) (\<lambda>gs.
       Inr (gs, t')))))"

definition scheduler_state ::
  "repo \<Rightarrow> string \<Rightarrow> string \<Rightarrow> (nat \<Rightarrow> int) \<Rightarrow> (nat \<Rightarrow> task_store) \<Rightarrow> graph_state res \<times> task_store" where
  "scheduler_state R g tenant clock world =
     (case require_tenant R tenant of
        Inl e \<Rightarrow> (Inl e, world 0)
      | Inr _ \<Rightarrow>
          (case mutate_with_event_retry clock world (scheduler_state_txn R g) of
             (Inr r, m) \<Rightarrow> (Inr r, m)
           | (Inl e, m) \<Rightarrow>
               (if \<not> readback_code e then Inl e
                else
                  ebind (projection_readback R g tenant (clock event_retry_limit) m) (\<lambda>(_, converged).
                    if converged
                    then ebind (graph_state_in_txn R g (begin_txn (clock event_retry_limit) m)) (of_option (ai STORAGE_INTEGRITY_ERROR))
                    else Inl (lost_graph_commit ''task_reconcile'' e g)), m)))"

section \<open>Cancel a node\<close>

definition cancel_digest :: "repo \<Rightarrow> string \<Rightarrow> string \<Rightarrow> error_code \<Rightarrow> string" where
  "cancel_digest R g n c =
     canonical_sha256 (rp_sha R)
       (JObj [(''graph_id'', JStr g), (''node_id'', JStr n), (''code'', JStr (code_value c))])"

definition unconfirmed_view :: "repo \<Rightarrow> string \<Rightarrow> node_view \<Rightarrow> node_view" where
  "unconfirmed_view R g v =
     v\<lparr>nv_status := RECOVERY_REQUIRED, nv_owner := None, nv_expires := None, nv_next_attempt := None,
       nv_occupies := False, nv_result := None, nv_error := Some (code_value TASK_EFFECT_UNKNOWN),
       nv_error_digest := Some (cancel_digest R g (nv_id v) TASK_EFFECT_UNKNOWN),
       nv_origin := Some ''execution'', nv_details := []\<rparr>"

definition cancelled_view :: "node_view \<Rightarrow> node_view" where
  "cancelled_view v =
     v\<lparr>nv_status := CANCELLED, nv_owner := None, nv_expires := None, nv_next_attempt := None,
       nv_occupies := False, nv_result := None, nv_error := None, nv_error_digest := None\<rparr>"

definition cancel_node_txn ::
  "repo \<Rightarrow> string \<Rightarrow> string \<Rightarrow> string \<Rightarrow> bool \<Rightarrow> int option \<Rightarrow> graph_view task_action" where
  "cancel_node_txn R g n execution confirmed expected t =
     ebind (projected R g STORAGE_NOT_FOUND t) (\<lambda>(prev, graph_record).
     ebind (of_option (ai STORAGE_NOT_FOUND) (map_of (definitions_dict (gv_nodes (es_graph prev))) n)) (\<lambda>_.
     ebind (of_option (ai STORAGE_NOT_FOUND) (find_view (es_views prev) n)) (\<lambda>current.
       ensure (nv_execution current = Some execution) (ai TASK_RESULT_CONFLICT)
         (ensure (expected = None \<or> Some (nv_fence current) = expected) (ai TASK_FENCE_STALE)
           (if terminal (nv_status current) \<or> (nv_status current = RECOVERY_REQUIRED \<and> \<not> confirmed)
            then Inr (es_graph prev, t)
            else
              ebind (if confirmed
                     then ebind (make_view (cancelled_view current)) (\<lambda>v.
                       reconcile (replace_view (es_views prev) n v)
                         (definitions_dict (gv_nodes (es_graph prev))) None)
                     else ebind (make_view (unconfirmed_view R g current)) (\<lambda>v.
                       Inr (replace_view (es_views prev) n v)))
                (\<lambda>next_nodes. apply_isolated R prev graph_record next_nodes t))))))"

definition cancel_node_readback ::
  "repo \<Rightarrow> string \<Rightarrow> string \<Rightarrow> string \<Rightarrow> int option \<Rightarrow> exc \<Rightarrow> int \<Rightarrow> task_store \<Rightarrow> graph_view res" where
  "cancel_node_readback R g n execution expected e now m =
     (if \<not> readback_code e then Inl e
      else
        ebind (graph_state_in_txn R g (begin_txn now m)) (\<lambda>s.
        ebind (of_option (ai STORAGE_INTEGRITY_ERROR) s) (\<lambda>state.
          case find_view (gs_views state) n of
            None \<Rightarrow> Inl (ai STORAGE_INTEGRITY_ERROR)
          | Some current \<Rightarrow>
              ensure (nv_execution current = Some execution) (ai STORAGE_INTEGRITY_ERROR)
                (if nv_status current \<in> {CANCELLED, RECOVERY_REQUIRED, SUCCEEDED, FAILED}
                 then
                   ensure (expected = None \<or> Some (nv_fence current) = expected) (ai TASK_FENCE_STALE)
                     (Inr \<lparr>gv_id = gs_id state, gv_status = gs_status state, gv_nodes = gs_nodes state\<rparr>)
                 else Inl (lost_node_commit ''task_node_cancel'' e g n)))))"

definition cancel_node ::
  "repo \<Rightarrow> string \<Rightarrow> string \<Rightarrow> string \<Rightarrow> string \<Rightarrow> bool \<Rightarrow> int option \<Rightarrow> (nat \<Rightarrow> int) \<Rightarrow> (nat \<Rightarrow> task_store) \<Rightarrow>
    graph_view res \<times> task_store" where
  "cancel_node R g n tenant execution confirmed expected clock world =
     (case ebind (require_tenant R tenant) (\<lambda>_.
             ensure (\<not> blank n) (ai REQUEST_FIELD_INVALID)
               (ensure (\<not> blank execution) (ai REQUEST_FIELD_INVALID)
                 (ensure (case expected of None \<Rightarrow> True | Some x \<Rightarrow> 1 \<le> x) (ai REQUEST_FIELD_INVALID) (Inr ())))) of
        Inl e \<Rightarrow> (Inl e, world 0)
      | Inr _ \<Rightarrow>
          (case mutate_with_event_retry clock world (cancel_node_txn R g n execution confirmed expected) of
             (Inl e, m) \<Rightarrow> (cancel_node_readback R g n execution expected e (clock event_retry_limit) m, m)
           | r \<Rightarrow> r))"

section \<open>Cancel a graph\<close>

text \<open>
  Nodes that never started are cancelled; a node that was claimed but has no execution may have
  started one, so it goes to recovery; nodes with an execution are cancelled one by one.
\<close>

definition cancel_graph_view :: "repo \<Rightarrow> string \<Rightarrow> (string \<times> task_node) list \<Rightarrow> node_view \<Rightarrow> node_view res" where
  "cancel_graph_view R g defs v =
     ebind (of_option (ai STORAGE_INTEGRITY_ERROR) (map_of defs (nv_id v))) (\<lambda>_.
       if nv_status v = RECOVERY_REQUIRED
       then
         if nv_execution v = None \<and> nv_origin v = Some ''node'' \<and>
            nv_error v = Some (code_value TASK_INPUT_PROJECTION_FAILED)
         then make_view (v\<lparr>nv_status := CANCELLED, nv_error := None, nv_error_digest := None,
                nv_origin := None, nv_details := []\<rparr>)
         else Inr v
       else if terminal (nv_status v) then Inr v
       else if nv_status v \<in> {PENDING, READY} \<and> nv_execution v = None
       then
         if nv_fence v = 0
         then make_view (v\<lparr>nv_status := CANCELLED, nv_owner := None, nv_expires := None,
                nv_next_attempt := None, nv_occupies := False\<rparr>)
         else make_view (v\<lparr>nv_status := RECOVERY_REQUIRED, nv_owner := None, nv_expires := None,
                nv_next_attempt := None, nv_occupies := False, nv_result := None,
                nv_error := Some (code_value EXECUTION_START_UNKNOWN),
                nv_error_digest := Some (cancel_digest R g (nv_id v) EXECUTION_START_UNKNOWN),
                nv_origin := Some ''execution'',
                nv_details := [(''phase'', JStr ''task_cancel''), (''reason'', JStr ''claimed_execution_unbound'')]\<rparr>)
       else Inr v)"

definition cancelled_status :: "task_status \<Rightarrow> node_view list \<Rightarrow> task_status" where
  "cancelled_status isolated vs =
     (if isolated \<noteq> RECOVERY_REQUIRED \<and> list_all (\<lambda>v. terminal (nv_status v)) vs \<and>
         list_ex (\<lambda>v. nv_status v = CANCELLED) vs
      then CANCELLED else isolated)"

definition cancel_graph_txn :: "repo \<Rightarrow> string \<Rightarrow> graph_view task_action" where
  "cancel_graph_txn R g t =
     ebind (projected R g STORAGE_NOT_FOUND t) (\<lambda>(prev, graph_record).
     ebind (emap (cancel_graph_view R g (definitions_dict (gv_nodes (es_graph prev)))) (es_views prev)) (\<lambda>next_nodes.
     ebind (isolated_status next_nodes (gv_nodes (es_graph prev))) (\<lambda>isolated.
       apply_graph_transition R prev graph_record next_nodes (cancelled_status isolated next_nodes) t)))"

definition cancel_graph ::
  "repo \<Rightarrow> string \<Rightarrow> string \<Rightarrow> (nat \<Rightarrow> int) \<Rightarrow> (nat \<Rightarrow> task_store) \<Rightarrow> graph_view res \<times> task_store" where
  "cancel_graph R g tenant clock world =
     (case require_tenant R tenant of
        Inl e \<Rightarrow> (Inl e, world 0)
      | Inr _ \<Rightarrow>
          (case mutate_with_event_retry clock world (cancel_graph_txn R g) of
             (Inr r, m) \<Rightarrow> (Inr r, m)
           | (Inl e, m) \<Rightarrow>
               (if \<not> readback_code e then Inl e
                else
                  ebind (projection_readback R g tenant (clock event_retry_limit) m) (\<lambda>(view, converged).
                    if converged \<and> gv_status view \<in> {CANCELLED, RECOVERY_REQUIRED} \<or>
                       gv_status view \<in> {SUCCEEDED, FAILED, BLOCKED}
                    then Inr view
                    else Inl (lost_graph_commit ''task_cancel'' e g)), m)))"

section \<open>Register a cancellation\<close>

definition register_cancel_txn :: "repo \<Rightarrow> op_input \<Rightarrow> (op_record \<times> bool) task_action" where
  "register_cancel_txn R v t =
     (let k = graph_key R (oi_resource v) in
      ebind (of_option (ai STORAGE_NOT_FOUND) (get_record t k)) (\<lambda>r.
      ebind (validate_graph_record R r (oi_resource v)) (\<lambda>_.
      ebind (guard_record k (rec_revision r) t) (\<lambda>(guarded, t1).
        ensure (guarded \<noteq> None) Task_event_append_conflict (append_operation R v t1)))))"

definition register_cancel_request ::
  "repo \<Rightarrow> op_input \<Rightarrow> (nat \<Rightarrow> int) \<Rightarrow> (nat \<Rightarrow> task_store) \<Rightarrow> (op_record \<times> bool) res \<times> task_store" where
  "register_cancel_request R v clock world =
     (case ensure (oi_tenant v = rp_tenant R) (ai STORAGE_OWNER_MISMATCH)
             (ensure (oi_resource_kind v = TASK_GRAPH \<and> oi_kind v = TASK_CANCEL \<and> oi_status v = OP_PENDING)
               (ai REQUEST_FIELD_INVALID) (Inr ())) of
        Inl e \<Rightarrow> (Inl e, world 0)
      | Inr _ \<Rightarrow> mutate_with_event_retry clock world (register_cancel_txn R v))"

end
