(* ===== verification/Task_Frames.thy ===== *)
theory Task_Frames
  imports Task_Control_Ops
begin

text \<open>
  What an operation on one graph leaves alone: the store the transaction started from, and the
  event logs of the other graphs.  The rules of \<open>framing\<close> take an operation apart along its
  text, so that each operation needs one line.
\<close>

section \<open>Rules\<close>

definition same_base :: "task_txn \<Rightarrow> task_txn \<Rightarrow> bool" where
  "same_base t t' \<longleftrightarrow>
     ov_base (t_records t') = ov_base (t_records t) \<and> ov_base (t_aliases t') = ov_base (t_aliases t) \<and>
     ov_base (t_sequences t') = ov_base (t_sequences t) \<and> ov_base (t_facts t') = ov_base (t_facts t) \<and>
     ov_base (t_operations t') = ov_base (t_operations t) \<and> t_op_streams t' = t_op_streams t \<and>
     (distinct (map fst (t_op_changes t)) \<longrightarrow> distinct (map fst (t_op_changes t')))"

definition framed :: "repo \<Rightarrow> string \<Rightarrow> task_txn \<Rightarrow> task_txn \<Rightarrow> bool" where
  "framed R g t t' \<longleftrightarrow> same_base t t' \<and>
     (\<forall>g'. g' \<noteq> g \<longrightarrow> (\<forall>i. get_fact t' (log_stream R g') i = get_fact t (log_stream R g') i) \<and>
        get_sequence t' (log_sequence R g') = get_sequence t (log_sequence R g'))"

definition yields :: "(task_txn \<Rightarrow> bool) \<Rightarrow> ('a \<times> task_txn) res \<Rightarrow> bool" where
  "yields P m \<longleftrightarrow> (\<forall>x t'. m = Inr (x, t') \<longrightarrow> P t')"

lemma framed_refl: "framed R g t t"
  by (simp add: framed_def same_base_def)

lemma framed_trans: "framed R g t t1 \<Longrightarrow> framed R g t1 t2 \<Longrightarrow> framed R g t t2"
  by (simp add: framed_def same_base_def)

lemma yields_bind:
  "yields P m \<Longrightarrow> (\<And>x t1. P t1 \<Longrightarrow> yields P (f x t1)) \<Longrightarrow> yields P (ebind m (\<lambda>(x, t1). f x t1))"
  by (auto simp: yields_def ebind_eq_Inr)

lemma yields_bind_pure: "(\<And>x. yields P (f x)) \<Longrightarrow> yields P (ebind m f)"
  by (auto simp: yields_def ebind_eq_Inr)

lemma yields_ensure: "yields P k \<Longrightarrow> yields P (ensure b e k)"
  by (auto simp: yields_def ensure_eq_Inr)

lemma yields_if: "yields P a \<Longrightarrow> yields P b \<Longrightarrow> yields P (if c then a else b)"
  by simp

lemma yields_option: "yields P a \<Longrightarrow> (\<And>x. yields P (f x)) \<Longrightarrow> yields P (case m of None \<Rightarrow> a | Some x \<Rightarrow> f x)"
  by (cases m) simp_all

lemma yields_prod: "(\<And>a b. yields P (f a b)) \<Longrightarrow> yields P (case p of (a, b) \<Rightarrow> f a b)"
  by (cases p) simp

lemma yields_prod_at: "(\<And>a b. yields P (f a b t)) \<Longrightarrow> yields P ((case p of (a, b) \<Rightarrow> f a b) t)"
  by (cases p) simp

lemma yields_Inl: "yields P (Inl e)"
  by (simp add: yields_def)

lemma yields_Inr: "P t \<Longrightarrow> yields P (Inr (x, t))"
  by (simp add: yields_def)

section \<open>Primitives\<close>

lemma same_base_put: "same_base t (put_record k r t)"
  by (simp add: same_base_def put_record_def)

lemma framed_records:
  "same_base t t' \<Longrightarrow> t_facts t' = t_facts t \<Longrightarrow> t_sequences t' = t_sequences t \<Longrightarrow> framed R g t t'"
  by (simp add: framed_def get_fact_def get_sequence_def)

lemma framed_put: "framed R g t (put_record k r t)"
  by (rule framed_records) (simp_all add: same_base_put)

lemma framed_put_all: "framed R g t (fold (\<lambda>r. put_record (rec_key r) r) rs t)"
proof (induction rs arbitrary: t)
  case (Cons r rs)
  show ?case using framed_trans [OF framed_put Cons.IH] by simp
qed (simp add: framed_refl)

lemma yields_trans: "framed R g t t1 \<Longrightarrow> yields (framed R g t1) m \<Longrightarrow> yields (framed R g t) m"
  by (auto simp: yields_def intro: framed_trans)

lemma guard_framed: "framed R g t t1 \<Longrightarrow> yields (framed R g t) (guard_record k e t1)"
proof (erule yields_trans, unfold yields_def, intro allI impI)
  fix x t' assume run: "guard_record k e t1 = Inr (x, t')"
  show "framed R g t1 t'"
  proof (cases x)
    case None
    with guard_record_None run show ?thesis by (blast intro: framed_refl)
  next
    case (Some r)
    from run [unfolded Some] show ?thesis by (cases rule: guard_record_eq) (simp_all add: framed_refl framed_put)
  qed
qed

lemma insert_records_framed: "framed R g t t1 \<Longrightarrow> yields (framed R g t) (insert_records rs t1)"
  by (erule yields_trans) (auto simp: yields_def dest!: insert_records_eq(3) intro: framed_put_all)

lemma insert_record_framed: "framed R g t t1 \<Longrightarrow> yields (framed R g t) (insert_record r t1)"
  by (simp add: insert_record_def insert_records_framed)

lemma replace_record_framed: "framed R g t t1 \<Longrightarrow> yields (framed R g t) (replace_record r e t1)"
proof (erule yields_trans, unfold yields_def, intro allI impI)
  fix x t' assume "replace_record r e t1 = Inr (x, t')"
  then show "framed R g t1 t'"
    by (cases x) (auto simp: replace_record_True intro: framed_put framed_refl dest: replace_record_False)
qed

lemma replace_checked_framed: "framed R g t t1 \<Longrightarrow> yields (framed R g t) (replace_checked r e t1)"
  by (erule yields_trans) (auto simp: yields_def replace_checked_Inr replace_record_True intro: framed_put)

lemma replace_all_framed: "framed R g t t1 \<Longrightarrow> yields (framed R g t) (replace_all ps t1)"
  by (erule yields_trans)
    (auto simp: yields_def replace_all_def framed_refl dest!: replace_records_effect(3) intro: framed_put_all
      split: if_splits prod.splits sum.splits)

lemma transition_framed: "framed R g t t1 \<Longrightarrow> yields (framed R g t) (transition_record_lease clock k e tr t1)"
proof (erule yields_trans, unfold yields_def, intro allI impI)
  fix x t' assume run: "transition_record_lease clock k e tr t1 = Inr (x, t')"
  show "framed R g t1 t'"
  proof (cases x)
    case None
    with transition_record_lease_None run show ?thesis by (blast intro: framed_refl)
  next
    case (Some r)
    with transition_record_lease_Some [OF run [unfolded Some]] show ?thesis by (blast intro: framed_put)
  qed
qed

lemma log_keys_distinct:
  assumes "collision_free (rp_sha R)" and "g' \<noteq> g"
  shows "log_stream R g' \<noteq> log_stream R g" and "log_sequence R g' \<noteq> log_sequence R g"
  using assms by (simp_all add: log_stream_def log_sequence_def event_stream_def event_sequence_def)

lemma framed_sequence:
  "(\<And>g'. g' \<noteq> g \<Longrightarrow> log_sequence R g' \<noteq> k) \<Longrightarrow> framed R g t (put_sequence k n t)"
  by (auto simp: framed_def same_base_def put_sequence_def get_fact_def get_sequence_def)

lemma insert_facts_other:
  assumes "insert_facts fs t = Inr (u, t')" and "\<forall>f\<in>set fs. fact_stream f = st"
  shows "same_base t t' \<and> t_sequences t' = t_sequences t \<and> (\<forall>s i. s \<noteq> st \<longrightarrow> get_fact t' s i = get_fact t s i)"
  using assms
proof (induction fs arbitrary: t)
  case (Cons f fs)
  from Cons.prems(1) obtain t1 where t1: "insert_fact f t = Inr ((), t1)" "insert_facts fs t1 = Inr (u, t')"
    by (auto simp: insert_facts_Cons)
  from t1(1) have t1': "t1 = t\<lparr>t_facts := ov_set (fact_key f) f (t_facts t)\<rparr>" by (simp add: insert_fact_eq)
  with Cons.prems(2) have "same_base t t1 \<and> t_sequences t1 = t_sequences t \<and>
      (\<forall>s i. s \<noteq> st \<longrightarrow> get_fact t1 s i = get_fact t s i)"
    by (simp add: same_base_def get_fact_def fact_key_def)
  with Cons.IH [OF t1(2)] Cons.prems(2) show ?case by (simp add: same_base_def)
qed (simp add: same_base_def)

lemma append_framed:
  assumes "collision_free (rp_sha R)" and "framed R g t t1"
  shows "yields (framed R g t)
    (append_events (rp_sha R) (rp_ns R) (rp_tenant R) (rp_domain R) g gk drafts True t1)"
proof (rule yields_trans [OF assms(2)], unfold yields_def, intro allI impI)
  fix x t' assume run: "append_events (rp_sha R) (rp_ns R) (rp_tenant R) (rp_domain R) g gk drafts True t1 = Inr (x, t')"
  note keys = log_keys_distinct [OF assms(1)]
  show "framed R g t1 t'"
  proof (cases "drafts = []")
    case True
    with run show ?thesis by (simp add: append_events_def framed_refl)
  next
    case False
    with run obtain n t2 events where t2: "t2 = put_sequence (log_sequence R g) n t1" and
      fs: "insert_facts (map (event_fact (log_stream R g) gk) events) t2 = Inr (x, t')"
      by (auto simp: append_events_def eres reserve_sequence_eq log_sequence_def log_stream_def)
    have "framed R g t1 t2" unfolding t2 using keys(2) by (rule framed_sequence)
    moreover from insert_facts_other [OF fs, of "log_stream R g"] keys(1) have "framed R g t2 t'"
      by (auto simp: event_fact_def framed_def get_sequence_def)
    ultimately show ?thesis by (rule framed_trans)
  qed
qed

lemma append_guarded_framed:
  assumes "collision_free (rp_sha R)" and "framed R g t t1"
  shows "yields (framed R g t)
    (append_events (rp_sha R) (rp_ns R) (rp_tenant R) (rp_domain R) g gk drafts guarded t1)"
proof (cases "guarded \<or> drafts = []")
  case True
  then have "append_events (rp_sha R) (rp_ns R) (rp_tenant R) (rp_domain R) g gk drafts guarded t1 =
      append_events (rp_sha R) (rp_ns R) (rp_tenant R) (rp_domain R) g gk drafts True t1"
    by (cases guarded) (simp_all add: append_events_def)
  with append_framed [OF assms] show ?thesis by simp
next
  case False
  show ?thesis
  proof (unfold yields_def, intro allI impI)
    fix x t' assume "append_events (rp_sha R) (rp_ns R) (rp_tenant R) (rp_domain R) g gk drafts guarded t1 = Inr (x, t')"
    with False obtain q t2 where "guard_event_owner gk STORAGE_INTEGRITY_ERROR t1 = Inr (q, t2)" and
      app: "append_events (rp_sha R) (rp_ns R) (rp_tenant R) (rp_domain R) g gk drafts True t2 = Inr (x, t')"
      by (auto simp: append_events_def ebind_eq_Inr)
    then obtain e where "guard_record gk e t1 = Inr (Some q, t2)"
      unfolding guard_event_owner_def by (simp only: eres chain) blast
    with guard_framed [OF assms(2), of gk e] have "framed R g t t2" by (auto simp: yields_def)
    from append_framed [OF assms(1) this] app show "framed R g t t'" by (auto simp: yields_def)
  qed
qed

lemma guard_owner_framed: "framed R g t t1 \<Longrightarrow> yields (framed R g t) (guard_event_owner gk missing t1)"
  unfolding guard_event_owner_def by (intro yields_bind yields_bind_pure yields_Inr guard_framed)

lemma reserve_operation_framed:
  assumes "collision_free (rp_sha R)"
  shows "framed R g t t1 \<Longrightarrow> yields (framed R g t) (reserve_operation R v t1)"
proof (erule yields_trans, unfold yields_def, intro allI impI)
  fix x t' assume "reserve_operation R v t1 = Inr (x, t')"
  then show "framed R g t1 t'"
    by (auto simp: reserve_operation_def eres next_sequence_def Let_def framed_refl assms log_sequence_def
        event_sequence_def intro!: framed_sequence split: option.splits)
qed

lemma put_operation_framed: "framed R g t t1 \<Longrightarrow> yields (framed R g t) (put_operation R v n t1)"
  by (erule yields_trans)
    (auto simp: yields_def put_operation_def insert_operation_eq set_operation_at_def framed_def same_base_def
      get_fact_def get_sequence_def distinct_update)

lemma append_operation_framed:
  "collision_free (rp_sha R) \<Longrightarrow> framed R g t t1 \<Longrightarrow> yields (framed R g t) (append_operation R v t1)"
  unfolding append_operation_def
  by (intro yields_bind yields_bind_pure yields_prod yields_prod_at yields_if yields_Inr reserve_operation_framed put_operation_framed)

text \<open>The order matters: a step that returns a transaction is tried before one that does not.\<close>

lemmas framing = guard_framed guard_owner_framed insert_records_framed insert_record_framed replace_record_framed
  replace_checked_framed replace_all_framed transition_framed append_guarded_framed append_operation_framed
  yields_ensure yields_if yields_option yields_prod yields_prod_at yields_Inl yields_Inr yields_bind yields_bind_pure framed_refl

section \<open>The operations\<close>

lemma update_node_framed: "framed R g t t1 \<Longrightarrow> yields (framed R g t) (update_node R v w r t1)"
  unfolding update_node_def by (intro framing)

lemma commit_node_change_framed:
  assumes "collision_free (rp_sha R)"
  shows "framed R g t t1 \<Longrightarrow> yields (framed R g t) (commit_node_change R g gr v w r t1)"
  unfolding commit_node_change_def by (intro framing update_node_framed assms)

lemma apply_graph_transition_framed:
  assumes "collision_free (rp_sha R)" and "gv_id (es_graph prev) = g"
  shows "framed R g t t1 \<Longrightarrow> yields (framed R g t) (apply_graph_transition R prev gr ws status t1)"
  unfolding apply_graph_transition_def Let_def assms(2) by (intro framing assms(1))

lemma claim_framed:
  assumes "collision_free (rp_sha R)"
  shows "yields (framed R g t) (claim_txn R g n tenant owner seconds t)"
  unfolding claim_txn_def Let_def by (intro framing commit_node_change_framed assms)

lemma renew_framed: "yields (framed R (ls_graph lease) t) (renew_txn R lease seconds clock t)"
  unfolding renew_txn_def Let_def by (intro framing)

lemma bind_execution_framed:
  assumes "collision_free (rp_sha R)"
  shows "yields (framed R (ls_graph lease) t) (bind_execution_txn R lease execution t)"
  unfolding bind_execution_txn_def Let_def by (intro framing commit_node_change_framed assms)

lemma handoff_framed:
  assumes "collision_free (rp_sha R)"
  shows "yields (framed R (ls_graph lease) t) (handoff_txn R lease execution occupies t)"
  unfolding handoff_txn_def Let_def by (intro framing commit_node_change_framed assms)

lemma publish_prepared_framed: "yields (framed R (ls_graph lease) t) (publish_prepared_txn R lease p t)"
  unfolding publish_prepared_txn_def Let_def by (intro framing)

lemma write_completion_framed:
  assumes "collision_free (rp_sha R)"
  shows "framed R g t t1 \<Longrightarrow>
    yields (framed R g t) (write_completion R g n prev after added has_result v w gr nr result t1)"
  unfolding write_completion_def Let_def by (intro framing update_node_framed assms)

lemma complete_framed:
  assumes "collision_free (rp_sha R)"
  shows "yields (framed R g t) (complete_txn R lease g n execution result expanded expected t)"
  unfolding complete_txn_def Let_def by (intro framing write_completion_framed assms)

lemma fail_framed:
  assumes "collision_free (rp_sha R)"
  shows "yields (framed R g t) (fail_txn R lease g n execution f expected t)"
  unfolding fail_txn_def Let_def by (intro framing update_node_framed assms)

lemma register_cancel_framed:
  assumes "collision_free (rp_sha R)"
  shows "yields (framed R (oi_resource v) t) (register_cancel_txn R v t)"
  unfolding register_cancel_txn_def Let_def by (intro framing assms)

text \<open>The operations on a projection need its graph to be the one asked for.\<close>

lemma event_state_id: "event_state_in_txn R g t = Inr (Some s) \<Longrightarrow> gv_id (es_graph s) = g"
  by (auto simp: event_state_in_txn_def eres split: option.splits)

lemma yields_event_state:
  assumes "\<And>prev. event_state_in_txn R g t = Inr (Some prev) \<Longrightarrow> yields P (f prev)"
  shows "yields P (ebind (event_state_in_txn R g t) (\<lambda>s. ebind (of_option e s) f))"
  using assms by (auto simp: yields_def eres)

lemma yields_projected:
  assumes "\<And>prev gr. event_state_in_txn R g t = Inr (Some prev) \<Longrightarrow> yields P (f prev gr)"
  shows "yields P (ebind (projected R g missing t) (\<lambda>(prev, gr). f prev gr))"
  using assms by (auto simp: yields_def projected_def eres)

lemma apply_isolated_framed:
  assumes "collision_free (rp_sha R)" and "gv_id (es_graph prev) = g"
  shows "framed R g t t1 \<Longrightarrow> yields (framed R g t) (apply_isolated R prev gr ws t1)"
  unfolding apply_isolated_def by (intro framing apply_graph_transition_framed assms)

lemma requeue_retry_framed:
  assumes "collision_free (rp_sha R)"
  shows "yields (framed R (ls_graph lease) t) (requeue_retry_txn R lease execution next_attempt t)"
  unfolding requeue_retry_txn_def Let_def
  by (rule yields_event_state) (intro framing apply_graph_transition_framed assms event_state_id)

lemma requeue_waiting_framed:
  assumes "collision_free (rp_sha R)"
  shows "yields (framed R g t) (requeue_waiting_txn R g n fence execution next_attempt t)"
  unfolding requeue_waiting_txn_def Let_def
  by (rule yields_event_state) (intro framing apply_graph_transition_framed assms event_state_id)

lemma mark_recovery_framed:
  assumes "collision_free (rp_sha R)"
  shows "yields (framed R g t) (mark_recovery_txn R lease g n execution f expected t)"
  unfolding mark_recovery_txn_def Let_def
  by (rule yields_projected) (intro framing apply_isolated_framed assms event_state_id)

lemma recover_graph_framed:
  assumes "collision_free (rp_sha R)"
  shows "yields (framed R g t) (recover_graph_txn R g cancel_requested t)"
  unfolding recover_graph_txn_def Let_def
  by (rule yields_event_state) (intro framing apply_isolated_framed assms event_state_id)

lemma requeue_recovery_framed:
  assumes "collision_free (rp_sha R)"
  shows "yields (framed R g t) (requeue_recovery_txn R g n expected execution next_attempt t)"
  unfolding requeue_recovery_txn_def Let_def
  by (rule yields_projected) (intro framing apply_isolated_framed assms event_state_id)

lemma scheduler_state_framed:
  assumes "collision_free (rp_sha R)"
  shows "yields (framed R g t) (scheduler_state_txn R g t)"
  unfolding scheduler_state_txn_def Let_def
  by (rule yields_projected) (intro framing apply_isolated_framed assms event_state_id)

lemma cancel_node_framed:
  assumes "collision_free (rp_sha R)"
  shows "yields (framed R g t) (cancel_node_txn R g n execution confirmed expected t)"
  unfolding cancel_node_txn_def Let_def
  by (rule yields_projected) (intro framing apply_isolated_framed assms event_state_id)

lemma cancel_graph_framed:
  assumes "collision_free (rp_sha R)"
  shows "yields (framed R g t) (cancel_graph_txn R g t)"
  unfolding cancel_graph_txn_def Let_def
  by (rule yields_projected) (intro framing apply_graph_transition_framed assms event_state_id)

end
