(* ===== verification/Task_Terminal_Facts.thy ===== *)
theory Task_Terminal_Facts
  imports Task_Terminal_Ops Task_Projection
begin

text \<open>
  What \<open>complete\<close> and \<open>fail\<close> do: which stored node they end, what they write, and that an ended
  node stays as it ended.  The projection they read has only some of the definitions;
  \<open>terminal_status_equivalence\<close> shows that the status computed from it is the one the full
  projection gives.
\<close>

section \<open>The projection\<close>

lemma read_state_Inr:
  assumes "read_state R g r = Inr v" and "get_record t (rec_key r) = Some r"
  shows "stored_view t (state_key R g (nv_id v)) = Some v" and "nv_deps v = []" and "view_ok v"
proof -
  from assms(1) have d: "decode_node r = Inr v" and k: "rec_key r = state_key R g (nv_id v)"
    by (auto simp: read_state_def eres)
  from decode_node_lease [OF d] show "nv_deps v = []" "view_ok v" by blast+
  from assms(2) d k show "stored_view t (state_key R g (nv_id v)) = Some v" by (simp add: stored_view_def)
qed

lemma terminal_state_Inr:
  assumes "terminal_state R gr g n t = Inr s"
  obtains header states nodes d where "decode_graph gr = Inr header" "gv_status header \<notin> {READY, WAITING}"
    "emap (read_state R g) (list_records (node_query (state_parent R g) ''task_node_state'') t) = Inr states"
    "emap (read_definition R g t) (relevant_ids n states) = Inr nodes"
    "map_of (zip (relevant_ids n states) nodes) n = Some d"
    "with_target_deps n (tn_deps d) states = Inr (es_views s)" "es_graph s = header\<lparr>gv_nodes := nodes\<rparr>"
proof -
  from assms obtain header states nodes where
    a: "decode_graph gr = Inr header" "require_canonical (gv_status header) = Inr ()"
      "emap (read_state R g) (list_records (node_query (state_parent R g) ''task_node_state'') t) = Inr states"
      "emap (read_definition R g t) (relevant_ids n states) = Inr nodes" and
    m: "(case map_of (zip (relevant_ids n states) nodes) n of None \<Rightarrow> Inl KeyError
       | Some d \<Rightarrow> ebind (with_target_deps n (tn_deps d) states) (\<lambda>views.
           Inr \<lparr>es_graph = header\<lparr>gv_nodes := nodes\<rparr>, es_views = views\<rparr>)) = Inr s"
    unfolding terminal_state_def Let_def by (simp only: ebind_eq_Inr unit_ex) blast
  from m obtain d views where d: "map_of (zip (relevant_ids n states) nodes) n = Some d"
      "with_target_deps n (tn_deps d) states = Inr views" "s = \<lparr>es_graph = header\<lparr>gv_nodes := nodes\<rparr>, es_views = views\<rparr>"
    by (auto simp: eres split: option.splits)
  have "gv_status header \<notin> {READY, WAITING}" using a(2) by (auto simp: require_canonical_def eres)
  with a d show ?thesis using that by simp
qed

lemma with_target_deps_Inr:
  assumes "with_target_deps n ds states = Inr views"
  shows "list_all2 (\<lambda>u v. v = (if nv_id u = n then u\<lparr>nv_deps := ds\<rparr> else u)) states views"
  using assms unfolding with_target_deps_def emap_eq_Inr
  by (rule list_all2_mono) (auto simp: make_view_Inr split: if_splits)

lemma terminal_state_views:
  assumes "terminal_state R gr g n t = Inr s" and "txn_ok t" and "v \<in> set (es_views s)"
  shows "stored_view t (state_key R g (nv_id v)) = Some (v\<lparr>nv_deps := []\<rparr>)" and "view_ok v"
proof -
  let ?q = "node_query (state_parent R g) ''task_node_state''"
  from terminal_state_Inr [OF assms(1)] obtain states and d :: task_node where
    st: "emap (read_state R g) (list_records ?q t) = Inr states" and
    w: "with_target_deps n (tn_deps d) states = Inr (es_views s)" by blast
  from list_all2_in_right [OF with_target_deps_Inr [OF w] assms(3)] obtain u where
    u: "u \<in> set states" "v = (if nv_id u = n then u\<lparr>nv_deps := tn_deps d\<rparr> else u)" by blast
  from u(1) emap_set [OF st] obtain r where r: "r \<in> set (list_records ?q t)" "read_state R g r = Inr u" by blast
  then have "get_record t (rec_key r) = Some r"
    using set_list_all_records(1) [OF assms(2), of ?q] by (simp add: node_query_def)
  note ru = read_state_Inr [OF r(2) this]
  have "v\<lparr>nv_deps := []\<rparr> = u" "nv_id v = nv_id u" "view_ok v = view_ok u"
    using u(2) ru(2) by (auto split: if_splits)
  with ru show "stored_view t (state_key R g (nv_id v)) = Some (v\<lparr>nv_deps := []\<rparr>)" "view_ok v" by simp_all
qed

section \<open>Writes\<close>

lemma graph_replace_effect:
  assumes "graph_replacements R graph q status = Inr ps" and "replace_all ps t = Inr (u, t')"
    and "rec_kind q = ''task_graph''" and "txn_ok t"
  shows "quiet t t'"
    and "get_record t j = Some r \<Longrightarrow> rec_kind r \<noteq> ''task_graph'' \<Longrightarrow> get_record t' j = Some r"
    and "get_record t j = None \<Longrightarrow> get_record t' j = None"
    and "columns_agree t \<Longrightarrow> columns_agree t'"
proof -
  consider (none) "t' = t" | (some) c old where "get_record t (rec_key c) = Some old"
      "record_identity c = record_identity old" "rec_kind c = ''task_graph''" "t' = put_record (rec_key c) c t"
  proof (cases "ps = []")
    case True
    with assms(2) none show ?thesis by (simp add: replace_all_def)
  next
    case False
    with assms(1) obtain c where c: "projected_record R q (Graph (graph\<lparr>gv_status := status\<rparr>)) = Inr c"
        and ps: "ps = [\<lparr>repl_record = c, repl_expected = rec_revision q\<rparr>]"
      by (auto simp: graph_replacements_def eres split: if_splits)
    from assms(2) False have "replace_records ps t = (Inr (), t')"
      by (auto simp: replace_all_def split: prod.splits sum.splits)
    then have "replace_record c (rec_revision q) t = Inr (True, t')"
      by (simp add: replace_record_def ps)
    then obtain old where "get_record t (rec_key c) = Some old" "record_identity c = record_identity old"
        "t' = put_record (rec_key c) c t"
      unfolding replace_record_True replacement_identity by blast
    moreover have "rec_kind c = ''task_graph''"
      using c assms(3) by (auto simp: projected_record_def project_record_def Let_def)
    ultimately show ?thesis using some by blast
  qed
  note cases = this
  from cases show "quiet t t'" by cases (auto simp: assms(4) intro: quiet_refl quiet_put)
  from cases show "get_record t' j = Some r" if "get_record t j = Some r" "rec_kind r \<noteq> ''task_graph''"
    using that by cases (auto simp: get_record_put record_identity_def)
  from cases show "get_record t' j = None" if "get_record t j = None"
    using that by cases (auto simp: get_record_put)
  from cases show "columns_agree t'" if "columns_agree t"
    using that by cases (simp_all add: columns_put column_ok_kind)
qed

lemma update_node_key:
  "update_node R node v r t = Inr (u, t') \<Longrightarrow> rec_key r = state_key R (nv_graph node) (nv_id node)"
  by (auto simp: update_node_def eres)

lemma update_node_quiet:
  assumes "update_node R node v r t = Inr (u, t')" and "view_ok v"
    and "nv_graph v = nv_graph node" and "nv_id v = nv_id node" and "txn_ok t"
  shows "quiet t t'" and "stored_view t' (state_key R (nv_graph node) (nv_id node)) = Some (v\<lparr>nv_deps := []\<rparr>)"
    and "decode_node r = Inr (node\<lparr>nv_deps := []\<rparr>)"
    and "\<exists>c. t' = put_record (state_key R (nv_graph node) (nv_id node)) c t \<and> rec_kind c = ''task_node_state'' \<and>
          decode_node c = Inr (v\<lparr>nv_deps := []\<rparr>) \<and> rec_state c = Some (status_value (nv_status v))"
proof -
  let ?k = "state_key R (nv_graph node) (nv_id node)"
  obtain c old where c: "get_record t ?k = Some old" "rec_kind c = ''task_node_state''" "rec_key c = ?k"
    "decode_node c = Inr (v\<lparr>nv_deps := []\<rparr>)" "decode_node r = Inr (node\<lparr>nv_deps := []\<rparr>)"
    "record_identity c = record_identity old" "t' = put_record ?k c t"
    "rec_state c = Some (status_value (nv_status v))"
    using update_node_effect [OF assms(1-4)] by metis
  then show "quiet t t'" "stored_view t' ?k = Some (v\<lparr>nv_deps := []\<rparr>)" "decode_node r = Inr (node\<lparr>nv_deps := []\<rparr>)"
    by (simp_all add: quiet_put assms(5) stored_view_def get_record_put)
  from c show "\<exists>c. t' = put_record ?k c t \<and> rec_kind c = ''task_node_state'' \<and>
          decode_node c = Inr (v\<lparr>nv_deps := []\<rparr>) \<and> rec_state c = Some (status_value (nv_status v))" by blast
qed


section \<open>What a completion writes\<close>

text \<open>
  \<open>node_ended R g n v w t t'\<close>: the transaction moved the stored view of the node from \<open>v\<close> to \<open>w\<close>;
  no record disappeared or changed its identity, every state of another node is as it was, and
  the log of the graph is still gapless.
\<close>

definition node_ended :: "repo \<Rightarrow> string \<Rightarrow> string \<Rightarrow> node_view \<Rightarrow> node_view \<Rightarrow> task_txn \<Rightarrow> task_txn \<Rightarrow> bool" where
  "node_ended R g n v w t t' \<longleftrightarrow>
     stored_view t (state_key R g n) = Some (v\<lparr>nv_deps := []\<rparr>) \<and>
     stored_view t' (state_key R g n) = Some (w\<lparr>nv_deps := []\<rparr>) \<and>
     extends_records t t' \<and>
     (\<forall>j r. get_record t j = Some r \<longrightarrow> rec_kind r \<noteq> ''task_graph'' \<longrightarrow> j \<noteq> state_key R g n \<longrightarrow>
        get_record t' j = Some r) \<and>
     (columns_agree t \<longrightarrow> columns_agree t') \<and>
     log_gapless R g t' \<and> txn_ok t' \<and> t_now t' = t_now t"

lemma added_records_columns:
  assumes "added_records R g views added = Inr rs" and "r \<in> set rs"
  shows "column_ok r"
proof -
  from assms obtain d v where "r = project_record R ''task_node_definition'' (pair_ident g (tn_id d)) (Definition d) None
               (Some (definition_parent R g)) None \<or>
             r = project_record R ''task_node_state'' (pair_ident g (tn_id d)) (Node v) None
               (Some (state_parent R g)) (Some (status_value (nv_status v)))"
    by (auto simp: added_records_def eres emap_set)
  then show ?thesis
  proof
    assume r: "r = project_record R ''task_node_state'' (pair_ident g (tn_id d)) (Node v) None
               (Some (state_parent R g)) (Some (status_value (nv_status v)))"
    have "nv_status u = nv_status v" if "decode_node r = Inr u" for u
      using that by (auto simp: r project_record_def Let_def decode_node_def persisted_view_def eres)
    then show ?thesis by (simp add: column_ok_def r project_record_def Let_def)
  qed (simp add: column_ok_kind project_record_def Let_def)
qed

lemma write_completion_effect:
  assumes w: "write_completion R g n prev after added has_result node source gr nr result t = Inr (u, t')"
    and gr: "get_record t (graph_key R g) = Some gr" "rec_kind gr = ''task_graph''"
    and nr: "get_record t (state_key R g n) = Some nr" "rec_kind nr = ''task_node_state''"
    and ids: "rec_key nr = state_key R g n" "nv_graph source = nv_graph node" "nv_id source = nv_id node"
    and ok: "view_ok source" "txn_ok t" "log_gapless R g t"
  shows "node_ended R g n node source t t'"
    and "\<exists>r e. get_record t (result_key R g n) = None \<and> get_record t' (result_key R g n) = Some r \<and>
      nv_execution source = Some e \<and>
      decode_result r = Inr \<lparr>rr_graph = g, rr_node = n, rr_digest = result, rr_execution = e\<rparr>"
proof -
  let ?k = "state_key R g n" and ?g = "graph_key R g" and ?rk = "result_key R g n"
  note run = w [unfolded write_completion_def, simplified ebind_eq_Inr ensure_eq_Inr of_option_eq_Inr chain]
  from run obtain drafts q t1 ps e rv t2 t3 t4 t5 where
    gd: "guard_record ?g (rec_revision gr) t = Inr (Some q, t1)" and
    ps: "graph_replacements R (es_graph prev) q (gv_status (es_graph after)) = Inr ps" and
    e: "nv_execution source = Some e" and
    val: "make_result \<lparr>rr_graph = g, rr_node = n, rr_digest = result, rr_execution = e\<rparr> = Inr rv" and
    ins: "(if added = [] then Inr ((), t1)
       else ebind (added_records R g (map (\<lambda>v. (nv_id v, v)) (es_views after)) added) (\<lambda>rs. insert_records rs t1)) = Inr ((), t2)" and
    res: "insert_record (project_record R ''task_result'' (pair_ident g n) (Result rv) (Some (result_scope R g))
        (Some (result_parent R g)) None) t2 = Inr ((), t3)" and
    up: "update_node R node source nr t3 = Inr ((), t4)" and
    rep: "replace_all ps t4 = Inr ((), t5)" and
    app: "append_events (rp_sha R) (rp_ns R) (rp_tenant R) (rp_domain R) g ?g drafts True t5 = Inr (u, t')"
    by blast
  let ?res = "project_record R ''task_result'' (pair_ident g n) (Result rv) (Some (result_scope R g))
        (Some (result_parent R g)) None"
  note g1 = quiet_guard [OF gd gr(1) ok(2)]
  have kg: "?k \<noteq> ?g" using gr nr by auto
  have q: "rec_kind q = ''task_graph''" using g1(3) gr(2) by (simp add: record_identity_def)
  note ok1 = quiet_ok [OF g1(1)]
  have q2: "quiet t1 t2" and keep2: "\<And>j r. get_record t1 j = Some r \<Longrightarrow> get_record t2 j = Some r"
    using ins ok1 quiet_insert_records insert_records_keep by (auto simp: quiet_refl eres split: if_splits)
  note ok2 = quiet_ok [OF q2]
  have ri: "insert_records [?res] t2 = Inr ((), t3)" using res by (simp add: insert_record_def)
  note q3 = quiet_insert_records [OF ri ok2]
  note ok3 = quiet_ok [OF q3]
  have rk: "rec_key ?res = ?rk" by (simp add: project_record_def result_key_def Let_def)
  have none2: "get_record t2 ?rk = None" using insert_records_eq(2) [OF ri] rk by simp
  have some3: "get_record t3 ?rk = Some ?res" using insert_records_get [OF ri] by (simp add: rk)
  have key: "state_key R (nv_graph node) (nv_id node) = ?k" using update_node_key [OF up] ids(1) by simp
  note up4 = update_node_quiet [OF up ok(1) ids(2,3) ok3, unfolded key]
  obtain c where c: "t4 = put_record ?k c t3" "rec_kind c = ''task_node_state''" "decode_node c = Inr (source\<lparr>nv_deps := []\<rparr>)"
    using up4(4) by blast
  note ok4 = quiet_ok [OF up4(1)]
  note r5 = graph_replace_effect [OF ps rep q ok4]
  note ok5 = quiet_ok [OF r5(1)]
  have q05: "quiet t t5" using g1(1) q2 q3 up4(1) r5(1) by (blast intro: quiet_trans)
  have "log_gapless R g t5" using quiet_log [OF q05] ok(3) by simp
  note app' = append_log [OF app this ok5]
  have rec': "get_record t' = get_record t5" using app' by blast
  have k1: "get_record t1 ?k = Some nr" using g1(2) nr(1) kg by simp
  have rkk: "?rk \<noteq> ?k" using none2 keep2 [OF k1] by auto
  have "get_record t4 ?rk = Some ?res" using c(1) rkk some3 by (simp add: get_record_put)
  moreover have "rec_kind ?res = ''task_result''" by (simp add: project_record_def Let_def)
  ultimately have rk5: "get_record t5 ?rk = Some ?res" using r5(2) by simp
  have "get_record t4 ?k = Some c" by (simp add: c(1) get_record_put)
  then have k5: "get_record t5 ?k = Some c" using r5(2) c(2) by simp
  have others: "get_record t' j = Some r"
    if "get_record t j = Some r" "rec_kind r \<noteq> ''task_graph''" "j \<noteq> ?k" for j r
  proof -
    from that gr have "j \<noteq> ?g" by auto
    with that(1) g1(2) have "get_record t1 j = Some r" by simp
    then have "get_record t3 j = Some r" using keep2 insert_records_keep [OF ri] by blast
    then have "get_record t4 j = Some r" using that(3) by (simp add: c(1) get_record_put)
    with r5(2) that(2) rec' show ?thesis by simp
  qed
  have st: "stored_view t ?k = Some (node\<lparr>nv_deps := []\<rparr>)" "stored_view t' ?k = Some (source\<lparr>nv_deps := []\<rparr>)"
    using nr(1) up4(3) k5 c(3) by (simp_all add: stored_view_def rec')
  have ext: "extends_records t t'" using q05 by (simp add: quiet_def extends_records_def rec')
  have now: "t_now t' = t_now t" using app' q05 by (simp add: quiet_def)
  have columns: "columns_agree t'" if "columns_agree t"
  proof -
    have "columns_agree t1" using columns_guard [OF gd gr(1) ok(2) that] .
    then have "columns_agree t2"
      using ins columns_insert added_records_columns by (auto simp: eres split: if_splits)
    then have "columns_agree t3" by (rule columns_insert [OF ri]) (simp add: column_ok_kind project_record_def Let_def)
    then have "columns_agree t4" using up4(4) by (auto intro!: columns_put simp: column_ok_def)
    with r5(4) rec' show ?thesis using columns_same by blast
  qed
  show "node_ended R g n node source t t'"
    unfolding node_ended_def using st ext others app' now columns by blast
  have none: "get_record t ?rk = None"
    using none2 keep2 g1(2) by (metis fun_upd_apply not_Some_eq)
  have "rv = \<lparr>rr_graph = g, rr_node = n, rr_digest = result, rr_execution = e\<rparr>" "make_result rv = Inr rv"
    using val by (auto simp: make_result_def eres)
  moreover have "decode_result ?res = integrity (make_result rv)"
    by (simp add: decode_result_def project_record_def Let_def)
  ultimately have "decode_result ?res = Inr \<lparr>rr_graph = g, rr_node = n, rr_digest = result, rr_execution = e\<rparr>"
    by (simp add: integrity_def)
  with none rk5 rec' e show "\<exists>r e. get_record t ?rk = None \<and> get_record t' ?rk = Some r \<and> nv_execution source = Some e \<and>
      decode_result r = Inr \<lparr>rr_graph = g, rr_node = n, rr_digest = result, rr_execution = e\<rparr>" by auto
qed


section \<open>Complete and fail\<close>

text \<open>What a call must show to end a node: the live lease, or the execution the node waits for.\<close>

definition may_end ::
  "task_lease option \<Rightarrow> bool \<Rightarrow> node_view \<Rightarrow> string option \<Rightarrow> int \<Rightarrow> string option \<Rightarrow> bool" where
  "may_end lease allowed v execution now resolved \<longleftrightarrow>
     (case lease of
        None \<Rightarrow> allowed \<and> resolved = nv_execution v
      | Some l \<Rightarrow> holds_lease v l now \<and> resolve_execution (nv_execution v) execution = Inr resolved)"

lemma terminal_execution_Inr [eres]:
  "terminal_execution lease allowed v execution now = Inr resolved \<longleftrightarrow>
    may_end lease allowed v execution now resolved"
  by (auto simp: terminal_execution_def may_end_def ebind_eq_Inr ensure_eq_Inr require_live_lease_holds unit_ex
      split: option.splits)

lemma terminal_of_Inr:
  "terminal_of lease n fence status result error error_digest execution = Inr r \<Longrightarrow>
    r = \<lparr>tr_node = n, tr_owner = map_option ls_owner lease, tr_fence = fence, tr_status = status,
         tr_result = result, tr_error = error, tr_error_digest = error_digest, tr_execution = execution\<rparr>"
  by (auto simp: terminal_of_def make_terminal_def eres)

lemma complete_replay_Inr:
  assumes "complete_replay lease expected execution result prev current g n expanded v = Inr r"
  shows "same_fence lease expected v" and "nv_status v = SUCCEEDED" and "nv_result v = Some result"
    and "execution = None \<or> nv_execution v = execution" and "tr_fence r = nv_fence v" and "tr_status r = SUCCEEDED"
    and "tr_result r = Some result" and "tr_execution r = nv_execution v"
proof -
  from assms show "same_fence lease expected v" "nv_status v = SUCCEEDED" "nv_result v = Some result"
      "execution = None \<or> nv_execution v = execution"
    unfolding complete_replay_def by (simp_all only: ensure_eq_Inr) blast+
  from assms have "terminal_of lease n (nv_fence v) SUCCEEDED (Some result) None None (nv_execution v) = Inr r"
    unfolding complete_replay_def by (simp only: ensure_eq_Inr ebind_eq_Inr) blast
  from terminal_of_Inr [OF this] show "tr_fence r = nv_fence v" "tr_status r = SUCCEEDED"
    "tr_result r = Some result" "tr_execution r = nv_execution v" by simp_all
qed

lemma complete_txn_Inr:
  assumes c: "complete_txn R lease g n execution result expanded expected t = Inr (r, t')"
    and ok: "txn_ok t" "log_gapless R g t"
  obtains (replay) v where "t' = t" "stored_view t (state_key R g n) = Some (v\<lparr>nv_deps := []\<rparr>)"
      "nv_status v = SUCCEEDED" "nv_result v = Some result" "same_fence lease expected v"
      "tr_fence r = nv_fence v" "tr_execution r = nv_execution v"
  | (ended) v resolved e q where "\<not> terminal (nv_status v)"
      "may_end lease (complete_without_lease v execution expected) v execution (t_now t) resolved"
      "node_ended R g n v (succeeded_view v result resolved) t t'"
      "resolved = Some e" "get_record t (result_key R g n) = None" "get_record t' (result_key R g n) = Some q"
      "decode_result q = Inr \<lparr>rr_graph = g, rr_node = n, rr_digest = result, rr_execution = e\<rparr>"
      "tr_fence r = nv_fence v" "tr_execution r = Some e"
proof -
  from c obtain gr nr prev v current where
    gr: "get_record t (graph_key R g) = Some gr" and nr: "get_record t (state_key R g n) = Some nr" and
    vg: "validate_graph_record R gr g = Inr ()" and vn: "validate_state_record R nr g n = Inr ()" and
    st: "(if expanded \<noteq> [] then event_state_in_txn R g t
         else ebind (terminal_state R gr g n t) (\<lambda>s. Inr (Some s))) = Inr (Some prev)" and
    v: "find_view (es_views prev) n = Some v" and cur: "current_result_of R g n v t = Inr current" and
    rest: "(if terminal (nv_status v)
        then ebind (complete_replay lease expected execution result prev current g n (expanded \<noteq> []) v)
               (\<lambda>r. Inr (r, t))
        else
          ebind (terminal_execution lease (complete_without_lease v execution expected) v execution (t_now t))
            (\<lambda>resolved.
          ebind (if expanded = [] then Inr []
                 else ebind (graph_limits R g t) (\<lambda>limits.
                      ebind (make_graph \<lparr>tg_id = g, tg_nodes = gv_nodes (es_graph prev)\<rparr>) (\<lambda>graph.
                        validate_expansion graph n expanded limits))) (\<lambda>added.
          ebind (make_view (succeeded_view v result resolved)) (\<lambda>source.
          ebind (completed_state g prev (expanded \<noteq> []) added source) (\<lambda>after.
          ebind (write_completion R g n prev after added (current \<noteq> None) v source gr nr result t) (\<lambda>(_, t').
          ebind (terminal_of lease n (nv_fence source) SUCCEEDED (Some result) None None resolved) (\<lambda>r.
            Inr (r, t')))))))) = Inr (r, t')"
    unfolding complete_txn_def Let_def by (simp only: ebind_eq_Inr of_option_eq_Inr unit_ex ex_simps) blast
  have kinds: "rec_kind gr = ''task_graph''" "rec_kind nr = ''task_node_state''" "rec_key nr = state_key R g n"
    using vg vn by (auto simp: validate_graph_record_def eres)
  have mem: "v \<in> set (es_views prev)" "nv_id v = n" using find_view_Some [OF v] by blast+
  have stored: "stored_view t (state_key R g n) = Some (v\<lparr>nv_deps := []\<rparr>)"
  proof (cases "expanded = []")
    case True
    with st have "terminal_state R gr g n t = Inr prev" by (auto simp: eres)
    from terminal_state_views(1) [OF this ok(1) mem(1)] mem(2) show ?thesis by simp
  next
    case False
    with st have "event_state_in_txn R g t = Inr (Some prev)" by simp
    from event_state_views(1) [OF this ok(1) mem(1)] mem(2) show ?thesis by simp
  qed
  show ?thesis
  proof (cases "terminal (nv_status v)")
    case True
    with rest have "complete_replay lease expected execution result prev current g n (expanded \<noteq> []) v = Inr r" "t' = t"
      by (auto simp: eres)
    with complete_replay_Inr [OF this(1)] stored show ?thesis by (intro replay) auto
  next
    case False
    from rest obtain resolved added after where
      me: "may_end lease (complete_without_lease v execution expected) v execution (t_now t) resolved" and
      okv: "view_ok (succeeded_view v result resolved)" and
      w: "write_completion R g n prev after added (current \<noteq> None) v (succeeded_view v result resolved) gr nr result t =
        Inr ((), t')" and
      tr: "terminal_of lease n (nv_fence (succeeded_view v result resolved)) SUCCEEDED (Some result) None None resolved = Inr r"
      unfolding if_not_P [OF False] terminal_execution_Inr [symmetric]
      by (simp only: ebind_eq_Inr make_view_Inr split_paired_Ex prod.case sum.inject prod.inject unit_ex) blast
    have same: "nv_graph (succeeded_view v result resolved) = nv_graph v" "nv_id (succeeded_view v result resolved) = nv_id v"
      by (simp_all add: succeeded_view_def)
    note eff = write_completion_effect [OF w gr kinds(1) nr kinds(2,3) same okv ok]
    from eff(2) obtain q e where "get_record t (result_key R g n) = None" "get_record t' (result_key R g n) = Some q"
      "resolved = Some e" "decode_result q = Inr \<lparr>rr_graph = g, rr_node = n, rr_digest = result, rr_execution = e\<rparr>"
      by (auto simp: succeeded_view_def)
    with eff(1) False me terminal_of_Inr [OF tr] show ?thesis
      by (intro ended) (auto simp: succeeded_view_def)
  qed
qed


lemma fail_replay_Inr:
  assumes "fail_replay lease expected execution f n v = Inr r"
  shows "same_fence lease expected v" and "nv_status v = FAILED" and "same_failure f v"
    and "execution = None \<or> nv_execution v = execution" and "tr_fence r = nv_fence v" and "tr_status r = FAILED"
    and "tr_execution r = nv_execution v"
proof -
  from assms show "same_fence lease expected v" "nv_status v = FAILED" "same_failure f v"
      "execution = None \<or> nv_execution v = execution"
    unfolding fail_replay_def by (simp_all only: ensure_eq_Inr) blast+
  from assms have "terminal_of lease n (nv_fence v) FAILED None (Some (fl_error f)) (Some (fl_digest f))
      (nv_execution v) = Inr r"
    unfolding fail_replay_def by (simp only: ensure_eq_Inr)
  from terminal_of_Inr [OF this] show "tr_fence r = nv_fence v" "tr_status r = FAILED"
    "tr_execution r = nv_execution v" by simp_all
qed

text \<open>The writes of a failure: guard, node, graph, events.\<close>

lemma node_end_effect:
  assumes gd: "guard_record (graph_key R g) (rec_revision gr) t = Inr (Some q, t1)"
    and up: "update_node R node source nr t1 = Inr (u1, t2)"
    and ps: "graph_replacements R graph q status = Inr ps" and rep: "replace_all ps t2 = Inr (u2, t3)"
    and app: "append_events (rp_sha R) (rp_ns R) (rp_tenant R) (rp_domain R) g (graph_key R g) drafts True t3 =
      Inr (u3, t')"
    and gr: "get_record t (graph_key R g) = Some gr" "rec_kind gr = ''task_graph''"
    and nr: "get_record t (state_key R g n) = Some nr" "rec_kind nr = ''task_node_state''"
    and ids: "rec_key nr = state_key R g n" "nv_graph source = nv_graph node" "nv_id source = nv_id node"
    and ok: "view_ok source" "txn_ok t" "log_gapless R g t"
  shows "node_ended R g n node source t t'"
proof -
  let ?k = "state_key R g n" and ?g = "graph_key R g"
  note g1 = quiet_guard [OF gd gr(1) ok(2)]
  have kg: "?k \<noteq> ?g" using gr nr by auto
  have q: "rec_kind q = ''task_graph''" using g1(3) gr(2) by (simp add: record_identity_def)
  have k1: "get_record t1 ?k = Some nr" using g1(2) nr(1) kg by simp
  have key: "state_key R (nv_graph node) (nv_id node) = ?k" using update_node_key [OF up] ids(1) by simp
  note up2 = update_node_quiet [OF up ok(1) ids(2,3) quiet_ok [OF g1(1)], unfolded key]
  obtain c where c: "t2 = put_record ?k c t1" "rec_kind c = ''task_node_state''"
      "decode_node c = Inr (source\<lparr>nv_deps := []\<rparr>)"
    using up2(4) by blast
  note r3 = graph_replace_effect [OF ps rep q quiet_ok [OF up2(1)]]
  have q03: "quiet t t3" using g1(1) up2(1) r3(1) by (blast intro: quiet_trans)
  note app' = append_log [OF app quiet_log [OF q03, THEN iffD2, OF ok(3)] quiet_ok [OF r3(1)]]
  have rec': "get_record t' = get_record t3" using app' by blast
  have k3: "get_record t3 ?k = Some c" using r3(2) [of ?k c] c(2) by (simp add: c(1) get_record_put)
  have others: "get_record t' j = Some r"
    if "get_record t j = Some r" "rec_kind r \<noteq> ''task_graph''" "j \<noteq> ?k" for j r
  proof -
    from that gr have "j \<noteq> ?g" by auto
    with that(1,3) g1(2) have "get_record t2 j = Some r" by (simp add: c(1) get_record_put)
    with r3(2) that(2) rec' show ?thesis by simp
  qed
  have "stored_view t ?k = Some (node\<lparr>nv_deps := []\<rparr>)" "stored_view t' ?k = Some (source\<lparr>nv_deps := []\<rparr>)"
    using nr(1) up2(3) k3 c(3) by (simp_all add: stored_view_def rec')
  moreover have "extends_records t t'" "t_now t' = t_now t"
    using q03 app' by (simp_all add: quiet_def extends_records_def rec')
  moreover have "columns_agree t'" if "columns_agree t"
  proof -
    have "columns_agree t2"
      using columns_guard [OF gd gr(1) ok(2) that] up2(4) by (auto intro!: columns_put simp: column_ok_def)
    with r3(4) rec' show ?thesis using columns_same by blast
  qed
  ultimately show ?thesis unfolding node_ended_def using others app' by blast
qed

lemma fail_txn_Inr:
  assumes c: "fail_txn R lease g n execution f expected t = Inr (r, t')"
    and ok: "txn_ok t" "log_gapless R g t"
  obtains (replay) v where "t' = t" "stored_view t (state_key R g n) = Some (v\<lparr>nv_deps := []\<rparr>)"
      "nv_status v = FAILED" "same_failure f v" "same_fence lease expected v"
      "tr_fence r = nv_fence v" "tr_execution r = nv_execution v"
  | (ended) v resolved where "\<not> terminal (nv_status v)"
      "may_end lease (fail_without_lease v execution expected) v execution (t_now t) resolved"
      "node_ended R g n v (failed_view v f resolved) t t'"
      "tr_fence r = nv_fence v" "tr_execution r = resolved"
proof -
  from c obtain gr nr prev v where
    gr: "get_record t (graph_key R g) = Some gr" and nr: "get_record t (state_key R g n) = Some nr" and
    vg: "validate_graph_record R gr g = Inr ()" and vn: "validate_state_record R nr g n = Inr ()" and
    st: "terminal_state R gr g n t = Inr prev" and v: "find_view (es_views prev) n = Some v" and
    rest: "(if terminal (nv_status v)
        then ebind (fail_replay lease expected execution f n v) (\<lambda>r. Inr (r, t))
        else
          ebind (terminal_execution lease (fail_without_lease v execution expected) v execution (t_now t))
            (\<lambda>resolved.
          ebind (make_view (failed_view v f resolved)) (\<lambda>value.
          ebind (guard_record (graph_key R g) (rec_revision gr) t) (\<lambda>(guarded, t1).
          ebind (of_option Task_event_append_conflict guarded) (\<lambda>guarded_graph.
            let views = replace_view (es_views prev) n value in
            ebind (aggregate_status views (policy_of (gv_nodes (es_graph prev)))) (\<lambda>status.
              let after = \<lparr>es_graph = \<lparr>gv_id = g, gv_status = status, gv_nodes = gv_nodes (es_graph prev)\<rparr>,
                           es_views = views\<rparr> in
              ebind (graph_replacements R (es_graph prev) guarded_graph status) (\<lambda>replacements.
              ebind (update_node R v value nr t1) (\<lambda>(_, t2).
              ebind (replace_all replacements t2) (\<lambda>(_, t3).
              ebind (completion_drafts prev after n []) (\<lambda>drafts.
              ebind (append_events (rp_sha R) (rp_ns R) (rp_tenant R) (rp_domain R) g (graph_key R g)
                       drafts True t3) (\<lambda>(_, t4).
              ebind (terminal_of lease n (nv_fence value) FAILED None (Some (fl_error f)) (Some (fl_digest f)) resolved)
                (\<lambda>r. Inr (r, t4))))))))))))) = Inr (r, t')"
    unfolding fail_txn_def Let_def by (simp only: ebind_eq_Inr of_option_eq_Inr unit_ex ex_simps) blast
  have kinds: "rec_kind gr = ''task_graph''" "rec_kind nr = ''task_node_state''" "rec_key nr = state_key R g n"
    using vg vn by (auto simp: validate_graph_record_def eres)
  have mem: "v \<in> set (es_views prev)" "nv_id v = n" using find_view_Some [OF v] by blast+
  have stored: "stored_view t (state_key R g n) = Some (v\<lparr>nv_deps := []\<rparr>)"
    using terminal_state_views(1) [OF st ok(1) mem(1)] mem(2) by simp
  show ?thesis
  proof (cases "terminal (nv_status v)")
    case True
    with rest have "fail_replay lease expected execution f n v = Inr r" "t' = t" by (auto simp: eres)
    with fail_replay_Inr [OF this(1)] stored show ?thesis by (intro replay) auto
  next
    case False
    from rest obtain resolved q t1 ps status t2 t3 drafts t4 where
      me: "may_end lease (fail_without_lease v execution expected) v execution (t_now t) resolved" and
      okv: "view_ok (failed_view v f resolved)" and
      gd: "guard_record (graph_key R g) (rec_revision gr) t = Inr (Some q, t1)" and
      ps: "graph_replacements R (es_graph prev) q status = Inr ps" and
      up: "update_node R v (failed_view v f resolved) nr t1 = Inr ((), t2)" and
      rep: "replace_all ps t2 = Inr ((), t3)" and
      app: "append_events (rp_sha R) (rp_ns R) (rp_tenant R) (rp_domain R) g (graph_key R g) drafts True t3 = Inr ((), t')" and
      tr: "terminal_of lease n (nv_fence (failed_view v f resolved)) FAILED None (Some (fl_error f)) (Some (fl_digest f))
        resolved = Inr r"
      unfolding if_not_P [OF False] terminal_execution_Inr [symmetric] Let_def
      by (simp only: ebind_eq_Inr of_option_eq_Inr make_view_Inr split_paired_Ex prod.case sum.inject prod.inject unit_ex)
        blast
    have same: "nv_graph (failed_view v f resolved) = nv_graph v" "nv_id (failed_view v f resolved) = nv_id v"
      by (simp_all add: failed_view_def)
    note eff = node_end_effect [OF gd up ps rep app gr kinds(1) nr kinds(2,3) same okv ok]
    from eff False me terminal_of_Inr [OF tr] show ?thesis
      by (intro ended) (auto simp: failed_view_def)
  qed
qed

end
