(* ===== verification/Task_Lifecycle.thy ===== *)
theory Task_Lifecycle
  imports Task_Frames Task_Terminal_Facts
begin

text \<open>
  The life of a node as a state machine.  A phase is what the repository decides on: the status,
  the fence and the execution of a node; \<open>phase_step\<close> is the transition relation.  Every
  operation moves every stored node along it (\<open>moves\<close>), so its invariants hold of the store:
  the fence never falls, an execution that is bound stays bound, an outcome is final.
\<close>

section \<open>Phases\<close>

type_synonym phase = "task_status \<times> int \<times> string option"

definition phase_of :: "node_view \<Rightarrow> phase" where
  "phase_of v = (nv_status v, nv_fence v, nv_execution v)"

inductive phase_step :: "phase \<Rightarrow> phase \<Rightarrow> bool" (* one decision about a node *) where
  claim: "s \<in> {PENDING, READY, RUNNING} \<Longrightarrow> phase_step (s, f, x) (RUNNING, f + 1, x)"
| bind: "phase_step (RUNNING, f, None) (RUNNING, f, Some e)"
| hand_off: "x \<in> {None, Some e} \<Longrightarrow> phase_step (RUNNING, f, x) (WAITING, f, Some e)"
| retry: "s \<in> {RUNNING, WAITING} \<Longrightarrow> phase_step (s, f, Some e) (READY, f, Some e)"
| lapse: "phase_step (RUNNING, f, x) (READY, f, x)"
| settle: "s \<in> {PENDING, READY} \<Longrightarrow> s' \<in> {PENDING, READY} \<Longrightarrow> phase_step (s, f, None) (s', f, None)"
| finish: "\<not> terminal s \<Longrightarrow> terminal s' \<Longrightarrow> x = None \<or> x = y \<Longrightarrow> phase_step (s, f, x) (s', f, y)"
| suspend: "\<not> terminal s \<Longrightarrow> x = None \<or> x = y \<Longrightarrow> phase_step (s, f, x) (RECOVERY_REQUIRED, f, y)"
| resume: "phase_step (RECOVERY_REQUIRED, f, x) (if x = None then PENDING else READY, f, x)"

inductive_cases phase_stepE: "phase_step (s, f, x) (s', f', x')"
inductive_simps phase_step_terminal: "phase_step (SUCCEEDED, f, x) p"

abbreviation phase_steps :: "phase \<Rightarrow> phase \<Rightarrow> bool" where
  "phase_steps \<equiv> phase_step\<^sup>*\<^sup>*"

lemma phase_step_invariants:
  assumes "phase_step (s, f, x) (s', f', x')"
  shows "f \<le> f'" and "\<not> terminal s" and "x = None \<or> x' = x" and "f < f' \<Longrightarrow> s' = RUNNING"
  using assms by (auto elim!: phase_stepE simp: terminal_def)

lemma phase_steps_fence: "phase_steps p q \<Longrightarrow> fst (snd p) \<le> fst (snd q)"
  by (induction rule: rtranclp_induct) (auto dest: phase_step_invariants(1))

lemma phase_steps_execution: "phase_steps p q \<Longrightarrow> snd (snd p) = None \<or> snd (snd q) = snd (snd p)"
  by (induction rule: rtranclp_induct) (auto dest: phase_step_invariants(3))

lemma phase_steps_terminal: "phase_steps p q \<Longrightarrow> terminal (fst p) \<Longrightarrow> q = p"
  by (induction rule: converse_rtranclp_induct) (auto dest: phase_step_invariants(2))

section \<open>What an operation makes of a view\<close>

definition evolves :: "node_view \<Rightarrow> node_view \<Rightarrow> bool" where
  "evolves v w \<longleftrightarrow> nv_id w = nv_id v \<and> nv_deps w = nv_deps v \<and> (view_ok v \<longrightarrow> view_ok w) \<and>
     phase_steps (phase_of v) (phase_of w)"

lemma evolves_refl [intro]: "evolves v v"
  by (simp add: evolves_def)

lemma evolves_trans: "evolves u v \<Longrightarrow> evolves v w \<Longrightarrow> evolves u w"
  unfolding evolves_def by (auto intro: rtranclp_trans)

lemma evolves_step:
  assumes "phase_step (phase_of v) (phase_of w)" and "nv_id w = nv_id v" and "nv_deps w = nv_deps v" and "view_ok w"
  shows "evolves v w"
  using assms by (simp add: evolves_def r_into_rtranclp)

lemma evolves_all: "list_all2 evolves vs ws \<Longrightarrow> list_all2 evolves ws us \<Longrightarrow> list_all2 evolves vs us"
  by (rule list_all2_trans [of evolves evolves evolves]) (rule evolves_trans)

lemma evolves_all_refl: "list_all2 evolves vs vs"
  by (rule list_all2_refl) (rule evolves_refl)

lemma expire_view_evolves:
  assumes "expire_view now v = Inr w"
  shows "evolves v w"
proof (cases "w = v")
  case False
  with assms have "nv_status v = RUNNING" "view_ok w" "w = v\<lparr>nv_status := READY, nv_owner := None, nv_expires := None,
      nv_next_attempt := None, nv_occupies := False\<rparr>"
    by (auto simp: expire_view_def make_view_Inr split: option.splits if_splits)
  then show ?thesis by (intro evolves_step) (simp_all add: phase_of_def phase_step.lapse)
qed auto

lemma settle_view_evolves:
  assumes "settle_view v s = Inr w" and "\<not> settled v"
  shows "evolves v w"
proof -
  from assms(2) have x: "\<not> terminal (nv_status v)" "nv_execution v = None" by (simp_all add: settled_def)
  consider (blocked) "s = BLOCKED" | (ready) "s = READY" "nv_status v = PENDING"
    | (pending) "s = PENDING" "nv_status v = READY"
    | (same) "s \<noteq> BLOCKED" "\<not> (s = READY \<and> nv_status v = PENDING)" "\<not> (s = PENDING \<and> nv_status v = READY)"
    by blast
  then show ?thesis
  proof cases
    case blocked
    have "phase_step (phase_of v) (BLOCKED, nv_fence v, nv_execution v)"
      using x by (simp add: phase_of_def phase_step.finish terminal_def)
    with assms(1) blocked show ?thesis
      by (auto simp: settle_view_def make_view_Inr phase_of_def intro!: evolves_step)
  next
    case ready
    have "phase_step (phase_of v) (READY, nv_fence v, nv_execution v)"
      using x ready by (simp add: phase_of_def phase_step.settle)
    with assms(1) ready show ?thesis
      by (auto simp: settle_view_def make_view_Inr phase_of_def intro!: evolves_step)
  next
    case pending
    have "phase_step (phase_of v) (PENDING, nv_fence v, nv_execution v)"
      using x pending by (simp add: phase_of_def phase_step.settle)
    with assms(1) pending show ?thesis
      by (auto simp: settle_view_def make_view_Inr phase_of_def intro!: evolves_step)
  next
    case same
    with assms(1) show ?thesis by (auto simp: settle_view_def)
  qed
qed

lemma reconciled_view_evolves:
  assumes "reconciled_view defs now u v st = Inr w"
  shows "evolves v w"
proof -
  from assms obtain x where x: "expire_view now v = Inr x" and
    "w = x \<or> \<not> settled x \<and> (\<exists>s. settle_view x s = Inr w)"
    by (auto simp: reconciled_view_def eres split: if_splits option.splits)
  with expire_view_evolves [OF x] settle_view_evolves show ?thesis by (blast intro: evolves_trans)
qed

text \<open>What holds between a view and its reconciled view holds between the lists.\<close>

lemma reconcile_relates:
  assumes run: "reconcile vs defs now = Inr ws" and refl: "\<And>v. P v v" and trans: "\<And>u v w. P u v \<Longrightarrow> P v w \<Longrightarrow> P u w"
    and body: "\<And>u v w st. reconciled_view defs now u v st = Inr w \<Longrightarrow> P v w"
  shows "list_all2 P vs ws"
proof -
  from run obtain order out where d: "distinct (map nv_id vs)" and
    run: "efold (reconcile_body defs now) order (view_of vs) = Inr out" and
    out: "emap (\<lambda>v. of_option KeyError (out (nv_id v))) vs = Inr ws"
    unfolding reconcile_def view_of_def reconcile_body_def [abs_def] by (simp only: eres) blast
  let ?P = "\<lambda>m. \<forall>u v. view_of vs u = Some v \<longrightarrow> (\<exists>w. m u = Some w \<and> P v w)"
  have keep: "?P m'" if inv: "?P m" and step: "reconcile_body defs now u m = Inr m'" for u m m'
  proof -
    from step obtain x y where xy: "m u = Some x" "P x y" "m' = m(u := Some y)"
      by (auto simp: reconcile_body_def reconcile_step_def eres split: option.splits dest: body)
    have "\<exists>w. m' i = Some w \<and> P v w" if "view_of vs i = Some v" for i v
    proof -
      from inv that obtain w where "m i = Some w" "P v w" by blast
      with xy show ?thesis by (cases "i = u") (auto intro: trans)
    qed
    then show ?thesis by blast
  qed
  have "?P out" by (rule efold_invariant [where P = ?P, OF run _ keep]) (auto intro: refl)
  with d have final: "v \<in> set vs \<Longrightarrow> \<exists>w. out (nv_id v) = Some w \<and> P v w" for v by (simp add: view_of_eq)
  show ?thesis
    using out [unfolded emap_eq_Inr] by (rule list_all2_mono2) (use final in \<open>fastforce simp: of_option_eq_Inr\<close>)
qed

lemma reconcile_evolves: "reconcile vs defs now = Inr ws \<Longrightarrow> list_all2 evolves vs ws"
  by (rule reconcile_relates) (auto intro: evolves_trans reconciled_view_evolves)

text \<open>Reconciliation sends no node to recovery.\<close>

lemma reconcile_recovery:
  assumes "reconcile vs defs now = Inr ws"
  shows "list_all2 (\<lambda>v w. w = v \<or> nv_status w \<in> {PENDING, READY, BLOCKED}) vs ws"
proof (rule reconcile_relates [OF assms])
  fix u v w :: node_view and n and st
  assume "reconciled_view defs now n v st = Inr w"
  then obtain x where "expire_view now v = Inr x" "w = x \<or> (\<exists>s. settle_view x s = Inr w)"
    by (auto simp: reconciled_view_def eres split: if_splits option.splits)
  moreover from this(1) have "x = v \<or> nv_status x = READY"
    by (auto simp: expire_view_def make_view_Inr split: option.splits if_splits)
  moreover have "w = x \<or> nv_status w \<in> {PENDING, READY, BLOCKED}" if "settle_view x s = Inr w" for s
    using that by (auto simp: settle_view_def make_view_Inr split: if_splits)
  ultimately show "w = v \<or> nv_status w \<in> {PENDING, READY, BLOCKED}" by auto
qed auto

lemma replace_view_evolves:
  assumes "find_view vs n = Some v" and "evolves v w" and "distinct (map nv_id vs)"
  shows "list_all2 evolves vs (replace_view vs n w)"
proof -
  have "evolves u (if nv_id u = n then w else u)" if "u \<in> set vs" for u
    using that find_view_Some [OF assms(1)] assms(2,3) by (auto simp: distinct_map inj_on_def)
  then show ?thesis unfolding replace_view_def by (simp add: list_all2_map2 list.rel_refl_strong)
qed


section \<open>What an operation makes of the store\<close>

definition node_at :: "task_txn \<Rightarrow> bytes \<Rightarrow> node_view \<Rightarrow> bool" where
  "node_at t k v \<longleftrightarrow>
     (\<exists>r. get_record t k = Some r \<and> rec_kind r = ''task_node_state'' \<and> decode_node r = Inr v)"

definition moves :: "task_txn \<Rightarrow> task_txn \<Rightarrow> bool" where
  "moves t t' \<longleftrightarrow> (\<forall>k v. node_at t k v \<longrightarrow> (\<exists>w. node_at t' k w \<and> phase_steps (phase_of v) (phase_of w)))"

definition repo_ok :: "repo \<Rightarrow> string \<Rightarrow> task_txn \<Rightarrow> bool" where
  "repo_ok R g t \<longleftrightarrow> txn_ok t \<and> log_gapless R g t \<and> columns_agree t"

definition sound_step :: "repo \<Rightarrow> string \<Rightarrow> task_txn \<Rightarrow> task_txn \<Rightarrow> bool" where
  "sound_step R g t t' \<longleftrightarrow> repo_ok R g t' \<and> moves t t'"

lemma moves_same: "(\<And>k v. node_at t k v \<Longrightarrow> node_at t' k v) \<Longrightarrow> moves t t'"
  by (auto simp: moves_def)

lemma moves_refl: "moves t t"
  by (simp add: moves_same)

lemma sound_refl: "repo_ok R g t \<Longrightarrow> sound_step R g t t"
  by (simp add: sound_step_def moves_refl)

lemma phase_of_deps [simp]: "phase_of (v\<lparr>nv_deps := ds\<rparr>) = phase_of v"
  by (simp add: phase_of_def)

lemma node_at_stored: "node_at t k v \<Longrightarrow> stored_view t k = Some v"
  by (auto simp: node_at_def stored_view_def)

text \<open>One node moves.\<close>

lemma node_moved_sound:
  assumes mv: "node_moved R g v w t t'" and st: "phase_steps (phase_of v) (phase_of w)" and ok: "repo_ok R g t"
  shows "sound_step R g t t'"
proof -
  let ?k = "state_key R g (nv_id v)"
  have "\<exists>b. node_at t' k b \<and> phase_steps (phase_of a) (phase_of b)" if a: "node_at t k a" for k a
  proof (cases "k = ?k")
    case True
    with mv node_at_stored [OF a] have av: "a = v\<lparr>nv_deps := []\<rparr>" unfolding node_moved_def Let_def by simp
    from a obtain r where r: "get_record t k = Some r" "rec_kind r = ''task_node_state''" by (auto simp: node_at_def)
    from mv True r obtain r' where "get_record t' k = Some r'" "record_identity r' = record_identity r"
      "decode_node r' = Inr (w\<lparr>nv_deps := []\<rparr>)"
      unfolding node_moved_def Let_def stored_view_def by (auto split: option.splits sum.splits)
    with r(2) have "node_at t' k (w\<lparr>nv_deps := []\<rparr>)" by (simp add: node_at_def record_identity_def)
    with st av show ?thesis by (intro exI [of _ "w\<lparr>nv_deps := []\<rparr>"]) simp
  next
    case False
    note same = node_moved_at [OF mv False]
    from a obtain r where r: "get_record t k = Some r" "rec_kind r = ''task_node_state''" "decode_node r = Inr a"
      by (auto simp: node_at_def)
    with same(1) obtain r' where r': "get_record t' k = Some r'" by (cases "get_record t' k") auto
    with r same have "node_at t' k a" by (simp add: node_at_def record_identity_def)
    then show ?thesis by blast
  qed
  then have "moves t t'" by (simp add: moves_def)
  moreover have "txn_ok t'" "log_gapless R g t'" using mv unfolding node_moved_def Let_def by blast+
  moreover have "columns_agree t'" using columns_agree_moved [OF mv] ok by (simp add: repo_ok_def)
  ultimately show ?thesis by (simp add: sound_step_def repo_ok_def)
qed

text \<open>One node ends.\<close>

lemma node_ended_sound:
  assumes en: "node_ended R g n v w t t'" and st: "phase_steps (phase_of v) (phase_of w)" and ok: "repo_ok R g t"
  shows "sound_step R g t t'"
proof -
  let ?k = "state_key R g n"
  have views: "stored_view t ?k = Some (v\<lparr>nv_deps := []\<rparr>)" "stored_view t' ?k = Some (w\<lparr>nv_deps := []\<rparr>)"
      and ext: "extends_records t t'"
      and others: "\<And>j r. get_record t j = Some r \<Longrightarrow> rec_kind r \<noteq> ''task_graph'' \<Longrightarrow> j \<noteq> ?k \<Longrightarrow> get_record t' j = Some r"
    using en unfolding node_ended_def by blast+
  have "\<exists>b. node_at t' k b \<and> phase_steps (phase_of a) (phase_of b)" if a: "node_at t k a" for k a
  proof -
    from a obtain r where r: "get_record t k = Some r" "rec_kind r = ''task_node_state''" "decode_node r = Inr a"
      by (auto simp: node_at_def)
    show ?thesis
    proof (cases "k = ?k")
      case True
      with views(1) node_at_stored [OF a] have av: "a = v\<lparr>nv_deps := []\<rparr>" by simp
      from ext r(1) obtain r' where "get_record t' k = Some r'" "record_identity r' = record_identity r"
        by (auto simp: extends_records_def)
      with views(2) True r(2) have "node_at t' k (w\<lparr>nv_deps := []\<rparr>)"
        by (auto simp: node_at_def record_identity_def stored_view_def split: sum.splits)
      with st av show ?thesis by (intro exI [of _ "w\<lparr>nv_deps := []\<rparr>"]) simp
    next
      case False
      with others [OF r(1)] r have "node_at t' k a" by (simp add: node_at_def)
      then show ?thesis by blast
    qed
  qed
  then have "moves t t'" by (simp add: moves_def)
  with en ok show ?thesis unfolding node_ended_def sound_step_def repo_ok_def by blast
qed

text \<open>A whole graph moves.\<close>

lemma same_frames_evolves:
  assumes "list_all2 evolves vs ws" and "\<forall>v\<in>set vs. view_ok v"
  shows "same_frames vs ws"
  unfolding same_frames_def using assms(1) by (rule list_all2_mono2) (use assms(2) in \<open>auto simp: evolves_def\<close>)

lemma event_state_views_ok:
  assumes "event_state_in_txn R g t = Inr (Some s)" and "txn_ok t"
  shows "\<forall>v\<in>set (es_views s). view_ok v" and "distinct (map nv_id (es_views s))"
  using event_state_views(2) [OF assms] event_state_graph [OF assms] projectsD(2) by (blast, metis)

lemma transition_sound:
  assumes run: "apply_graph_transition R prev gr ws status t = Inr (view, t')"
    and ev: "event_state_in_txn R g t = Inr (Some prev)" and gr: "get_record t (graph_key R g) = Some gr"
    and evo: "list_all2 evolves (es_views prev) ws" and ok: "repo_ok R g t"
  shows "sound_step R g t t'"
proof -
  have t: "txn_ok t" "log_gapless R g t" "columns_agree t" using ok by (simp_all add: repo_ok_def)
  note frames = same_frames_evolves [OF evo event_state_views_ok(1) [OF ev t(1)]]
  note tr = apply_graph_transition_records(1,2) [OF run ev gr frames t(1,2)]
  from ev t(1) obtain gr' where gk: "get_record t (graph_key R g) = Some gr'" "rec_kind gr' = ''task_graph''"
    and pj: "projects R g t (gv_nodes (es_graph prev)) (es_views prev)" by (rule event_state_graph)
  have "\<exists>b. node_at t' k b \<and> phase_steps (phase_of a) (phase_of b)" if a: "node_at t k a" for k a
  proof -
    from a obtain r where r: "get_record t k = Some r" "rec_kind r = ''task_node_state''" "decode_node r = Inr a"
      by (auto simp: node_at_def)
    show ?thesis
    proof (cases "k \<in> state_key R g ` nv_id ` set (es_views prev)")
      case True
      then obtain v where v: "v \<in> set (es_views prev)" "k = state_key R g (nv_id v)" by blast
      from same_frames_zip(1) [OF frames v(1)] obtain w where z: "(v, w) \<in> set (zip (es_views prev) ws)" by blast
      from transitionedD(5) [OF tr(1) z] v(2) obtain r' where r': "get_record t' k = Some r'" "reads_state R g r' w" by auto
      from projectsD(7) [OF pj v(1)] v(2) r have "a = v\<lparr>nv_deps := []\<rparr>" by (auto simp: reads_state_def)
      moreover have "node_at t' k (w\<lparr>nv_deps := []\<rparr>)"
        using r' reads_state_key [OF r'(2)] by (simp add: node_at_def reads_state_def graph_node_def)
      moreover have "evolves v w" using evo z by (auto simp: list_all2_iff)
      ultimately show ?thesis by (intro exI [of _ "w\<lparr>nv_deps := []\<rparr>"]) (simp add: evolves_def)
    next
      case False
      have "k \<noteq> graph_key R g" using gk r(1,2) by auto
      with transitionedD(6) [OF tr(1)] False r have "node_at t' k a" by (simp add: node_at_def)
      then show ?thesis by blast
    qed
  qed
  then have "moves t t'" by (simp add: moves_def)
  with transitionedD(1) [OF tr(1)] tr(2) transitioned_columns [OF tr(1) frames gk t(3)] show ?thesis
    by (simp add: sound_step_def repo_ok_def)
qed

end
