(* ===== verification/Task_Runs.thy ===== *)
theory Task_Runs
  imports Task_Lifecycle
begin

text \<open>
  Runs of the repository: every operation is a sound step (its store invariant and the moves of
  its nodes), and \<open>store_step\<close> is one committed operation on a store.  The invariants of the life
  of a node then hold along every run, by rule induction.
\<close>

section \<open>Leases\<close>

lemma phase_stepI: "phase_step (phase_of v) (phase_of w) \<Longrightarrow> phase_steps (phase_of v) (phase_of w)"
  by (rule r_into_rtranclp)

lemma repo_okD: "repo_ok R g t \<Longrightarrow> txn_ok t" "repo_ok R g t \<Longrightarrow> log_gapless R g t" "repo_ok R g t \<Longrightarrow> columns_agree t"
  by (simp_all add: repo_ok_def)

lemma claim_sound:
  assumes run: "claim_txn R g n tenant owner seconds t = Inr (lease, t')" and ok: "repo_ok R g t"
  shows "sound_step R g t t'"
proof -
  obtain v where m: "node_moved R g v (claimed v owner (t_now t + microseconds seconds)) t t'"
    and s: "nv_status v \<in> {PENDING, READY} \<or> node_expired (t_now t) v"
    using claim_txn_effect [OF run repo_okD(1,2) [OF ok]] by metis
  from s have "phase_step (phase_of v) (phase_of (claimed v owner (t_now t + microseconds seconds)))"
    by (auto simp: phase_of_def claimed_def node_expired_def intro!: phase_step.claim)
  with node_moved_sound [OF m _ ok] show ?thesis by (simp add: phase_stepI)
qed

lemma bind_execution_sound:
  assumes run: "bind_execution_txn R lease execution t = Inr (v, t')" and ok: "repo_ok R (ls_graph lease) t"
  shows "sound_step R (ls_graph lease) t t'"
  using run repo_okD(1,2) [OF ok]
proof (cases rule: bind_execution_txn_Inr)
  case (bound node)
  then have "phase_step (phase_of node) (phase_of v)"
    by (simp add: phase_of_def holds_lease_def phase_step.bind)
  with node_moved_sound [OF bound(5) _ ok] show ?thesis by (simp add: phase_stepI)
qed (simp add: sound_refl ok)

lemma handoff_sound:
  assumes run: "handoff_txn R lease execution occupies t = Inr (v, t')" and ok: "repo_ok R (ls_graph lease) t"
  shows "sound_step R (ls_graph lease) t t'"
  using run repo_okD(1,2) [OF ok]
proof (cases rule: handoff_txn_Inr)
  case (handed node)
  then have "phase_step (phase_of node) (phase_of v)"
    by (auto simp: phase_of_def holds_lease_def intro: phase_step.hand_off)
  with node_moved_sound [OF handed(5) _ ok] show ?thesis by (simp add: phase_stepI)
qed (simp add: sound_refl ok)

lemma view_ok_expires: "view_ok v \<Longrightarrow> nv_status v = RUNNING \<Longrightarrow> view_ok (v\<lparr>nv_expires := e\<rparr>)"
  by (simp add: view_ok_def)

lemma decode_expires:
  assumes "decode_node r = Inr v" and "nv_status v = RUNNING"
  shows "decode_node (r\<lparr>rec_revision := n, rec_expires := e\<rparr>) = Inr (v\<lparr>nv_expires := e\<rparr>)"
proof -
  obtain u where u: "rec_data r = Node u" using assms(1) by (auto simp: decode_node_def split: domain_value.splits)
  with assms(1) have "make_view ((persisted_view u)\<lparr>nv_owner := rec_owner r, nv_fence := rec_fence r, nv_expires := rec_expires r\<rparr>) = Inr v"
      "view_ok (persisted_view u)"
    by (auto simp: decode_node_def eres)
  moreover from this have "view_ok v" "v = (persisted_view u)\<lparr>nv_owner := rec_owner r, nv_fence := rec_fence r, nv_expires := rec_expires r\<rparr>"
    by (simp_all add: make_view_Inr)
  ultimately show ?thesis
    using view_ok_expires [OF _ assms(2), of e] by (simp add: decode_node_def u make_view_def integrity_def)
qed

lemma renew_sound:
  assumes run: "renew_txn R lease seconds clock t = Inr (l, t')" and ok: "repo_ok R (ls_graph lease) t"
  shows "sound_step R (ls_graph lease) t t'"
proof -
  from renew_txn_Inr [OF run] obtain nr node where
    lv: "leased_view R lease t = Some (node\<lparr>nv_deps := []\<rparr>)" and h: "holds_lease node lease (t_now t)" and
    nr: "get_record t (state_key R (ls_graph lease) (ls_node lease)) = Some nr" and
    t': "t' = put_record (rec_key nr) (nr\<lparr>rec_revision := rec_revision nr + 1,
             rec_expires := Some (clock + microseconds seconds)\<rparr>) t" by metis
  let ?c = "nr\<lparr>rec_revision := rec_revision nr + 1, rec_expires := Some (clock + microseconds seconds)\<rparr>"
  have d: "decode_node nr = Inr (node\<lparr>nv_deps := []\<rparr>)" using lv nr by (simp add: stored_view_def split: sum.splits)
  then have d': "decode_node ?c = Inr (node\<lparr>nv_deps := [], nv_expires := Some (clock + microseconds seconds)\<rparr>)"
    using decode_expires [OF d] h by (simp add: holds_lease_def)
  have key: "rec_key nr = state_key R (ls_graph lease) (ls_node lease)"
    using txn_ok_record_key [OF repo_okD(1) [OF ok] nr] .
  have "moves t t'"
    unfolding moves_def
  proof (intro allI impI)
    fix k v assume a: "node_at t k v"
    show "\<exists>w. node_at t' k w \<and> phase_steps (phase_of v) (phase_of w)"
    proof (cases "k = rec_key nr")
      case True
      with a nr key d have "v = node\<lparr>nv_deps := []\<rparr>" "rec_kind nr = ''task_node_state''" by (auto simp: node_at_def)
      with True d' t' show ?thesis
        by (intro exI [of _ "node\<lparr>nv_deps := [], nv_expires := Some (clock + microseconds seconds)\<rparr>"])
          (simp add: node_at_def get_record_put phase_of_def)
    next
      case False
      with a t' have "node_at t' k v" by (simp add: node_at_def get_record_put)
      then show ?thesis by blast
    qed
  qed
  moreover have "txn_ok t'" using repo_okD(1) [OF ok] by (simp add: t' txn_ok_put)
  moreover have "log_gapless R (ls_graph lease) t'"
    using repo_okD(2) [OF ok] log_gapless_cong [of t' t] by (simp add: t')
  moreover have "columns_agree t'"
  proof -
    have "column_ok nr" using repo_okD(3) [OF ok] nr by (simp add: columns_agree_iff)
    with d d' have "column_ok ?c" by (simp add: column_ok_def)
    with repo_okD(3) [OF ok] show ?thesis by (simp add: t' columns_put)
  qed
  ultimately show ?thesis by (simp add: sound_step_def repo_ok_def)
qed

section \<open>Ends\<close>

lemma resolve_execution_Inr: "resolve_execution a b = Inr c \<Longrightarrow> a = None \<or> a = c"
  by (auto simp: resolve_execution_def split: option.splits if_splits)

lemma may_end_execution: "may_end lease allowed v execution now resolved \<Longrightarrow> nv_execution v = None \<or> nv_execution v = resolved"
  by (auto simp: may_end_def dest: resolve_execution_Inr split: option.splits)

lemma complete_sound:
  assumes run: "complete_txn R lease g n execution result expanded expected t = Inr (r, t')" and ok: "repo_ok R g t"
  shows "sound_step R g t t'"
  using run repo_okD(1,2) [OF ok]
proof (cases rule: complete_txn_Inr)
  case (ended v resolved e q)
  then have "phase_step (phase_of v) (phase_of (succeeded_view v result resolved))"
    using may_end_execution [OF ended(2)]
    by (auto simp: phase_of_def succeeded_view_def terminal_def intro!: phase_step.finish)
  with node_ended_sound [OF ended(3) _ ok] show ?thesis by (simp add: phase_stepI)
qed (simp add: sound_refl ok)

lemma fail_sound:
  assumes run: "fail_txn R lease g n execution f expected t = Inr (r, t')" and ok: "repo_ok R g t"
  shows "sound_step R g t t'"
  using run repo_okD(1,2) [OF ok]
proof (cases rule: fail_txn_Inr)
  case (ended v resolved)
  then have "phase_step (phase_of v) (phase_of (failed_view v f resolved))"
    using may_end_execution [OF ended(2)]
    by (auto simp: phase_of_def failed_view_def terminal_def intro!: phase_step.finish)
  with node_ended_sound [OF ended(3) _ ok] show ?thesis by (simp add: phase_stepI)
qed (simp add: sound_refl ok)

section \<open>Control\<close>

lemma projected_Inr:
  "projected R g missing t = Inr (prev, gr) \<longleftrightarrow>
    event_state_in_txn R g t = Inr (Some prev) \<and> get_record t (graph_key R g) = Some gr"
  by (auto simp: projected_def eres)

lemma apply_isolated_Inr:
  "apply_isolated R prev gr ws t = Inr (view, t') \<longleftrightarrow>
    (\<exists>status. isolated_status ws (gv_nodes (es_graph prev)) = Inr status \<and>
      apply_graph_transition R prev gr ws status t = Inr (view, t'))"
  by (simp add: apply_isolated_def ebind_eq_Inr)

lemma one_view_sound:
  assumes ev: "event_state_in_txn R g t = Inr (Some prev)" and gr: "get_record t (graph_key R g) = Some gr"
    and f: "find_view (es_views prev) n = Some v" and evo: "evolves v w" and ok: "repo_ok R g t"
    and next_nodes: "ws = replace_view (es_views prev) n w \<or> reconcile (replace_view (es_views prev) n w) defs now = Inr ws"
    and run: "apply_graph_transition R prev gr ws status t = Inr (view, t')"
  shows "sound_step R g t t'"
proof -
  note one = replace_view_evolves [OF f evo event_state_views_ok(2) [OF ev repo_okD(1) [OF ok]]]
  have "list_all2 evolves (es_views prev) ws"
    using next_nodes one evolves_all [OF one] reconcile_evolves by blast
  from transition_sound [OF run ev gr this ok] show ?thesis .
qed

lemma requeue_retry_sound:
  assumes run: "requeue_retry_txn R lease execution next_attempt t = Inr (v, t')" and ok: "repo_ok R (ls_graph lease) t"
  shows "sound_step R (ls_graph lease) t t'"
proof -
  let ?g = "ls_graph lease"
  let ?w = "\<lambda>current. current\<lparr>nv_status := READY, nv_owner := None, nv_expires := None,
       nv_next_attempt := Some next_attempt, nv_occupies := False, nv_result := None,
       nv_error := None, nv_error_digest := None\<rparr>"
  from run obtain prev gr current status view where
    ev: "event_state_in_txn R ?g t = Inr (Some prev)" and gr: "get_record t (graph_key R ?g) = Some gr" and
    f: "find_view (es_views prev) (ls_node lease) = Some current" and
    h: "holds_lease current lease (t_now t)" and x: "nv_execution current = Some execution" and
    okv: "view_ok (?w current)" and
    ap: "apply_graph_transition R prev gr (replace_view (es_views prev) (ls_node lease) (?w current)) status t = Inr (view, t')"
    unfolding requeue_retry_txn_def Let_def
    by (simp only: ebind_eq_Inr ensure_eq_Inr of_option_eq_Inr require_live_lease_holds make_view_Inr chain) blast
  have "phase_step (phase_of current) (phase_of (?w current))"
    using h x by (simp add: phase_of_def holds_lease_def phase_step.retry)
  then have "evolves current (?w current)" using okv by (intro evolves_step) simp_all
  from one_view_sound [OF ev gr f this ok _ ap] show ?thesis by simp
qed

lemma requeue_waiting_sound:
  assumes run: "requeue_waiting_txn R g n fence execution next_attempt t = Inr (v, t')" and ok: "repo_ok R g t"
  shows "sound_step R g t t'"
proof -
  let ?w = "\<lambda>current. current\<lparr>nv_status := READY, nv_owner := None, nv_expires := None,
       nv_next_attempt := Some next_attempt, nv_occupies := False, nv_result := None,
       nv_error := None, nv_error_digest := None, nv_origin := None, nv_details := []\<rparr>"
  from run obtain prev gr current status view where
    ev: "event_state_in_txn R g t = Inr (Some prev)" and gr: "get_record t (graph_key R g) = Some gr" and
    f: "find_view (es_views prev) n = Some current" and
    h: "\<not> (nv_status current \<noteq> WAITING \<or> nv_fence current \<noteq> fence \<or> nv_execution current \<noteq> Some execution \<or>
      nv_owner current \<noteq> None \<or> nv_expires current \<noteq> None)" and
    okv: "view_ok (?w current)" and
    ap: "apply_graph_transition R prev gr (replace_view (es_views prev) n (?w current)) status t = Inr (view, t')"
    unfolding requeue_waiting_txn_def Let_def
    by (simp only: ebind_eq_Inr ensure_eq_Inr of_option_eq_Inr make_view_Inr chain) blast
  have "phase_step (phase_of current) (phase_of (?w current))"
    using h by (simp add: phase_of_def phase_step.retry)
  then have "evolves current (?w current)" using okv by (intro evolves_step) simp_all
  from one_view_sound [OF ev gr f this ok _ ap] show ?thesis by simp
qed


lemma mark_recovery_sound:
  assumes run: "mark_recovery_txn R lease g n execution f expected t = Inr (v, t')" and ok: "repo_ok R g t"
  shows "sound_step R g t t'"
proof -
  from run obtain prev gr current where
    ev: "event_state_in_txn R g t = Inr (Some prev)" and gr: "get_record t (graph_key R g) = Some gr" and
    fv: "find_view (es_views prev) n = Some current" and
    rest: "(if nv_status current = RECOVERY_REQUIRED
       then
         ensure (same_fence lease expected current) (ai TASK_FENCE_STALE)
           (ebind (resolve_execution (nv_execution current) execution) (\<lambda>resolved.
              ensure (nv_error current = Some (fl_error f) \<and> nv_error_digest current = Some (fl_digest f) \<and>
                      nv_execution current = resolved) (ai TASK_RESULT_CONFLICT) (Inr (current, t))))
       else
         ebind (case lease of
             None \<Rightarrow> ensure (mark_without_lease current execution expected) (ai TASK_FENCE_STALE) (Inr ())
           | Some l \<Rightarrow> require_live_lease current l (t_now t)) (\<lambda>_.
         ebind (resolve_execution (nv_execution current) execution) (\<lambda>resolved.
         ebind (make_view (marked_view current f resolved)) (\<lambda>v.
         ebind (apply_isolated R prev gr (replace_view (es_views prev) n v) t) (\<lambda>(_, t').
           Inr (v, t')))))) = Inr (v, t')"
    unfolding mark_recovery_txn_def by (simp only: ebind_eq_Inr of_option_eq_Inr projected_Inr chain) blast
  show ?thesis
  proof (cases "nv_status current = RECOVERY_REQUIRED")
    case True
    with rest have "t' = t" by (auto simp: eres)
    then show ?thesis by (simp add: sound_refl ok)
  next
    case False
    from rest obtain resolved status view where
      may: "(case lease of None \<Rightarrow> ensure (mark_without_lease current execution expected) (ai TASK_FENCE_STALE) (Inr ())
         | Some l \<Rightarrow> require_live_lease current l (t_now t)) = Inr ()" and
      re: "resolve_execution (nv_execution current) execution = Inr resolved" and
      okv: "view_ok (marked_view current f resolved)" and
      ap: "apply_graph_transition R prev gr (replace_view (es_views prev) n (marked_view current f resolved)) status t =
        Inr (view, t')"
      unfolding if_not_P [OF False] by (simp only: ebind_eq_Inr make_view_Inr apply_isolated_Inr chain) blast
    have "\<not> terminal (nv_status current)"
      using may by (auto simp: mark_without_lease_def require_live_lease_holds holds_lease_def terminal_def eres
          split: option.splits)
    then have "phase_step (phase_of current) (phase_of (marked_view current f resolved))"
      using resolve_execution_Inr [OF re] by (auto simp: phase_of_def marked_view_def intro!: phase_step.suspend)
    then have "evolves current (marked_view current f resolved)"
      using okv by (intro evolves_step) (simp_all add: marked_view_def)
    from one_view_sound [OF ev gr fv this ok _ ap] show ?thesis by simp
  qed
qed

lemma cleared_view_evolves: "cleared_view v = Inr w \<Longrightarrow> evolves v w"
proof -
  assume a: "cleared_view v = Inr w"
  show "evolves v w"
  proof (cases "nv_status v = RECOVERY_REQUIRED \<and> \<not> unbound_claim v")
    case True
    have "phase_step (phase_of v) (if nv_execution v = None then PENDING else READY, nv_fence v, nv_execution v)"
      using True by (simp add: phase_of_def phase_step.resume)
    with a True show ?thesis
      by (auto simp: cleared_view_def make_view_Inr phase_of_def intro!: evolves_step split: if_splits)
  next
    case False
    then have "cleared_view v = Inr v" unfolding cleared_view_def by (rule if_not_P)
    with a show ?thesis by auto
  qed
qed

lemma emap_evolves: "emap f vs = Inr ws \<Longrightarrow> (\<And>v w. f v = Inr w \<Longrightarrow> evolves v w) \<Longrightarrow> list_all2 evolves vs ws"
  unfolding emap_eq_Inr by (erule list_all2_mono2) simp

lemma recover_graph_sound:
  assumes run: "recover_graph_txn R g cancel_requested t = Inr (view, t')" and ok: "repo_ok R g t"
  shows "sound_step R g t t'"
proof -
  from run obtain prev gr where
    ev: "event_state_in_txn R g t = Inr (Some prev)" and gr: "get_record t (graph_key R g) = Some gr" and
    rest: "(if cancel_requested then Inr (es_graph prev, t)
            else
              ebind (emap cleared_view (es_views prev)) (\<lambda>cleared.
              ebind (reconcile cleared (definitions_dict (gv_nodes (es_graph prev))) None) (\<lambda>next_nodes.
                apply_isolated R prev gr next_nodes t))) = Inr (view, t')"
    unfolding recover_graph_txn_def by (simp only: ebind_eq_Inr ensure_eq_Inr of_option_eq_Inr chain) blast
  show ?thesis
  proof (cases cancel_requested)
    case True
    with rest ok show ?thesis by (simp add: sound_refl)
  next
    case False
    with rest obtain cleared ws status where
      c: "emap cleared_view (es_views prev) = Inr cleared" and
      r: "reconcile cleared (definitions_dict (gv_nodes (es_graph prev))) None = Inr ws" and
      ap: "apply_graph_transition R prev gr ws status t = Inr (view, t')"
      by (auto simp: ebind_eq_Inr apply_isolated_Inr)
    have "list_all2 evolves (es_views prev) ws"
      using evolves_all [OF emap_evolves [OF c cleared_view_evolves] reconcile_evolves [OF r]] .
    from transition_sound [OF ap ev gr this ok] show ?thesis .
  qed
qed

lemma requeue_recovery_sound:
  assumes run: "requeue_recovery_txn R g n expected execution next_attempt t = Inr (view, t')" and ok: "repo_ok R g t"
  shows "sound_step R g t t'"
proof -
  from run obtain prev gr v ws status where
    ev: "event_state_in_txn R g t = Inr (Some prev)" and gr: "get_record t (graph_key R g) = Some gr" and
    f: "find_view (es_views prev) n = Some v" and
    h: "\<not> (nv_status v \<noteq> RECOVERY_REQUIRED \<or> nv_fence v \<noteq> expected \<or> nv_execution v = None \<or>
      (execution \<noteq> None \<and> nv_execution v \<noteq> execution))" and
    okv: "view_ok (requeued_view v next_attempt)" and
    r: "reconcile (replace_view (es_views prev) n (requeued_view v next_attempt))
      (definitions_dict (gv_nodes (es_graph prev))) None = Inr ws" and
    ap: "apply_graph_transition R prev gr ws status t = Inr (view, t')"
    unfolding requeue_recovery_txn_def
    by (simp only: ebind_eq_Inr ensure_eq_Inr of_option_eq_Inr projected_Inr make_view_Inr apply_isolated_Inr chain) blast
  from h obtain e where "nv_status v = RECOVERY_REQUIRED" "nv_execution v = Some e" by auto
  then have "phase_step (phase_of v) (phase_of (requeued_view v next_attempt))"
    using phase_step.resume [of "nv_fence v" "Some e"] by (simp add: phase_of_def requeued_view_def)
  then have "evolves v (requeued_view v next_attempt)"
    using okv by (intro evolves_step) (simp_all add: requeued_view_def)
  from one_view_sound [OF ev gr f this ok _ ap] r show ?thesis by blast
qed

lemma scheduler_state_sound:
  assumes run: "scheduler_state_txn R g t = Inr (gs, t')" and ok: "repo_ok R g t"
  shows "sound_step R g t t'"
proof -
  from run obtain prev gr ws status view where
    ev: "event_state_in_txn R g t = Inr (Some prev)" and gr: "get_record t (graph_key R g) = Some gr" and
    r: "reconcile (es_views prev) (definitions_dict (gv_nodes (es_graph prev))) (Some (t_now t)) = Inr ws" and
    ap: "apply_graph_transition R prev gr ws status t = Inr (view, t')"
    unfolding scheduler_state_txn_def by (simp only: ebind_eq_Inr projected_Inr apply_isolated_Inr chain) blast
  from transition_sound [OF ap ev gr reconcile_evolves [OF r] ok] show ?thesis .
qed

lemma cancel_node_sound:
  assumes run: "cancel_node_txn R g n execution confirmed expected t = Inr (view, t')" and ok: "repo_ok R g t"
  shows "sound_step R g t t'"
proof -
  let ?defs = "\<lambda>prev. definitions_dict (gv_nodes (es_graph prev))"
  from run obtain prev gr v where
    ev: "event_state_in_txn R g t = Inr (Some prev)" and gr: "get_record t (graph_key R g) = Some gr" and
    f: "find_view (es_views prev) n = Some v" and
    rest: "(if terminal (nv_status v) \<or> (nv_status v = RECOVERY_REQUIRED \<and> \<not> confirmed)
            then Inr (es_graph prev, t)
            else
              ebind (if confirmed
                     then ebind (make_view (cancelled_view v)) (\<lambda>w.
                       reconcile (replace_view (es_views prev) n w) (?defs prev) None)
                     else ebind (make_view (unconfirmed_view R g v)) (\<lambda>w. Inr (replace_view (es_views prev) n w)))
                (\<lambda>next_nodes. apply_isolated R prev gr next_nodes t)) = Inr (view, t')"
    unfolding cancel_node_txn_def by (simp only: ebind_eq_Inr ensure_eq_Inr of_option_eq_Inr projected_Inr chain) blast
  show ?thesis
  proof (cases "terminal (nv_status v) \<or> (nv_status v = RECOVERY_REQUIRED \<and> \<not> confirmed)")
    case True
    with rest have "t' = t" by simp
    then show ?thesis by (simp add: sound_refl ok)
  next
    case False
    let ?w = "if confirmed then cancelled_view v else unconfirmed_view R g v"
    from rest [unfolded if_not_P [OF False]] obtain ws status where okv: "view_ok ?w" and
      ws: "ws = replace_view (es_views prev) n ?w \<or> reconcile (replace_view (es_views prev) n ?w) (?defs prev) None = Inr ws" and
      ap: "apply_graph_transition R prev gr ws status t = Inr (view, t')"
      by (cases confirmed) (auto simp: ebind_eq_Inr make_view_Inr apply_isolated_Inr)
    have "phase_step (phase_of v) (phase_of ?w)"
      using False by (auto simp: phase_of_def cancelled_view_def unconfirmed_view_def terminal_def
          intro!: phase_step.finish phase_step.suspend)
    then have "evolves v ?w" using okv by (intro evolves_step) (simp_all add: cancelled_view_def unconfirmed_view_def)
    from one_view_sound [OF ev gr f this ok ws ap] show ?thesis .
  qed
qed

lemma cancel_graph_view_evolves:
  assumes "cancel_graph_view R g defs v = Inr w"
  shows "evolves v w"
proof (cases "w = v")
  case False
  with assms have "view_ok w" "nv_id w = nv_id v" "nv_deps w = nv_deps v" "nv_fence w = nv_fence v"
      "nv_execution w = nv_execution v" "\<not> terminal (nv_status v)" "nv_status w \<in> {CANCELLED, RECOVERY_REQUIRED}"
    by (auto simp: cancel_graph_view_def eres terminal_def split: if_splits)
  then have "phase_step (phase_of v) (phase_of w)"
    by (cases "nv_status w = CANCELLED")
      (simp_all add: phase_of_def phase_step.finish phase_step.suspend terminal_def)
  with \<open>view_ok w\<close> \<open>nv_id w = nv_id v\<close> \<open>nv_deps w = nv_deps v\<close> show ?thesis by (intro evolves_step)
qed auto

lemma cancel_graph_sound:
  assumes run: "cancel_graph_txn R g t = Inr (view, t')" and ok: "repo_ok R g t"
  shows "sound_step R g t t'"
proof -
  from run obtain prev gr ws status where
    ev: "event_state_in_txn R g t = Inr (Some prev)" and gr: "get_record t (graph_key R g) = Some gr" and
    c: "emap (cancel_graph_view R g (definitions_dict (gv_nodes (es_graph prev)))) (es_views prev) = Inr ws" and
    ap: "apply_graph_transition R prev gr ws status t = Inr (view, t')"
    unfolding cancel_graph_txn_def by (simp only: ebind_eq_Inr projected_Inr chain) blast
  from transition_sound [OF ap ev gr emap_evolves [OF c cancel_graph_view_evolves] ok] show ?thesis .
qed


section \<open>Requests\<close>

text \<open>Guarding a record changes its revision only.\<close>

lemma decode_node_revision: "decode_node (r\<lparr>rec_revision := n\<rparr>) = decode_node r"
  by (simp add: decode_node_def split: domain_value.split)

lemma same_record_node:
  assumes "q\<lparr>rec_revision := 0\<rparr> = r\<lparr>rec_revision := 0\<rparr>"
  shows "decode_node q = decode_node r" and "rec_kind q = rec_kind r"
proof -
  show "decode_node q = decode_node r"
    using decode_node_revision [where r = q and n = 0] decode_node_revision [where r = r and n = 0] assms by simp
  from arg_cong [OF assms, of rec_kind] show "rec_kind q = rec_kind r" by simp
qed

lemma guard_sound:
  assumes gd: "guard_record k (rec_revision r) t = Inr (Some q, t')" and r: "get_record t k = Some r" and ok: "repo_ok R g t"
  shows "sound_step R g t t'"
proof -
  obtain r1 where g: "txn_ok t'" "get_record t' = (get_record t)(k \<mapsto> r1)" "r1\<lparr>rec_revision := 0\<rparr> = r\<lparr>rec_revision := 0\<rparr>"
      "t_facts t' = t_facts t" "t_sequences t' = t_sequences t"
    using guard_graph_effect [OF gd r repo_okD(1) [OF ok]] by blast
  have "node_at t' j v" if "node_at t j v" for j v
    using that same_record_node [OF g(3)] r by (auto simp: node_at_def g(2))
  then have "moves t t'" by (rule moves_same)
  with g(1) log_gapless_cong [OF g(4,5)] columns_guard [OF gd r repo_okD(1,3) [OF ok]] repo_okD(2) [OF ok]
  show ?thesis by (simp add: sound_step_def repo_ok_def)
qed

lemma sound_trans: "sound_step R g t t1 \<Longrightarrow> sound_step R g t1 t2 \<Longrightarrow> sound_step R g t t2"
  unfolding sound_step_def moves_def by (meson rtranclp_trans)

lemma publish_prepared_sound:
  assumes run: "publish_prepared_txn R lease p t = Inr (q, t')" and ok: "repo_ok R (ls_graph lease) t"
  shows "sound_step R (ls_graph lease) t t'"
proof -
  let ?g = "ls_graph lease" and ?n = "ls_node lease"
  let ?new = "project_record R ''task_prepared_input'' (pair_ident ?g ?n) (Prepared p) None (Some (prepared_parent R ?g)) None"
  from run obtain gr sr where gr: "get_record t (graph_key R ?g) = Some gr" and sr: "get_record t (state_key R ?g ?n) = Some sr" and
    vg: "validate_graph_record R gr ?g = Inr ()" and vs: "validate_state_record R sr ?g ?n = Inr ()" and
    rest: "(case get_record t (prepared_key R ?g ?n) of
             Some existing_record \<Rightarrow>
               ebind (validate_prepared_record R existing_record ?g ?n) (\<lambda>_.
               ebind (decode_prepared existing_record) (\<lambda>existing.
               ebind (reuse_prepared existing p) (\<lambda>q. Inr (q, t))))
           | None \<Rightarrow>
               ebind (guard_record (graph_key R ?g) (rec_revision gr) t) (\<lambda>(g1, t1).
                 ensure (g1 \<noteq> None) (ai TASK_FENCE_STALE)
                   (ebind (guard_record (state_key R ?g ?n) (rec_revision sr) t1) (\<lambda>(g2, t2).
                      ensure (g2 \<noteq> None) (ai TASK_FENCE_STALE)
                        (ebind (insert_record ?new t2) (\<lambda>(_, t3). Inr (p, t3))))))) = Inr (q, t')"
    unfolding publish_prepared_txn_def Let_def
    by (simp only: ebind_eq_Inr ensure_eq_Inr of_option_eq_Inr chain) blast
  show ?thesis
  proof (cases "get_record t (prepared_key R ?g ?n)")
    case (Some e)
    with rest have "t' = t" by (auto simp: eres)
    then show ?thesis by (simp add: sound_refl ok)
  next
    case None
    with rest obtain g1 t1 g2 t2 where
      a: "guard_record (graph_key R ?g) (rec_revision gr) t = Inr (Some g1, t1)" and
      b: "guard_record (state_key R ?g ?n) (rec_revision sr) t1 = Inr (Some g2, t2)" and
      c: "insert_records [?new] t2 = Inr ((), t')"
      by (auto simp: ebind_eq_Inr ensure_eq_Inr insert_record_def)
    note s1 = guard_sound [OF a gr ok]
    then have ok1: "repo_ok R ?g t1" by (simp add: sound_step_def)
    have "graph_key R ?g \<noteq> state_key R ?g ?n" using gr sr vg vs by (auto simp: validate_graph_record_def eres)
    then have "get_record t1 (state_key R ?g ?n) = Some sr"
      using quiet_guard(2) [OF a gr repo_okD(1) [OF ok]] sr by simp
    note s2 = guard_sound [OF b this ok1]
    then have ok2: "repo_ok R ?g t2" by (simp add: sound_step_def)
    have "node_at t' k v" if "node_at t2 k v" for k v
      using that insert_records_keep [OF c] by (auto simp: node_at_def)
    then have "moves t2 t'" by (rule moves_same)
    moreover have "quiet t2 t'" using quiet_insert_records [OF c repo_okD(1) [OF ok2]] .
    moreover have "columns_agree t'"
      by (rule columns_insert [OF c repo_okD(3) [OF ok2]]) (simp add: column_ok_kind project_record_def Let_def)
    ultimately have "sound_step R ?g t2 t'"
      using quiet_ok quiet_log repo_okD(2) [OF ok2] by (auto simp: sound_step_def repo_ok_def)
    with s1 s2 show ?thesis by (blast intro: sound_trans)
  qed
qed

lemma append_operation_effect:
  assumes "append_operation R v t = Inr (x, t')" and "collision_free (rp_sha R)" and "txn_ok t"
  shows "t_records t' = t_records t \<and> t_facts t' = t_facts t \<and> txn_ok t' \<and>
    get_sequence t' (log_sequence R g) = get_sequence t (log_sequence R g)"
proof -
  let ?k = "sequence_key (rp_sha R) (rp_ns R) (rp_tenant R) (rp_domain R) ''operation''
      (JList [JStr (resource_value (oi_resource_kind v)), JStr (oi_resource v)])"
  let ?t = "\<lambda>n. put_sequence ?k n t"
  have k: "log_sequence R g \<noteq> ?k" using assms(2) by (simp add: log_sequence_def event_sequence_def)
  consider "t' = t" | n m where "put_operation R v m (?t n) = Inr ((), t')"
    using assms(1) unfolding append_operation_def reserve_operation_def next_sequence_def Let_def
    by (auto simp: ebind_eq_Inr ensure_eq_Inr split: option.splits)
  then show ?thesis
  proof cases
    case (2 n m)
    have "txn_ok t'"
      using 2 txn_ok_insert_operation txn_ok_put_sequence [OF assms(3)] unfolding put_operation_def by blast
    with 2 k show ?thesis
      by (auto simp: put_operation_def insert_operation_eq set_operation_at_def put_sequence_def get_sequence_def)
  qed (simp add: assms(3))
qed

lemma register_cancel_sound:
  assumes run: "register_cancel_txn R v t = Inr (x, t')" and ok: "repo_ok R (oi_resource v) t"
    and free: "collision_free (rp_sha R)"
  shows "sound_step R (oi_resource v) t t'"
proof -
  let ?k = "graph_key R (oi_resource v)"
  from run obtain r q t1 where r: "get_record t ?k = Some r" and gd: "guard_record ?k (rec_revision r) t = Inr (Some q, t1)" and
    ap: "append_operation R v t1 = Inr (x, t')"
    unfolding register_cancel_txn_def Let_def by (auto simp: ebind_eq_Inr ensure_eq_Inr of_option_eq_Inr)
  note s1 = guard_sound [OF gd r ok]
  then have ok1: "repo_ok R (oi_resource v) t1" by (simp add: sound_step_def)
  have "t_records t' = t_records t1 \<and> t_facts t' = t_facts t1 \<and> txn_ok t' \<and>
      get_sequence t' (log_sequence R (oi_resource v)) = get_sequence t1 (log_sequence R (oi_resource v))"
    using append_operation_effect [OF ap free repo_okD(1) [OF ok1]] .
  then have same: "get_record t' = get_record t1" "txn_ok t'" "log_gapless R (oi_resource v) t' = log_gapless R (oi_resource v) t1"
    by (auto simp: get_record_def [abs_def] log_gapless_def stream_gapless_def log_length_def get_fact_def)
  then have "moves t1 t'" by (intro moves_same) (simp add: node_at_def)
  with same columns_same [OF same(1)] ok1 have "sound_step R (oi_resource v) t1 t'"
    by (simp add: sound_step_def repo_ok_def)
  with s1 show ?thesis by (rule sound_trans)
qed


section \<open>Committed steps\<close>

text \<open>One operation on a graph, committed by the store.\<close>

inductive store_step :: "repo \<Rightarrow> string \<Rightarrow> task_store \<Rightarrow> task_store \<Rightarrow> bool" for R where
  claimed: "mem_mutate now (claim_txn R g n tenant owner seconds) m = (Inr l, m') \<Longrightarrow> store_step R g m m'"
| renewed: "mem_mutate now (renew_txn R lease seconds clock) m = (Inr l, m') \<Longrightarrow> store_step R (ls_graph lease) m m'"
| bound: "mem_mutate now (bind_execution_txn R lease e) m = (Inr v, m') \<Longrightarrow> store_step R (ls_graph lease) m m'"
| handed: "mem_mutate now (handoff_txn R lease e occupies) m = (Inr v, m') \<Longrightarrow> store_step R (ls_graph lease) m m'"
| retried: "mem_mutate now (requeue_retry_txn R lease e next_attempt) m = (Inr v, m') \<Longrightarrow>
    store_step R (ls_graph lease) m m'"
| waited: "mem_mutate now (requeue_waiting_txn R g n fence e next_attempt) m = (Inr v, m') \<Longrightarrow> store_step R g m m'"
| published: "mem_mutate now (publish_prepared_txn R lease p) m = (Inr q, m') \<Longrightarrow> store_step R (ls_graph lease) m m'"
| completed: "mem_mutate now (complete_txn R lease_opt g n eo result expanded expected) m = (Inr r, m') \<Longrightarrow>
    store_step R g m m'"
| failed: "mem_mutate now (fail_txn R lease_opt g n eo f expected) m = (Inr r, m') \<Longrightarrow> store_step R g m m'"
| marked: "mem_mutate now (mark_recovery_txn R lease_opt g n eo f expected) m = (Inr v, m') \<Longrightarrow> store_step R g m m'"
| recovered: "mem_mutate now (recover_graph_txn R g cancel_requested) m = (Inr view, m') \<Longrightarrow> store_step R g m m'"
| requeued: "mem_mutate now (requeue_recovery_txn R g n fence eo attempt) m = (Inr view, m') \<Longrightarrow> store_step R g m m'"
| reconciled: "mem_mutate now (scheduler_state_txn R g) m = (Inr gs, m') \<Longrightarrow> store_step R g m m'"
| node_cancelled: "mem_mutate now (cancel_node_txn R g n e confirmed expected) m = (Inr view, m') \<Longrightarrow> store_step R g m m'"
| graph_cancelled: "mem_mutate now (cancel_graph_txn R g) m = (Inr view, m') \<Longrightarrow> store_step R g m m'"
| cancel_requested: "mem_mutate now (register_cancel_txn R v) m = (Inr x, m') \<Longrightarrow> store_step R (oi_resource v) m m'"

text \<open>Any number of operations, on any graphs.\<close>

inductive runs :: "repo \<Rightarrow> task_store \<Rightarrow> task_store \<Rightarrow> bool" for R where
  none: "runs R m m"
| more: "runs R m m' \<Longrightarrow> store_step R g m' m'' \<Longrightarrow> runs R m m''"

definition store_ok :: "repo \<Rightarrow> task_store \<Rightarrow> bool" where
  "store_ok R m \<longleftrightarrow> mem_ok m \<and> columns_agree (begin_txn 0 m) \<and> (\<forall>g. log_gapless R g (begin_txn 0 m))"

definition node_in :: "task_store \<Rightarrow> bytes \<Rightarrow> node_view \<Rightarrow> bool" where
  "node_in m = node_at (begin_txn 0 m)"

lemma log_gapless_lookups:
  assumes "\<And>i. get_fact t' (log_stream R g) i = get_fact t (log_stream R g) i"
    and "get_sequence t' (log_sequence R g) = get_sequence t (log_sequence R g)"
  shows "log_gapless R g t' = log_gapless R g t"
  using assms by (simp add: log_gapless_def stream_gapless_def log_length_def)

lemma repo_ok_begin: "store_ok R m \<Longrightarrow> repo_ok R g (begin_txn now m)"
proof -
  assume ok: "store_ok R m"
  then have "txn_ok (begin_txn now m)" using txn_ok_begin [of now m 0] by (simp add: store_ok_def mem_ok_def)
  moreover have "log_gapless R g (begin_txn now m) = log_gapless R g (begin_txn 0 m)"
    by (rule log_gapless_lookups) (simp_all add: get_fact_def get_sequence_def)
  moreover have "columns_agree (begin_txn now m) = columns_agree (begin_txn 0 m)" by (rule columns_same) simp
  ultimately show ?thesis using ok by (simp add: store_ok_def repo_ok_def)
qed

lemma committed_sound:
  assumes run: "mem_mutate now fn m = (Inr x, m')" and ok: "store_ok R m"
    and sound: "\<And>t'. fn (begin_txn now m) = Inr (x, t') \<Longrightarrow> sound_step R g (begin_txn now m) t'"
    and framed: "yields (framed R g (begin_txn now m)) (fn (begin_txn now m))"
  shows "store_ok R m' \<and> moves (begin_txn 0 m) (begin_txn 0 m')"
proof -
  from run obtain t where t: "fn (begin_txn now m) = Inr (x, t)" and m': "m' = apply_transaction t m"
    by (auto simp: mem_mutate_def split: sum.splits prod.splits option.splits)
  have fr: "framed R g (begin_txn now m) t" using framed t by (simp add: yields_def)
  have st: "repo_ok R g t" "moves (begin_txn now m) t" using sound [OF t] by (simp_all add: sound_step_def)
  have over: "txn_over m t"
    using fr txn_over_begin [of m now] by (simp add: framed_def same_base_def txn_over_def)
  note get = apply_transaction_get [OF repo_okD(1) [OF st(1)] over]
  have rec': "get_record (begin_txn 0 m') = get_record t" and fact: "get_fact (begin_txn 0 m') = get_fact t"
    and seq: "get_sequence (begin_txn 0 m') = get_sequence t"
    using get by (simp_all add: m' get_fact_def [abs_def] get_sequence_def [abs_def])
  have "log_gapless R g' (begin_txn 0 m')" for g'
  proof (cases "g' = g")
    case True
    with repo_okD(2) [OF st(1)] log_gapless_lookups fact seq show ?thesis by metis
  next
    case False
    with fr have "log_gapless R g' t = log_gapless R g' (begin_txn now m)"
      by (intro log_gapless_lookups) (simp_all add: framed_def)
    with repo_ok_begin [OF ok, of g' now] log_gapless_lookups [of "begin_txn 0 m'" R g' t] fact seq show ?thesis
      by (simp add: repo_ok_def)
  qed
  moreover have "columns_agree (begin_txn 0 m')" using columns_same [OF rec'] repo_okD(3) [OF st(1)] by simp
  moreover have "mem_ok m'"
    unfolding m' using ok by (intro mem_ok_apply repo_okD(1) [OF st(1)] over) (simp add: store_ok_def)
  moreover have "moves (begin_txn 0 m) (begin_txn 0 m')"
    using st(2) by (simp only: moves_def node_at_def rec' begin_txn_get(1) [of now m] begin_txn_get(1) [of 0 m])
  ultimately show ?thesis by (simp add: store_ok_def)
qed

lemmas op_sound = claim_sound renew_sound bind_execution_sound handoff_sound requeue_retry_sound requeue_waiting_sound
  publish_prepared_sound complete_sound fail_sound mark_recovery_sound recover_graph_sound requeue_recovery_sound
  scheduler_state_sound cancel_node_sound cancel_graph_sound register_cancel_sound

lemmas op_framed = claim_framed renew_framed bind_execution_framed handoff_framed requeue_retry_framed
  requeue_waiting_framed publish_prepared_framed complete_framed fail_framed mark_recovery_framed
  recover_graph_framed requeue_recovery_framed scheduler_state_framed cancel_node_framed cancel_graph_framed
  register_cancel_framed

lemma store_step_sound:
  assumes "store_step R g m m'" and ok: "store_ok R m" and free: "collision_free (rp_sha R)"
  shows "store_ok R m' \<and> moves (begin_txn 0 m) (begin_txn 0 m')"
  using assms(1)
  by cases
    (hypsubst_thin?, erule committed_sound [OF _ ok],
      (erule op_sound | rule op_framed free repo_ok_begin [OF ok] | assumption)+)+

section \<open>Runs\<close>

lemma runs_sound:
  assumes "runs R m m'" and "store_ok R m" and "collision_free (rp_sha R)"
  shows "store_ok R m' \<and> moves (begin_txn 0 m) (begin_txn 0 m')"
  using assms(1,2)
proof (induction rule: runs.induct)
  case (none m)
  then show ?case by (simp add: moves_refl)
next
  case (more m m' g m'')
  then have "store_ok R m'" "moves (begin_txn 0 m) (begin_txn 0 m')" by simp_all
  with store_step_sound [OF more.hyps(2) _ assms(3)] show ?case
    unfolding moves_def by (meson rtranclp_trans)
qed

lemma runs_node:
  assumes "runs R m m'" and "store_ok R m" and "collision_free (rp_sha R)" and "node_in m k v"
  obtains w where "node_in m' k w" "phase_steps (phase_of v) (phase_of w)"
  using runs_sound [OF assms(1-3)] assms(4) unfolding moves_def node_in_def by blast

end
