(* ===== verification/Task_Status.thy ===== *)
theory Task_Status
  imports Task_Terminal_Facts Task_Transition
begin

text \<open>
  \<open>complete\<close> and \<open>fail\<close> read only the definitions that the status of the graph can depend on.
  \<open>terminal_status_full\<close> shows that the status they compute is the one of the full projection.
\<close>

lemma any_propagated_known:
  "\<forall>v\<in>set vs. nv_status v = s \<longrightarrow> policies (nv_id v) \<noteq> None \<Longrightarrow>
    any_propagated s policies vs = Inr (\<exists>v\<in>set vs. nv_status v = s \<and> policies (nv_id v) = Some Propagate)"
  by (induction vs) (auto split: option.splits failure_policy.splits)

text \<open>Only the policies of failed and blocked nodes are looked up.\<close>

lemma aggregate_status_cong:
  assumes same: "(\<lambda>v. (nv_id v, nv_status v)) ` set vs = (\<lambda>v. (nv_id v, nv_status v)) ` set ws"
    and known: "\<And>v. v \<in> set vs \<Longrightarrow> nv_status v \<in> {FAILED, BLOCKED} \<Longrightarrow> p (nv_id v) \<noteq> None \<and> p (nv_id v) = q (nv_id v)"
  shows "aggregate_status vs p = aggregate_status ws q"
proof -
  have ex: "(\<exists>v\<in>set vs. P (nv_id v) (nv_status v)) \<longleftrightarrow> (\<exists>v\<in>set ws. P (nv_id v) (nv_status v))" for P
  proof -
    have "(\<exists>x\<in>(\<lambda>v. (nv_id v, nv_status v)) ` set vs. P (fst x) (snd x)) \<longleftrightarrow>
        (\<exists>x\<in>(\<lambda>v. (nv_id v, nv_status v)) ` set ws. P (fst x) (snd x))" by (simp only: same)
    then show ?thesis by simp
  qed
  have st: "s \<in> set (map nv_status vs) \<longleftrightarrow> s \<in> set (map nv_status ws)" for s
  proof -
    have "s \<in> set (map nv_status us) \<longleftrightarrow> (\<exists>v\<in>set us. nv_status v = s)" for us :: "node_view list" by auto
    with ex [of "\<lambda>_ t. t = s"] show ?thesis by simp
  qed
  have kv: "\<forall>v\<in>set vs. nv_status v = s \<longrightarrow> p (nv_id v) \<noteq> None" if "s \<in> {FAILED, BLOCKED}" for s
    using known that by blast
  have kw: "\<forall>v\<in>set ws. nv_status v = s \<longrightarrow> q (nv_id v) \<noteq> None" if "s \<in> {FAILED, BLOCKED}" for s
  proof -
    have "\<not> (\<exists>v\<in>set vs. nv_status v = s \<and> q (nv_id v) = None)" using known that by force
    then have "\<not> (\<exists>v\<in>set ws. nv_status v = s \<and> q (nv_id v) = None)"
      using ex [of "\<lambda>i t. t = s \<and> q i = None"] by simp
    then show ?thesis by simp
  qed
  have any: "any_propagated s p vs = any_propagated s q ws" if s: "s \<in> {FAILED, BLOCKED}" for s
  proof -
    have "(\<exists>v\<in>set vs. nv_status v = s \<and> p (nv_id v) = Some Propagate) \<longleftrightarrow>
        (\<exists>v\<in>set vs. nv_status v = s \<and> q (nv_id v) = Some Propagate)" using known s by force
    with ex [of "\<lambda>i t. t = s \<and> q i = Some Propagate"] show ?thesis
      unfolding any_propagated_known [OF kv [OF s]] any_propagated_known [OF kw [OF s]] by simp
  qed
  show ?thesis
    unfolding aggregate_status_def Let_def st any [of FAILED, simplified] any [of BLOCKED, simplified] by simp
qed

lemma policy_of_subset:
  assumes "set ds \<subseteq> set es" and "distinct (map tn_id es)" and "i \<in> tn_id ` set ds"
  shows "policy_of ds i \<noteq> None \<and> policy_of ds i = policy_of es i"
proof -
  have known: "policy_of ds i \<noteq> None" using policy_of_known [of i ds] assms(3) by simp
  then obtain x where x: "policy_of ds i = Some x" by auto
  then obtain d where d: "d \<in> set ds" "tn_id d = i" "tn_failure d = x"
    by (auto simp: policy_of_def dest!: map_of_SomeD)
  have "distinct (map fst (rev (map (\<lambda>n. (tn_id n, tn_failure n)) es)))"
    using assms(2) by (simp add: rev_map [symmetric] comp_def)
  then have "policy_of es i = Some x"
    unfolding policy_of_def using d assms(1) by (intro map_of_is_SomeI) auto
  with x known show ?thesis by simp
qed

text \<open>The two projections hold the same nodes in the same states.\<close>

lemma read_definition_Inr:
  "read_definition R g t i = Inr d \<Longrightarrow>
    \<exists>r. get_record t (definition_key R g i) = Some r \<and> reads_definition R g r d"
  by (auto simp: read_definition_def reads_definition_def eres)

lemma terminal_views_agree:
  assumes ts: "terminal_state R gr g n t = Inr p" and es: "event_state_in_txn R g t = Inr (Some s)" and ok: "txn_ok t"
  shows "(\<lambda>v. (nv_id v, nv_status v)) ` set (es_views p) = (\<lambda>v. (nv_id v, nv_status v)) ` set (es_views s)"
    and "set (gv_nodes (es_graph p)) \<subseteq> set (gv_nodes (es_graph s))"
    and "v \<in> set (es_views p) \<Longrightarrow> nv_status v \<in> {FAILED, BLOCKED} \<or> nv_id v = n \<Longrightarrow>
      nv_id v \<in> tn_id ` set (gv_nodes (es_graph p))"
proof -
  let ?q = "node_query (state_parent R g) ''task_node_state''"
  from event_state_graph [OF es ok] have pj: "projects R g t (gv_nodes (es_graph s)) (es_views s)" by metis
  from terminal_state_Inr [OF ts] obtain header states nodes and d :: task_node where
    st: "emap (read_state R g) (list_records ?q t) = Inr states" and
    nd: "emap (read_definition R g t) (relevant_ids n states) = Inr nodes" and
    w: "with_target_deps n (tn_deps d) states = Inr (es_views p)" and
    gn: "es_graph p = header\<lparr>gv_nodes := nodes\<rparr>" by metis
  have rs: "read_state R g r = Inr v \<longleftrightarrow> reads_state R g r v \<and> nv_deps v = []" for r v
  proof
    assume "read_state R g r = Inr v"
    then have "decode_node r = Inr v" "validate_state_record R r g (nv_id v) = Inr ()"
      by (auto simp: read_state_def ebind_eq_Inr)
    with decode_no_deps [OF this(1)] show "reads_state R g r v \<and> nv_deps v = []" by (simp add: reads_state_def)
  next
    assume a: "reads_state R g r v \<and> nv_deps v = []"
    with no_deps [of v] show "read_state R g r = Inr v" by (simp add: reads_state_def read_state_def)
  qed
  have pairs: "map (\<lambda>v. (nv_id v, nv_status v)) (es_views p) = map (\<lambda>v. (nv_id v, nv_status v)) states"
    by (rule list_all2_map_eq) (rule list_all2_mono [OF with_target_deps_Inr [OF w]], auto)
  have a: "\<exists>v\<in>set (es_views s). nv_id v = nv_id u \<and> nv_status v = nv_status u" if "u \<in> set states" for u
  proof -
    from emap_set [OF st] that obtain r where r: "r \<in> set (list_records ?q t)" "reads_state R g r u" by (auto simp: rs)
    then have "get_record t (rec_key r) = Some r" "graph_node R g r"
      using set_node_query [OF ok] matches_state by auto
    from projectsD(6) [OF pj this] obtain v where "v \<in> set (es_views s)" "reads_state R g r v" by blast
    with reads_state_unique [OF r(2)] have "v\<lparr>nv_deps := []\<rparr> = u\<lparr>nv_deps := []\<rparr>" by simp
    then show ?thesis using \<open>v \<in> set (es_views s)\<close> by (intro bexI [of _ v]) (cases u, cases v, simp_all)
  qed
  have b: "\<exists>u\<in>set states. nv_id u = nv_id v \<and> nv_status u = nv_status v" if v: "v \<in> set (es_views s)" for v
  proof -
    from projectsD(7) [OF pj v] obtain r where r: "get_record t (state_key R g (nv_id v)) = Some r" "reads_state R g r v" by blast
    with reads_state_key [OF r(2)] have "r \<in> set (list_records ?q t)" using set_node_query [OF ok] matches_state by auto
    moreover have "read_state R g r = Inr (v\<lparr>nv_deps := []\<rparr>)" using r(2) by (simp add: rs)
    ultimately have "v\<lparr>nv_deps := []\<rparr> \<in> set states" using emap_set [OF st] by blast
    then show ?thesis by (intro bexI [of _ "v\<lparr>nv_deps := []\<rparr>"]) simp_all
  qed
  have sets: "(\<lambda>v. (nv_id v, nv_status v)) ` set (es_views p) = (\<lambda>v. (nv_id v, nv_status v)) ` set states"
    using arg_cong [OF pairs, of set] by simp
  show "(\<lambda>v. (nv_id v, nv_status v)) ` set (es_views p) = (\<lambda>v. (nv_id v, nv_status v)) ` set (es_views s)"
    unfolding sets using a b by (auto simp: image_iff) metis+
  show sub: "set (gv_nodes (es_graph p)) \<subseteq> set (gv_nodes (es_graph s))"
  proof
    fix e assume "e \<in> set (gv_nodes (es_graph p))"
    with emap_set [OF nd, of e] gn obtain i where "read_definition R g t i = Inr e" by auto
    from read_definition_Inr [OF this] obtain r where r: "get_record t (definition_key R g i) = Some r" "reads_definition R g r e" by blast
    with txn_ok_record_key [OF ok r(1)] have "get_record t (rec_key r) = Some r" by simp
    from projectsD(4) [OF pj this] reads_definition_key [OF r(2)] obtain e' where
      "e' \<in> set (gv_nodes (es_graph s))" "reads_definition R g r e'" by blast
    with reads_definition_unique [OF r(2)] show "e \<in> set (gv_nodes (es_graph s))" by blast
  qed
  show "nv_id v \<in> tn_id ` set (gv_nodes (es_graph p))"
    if v: "v \<in> set (es_views p)" "nv_status v \<in> {FAILED, BLOCKED} \<or> nv_id v = n"
  proof -
    have "(nv_id v, nv_status v) \<in> (\<lambda>v. (nv_id v, nv_status v)) ` set states" using v(1) sets by blast
    then obtain u where u: "u \<in> set states" "nv_id u = nv_id v" "nv_status u = nv_status v" by auto
    have "nv_id v \<in> set (relevant_ids n states)"
    proof (cases "nv_id v = n")
      case False
      with u v(2) have "nv_id v \<in> nv_id ` {u \<in> set states. nv_status u \<in> {FAILED, BLOCKED}}"
        by (intro image_eqI [of _ _ u]) auto
      then show ?thesis by (simp add: relevant_ids_def)
    qed (simp add: relevant_ids_def)
    from emap_ex [OF nd this] obtain e where e: "read_definition R g t (nv_id v) = Inr e" by blast
    have "e \<in> set nodes" using emap_set [OF nd] \<open>nv_id v \<in> set (relevant_ids n states)\<close> e by blast
    from read_definition_Inr [OF e] obtain r where r: "get_record t (definition_key R g (nv_id v)) = Some r" "reads_definition R g r e" by blast
    from a [OF u(1)] u(2) obtain v' where "v' \<in> set (es_views s)" "nv_id v' = nv_id v" by metis
    with projectsD(8) [OF pj] obtain e' where e': "e' \<in> set (gv_nodes (es_graph s))" "tn_id e' = nv_id v" by metis
    from projectsD(5) [OF pj e'(1)] e'(2) r have "reads_definition R g r e'" by auto
    with reads_definition_unique [OF r(2)] e'(2) have "tn_id e = nv_id v" by blast
    with \<open>e \<in> set nodes\<close> gn show ?thesis by force
  qed
qed

theorem terminal_status_full:
  assumes ts: "terminal_state R gr g n t = Inr p" and es: "event_state_in_txn R g t = Inr (Some s)" and ok: "txn_ok t"
    and id: "nv_id w = n"
  shows "aggregate_status (replace_view (es_views p) n w) (policy_of (gv_nodes (es_graph p))) =
    isolated_status (replace_view (es_views s) n w) (gv_nodes (es_graph s))"
proof -
  note agree = terminal_views_agree [OF ts es ok]
  from event_state_graph [OF es ok] have pj: "projects R g t (gv_nodes (es_graph s)) (es_views s)" by metis
  have ids: "map nv_id (replace_view vs n w) = map nv_id vs" for vs using id by (auto simp: replace_view_def)
  have rep: "(\<lambda>v. (nv_id v, nv_status v)) ` set (replace_view vs n w) =
      (\<lambda>(i, s). (i, if i = n then nv_status w else s)) ` (\<lambda>v. (nv_id v, nv_status v)) ` set vs" for vs
  proof -
    have "(\<lambda>u. (nv_id u, nv_status u)) (if nv_id v = n then w else v) =
      (\<lambda>(i, s). (i, if i = n then nv_status w else s)) (nv_id v, nv_status v)" for v :: node_view
      using id by (cases "nv_id v = n") simp_all
    then show ?thesis by (simp only: replace_view_def set_map image_image)
  qed
  have "aggregate_status (replace_view (es_views p) n w) (policy_of (gv_nodes (es_graph p))) =
      aggregate_status (replace_view (es_views s) n w) (policy_of (gv_nodes (es_graph s)))"
  proof (rule aggregate_status_cong)
    show "(\<lambda>v. (nv_id v, nv_status v)) ` set (replace_view (es_views p) n w) =
      (\<lambda>v. (nv_id v, nv_status v)) ` set (replace_view (es_views s) n w)"
      unfolding rep agree(1) ..
    fix v assume v: "v \<in> set (replace_view (es_views p) n w)" "nv_status v \<in> {FAILED, BLOCKED}"
    then obtain u where u: "u \<in> set (es_views p)" "nv_id u = nv_id v" "nv_id u = n \<or> u = v"
      using id by (auto simp: replace_view_def split: if_splits)
    with agree(3) [OF u(1)] v(2) have "nv_id v \<in> tn_id ` set (gv_nodes (es_graph p))" by auto
    then have "policy_of (gv_nodes (es_graph p)) (nv_id v) \<noteq> None \<and>
      policy_of (gv_nodes (es_graph p)) (nv_id v) = policy_of (gv_nodes (es_graph s)) (nv_id v)"
      using projectsD(1,2) [OF pj] by (intro policy_of_subset [OF agree(2)]) simp_all
    then show "policy_of (gv_nodes (es_graph p)) (nv_id v) \<noteq> None \<and>
      policy_of (gv_nodes (es_graph p)) (nv_id v) = policy_of (gv_nodes (es_graph s)) (nv_id v)" .
  qed
  moreover have "set (map tn_id (gv_nodes (es_graph s))) = set (map nv_id (replace_view (es_views s) n w))"
    using projectsD(1) [OF pj] ids by simp
  ultimately show ?thesis by (simp add: isolated_status_def)
qed

end
