(* ===== verification/Task_Outcomes.thy ===== *)
theory Task_Outcomes
  imports Task_Runs Task_Status
begin

text \<open>
  What the control operations make of a graph: recovery, cancellation and the polling of the
  scheduler, each read off the projection after the operation (\<open>transition_refines\<close>).
\<close>

section \<open>The status of a graph is canonical\<close>

lemma cancelled_canonical: "s \<notin> {READY, WAITING} \<Longrightarrow> cancelled_status s vs \<notin> {READY, WAITING}"
  by (simp add: cancelled_status_def)

section \<open>The projection after a transition\<close>

lemma transition_state:
  assumes run: "apply_graph_transition R prev gr ws status t = Inr (view, t')"
    and ev: "event_state_in_txn R g t = Inr (Some prev)" and gr: "get_record t (graph_key R g) = Some gr"
    and evo: "list_all2 evolves (es_views prev) ws" and canonical: "status \<notin> {READY, WAITING}"
    and ok: "txn_ok t" "log_gapless R g t"
  shows "event_state_in_txn R g t' = Inr (Some \<lparr>es_graph = (es_graph prev)\<lparr>gv_status := status\<rparr>, es_views = ws\<rparr>)"
    and "\<exists>r. get_record t' (graph_key R g) = Some r \<and> rec_state r = Some (status_value status)"
    and "view = (es_graph prev)\<lparr>gv_status := status\<rparr>" and "txn_ok t'" and "log_gapless R g t'" and "t_now t' = t_now t"
proof -
  note frames = same_frames_evolves [OF evo event_state_views_ok(1) [OF ev ok(1)]]
  note tr = apply_graph_transition_records [OF run ev gr frames ok]
  show "event_state_in_txn R g t' = Inr (Some \<lparr>es_graph = (es_graph prev)\<lparr>gv_status := status\<rparr>, es_views = ws\<rparr>)"
    by (rule transition_refines [OF run ev gr frames canonical ok])
  show "\<exists>r. get_record t' (graph_key R g) = Some r \<and> rec_state r = Some (status_value status)"
    using transitionedD(4) [OF tr(1)] by blast
  show "view = (es_graph prev)\<lparr>gv_status := status\<rparr>" "txn_ok t'" "log_gapless R g t'" "t_now t' = t_now t"
    using tr transitionedD [OF tr(1)] by blast+
qed

text \<open>A transition to the state that is stored writes nothing.\<close>

lemma no_changes: "transition_changes vs vs = []"
  by (simp add: transition_changes_def zip_same_conv_map filter_map comp_def)

lemma transition_nothing:
  assumes "rec_state gr = Some (status_value (gv_status (es_graph s)))"
  shows "apply_graph_transition R s gr (es_views s) (gv_status (es_graph s)) t = Inr (es_graph s, t)"
  using assms
  by (simp add: apply_graph_transition_def Let_def no_changes transition_drafts_def graph_drafts_def
      get_records_def replace_all_def append_events_def)

section \<open>Polling\<close>

lemma definition_deps:
  assumes "reads_definition R g r d"
  shows "distinct (tn_deps d)"
proof -
  from assms obtain n where n: "init_node n = Inr d"
    by (auto simp: reads_definition_def decode_definition_def integrity_Inr split: domain_value.splits)
  with init_node_Inr [OF n] init_node_ok [OF n] show ?thesis by (simp add: node_identity_ok_def)
qed

lemma projected_deps:
  assumes "projects R g t nodes views" and "v \<in> set views"
  shows "distinct (nv_deps v)"
  using projectsD(5,8) [OF assms(1)] assms(2) definition_deps by metis

theorem scheduler_again:
  assumes run: "scheduler_state_txn R g t = Inr (gs, t')" and ok: "txn_ok t" "log_gapless R g t"
  shows "scheduler_state_txn R g t' = Inr (gs, t')"
proof -
  from run obtain prev gr ws status applied where
    ev: "event_state_in_txn R g t = Inr (Some prev)" and gr: "get_record t (graph_key R g) = Some gr" and
    r: "reconcile (es_views prev) (definitions_dict (gv_nodes (es_graph prev))) (Some (t_now t)) = Inr ws" and
    st: "isolated_status ws (gv_nodes (es_graph prev)) = Inr status" and
    ap: "apply_graph_transition R prev gr ws status t = Inr (applied, t')" and
    gs: "graph_state_from_projection R t' \<lparr>es_graph = applied, es_views = ws\<rparr> = Inr gs"
    unfolding scheduler_state_txn_def by (simp only: ebind_eq_Inr projected_Inr apply_isolated_Inr chain) blast
  let ?graph = "(es_graph prev)\<lparr>gv_status := status\<rparr>"
  let ?s = "\<lparr>es_graph = ?graph, es_views = ws\<rparr>"
  note tr = transition_state [OF ap ev gr reconcile_evolves [OF r] isolated_status_canonical [OF st] ok]
  from tr(2) obtain gr' where gr': "get_record t' (graph_key R g) = Some gr'" "rec_state gr' = Some (status_value status)"
    by blast
  from event_state_graph [OF ev ok(1)] have "projects R g t (gv_nodes (es_graph prev)) (es_views prev)" by metis
  then have "\<forall>v\<in>set (es_views prev). distinct (nv_deps v)" using projected_deps by blast
  from reconcile_idempotent [OF r this] have again:
    "reconcile ws (definitions_dict (gv_nodes (es_graph prev))) (Some (t_now t')) = Inr ws" by (simp add: tr(6))
  have "apply_graph_transition R ?s gr' ws status t' = Inr (?graph, t')"
    using transition_nothing [of gr' ?s R t'] gr'(2) by simp
  then have "apply_isolated R ?s gr' ws t' = Inr (?graph, t')"
    using st by (simp add: apply_isolated_def)
  then show ?thesis
    using tr(1) gr'(1) again gs by (simp add: scheduler_state_txn_def projected_def tr(3))
qed

text \<open>
  A polled graph is settled: no node is held by an expired lease, and every node that has not
  started is in the state its dependencies give it.
\<close>

lemma reconciled_again:
  assumes "reconcile vs defs now = Inr ws" and "\<forall>v\<in>set vs. distinct (nv_deps v)" and "w \<in> set ws"
  shows "reconciled_view defs now (nv_id w) w (status_of ws) = Inr w"
proof -
  have "\<forall>v\<in>set ws. distinct (nv_deps v)"
    using reconcile_fixpoint(3) [OF assms(1,2)] assms(2) by (metis (mono_tags, lifting) image_eqI image_set imageE)
  from reconcile_fixpoint(1) [OF reconcile_idempotent [OF assms(1,2)] this]
  show ?thesis using assms(3) by (auto simp: list_all2_same)
qed

lemma settled_by_dependencies:
  assumes "reconcile vs defs now = Inr ws" and "\<forall>v\<in>set vs. distinct (nv_deps v)"
    and "w \<in> set ws" and "nv_execution w = None" and "nv_status w \<in> {PENDING, READY}"
  shows "\<exists>n. map_of defs (nv_id w) = Some n \<and> tn_deps n = nv_deps w \<and>
    dependency_status n (status_of ws) = Inr (nv_status w)"
proof -
  have again: "reconciled_view defs now (nv_id w) w (status_of ws) = Inr w"
    using reconciled_again [OF assms(1-3)] .
  then show ?thesis
  proof (cases rule: reconciled_view_cases)
    case same
    have "expire_view now w = Inr w" using assms(5) by (auto simp: expire_view_def split: option.splits)
    moreover have "\<not> settled w" using assms(4,5) by (auto simp: settled_def terminal_def)
    ultimately obtain n s where n: "map_of defs (nv_id w) = Some n" "tn_deps n = nv_deps w"
        "dependency_status n (status_of ws) = Inr s" "settle_view w s = Inr w"
      using again unfolding reconciled_view_def by (auto simp: eres split: option.splits)
    have "s = nv_status w"
      using dependency_status_cases [OF n(3)] settle_view_status [OF n(4)] assms(5) by (auto split: if_splits)
    with n show ?thesis by auto
  next
    case (expired e t)
    with assms(5) show ?thesis by auto
  next
    case (settled n s)
    have "s = nv_status w"
      using dependency_status_cases [OF settled(3)] settle_view_status [OF settled(7)] assms(5)
      by (auto split: if_splits)
    with settled show ?thesis by auto
  qed
qed

lemma none_expired:
  assumes "reconcile vs defs (Some now) = Inr ws" and "\<forall>v\<in>set vs. distinct (nv_deps v)" and "w \<in> set ws"
  shows "\<not> node_expired now w"
proof
  assume x: "node_expired now w"
  from reconciled_again [OF assms] obtain y where "expire_view (Some now) w = Inr y"
    "w = y \<or> (\<exists>s. settle_view y s = Inr w)"
    by (auto simp: reconciled_view_def eres split: if_splits option.splits)
  moreover from this(1) x have "nv_status y = READY"
    by (auto simp: expire_view_def node_expired_def make_view_Inr split: option.splits if_splits)
  ultimately have "nv_status w \<noteq> RUNNING"
    by (auto simp: settle_view_def make_view_Inr split: if_splits)
  with x show False by (simp add: node_expired_def)
qed

theorem scheduler_settled:
  assumes run: "scheduler_state_txn R g t = Inr (gs, t')" and ok: "txn_ok t" "log_gapless R g t"
  shows "\<exists>s. event_state_in_txn R g t' = Inr (Some s) \<and>
    (\<forall>w\<in>set (es_views s). \<not> node_expired (t_now t) w \<and>
      (nv_status w \<in> {PENDING, READY} \<longrightarrow> nv_execution w = None \<longrightarrow>
        (\<exists>n\<in>set (gv_nodes (es_graph s)). tn_id n = nv_id w \<and>
          dependency_status n (status_of (es_views s)) = Inr (nv_status w))))"
proof -
  from run obtain prev gr ws status applied where
    ev: "event_state_in_txn R g t = Inr (Some prev)" and gr: "get_record t (graph_key R g) = Some gr" and
    r: "reconcile (es_views prev) (definitions_dict (gv_nodes (es_graph prev))) (Some (t_now t)) = Inr ws" and
    st: "isolated_status ws (gv_nodes (es_graph prev)) = Inr status" and
    ap: "apply_graph_transition R prev gr ws status t = Inr (applied, t')"
    unfolding scheduler_state_txn_def by (simp only: ebind_eq_Inr projected_Inr apply_isolated_Inr chain) blast
  note tr = transition_state(1) [OF ap ev gr reconcile_evolves [OF r] isolated_status_canonical [OF st] ok]
  from event_state_graph [OF ev ok(1)] have "projects R g t (gv_nodes (es_graph prev)) (es_views prev)" by metis
  then have d: "\<forall>v\<in>set (es_views prev). distinct (nv_deps v)" using projected_deps by blast
  have "\<exists>n\<in>set (gv_nodes (es_graph prev)). tn_id n = nv_id w \<and> dependency_status n (status_of ws) = Inr (nv_status w)"
    if "w \<in> set ws" "nv_status w \<in> {PENDING, READY}" "nv_execution w = None" for w
  proof -
    from settled_by_dependencies [OF r d that(1,3,2)] obtain n where
      "map_of (definitions_dict (gv_nodes (es_graph prev))) (nv_id w) = Some n"
      "dependency_status n (status_of ws) = Inr (nv_status w)" by blast
    moreover from this(1) have "n \<in> set (gv_nodes (es_graph prev))" "tn_id n = nv_id w"
      by (auto simp: definitions_dict_def dest!: map_of_SomeD)
    ultimately show ?thesis by blast
  qed
  with none_expired [OF r d] have "\<forall>w\<in>set ws. \<not> node_expired (t_now t) w \<and>
      (nv_status w \<in> {PENDING, READY} \<longrightarrow> nv_execution w = None \<longrightarrow>
        (\<exists>n\<in>set (gv_nodes (es_graph prev)). tn_id n = nv_id w \<and> dependency_status n (status_of ws) = Inr (nv_status w)))"
    by blast
  moreover have "gv_nodes ((es_graph prev)\<lparr>gv_status := status\<rparr>) = gv_nodes (es_graph prev)" by simp
  ultimately show ?thesis using tr by (intro exI conjI) (assumption, simp only: event_state.select_convs)
qed

section \<open>Recovery\<close>

text \<open>
  A recovery that is not overruled by a cancellation leaves no node in recovery but the ones
  whose claimed execution may have started unseen.
\<close>

lemma cleared_view_status:
  "cleared_view v = Inr w \<Longrightarrow> nv_status w = RECOVERY_REQUIRED \<Longrightarrow> w = v \<and> unbound_claim v"
  by (auto simp: cleared_view_def make_view_Inr split: if_splits)

theorem recover_graph_clears:
  assumes run: "recover_graph_txn R g False t = Inr (view, t')" and ok: "txn_ok t" "log_gapless R g t"
  shows "\<exists>s s'. event_state_in_txn R g t = Inr (Some s) \<and> event_state_in_txn R g t' = Inr (Some s') \<and>
    isolated_status (es_views s') (gv_nodes (es_graph s')) = Inr (gv_status (es_graph s')) \<and>
    (\<forall>v\<in>set (es_views s'). nv_status v = RECOVERY_REQUIRED \<longrightarrow> v \<in> set (es_views s) \<and> unbound_claim v)"
proof -
  from run obtain prev gr cleared ws status where
    ev: "event_state_in_txn R g t = Inr (Some prev)" and gr: "get_record t (graph_key R g) = Some gr" and
    c: "emap cleared_view (es_views prev) = Inr cleared" and
    r: "reconcile cleared (definitions_dict (gv_nodes (es_graph prev))) None = Inr ws" and
    st: "isolated_status ws (gv_nodes (es_graph prev)) = Inr status" and
    ap: "apply_graph_transition R prev gr ws status t = Inr (view, t')"
    by (auto simp: recover_graph_txn_def ebind_eq_Inr ensure_eq_Inr of_option_eq_Inr apply_isolated_Inr)
  have evo: "list_all2 evolves (es_views prev) ws"
    using evolves_all [OF emap_evolves [OF c cleared_view_evolves] reconcile_evolves [OF r]] .
  have "v \<in> set (es_views prev) \<and> unbound_claim v" if v: "v \<in> set ws" "nv_status v = RECOVERY_REQUIRED" for v
  proof -
    from list_all2_in_right [OF reconcile_recovery [OF r] v(1)] v(2) have "v \<in> set cleared" by auto
    with emap_set [OF c] obtain u where "u \<in> set (es_views prev)" "cleared_view u = Inr v" by blast
    with cleared_view_status [OF this(2) v(2)] show ?thesis by simp
  qed
  with transition_state(1) [OF ap ev gr evo isolated_status_canonical [OF st] ok] ev st show ?thesis by auto
qed

section \<open>Cancellation\<close>

text \<open>
  What a cancellation decides for one node.  A node that never was claimed is cancelled; one that
  was claimed and has no execution may have started one, and is suspended with that reason; a
  node suspended because its input could not be made is cancelled.  Nodes that run, wait, have an
  execution or have ended are left to the cancellation of single nodes.
\<close>

definition cancel_decides :: "node_view \<Rightarrow> node_view \<Rightarrow> bool" where
  "cancel_decides v w \<longleftrightarrow>
     nv_id w = nv_id v \<and> nv_fence w = nv_fence v \<and> nv_execution w = nv_execution v \<and>
     (if nv_execution v \<noteq> None \<or> terminal (nv_status v) \<or> nv_status v \<in> {RUNNING, WAITING} then w = v
      else if nv_status v \<in> {PENDING, READY}
      then nv_owner w = None \<and> nv_expires w = None \<and>
        (if nv_fence v = 0 then nv_status w = CANCELLED else nv_status w = RECOVERY_REQUIRED \<and> unbound_claim w)
      else if nv_origin v = Some ''node'' \<and> nv_error v = Some (code_value TASK_INPUT_PROJECTION_FAILED)
      then nv_status w = CANCELLED \<and> nv_error w = None \<and> nv_origin w = None
      else w = v)"

lemma cancel_graph_view_decides:
  assumes "cancel_graph_view R g defs v = Inr w"
  shows "cancel_decides v w"
  using assms
  by (cases "nv_status v")
    (auto simp: cancel_graph_view_def cancel_decides_def unbound_claim_def eres split: if_splits)

text \<open>
  The status of the graph is the one its nodes give, except that a graph that has ended with a
  cancelled node is cancelled, whatever else has failed or is blocked in it.
\<close>

lemma cancelled_status_eq:
  assumes "isolated_status vs ds = Inr s"
  shows "cancelled_status s vs =
    (if (\<forall>v\<in>set vs. terminal (nv_status v)) \<and> (\<exists>v\<in>set vs. nv_status v = CANCELLED) then CANCELLED else s)"
  using isolated_status_terminal [OF assms] by (auto simp: cancelled_status_def list_all_iff list_ex_iff)

theorem cancel_graph_decides:
  assumes run: "cancel_graph_txn R g t = Inr (view, t')" and ok: "txn_ok t" "log_gapless R g t"
  shows "\<exists>s s' st. event_state_in_txn R g t = Inr (Some s) \<and> event_state_in_txn R g t' = Inr (Some s') \<and>
    list_all2 cancel_decides (es_views s) (es_views s') \<and> view = es_graph s' \<and>
    isolated_status (es_views s') (gv_nodes (es_graph s')) = Inr st \<and>
    gv_status (es_graph s') =
      (if (\<forall>w\<in>set (es_views s'). terminal (nv_status w)) \<and> (\<exists>w\<in>set (es_views s'). nv_status w = CANCELLED)
       then CANCELLED else st)"
proof -
  from run obtain prev gr ws isolated where
    ev: "event_state_in_txn R g t = Inr (Some prev)" and gr: "get_record t (graph_key R g) = Some gr" and
    c: "emap (cancel_graph_view R g (definitions_dict (gv_nodes (es_graph prev)))) (es_views prev) = Inr ws" and
    st: "isolated_status ws (gv_nodes (es_graph prev)) = Inr isolated" and
    ap: "apply_graph_transition R prev gr ws (cancelled_status isolated ws) t = Inr (view, t')"
    unfolding cancel_graph_txn_def by (simp only: ebind_eq_Inr projected_Inr chain) blast
  note tr = transition_state [OF ap ev gr emap_evolves [OF c cancel_graph_view_evolves]
      cancelled_canonical [OF isolated_status_canonical [OF st]] ok]
  have "list_all2 cancel_decides (es_views prev) ws"
    using c unfolding emap_eq_Inr by (rule list_all2_mono) (rule cancel_graph_view_decides)
  with ev tr(1,3) st cancelled_status_eq [OF st] show ?thesis by simp
qed

section \<open>Superseded workers\<close>

lemma refused: "(\<And>x t'. r = Inr (x, t') \<Longrightarrow> False) \<Longrightarrow> isl (r :: ('a \<times> task_txn) res)"
  by (cases r) auto

lemma stale_outcome_refused:
  assumes sv: "stored_view t (state_key R g n) = Some v" and fence: "nv_fence v \<noteq> ls_fence lease"
    and ok: "txn_ok t" "log_gapless R g t"
  shows "isl (complete_txn R (Some lease) g n execution result expanded expected t)"
    and "isl (fail_txn R (Some lease) g n execution f expected t)"
    and "isl (mark_recovery_txn R (Some lease) g n execution f expected t)"
proof -
  have no: "\<not> same_fence (Some lease) expected u" "\<not> may_end (Some lease) a u execution now resolved"
    if "stored_view t (state_key R g n) = Some (u\<lparr>nv_deps := []\<rparr>)" for u a now resolved
  proof -
    have "nv_fence u \<noteq> ls_fence lease" using that sv fence by auto
    then show "\<not> same_fence (Some lease) expected u" "\<not> may_end (Some lease) a u execution now resolved"
      by (simp_all add: same_fence_def may_end_def holds_lease_def)
  qed
  show "isl (complete_txn R (Some lease) g n execution result expanded expected t)"
  proof (rule refused)
    fix x t' assume "complete_txn R (Some lease) g n execution result expanded expected t = Inr (x, t')"
    from this ok show False by (cases rule: complete_txn_Inr) (auto simp: node_ended_def dest: no)
  qed
  show "isl (fail_txn R (Some lease) g n execution f expected t)"
  proof (rule refused)
    fix x t' assume "fail_txn R (Some lease) g n execution f expected t = Inr (x, t')"
    from this ok show False by (cases rule: fail_txn_Inr) (auto simp: node_ended_def dest: no)
  qed
  show "isl (mark_recovery_txn R (Some lease) g n execution f expected t)"
  proof (rule refused)
    fix x t' assume run: "mark_recovery_txn R (Some lease) g n execution f expected t = Inr (x, t')"
    then obtain prev current where ev: "event_state_in_txn R g t = Inr (Some prev)" and
      fv: "find_view (es_views prev) n = Some current" and
      may: "same_fence (Some lease) expected current \<or> holds_lease current lease (t_now t)"
      by (auto simp: mark_recovery_txn_def ebind_eq_Inr ensure_eq_Inr of_option_eq_Inr projected_Inr
          require_live_lease_holds unit_ex split: if_splits)
    from event_state_views(1) [OF ev ok(1)] find_view_Some [OF fv]
    have "stored_view t (state_key R g n) = Some (current\<lparr>nv_deps := []\<rparr>)" by auto
    with sv fence have "nv_fence current \<noteq> ls_fence lease" by auto
    with may show False by (auto simp: same_fence_def holds_lease_def)
  qed
qed

lemma stale_work_refused:
  assumes sv: "stored_view t (state_key R (ls_graph lease) (ls_node lease)) = Some v"
    and fence: "nv_fence v \<noteq> ls_fence lease" and ok: "txn_ok t"
  shows "isl (renew_txn R lease seconds clock t)" and "isl (bind_execution_txn R lease execution t)"
    and "isl (handoff_txn R lease execution occupies t)" and "isl (requeue_retry_txn R lease execution next_attempt t)"
    and "isl (publish_prepared_txn R lease p t)"
proof -
  have stale: "\<not> holds_lease v lease now" for now using fence by (simp add: holds_lease_def)
  show "isl (renew_txn R lease seconds clock t)" "isl (bind_execution_txn R lease execution t)"
    "isl (handoff_txn R lease execution occupies t)" "isl (requeue_retry_txn R lease execution next_attempt t)"
    "isl (publish_prepared_txn R lease p t)"
    using sv fence stale renew_txn_holds bind_execution_txn_holds handoff_txn_fence
      requeue_retry_txn_holds [OF _ ok] publish_prepared_txn_holds
    by (intro refused; metis option.inject)+
qed

text \<open>Once another worker has claimed the node, whatever happens later, the old lease stays refused.\<close>

lemma superseded_later:
  assumes "runs R m m'" and "store_ok R m" and "collision_free (rp_sha R)"
    and "node_in m (state_key R g n) v" and "ls_fence lease < nv_fence v"
  obtains w where "stored_view (begin_txn now m') (state_key R g n) = Some w" "nv_fence w \<noteq> ls_fence lease"
    "txn_ok (begin_txn now m')" "log_gapless R g (begin_txn now m')"
proof -
  from runs_node [OF assms(1-4)] obtain w where w: "node_in m' (state_key R g n) w"
    "phase_steps (phase_of v) (phase_of w)" .
  then have "nv_fence v \<le> nv_fence w" using phase_steps_fence [OF w(2)] by (simp add: phase_of_def)
  moreover have "stored_view (begin_txn now m') (state_key R g n) = Some w"
    using node_at_stored [OF w(1) [unfolded node_in_def]] by (simp add: stored_view_def)
  moreover have "repo_ok R g (begin_txn now m')"
    using runs_sound [OF assms(1-3)] repo_ok_begin by blast
  ultimately show ?thesis using that assms(5) by (auto simp: repo_ok_def)
qed

end
