(* ===== verification/Task_Reads.thy ===== *)
theory Task_Reads
  imports Task_Lease_Facts
begin

text \<open>
  The read operations of \<open>TaskRepositoryImpl\<close> (\<open>ai/persistence/_task_repository.py\<close>):
  \<open>list_nodes\<close>, \<open>get_header\<close>, \<open>get_graph\<close>, \<open>graph_state\<close>, \<open>result_header\<close>,
  \<open>get_node_states\<close>, \<open>list_events\<close> and \<open>latest_event\<close>, each in the transaction of its
  \<open>read\<close>; the batches in which keys are looked up do not show in the result.
  \<open>list_events_page\<close> states what a page of the event log holds.
\<close>

section \<open>Graphs and nodes\<close>

record resource_ref =
  rf_kind :: resource_kind
  rf_id :: string
  rf_tenant :: string

definition make_resource_ref :: "resource_kind \<Rightarrow> string \<Rightarrow> string \<Rightarrow> resource_ref res" where
  "make_resource_ref k i tenant =
     ensure (text_ok 128 i \<and> \<not> isl (validate_tenant_id tenant)) ValueError
       (Inr \<lparr>rf_kind = k, rf_id = i, rf_tenant = tenant\<rparr>)"

definition list_nodes :: "repo \<Rightarrow> string \<Rightarrow> string \<Rightarrow> task_txn \<Rightarrow> node_view list res" where
  "list_nodes R g tenant t =
     (if tenant \<noteq> rp_tenant R then Inr [] else ebind (nodes_with_definitions R g t) (\<lambda>(_, views). Inr views))"

definition get_header :: "repo \<Rightarrow> string \<Rightarrow> string \<Rightarrow> task_txn \<Rightarrow> resource_ref option res" where
  "get_header R g tenant t =
     (if tenant \<noteq> rp_tenant R then Inr None
      else case get_record t (graph_key R g) of
          None \<Rightarrow> Inr None
        | Some r \<Rightarrow>
            ebind (validate_graph_record R r g) (\<lambda>_.
            ebind (decode_graph r) (\<lambda>header.
              ensure (gv_id header = g) (ai STORAGE_INTEGRITY_ERROR)
                (ebind (make_resource_ref TASK_GRAPH g tenant) (\<lambda>x. Inr (Some x))))))"

definition read_graph_state :: "repo \<Rightarrow> string \<Rightarrow> string \<Rightarrow> task_txn \<Rightarrow> graph_state option res" where
  "read_graph_state R g tenant t = (if tenant \<noteq> rp_tenant R then Inr None else graph_state_in_txn R g t)"

definition get_graph :: "repo \<Rightarrow> string \<Rightarrow> string \<Rightarrow> task_txn \<Rightarrow> graph_view option res" where
  "get_graph R g tenant t =
     (if tenant \<noteq> rp_tenant R then Inr None
      else ebind (read_graph_state R g tenant t) (\<lambda>s.
        Inr (map_option (\<lambda>gs. \<lparr>gv_id = gs_id gs, gv_status = gs_status gs, gv_nodes = gs_nodes gs\<rparr>) s)))"

text \<open>The definitions of a graph in the order of their ids, with the number of its last event.\<close>

definition result_header :: "repo \<Rightarrow> string \<Rightarrow> string \<Rightarrow> task_txn \<Rightarrow> (task_graph \<times> int) option res" where
  "result_header R g tenant t =
     (if tenant \<noteq> rp_tenant R then Inr None
      else case get_record t (graph_key R g) of
          None \<Rightarrow> Inr None
        | Some r \<Rightarrow>
            ebind (validate_graph_record R r g) (\<lambda>_.
            ebind (decode_graph r) (\<lambda>header.
              ensure (gv_id header = g) (ai STORAGE_INTEGRITY_ERROR)
                (ebind (require_canonical (gv_status header)) (\<lambda>_.
                 ebind (emap (\<lambda>d. ebind (decode_definition d) (\<lambda>n.
                            ebind (validate_definition_record R d g (tn_id n)) (\<lambda>_. Inr n)))
                         (list_records (node_query (definition_parent R g) ''task_node_definition'') t)) (\<lambda>definitions.
                 ebind (make_graph \<lparr>tg_id = g, tg_nodes = sort_key tn_id definitions\<rparr>) (\<lambda>graph.
                   case list_facts (latest_query (log_stream R g)) t of
                     [] \<Rightarrow> Inl (ai STORAGE_INTEGRITY_ERROR)
                   | latest # _ \<Rightarrow>
                       ebind (check_event_fact R g latest) (\<lambda>_.
                       ebind (decode_event g latest) (\<lambda>_. Inr (Some (graph, fact_sequence latest)))))))))))"

definition get_node_states :: "repo \<Rightarrow> string \<Rightarrow> string list \<Rightarrow> string \<Rightarrow> task_txn \<Rightarrow> node_view list res" where
  "get_node_states R g ns tenant t =
     (if tenant \<noteq> rp_tenant R then Inr []
      else
        ensure (list_all (\<lambda>n. n \<noteq> []) ns) ValueError
          (ensure (distinct ns) ValueError
            (emap (\<lambda>n.
               ebind (of_option (ai STORAGE_INTEGRITY_ERROR) (get_record t (state_key R g n))) (\<lambda>sr.
               ebind (of_option (ai STORAGE_INTEGRITY_ERROR) (get_record t (definition_key R g n))) (\<lambda>dr.
               ebind (validate_state_record R sr g n) (\<lambda>_.
               ebind (validate_definition_record R dr g n) (\<lambda>_.
               ebind (decode_node sr) (\<lambda>v.
               ebind (decode_definition dr) (\<lambda>d.
                 ensure (nv_graph v = g \<and> nv_id v = n \<and> tn_id d = n) (ai STORAGE_INTEGRITY_ERROR)
                   (make_view (v\<lparr>nv_deps := tn_deps d\<rparr>)))))))))
              ns)))"

section \<open>Events\<close>

definition events_query :: "bytes \<Rightarrow> int \<Rightarrow> nat \<Rightarrow> fact_query" where
  "events_query stream after n =
     \<lparr>fq_stream = stream, fq_after = Some after, fq_limit = Some n, fq_subject = None,
      fq_latest = False, fq_latest_per_subject = False\<rparr>"

definition list_event ::
  "repo \<Rightarrow> string \<Rightarrow> event_payload stored_fact \<Rightarrow> int \<times> task_event list \<Rightarrow> (int \<times> task_event list) res" where
  "list_event R g f = (\<lambda>(seq, items).
     ensure (\<not> (fact_stream f \<noteq> log_stream R g \<or> fact_owner f \<noteq> graph_key R g \<or> fact_subject f \<noteq> None \<or>
              fact_sequence f \<noteq> seq + 1)) (ai STORAGE_INTEGRITY_ERROR)
       (ebind (decode_event g f) (\<lambda>e.
          ensure (fact_state f = None) (ai STORAGE_INTEGRITY_ERROR) (Inr (seq + 1, items @ [e])))))"

definition events_read :: "bytes \<Rightarrow> int \<Rightarrow> nat \<Rightarrow> task_txn \<Rightarrow> event_payload stored_fact list \<times> bool" where
  "events_read stream after n t =
     (let facts = list_facts (events_query stream after (min (n + 1) 1000)) t in
      (facts,
       if n < length facts then True
       else if n = 1000 \<and> length facts = n
       then list_facts (events_query stream (fact_sequence (last facts)) 1) t \<noteq> []
       else False))"

definition list_events ::
  "repo \<Rightarrow> string \<Rightarrow> string \<Rightarrow> int \<Rightarrow> int \<Rightarrow> task_txn \<Rightarrow> (task_event list \<times> string option) res" where
  "list_events R g tenant after limit t =
     (if tenant \<noteq> rp_tenant R then Inr ([], None)
      else
        ensure (0 \<le> after) (ai REQUEST_FIELD_INVALID)
          (ensure (1 \<le> limit \<and> limit \<le> 1000) (ai PAGE_LIMIT_INVALID)
            (let (facts, more) = events_read (log_stream R g) after (nat limit) t in
             ebind (efold (list_event R g) (take (nat limit) facts) (after, [])) (\<lambda>(_, items).
               Inr (items, if more \<and> items \<noteq> [] then Some (json_int (ev_seq (last items))) else None)))))"

definition latest_event :: "repo \<Rightarrow> string \<Rightarrow> string \<Rightarrow> task_txn \<Rightarrow> task_event option res" where
  "latest_event R g tenant t =
     (if tenant \<noteq> rp_tenant R then Inr None
      else case list_facts (latest_query (log_stream R g)) t of
          [] \<Rightarrow> Inr None
        | f # _ \<Rightarrow>
            ensure (\<not> (fact_stream f \<noteq> log_stream R g \<or> fact_owner f \<noteq> graph_key R g \<or>
                     fact_subject f \<noteq> None \<or> fact_state f \<noteq> None)) (ai STORAGE_INTEGRITY_ERROR)
              (ebind (decode_event g f) (\<lambda>e. Inr (Some e))))"

section \<open>Pages of the log\<close>

text \<open>In a log without gaps, a page is the run of facts that follows the cursor.\<close>

abbreviation log_facts :: "repo \<Rightarrow> string \<Rightarrow> task_txn \<Rightarrow> int list \<Rightarrow> event_payload stored_fact list" where
  "log_facts R g t \<equiv> map (\<lambda>i. the (get_fact t (log_stream R g) i))"

lemma log_fact:
  assumes "txn_ok t" and "log_gapless R g t" and "1 \<le> i" and "i \<le> log_length t (log_sequence R g)"
  obtains f where "get_fact t (log_stream R g) i = Some f" "fact_stream f = log_stream R g" "fact_sequence f = i"
proof -
  from assms(2-4) obtain f where f: "get_fact t (log_stream R g) i = Some f"
    unfolding log_gapless_def stream_gapless_def by blast
  have "keyed fact_key (t_facts t)" using assms(1) by (rule txn_okD)
  with f have "fact_key f = (log_stream R g, i)" by (auto simp: get_fact_def dest: keyed_get)
  with f that show ?thesis by (auto simp: fact_key_def)
qed

lemma events_query_run:
  assumes ok: "txn_ok t" "log_gapless R g t" and after: "0 \<le> after"
  shows "list_facts (events_query (log_stream R g) after n) t =
    log_facts R g t (take n [after + 1..log_length t (log_sequence R g)])"
  unfolding events_query_def using ok(2)
  by (intro stream_run [OF ok(1) _ after]) (simp add: log_gapless_def stream_gapless_def)

lemma list_event_Inr:
  "list_event R g f (seq, items) = Inr p \<longleftrightarrow>
    fact_stream f = log_stream R g \<and> fact_owner f = graph_key R g \<and> fact_subject f = None \<and>
    fact_sequence f = seq + 1 \<and> fact_state f = None \<and> (\<exists>e. decode_event g f = Inr e \<and> p = (seq + 1, items @ [e]))"
  by (auto simp: list_event_def ebind_eq_Inr ensure_eq_Inr)

lemma list_event_run:
  assumes "efold (list_event R g) fs (after, items) = Inr (seq, out)"
  shows "seq = after + int (length fs) \<and> (\<exists>es. out = items @ es \<and> emap (decode_event g) fs = Inr es)"
  using assms
proof (induction fs arbitrary: after items)
  case (Cons f fs)
  then obtain e where e: "decode_event g f = Inr e" and
    rest: "efold (list_event R g) fs (after + 1, items @ [e]) = Inr (seq, out)"
    by (auto simp: ebind_eq_Inr list_event_Inr)
  from Cons.IH [OF rest] e show ?case by (auto simp: ebind_eq_Inr)
qed auto

lemma decode_event_seq: "decode_event g f = Inr e \<Longrightarrow> ev_seq e = fact_sequence f"
  by (rule decode_event_Inr(2))

theorem list_events_page:
  assumes run: "list_events R g (rp_tenant R) after limit t = Inr (items, cursor)"
    and ok: "txn_ok t" "log_gapless R g t"
  defines "len \<equiv> log_length t (log_sequence R g)"
  shows "map ev_seq items = take (nat limit) [after + 1..len]"
    and "emap (decode_event g) (log_facts R g t (map ev_seq items)) = Inr items"
    and "cursor = (if after + limit < len then Some (json_int (after + limit)) else None)"
proof -
  let ?n = "nat limit" and ?s = "log_stream R g"
  from run obtain facts more seq where
    after: "0 \<le> after" and lim: "1 \<le> limit" "limit \<le> 1000" and
    fm: "events_read ?s after ?n t = (facts, more)" and
    fold: "efold (list_event R g) (take ?n facts) (after, []) = Inr (seq, items)" and
    cur: "cursor = (if more \<and> items \<noteq> [] then Some (json_int (ev_seq (last items))) else None)"
    by (auto simp: list_events_def ebind_eq_Inr ensure_eq_Inr split: prod.splits)
  note q = events_query_run [OF ok]
  from fm have fa: "facts = list_facts (events_query ?s after (min (?n + 1) 1000)) t" and
    mo: "more = (if ?n < length facts then True else if ?n = 1000 \<and> length facts = ?n
      then list_facts (events_query ?s (fact_sequence (last facts)) 1) t \<noteq> [] else False)"
    by (auto simp only: events_read_def Let_def prod.inject)
  have facts: "facts = log_facts R g t (take (min (?n + 1) 1000) [after + 1..len])"
    using fa q [OF after] by (simp add: len_def)
  have tk: "take ?n facts = log_facts R g t (take ?n [after + 1..len])"
    using lim by (simp add: facts take_map [symmetric] min_def)
  from list_event_run [OF fold] have es: "emap (decode_event g) (take ?n facts) = Inr items" by auto
  have seq: "fact_sequence (the (get_fact t ?s i)) = i" if "i \<in> set [after + 1..len]" for i
  proof -
    have "1 \<le> i" "i \<le> log_length t (log_sequence R g)" using that after by (simp_all add: len_def)
    from log_fact [OF ok this] show ?thesis by force
  qed
  have "map ev_seq items = map fact_sequence (take ?n facts)"
    by (rule list_all2_map_eq, rule list_all2_mono [OF es [unfolded emap_eq_Inr]]) (simp add: decode_event_seq)
  also have "\<dots> = take ?n [after + 1..len]"
    unfolding tk map_map comp_def using seq by (intro map_idI) (auto dest: in_set_takeD)
  finally show seqs: "map ev_seq items = take ?n [after + 1..len]" .
  show "emap (decode_event g) (log_facts R g t (map ev_seq items)) = Inr items"
    using es unfolding seqs tk .
  have count: "length items = min ?n (nat (len - after))" using arg_cong [OF seqs, of length] by simp
  have more: "more \<longleftrightarrow> after + limit < len"
  proof (cases "?n = 1000")
    case False
    then have m: "more \<longleftrightarrow> ?n < length facts" using mo by (cases "?n < length facts") simp_all
    have "length facts = min (?n + 1) (nat (len - after))" using False lim by (simp add: facts)
    with m lim show ?thesis by linarith
  next
    case True
    have l: "length facts = min 1000 (nat (len - after))" using True by (simp add: facts)
    show ?thesis
    proof (cases "length facts = 1000")
      case full: True
      have "last facts = the (get_fact t ?s (after + 1000))"
      proof -
        have len': "after + 1000 \<le> len" using l full by linarith
        have "last facts = facts ! 999" using full by (subst last_conv_nth) auto
        also have "\<dots> = the (get_fact t ?s (after + 1000))"
          using True len' by (simp add: facts ac_simps)
        finally show ?thesis .
      qed
      moreover have "after + 1000 \<in> set [after + 1..len]" using l full by auto
      ultimately have "fact_sequence (last facts) = after + 1000" using seq by simp
      then have "more \<longleftrightarrow> list_facts (events_query ?s (after + 1000) 1) t \<noteq> []"
        using mo True full by simp
      moreover have "limit = 1000" using True lim by simp
      ultimately show ?thesis using q [of "after + 1000" 1] after by (auto simp: len_def)
    next
      case part: False
      then have short: "length facts < ?n" "nat (len - after) < 1000" using l True by linarith+
      then have "\<not> ?n < length facts" "length facts \<noteq> ?n" by simp_all
      with mo have "\<not> more" by (simp only: if_False simp_thms)
      then show ?thesis using short(2) True by linarith
    qed
  qed
  show "cursor = (if after + limit < len then Some (json_int (after + limit)) else None)"
  proof (cases "after + limit < len")
    case True
    then have "length items = ?n" using count lim by simp
    moreover have "last (map ev_seq items) = after + limit"
    proof -
      have "last (take ?n [after + 1..len]) = [after + 1..len] ! (?n - 1)"
        using True lim by (subst last_conv_nth) (auto simp: min_def)
      also have "\<dots> = after + limit" using True lim by (subst nth_upto) auto
      finally show ?thesis by (simp only: seqs)
    qed
    moreover from \<open>length items = ?n\<close> lim have "items \<noteq> []" by auto
    ultimately show ?thesis using True more cur by (simp add: last_map)
  qed (use more cur in simp)
qed

end
