(* ===== verification/Durability.thy ===== *)
theory Durability
  imports Core_Values
begin

text \<open>
  \<open>run_durable_commit\<close> of \<open>ai/persistence/durability.py\<close>: a commit whose outcome is
  resolved by a read-back before anything is reported.  The awaited operation and the
  read-back are their results; the flags \<open>operation_cancelled\<close> and \<open>readback_cancelled\<close>, which
  \<open>await_owned_task\<close> reports, say whether the caller was cancelled while it waited.
\<close>

datatype commit_state = Committed | Not_committed | Partial_integrity_error | Unresolved_commit

record 'a observation =
  ob_state :: commit_state
  ob_value :: "'a option"
  ob_error :: "exc option"

record 'a commit_result =
  cr_state :: commit_state
  cr_value :: "'a option"
  cr_error :: "exc option"
  cr_cancelled :: bool

definition readback_error_result :: "exc \<Rightarrow> bool \<Rightarrow> 'a commit_result" where
  "readback_error_result e cancelled =
     \<lparr>cr_state = (if exc_code e = Some STORAGE_INTEGRITY_ERROR then Partial_integrity_error else Unresolved_commit),
      cr_value = None, cr_error = Some e, cr_cancelled = cancelled\<rparr>"

definition run_durable_commit ::
  "'a res \<Rightarrow> bool \<Rightarrow> 'a observation res \<Rightarrow> bool \<Rightarrow> 'a commit_result" where
  "run_durable_commit operation operation_cancelled readback readback_cancelled =
     (case operation of
        Inr v \<Rightarrow>
          \<lparr>cr_state = Committed, cr_value = Some v, cr_error = None, cr_cancelled = operation_cancelled\<rparr>
      | Inl e \<Rightarrow>
          let cancelled = operation_cancelled \<or> readback_cancelled in
          (case readback of
             Inl re \<Rightarrow>
               if exc_code re \<noteq> None then readback_error_result re cancelled
               else \<lparr>cr_state = Unresolved_commit, cr_value = None, cr_error = Some re, cr_cancelled = cancelled\<rparr>
           | Inr ob \<Rightarrow>
               \<lparr>cr_state = ob_state ob, cr_value = ob_value ob,
                cr_error = (case ob_error ob of Some oe \<Rightarrow> Some oe | None \<Rightarrow> Some e),
                cr_cancelled = cancelled\<rparr>))"

text \<open>What the operation returned is committed; a failed operation is committed only if the read-back says so.\<close>

lemma run_durable_commit_committed:
  "cr_state (run_durable_commit operation oc readback rc) = Committed \<longleftrightarrow>
    (\<exists>v. operation = Inr v) \<or> (\<exists>e ob. operation = Inl e \<and> readback = Inr ob \<and> ob_state ob = Committed)"
  by (auto simp: run_durable_commit_def readback_error_result_def Let_def split: sum.splits)

lemma run_durable_commit_Inr [simp]:
  "run_durable_commit (Inr v) oc readback rc =
    \<lparr>cr_state = Committed, cr_value = Some v, cr_error = None, cr_cancelled = oc\<rparr>"
  by (simp add: run_durable_commit_def)

end
