(* ===== verification/Budget_Repo.thy ===== *)
theory Budget_Repo
  imports Repo_Base Durability
begin

text \<open>
  \<open>BudgetRepositoryImpl\<close> of \<open>ai/persistence/_budget.py\<close>: the shared budget of an execution
  tree.  A usage record per scope counts what was admitted; a reservation record per
  dispatched model request and tool call says which.

  The repository object holds its owner id and the set of its own requests in flight.
  \<open>clock\<close> is \<open>datetime.now\<close> and an admission id is the \<open>uuid4\<close> of the call.  Waiting for
  pending commits on \<open>close\<close> is scheduling and is not modelled.
\<close>

section \<open>Keys and records\<close>

record budget_repo =
  br_repo :: repo
  br_owner :: string
  br_active :: "(string \<times> string \<times> string) list"

definition budget_key :: "repo \<Rightarrow> string \<Rightarrow> bytes" where
  "budget_key R s = repo_key R ''budget_scope'' (JStr s)"

definition model_key :: "repo \<Rightarrow> string \<Rightarrow> string \<Rightarrow> bytes" where
  "model_key R s q = repo_key R ''budget_model'' (JList [JStr s, JStr q])"

definition tool_key :: "repo \<Rightarrow> string \<Rightarrow> string \<Rightarrow> bytes" where
  "tool_key R s c = repo_key R ''budget_tool'' (JList [JStr s, JStr c])"

definition model_scope :: "repo \<Rightarrow> string \<Rightarrow> bytes" where
  "model_scope R s = repo_scope R ''budget_model'' ''budget'' (JStr s)"

definition usage_record :: "repo \<Rightarrow> string \<Rightarrow> budget_usage \<Rightarrow> int \<Rightarrow> task_record" where
  "usage_record R s u revision =
     (project_record R ''budget_scope'' (JStr s) (Usage u) None None None)\<lparr>rec_revision := revision\<rparr>"

definition model_record :: "repo \<Rightarrow> model_reservation \<Rightarrow> int \<Rightarrow> task_record" where
  "model_record R m revision =
     (project_record R ''budget_model'' (JList [JStr (mr_scope m), JStr (mr_request m)]) (Model_reservation m)
        (Some (model_scope R (mr_scope m))) None (Some (reservation_value (mr_status m))))
       \<lparr>rec_revision := revision\<rparr>"

definition tool_record :: "repo \<Rightarrow> tool_reservation \<Rightarrow> task_record" where
  "tool_record R c =
     project_record R ''budget_tool'' (JList [JStr (tl_scope c), JStr (tl_call c)]) (Tool_reservation c) None None None"

definition decode_usage :: "task_record \<Rightarrow> budget_usage res" where
  "decode_usage r = (case rec_data r of Usage u \<Rightarrow> integrity (make_usage u) | _ \<Rightarrow> Inl (ai STORAGE_INTEGRITY_ERROR))"

definition decode_model :: "task_record \<Rightarrow> model_reservation res" where
  "decode_model r =
     (case rec_data r of
        Model_reservation m \<Rightarrow> integrity (make_model_reservation m)
      | _ \<Rightarrow> Inl (ai STORAGE_INTEGRITY_ERROR))"

definition decode_tool :: "task_record \<Rightarrow> tool_reservation res" where
  "decode_tool r =
     (case rec_data r of
        Tool_reservation c \<Rightarrow> integrity (make_tool_reservation c)
      | _ \<Rightarrow> Inl (ai STORAGE_INTEGRITY_ERROR))"

definition scope_missing :: "string \<Rightarrow> exc" where
  "scope_missing s =
     AIError STORAGE_INTEGRITY_ERROR [(''reason'', JStr ''missing_budget_scope''), (''scope_id'', JStr s)]"

definition decode_scope_record :: "string \<Rightarrow> task_record option \<Rightarrow> (task_record \<times> budget_usage) res" where
  "decode_scope_record s row =
     ebind (of_option (scope_missing s) row) (\<lambda>r.
     ebind (decode_usage r) (\<lambda>u.
       ensure (bu_scope u = s) (ai STORAGE_INTEGRITY_ERROR) (Inr (r, u))))"

definition scope_record :: "repo \<Rightarrow> string \<Rightarrow> 'f value_txn \<Rightarrow> (task_record \<times> budget_usage) res" where
  "scope_record R s t = decode_scope_record s (get_record t (budget_key R s))"

definition replace_usage :: "repo \<Rightarrow> task_record \<Rightarrow> budget_usage \<Rightarrow> unit task_action" where
  "replace_usage R row u =
     replace_checked (usage_record R (bu_scope u) u (rec_revision row + 1)) (rec_revision row)"

section \<open>The scope of a budget\<close>

definition ensure_budget :: "repo \<Rightarrow> string \<Rightarrow> run_budget \<Rightarrow> ('f, budget_usage) value_action" where
  "ensure_budget R s limits t =
     (case get_record t (budget_key R s) of
        Some row \<Rightarrow>
          ebind (decode_usage row) (\<lambda>u.
            ensure (bu_scope u = s) (ai STORAGE_INTEGRITY_ERROR)
              (ensure (bu_limits u = limits)
                 (AIError STORAGE_CONFLICT [(''reason'', JStr ''budget_limits_changed'')]) (Inr (u, t))))
      | None \<Rightarrow>
          ebind (make_usage (new_usage s limits)) (\<lambda>u.
          ebind (insert_record (usage_record R s u 0) t) (\<lambda>(_, t'). Inr (u, t'))))"

definition read_budget :: "repo \<Rightarrow> string \<Rightarrow> 'f value_txn \<Rightarrow> budget_usage res" where
  "read_budget R s t = ebind (scope_record R s t) (\<lambda>(_, u). Inr u)"

section \<open>Admission\<close>

datatype dimension = Model_requests | Tool_calls

primrec dimension_value :: "dimension \<Rightarrow> string" where
  "dimension_value Model_requests = ''model_requests''"
| "dimension_value Tool_calls = ''tool_calls''"

primrec dimension_limit :: "dimension \<Rightarrow> run_budget \<Rightarrow> int option" where
  "dimension_limit Model_requests b = rb_requests b"
| "dimension_limit Tool_calls b = rb_tools b"

primrec dimension_count :: "dimension \<Rightarrow> budget_usage \<Rightarrow> int" where
  "dimension_count Model_requests u = bu_requests u"
| "dimension_count Tool_calls u = bu_tools u"

definition budget_rejected :: "string \<Rightarrow> string \<Rightarrow> string \<Rightarrow> exc" where
  "budget_rejected s dim reason =
     AIError EXECUTION_USAGE_LIMIT_EXCEEDED
       [(''scope_id'', JStr s), (''dimension'', JStr dim), (''reason'', JStr reason)]"

definition in_flight_query :: "repo \<Rightarrow> string \<Rightarrow> record_query" where
  "in_flight_query R s =
     \<lparr>rq_scope = Some (model_scope R s), rq_parent = None, rq_kind = Some ''budget_model'',
      rq_states = Some [''in_flight''], rq_prefix = None, rq_after = None, rq_limit = None\<rparr>"

text \<open>One reservation in flight: of another owner, or of this one and known to be running.\<close>

definition check_in_flight :: "budget_repo \<Rightarrow> string \<Rightarrow> int \<Rightarrow> task_record \<Rightarrow> unit res" where
  "check_in_flight B s revision row =
     ebind (decode_model row) (\<lambda>m.
       ensure (mr_scope m = s \<and> mr_status m = In_flight) (ai STORAGE_INTEGRITY_ERROR)
         (ensure (mr_owner m = br_owner B) (budget_rejected s ''total_tokens'' ''unresolved_in_flight'')
           (ensure ((mr_scope m, mr_request m, mr_admission m) \<in> set (br_active B))
              (Unresolved_local_reservation s revision False) (Inr ()))))"

definition check_tokens :: "budget_repo \<Rightarrow> task_record \<Rightarrow> budget_usage \<Rightarrow> task_txn \<Rightarrow> unit res" where
  "check_tokens B row u t =
     (case rb_tokens (bu_limits u) of
        None \<Rightarrow> Inr ()
      | Some tokens \<Rightarrow>
          ensure (bu_unknown u = 0) (budget_rejected (bu_scope u) ''total_tokens'' ''unknown_usage'')
            (ebind
               (if bu_in_flight u \<noteq> 0 then
                  let rows = list_records (in_flight_query (br_repo B) (bu_scope u)) t in
                  ensure (int (length rows) = bu_in_flight u)
                    (Unresolved_local_reservation (bu_scope u) (rec_revision row) True)
                    (ebind (emap (check_in_flight B (bu_scope u) (rec_revision row)) rows) (\<lambda>_. Inr ()))
                else Inr ())
               (\<lambda>_. ensure (bu_tokens u < tokens)
                      (budget_rejected (bu_scope u) ''total_tokens'' ''limit_exceeded'') (Inr ()))))"

definition check_admission ::
  "budget_repo \<Rightarrow> int \<Rightarrow> task_record \<Rightarrow> budget_usage \<Rightarrow> dimension option \<Rightarrow> task_txn \<Rightarrow> unit res" where
  "check_admission B clock row u dim t =
     ensure (case rb_deadline (bu_limits u) of None \<Rightarrow> True | Some d \<Rightarrow> clock < d)
       (budget_rejected (bu_scope u) ''deadline_at'' ''deadline_exceeded'')
       (ebind
          (case dim of
             None \<Rightarrow> Inr ()
           | Some d \<Rightarrow>
               ensure (case dimension_limit d (bu_limits u) of None \<Rightarrow> True | Some n \<Rightarrow> dimension_count d u < n)
                 (budget_rejected (bu_scope u) (dimension_value d) ''limit_exceeded'') (Inr ()))
          (\<lambda>_. check_tokens B row u t))"

definition check_budget :: "budget_repo \<Rightarrow> int \<Rightarrow> string \<Rightarrow> task_txn \<Rightarrow> budget_usage res" where
  "check_budget B clock s t =
     ebind (scope_record (br_repo B) s t) (\<lambda>(row, u).
     ebind (check_admission B clock row u None t) (\<lambda>_. Inr u))"

definition admit_model_txn ::
  "budget_repo \<Rightarrow> int \<Rightarrow> model_reservation \<Rightarrow> budget_usage task_action" where
  "admit_model_txn B clock m t =
     ebind (scope_record (br_repo B) (mr_scope m) t) (\<lambda>(row, u).
       ensure (get_record t (model_key (br_repo B) (mr_scope m) (mr_request m)) = None)
         (budget_rejected (mr_scope m) ''model_requests'' ''duplicate_dispatch'')
         (ebind (check_admission B clock row u (Some Model_requests) t) (\<lambda>_.
          ebind (make_usage (u\<lparr>bu_requests := bu_requests u + 1, bu_in_flight := bu_in_flight u + 1\<rparr>)) (\<lambda>updated.
          ebind (insert_record (model_record (br_repo B) m 0) t) (\<lambda>(_, t1).
          ebind (replace_usage (br_repo B) row updated t1) (\<lambda>(_, t2). Inr (updated, t2)))))))"

definition admit_model_readback :: "repo \<Rightarrow> model_reservation \<Rightarrow> task_txn \<Rightarrow> budget_usage option res" where
  "admit_model_readback R m t =
     (case get_record t (model_key R (mr_scope m) (mr_request m)) of
        None \<Rightarrow> Inr None
      | Some row \<Rightarrow>
          ebind (decode_model row) (\<lambda>v.
            if mr_admission v \<noteq> mr_admission m then Inr None
            else ebind (scope_record R (mr_scope m) t) (\<lambda>(_, u). Inr (Some u))))"

section \<open>Settlement\<close>

definition settled_status :: "int option \<Rightarrow> reservation_status" where
  "settled_status tokens = (if tokens = None then Unknown_usage else Settled)"

definition settled_usage :: "budget_usage \<Rightarrow> int option \<Rightarrow> budget_usage" where
  "settled_usage u tokens =
     u\<lparr>bu_tokens := bu_tokens u + (case tokens of None \<Rightarrow> 0 | Some n \<Rightarrow> n),
       bu_in_flight := bu_in_flight u - 1,
       bu_unknown := bu_unknown u + (if tokens = None then 1 else 0)\<rparr>"

definition settle_model_txn ::
  "repo \<Rightarrow> string \<Rightarrow> string \<Rightarrow> int option \<Rightarrow> budget_usage task_action" where
  "settle_model_txn R s q tokens t =
     ebind (scope_record R s t) (\<lambda>(scope_row, u).
     ebind (of_option (ai STORAGE_INTEGRITY_ERROR) (get_record t (model_key R s q))) (\<lambda>row.
     ebind (decode_model row) (\<lambda>m.
       ensure (mr_scope m = s \<and> mr_request m = q) (ai STORAGE_INTEGRITY_ERROR)
         (if mr_status m \<noteq> In_flight then
            ensure (mr_status m = settled_status tokens \<and> mr_tokens m = tokens)
              (AIError STORAGE_CONFLICT [(''reason'', JStr ''budget_settlement_changed'')]) (Inr (u, t))
          else
            ebind (make_usage (settled_usage u tokens)) (\<lambda>updated.
            ebind (make_model_reservation (m\<lparr>mr_status := settled_status tokens, mr_tokens := tokens\<rparr>)) (\<lambda>settled.
              (case replace_records
                      [\<lparr>repl_record = model_record R settled (rec_revision row + 1),
                        repl_expected = rec_revision row\<rparr>,
                       \<lparr>repl_record = usage_record R s updated (rec_revision scope_row + 1),
                        repl_expected = rec_revision scope_row\<rparr>] t of
                 (Inl e, _) \<Rightarrow> Inl e
               | (Inr _, t') \<Rightarrow> Inr (updated, t'))))))))"

definition settle_model_readback :: "repo \<Rightarrow> string \<Rightarrow> string \<Rightarrow> int option \<Rightarrow> task_txn \<Rightarrow> budget_usage option res" where
  "settle_model_readback R s q tokens t =
     (case get_record t (model_key R s q) of
        None \<Rightarrow> Inr None
      | Some row \<Rightarrow>
          ebind (decode_model row) (\<lambda>m.
            if mr_status m \<noteq> settled_status tokens \<or> mr_tokens m \<noteq> tokens then Inr None
            else ebind (scope_record R s t) (\<lambda>(_, u). Inr (Some u))))"

section \<open>Tools\<close>

definition admit_tool_txn :: "budget_repo \<Rightarrow> int \<Rightarrow> tool_reservation \<Rightarrow> budget_usage task_action" where
  "admit_tool_txn B clock c t =
     ebind (make_tool_reservation c) (\<lambda>c.
     ebind (scope_record (br_repo B) (tl_scope c) t) (\<lambda>(row, u).
       case get_record t (tool_key (br_repo B) (tl_scope c) (tl_call c)) of
         Some existing \<Rightarrow>
           ebind (decode_tool existing) (\<lambda>v.
             ensure (tl_scope v = tl_scope c \<and> tl_call v = tl_call c) (ai STORAGE_INTEGRITY_ERROR)
               (ensure (tl_admission v = tl_admission c)
                  (budget_rejected (tl_scope c) ''tool_calls'' ''duplicate_dispatch'') (Inr (u, t))))
       | None \<Rightarrow>
           ebind (check_admission B clock row u (Some Tool_calls) t) (\<lambda>_.
           ebind (make_usage (u\<lparr>bu_tools := bu_tools u + 1\<rparr>)) (\<lambda>updated.
           ebind (insert_record (tool_record (br_repo B) c) t) (\<lambda>(_, t1).
           ebind (replace_usage (br_repo B) row updated t1) (\<lambda>(_, t2). Inr (updated, t2)))))))"

definition read_tool_admission :: "repo \<Rightarrow> tool_reservation \<Rightarrow> task_txn \<Rightarrow> budget_usage option res" where
  "read_tool_admission R c t =
     (case get_record t (tool_key R (tl_scope c) (tl_call c)) of
        None \<Rightarrow> Inr None
      | Some row \<Rightarrow>
          ebind (decode_tool row) (\<lambda>v.
            ensure (tl_scope v = tl_scope c \<and> tl_call v = tl_call c) (ai STORAGE_INTEGRITY_ERROR)
              (if tl_admission v \<noteq> tl_admission c then Inr None
               else ebind (scope_record R (tl_scope c) t) (\<lambda>(_, u). Inr (Some u)))))"

section \<open>Retry and commit\<close>

text \<open>
  \<open>retry_admission\<close>: \<open>world i\<close> is the store that attempt \<open>i\<close> finds, \<open>later i\<close> the one in which
  the scope is read again after a reservation of this owner was found unresolved.
\<close>

definition plain_conflict :: "exc \<Rightarrow> bool" where
  "plain_conflict e = (exc_code e = Some STORAGE_CONFLICT \<and> exc_details e = [])"

fun retry_admission ::
  "repo \<Rightarrow> nat \<Rightarrow> nat \<Rightarrow> (nat \<Rightarrow> task_store) \<Rightarrow> (nat \<Rightarrow> task_store) \<Rightarrow>
    (task_store \<Rightarrow> 'a res \<times> task_store) \<Rightarrow> 'a res \<times> task_store" where
  "retry_admission R 0 i world later attempt = (Inl (ai STORAGE_CONFLICT), world i)"
| "retry_admission R (Suc n) i world later attempt =
     (case attempt (world i) of
        (Inl (Unresolved_local_reservation s revision inconsistent), m) \<Rightarrow>
          (case scope_record R s (begin_txn 0 (later i)) of
             Inl e \<Rightarrow> (Inl e, later i)
           | Inr (row, _) \<Rightarrow>
               if rec_revision row = revision then
                 (Inl (if inconsistent then ai STORAGE_INTEGRITY_ERROR
                       else budget_rejected s ''total_tokens'' ''unresolved_in_flight''), later i)
               else retry_admission R n (Suc i) world later attempt)
      | (Inl e, m) \<Rightarrow>
          if plain_conflict e \<and> n \<noteq> 0 then retry_admission R n (Suc i) world later attempt else (Inl e, m)
      | r \<Rightarrow> r)"

definition admission_attempts :: nat where
  "admission_attempts = 16"

definition budget_mutate ::
  "repo \<Rightarrow> int \<Rightarrow> (nat \<Rightarrow> task_store) \<Rightarrow> (nat \<Rightarrow> task_store) \<Rightarrow> budget_usage task_action \<Rightarrow>
    budget_usage res \<times> task_store" where
  "budget_mutate R now world later fn = retry_admission R admission_attempts 0 world later (mem_mutate now fn)"

definition observe_usage :: "budget_usage option \<Rightarrow> budget_usage observation" where
  "observe_usage v =
     \<lparr>ob_state = (if v = None then Not_committed else Committed), ob_value = v, ob_error = None\<rparr>"

text \<open>
  \<open>on_cancel\<close> is what the settlement returned that a cancelled caller awaits where its
  reservation was committed.
\<close>

definition commit_owned ::
  "budget_usage res \<Rightarrow> bool \<Rightarrow> budget_usage option res \<Rightarrow> bool \<Rightarrow> budget_usage res option \<Rightarrow> budget_usage res" where
  "commit_owned operation oc readback rc on_cancel =
     (let r = run_durable_commit operation oc (map_sum id observe_usage readback) rc in
      if cr_cancelled r then
        (case on_cancel of
           Some (Inl e) \<Rightarrow> if cr_state r = Committed then Inl e else Inl Cancelled_error
         | _ \<Rightarrow> Inl Cancelled_error)
      else
        case (cr_state r, cr_value r, cr_error r) of
          (Committed, Some v, _) \<Rightarrow> Inr v
        | (_, _, Some e) \<Rightarrow> Inl e
        | _ \<Rightarrow> Inl (ai STORAGE_RECOVERY_REQUIRED))"

text \<open>
  The awaited operations: \<open>seen\<close> is the store that the read-back finds.  A request is in the
  active set of its repository from its admission to its settlement.
\<close>

definition ensure_scope ::
  "repo \<Rightarrow> int \<Rightarrow> (nat \<Rightarrow> task_store) \<Rightarrow> (nat \<Rightarrow> task_store) \<Rightarrow> string \<Rightarrow> run_budget \<Rightarrow>
    bool \<Rightarrow> task_store \<Rightarrow> bool \<Rightarrow> budget_usage res" where
  "ensure_scope R now world later s limits oc seen rc =
     commit_owned (fst (budget_mutate R now world later (ensure_budget R s limits))) oc
       (case get_record (begin_txn now seen) (budget_key R s) of
          None \<Rightarrow> Inr None
        | Some row \<Rightarrow> ebind (decode_usage row) (\<lambda>u. Inr (if bu_limits u = limits then Some u else None)))
       rc None"

definition admit_model ::
  "budget_repo \<Rightarrow> int \<Rightarrow> int \<Rightarrow> (nat \<Rightarrow> task_store) \<Rightarrow> (nat \<Rightarrow> task_store) \<Rightarrow> string \<Rightarrow> string \<Rightarrow> string \<Rightarrow>
    bool \<Rightarrow> task_store \<Rightarrow> bool \<Rightarrow> budget_usage res \<Rightarrow> budget_usage res \<times> budget_repo" where
  "admit_model B now clock world later s q admission oc seen rc settlement =
     (case make_model_reservation
             \<lparr>mr_scope = s, mr_request = q, mr_owner = br_owner B, mr_admission = admission,
              mr_status = In_flight, mr_tokens = None\<rparr> of
        Inl e \<Rightarrow> (Inl e, B)
      | Inr m \<Rightarrow>
          let B1 = B\<lparr>br_active := List.insert (s, q, admission) (br_active B)\<rparr>;
              r = commit_owned (fst (budget_mutate (br_repo B) now world later (admit_model_txn B1 clock m))) oc
                    (admit_model_readback (br_repo B) m (begin_txn now seen)) rc (Some settlement)
          in (r, if isl r then B1\<lparr>br_active := removeAll (s, q, admission) (br_active B1)\<rparr> else B1))"

definition settle_model ::
  "budget_repo \<Rightarrow> int \<Rightarrow> (nat \<Rightarrow> task_store) \<Rightarrow> (nat \<Rightarrow> task_store) \<Rightarrow> string \<Rightarrow> string \<Rightarrow> int option \<Rightarrow>
    bool \<Rightarrow> task_store \<Rightarrow> bool \<Rightarrow> budget_usage res \<times> budget_repo" where
  "settle_model B now world later s q tokens oc seen rc =
     (if \<not> not_negative tokens then (Inl ValueError, B)
      else
        (commit_owned (fst (budget_mutate (br_repo B) now world later (settle_model_txn (br_repo B) s q tokens))) oc
           (settle_model_readback (br_repo B) s q tokens (begin_txn now seen)) rc None,
         B\<lparr>br_active := filter (\<lambda>(s', q', _). (s', q') \<noteq> (s, q)) (br_active B)\<rparr>))"

definition admit_tool ::
  "budget_repo \<Rightarrow> int \<Rightarrow> int \<Rightarrow> (nat \<Rightarrow> task_store) \<Rightarrow> (nat \<Rightarrow> task_store) \<Rightarrow> tool_reservation \<Rightarrow>
    bool \<Rightarrow> task_store \<Rightarrow> bool \<Rightarrow> budget_usage res" where
  "admit_tool B now clock world later c oc seen rc =
     commit_owned (fst (budget_mutate (br_repo B) now world later (admit_tool_txn B clock c))) oc
       (read_tool_admission (br_repo B) c (begin_txn now seen)) rc None"

end
