(* ===== verification/Budget_Facts.thy ===== *)
theory Budget_Facts
  imports Budget_Repo
begin

text \<open>
  What the budget repository keeps.  \<open>ledger s\<close> recomputes the usage of a scope from the
  reservations of the store; \<open>budgets_ok\<close> says that every usage record is that, that no count
  exceeds its limit, and that reservations lie where they are looked up.  Each operation keeps
  it, so it holds of every store reached from the empty one (\<open>budget_steps_ok\<close>).

  \<open>tally\<close> is the sum of a weight over the records of a transaction; every counter of the usage
  is one, so that a single equation (\<open>tally_put\<close>) says how a write moves them.
\<close>

section \<open>Sums over a table\<close>

definition table_sum :: "('v \<Rightarrow> int) \<Rightarrow> ('k, 'v) overlay \<Rightarrow> int" where
  "table_sum w ov = sum_list (map w (ov_values ov))"

lemma table_sum_set:
  assumes ov: "keyed f ov" and v: "f v = k"
  shows "table_sum w (ov_set k v ov) =
    table_sum w ov + w v - (case ov_get ov k of None \<Rightarrow> 0 | Some u \<Rightarrow> w u)"
proof -
  have sum: "table_sum w x = sum w {u. ov_get x (f u) = Some u}" and fin: "finite {u. ov_get x (f u) = Some u}"
    if "keyed f x" for x
  proof -
    have s: "set (ov_values x) = {u. ov_get x (f u) = Some u}" using keyed_values [OF that] by auto
    have "distinct (ov_values x)" using keyed_distinct [OF that] by (simp add: distinct_map)
    then show "table_sum w x = sum w {u. ov_get x (f u) = Some u}"
      by (simp add: table_sum_def sum_list_distinct_conv_sum_set s)
    show "finite {u. ov_get x (f u) = Some u}" using finite_set [of "ov_values x"] by (simp only: s)
  qed
  let ?rest = "{u. ov_get ov (f u) = Some u \<and> f u \<noteq> k}"
  have rest: "finite ?rest" using fin [OF ov] by (rule rev_finite_subset) auto
  have new: "{u. ov_get (ov_set k v ov) (f u) = Some u} = insert v ?rest" using v by auto
  have "table_sum w (ov_set k v ov) = sum w (insert v ?rest)"
    by (simp only: sum [OF keyed_set [OF ov v]] new)
  also have "\<dots> = w v + sum w ?rest" using rest v by simp
  finally have after: "table_sum w (ov_set k v ov) = w v + sum w ?rest" .
  show ?thesis
  proof (cases "ov_get ov k")
    case None
    then have "{u. ov_get ov (f u) = Some u} = ?rest" by auto
    with None after sum [OF ov] show ?thesis by simp
  next
    case (Some u)
    then have "f u = k" using keyed_get [OF ov] by blast
    with Some have old: "{u. ov_get ov (f u) = Some u} = insert u ?rest" by auto
    have "table_sum w ov = w u + sum w ?rest"
      using rest \<open>f u = k\<close> by (simp only: sum [OF ov] old) simp
    with Some after show ?thesis by simp
  qed
qed

definition tally :: "(task_record \<Rightarrow> int) \<Rightarrow> task_txn \<Rightarrow> int" where
  "tally w t = table_sum w (t_records t)"

lemma tally_put:
  "txn_ok t \<Longrightarrow> rec_key r = k \<Longrightarrow>
    tally w (put_record k r t) = tally w t + w r - (case get_record t k of None \<Rightarrow> 0 | Some c \<Rightarrow> w c)"
  using table_sum_set [OF txn_okD(1), of t r k w]
  by (simp add: tally_def put_record_def get_record_def)

lemma tally_cong:
  assumes "txn_ok t" and "txn_ok t'" and "get_record t' = get_record t"
  shows "tally w t' = tally w t"
proof -
  have vals: "set (ov_values (t_records x)) = {u. get_record x (rec_key u) = Some u}"
      "distinct (ov_values (t_records x))" if "txn_ok x" for x :: task_txn
    using keyed_values [OF txn_okD(1) [OF that]] keyed_distinct [OF txn_okD(1) [OF that]]
    by (auto simp: get_record_def distinct_map)
  show ?thesis
    by (simp add: tally_def table_sum_def sum_list_distinct_conv_sum_set vals(2) assms(1,2))
      (simp add: vals(1) assms)
qed

lemma tally_nonneg:
  assumes "\<And>r. 0 \<le> w r"
  shows "0 \<le> tally w t"
  unfolding tally_def table_sum_def by (rule sum_list_nonneg) (use assms in auto)

section \<open>The ledger of a scope\<close>

definition model_weight :: "(model_reservation \<Rightarrow> int) \<Rightarrow> string \<Rightarrow> task_record \<Rightarrow> int" where
  "model_weight w s r = (case rec_data r of Model_reservation m \<Rightarrow> if mr_scope m = s then w m else 0 | _ \<Rightarrow> 0)"

definition tool_weight :: "string \<Rightarrow> task_record \<Rightarrow> int" where
  "tool_weight s r = (case rec_data r of Tool_reservation c \<Rightarrow> if tl_scope c = s then 1 else 0 | _ \<Rightarrow> 0)"

definition status_weight :: "reservation_status \<Rightarrow> model_reservation \<Rightarrow> int" where
  "status_weight x m = (if mr_status m = x then 1 else 0)"

definition tokens_weight :: "model_reservation \<Rightarrow> int" where
  "tokens_weight m = (case mr_tokens m of None \<Rightarrow> 0 | Some n \<Rightarrow> n)"

definition ledger :: "string \<Rightarrow> run_budget \<Rightarrow> task_txn \<Rightarrow> budget_usage" where
  "ledger s limits t =
     \<lparr>bu_scope = s, bu_limits = limits,
      bu_requests = tally (model_weight (\<lambda>_. 1) s) t,
      bu_tools = tally (tool_weight s) t,
      bu_tokens = tally (model_weight tokens_weight s) t,
      bu_in_flight = tally (model_weight (status_weight In_flight) s) t,
      bu_unknown = tally (model_weight (status_weight Unknown_usage) s) t\<rparr>"

definition within_limits :: "budget_usage \<Rightarrow> bool" where
  "within_limits u =
     ((case rb_requests (bu_limits u) of None \<Rightarrow> True | Some n \<Rightarrow> bu_requests u \<le> n) \<and>
      (case rb_tools (bu_limits u) of None \<Rightarrow> True | Some n \<Rightarrow> bu_tools u \<le> n))"

definition placed :: "repo \<Rightarrow> task_txn \<Rightarrow> task_record \<Rightarrow> bool" where
  "placed R t r =
     (case rec_data r of
        Model_reservation m \<Rightarrow>
          r = model_record R m (rec_revision r) \<and> model_reservation_ok m \<and>
          get_record t (budget_key R (mr_scope m)) \<noteq> None
      | Tool_reservation c \<Rightarrow>
          r = tool_record R c \<and> get_record t (budget_key R (tl_scope c)) \<noteq> None
      | _ \<Rightarrow> rec_kind r \<noteq> ''budget_model'')"

definition budgets_ok :: "repo \<Rightarrow> task_txn \<Rightarrow> bool" where
  "budgets_ok R t =
     ((\<forall>k r. get_record t k = Some r \<longrightarrow> placed R t r) \<and>
      (\<forall>s r. get_record t (budget_key R s) = Some r \<longrightarrow>
         (\<exists>limits. rec_data r = Usage (ledger s limits t) \<and> within_limits (ledger s limits t))))"

lemma budgets_placed: "budgets_ok R t \<Longrightarrow> get_record t k = Some r \<Longrightarrow> placed R t r"
  by (auto simp: budgets_ok_def)

lemma budgets_ledger:
  assumes "budgets_ok R t" and "get_record t (budget_key R s) = Some r"
  obtains limits where "rec_data r = Usage (ledger s limits t)" "within_limits (ledger s limits t)"
  using assms unfolding budgets_ok_def by blast

text \<open>All of this depends on what the records read as.\<close>

lemma budgets_ok_cong:
  assumes "txn_ok t" and "txn_ok t'" and "get_record t' = get_record t" and "budgets_ok R t"
  shows "budgets_ok R t'"
proof -
  have "ledger s l t' = ledger s l t" for s l
    by (simp add: ledger_def tally_cong [OF assms(1,2,3)])
  with assms(3,4) show ?thesis by (simp add: budgets_ok_def placed_def cong: domain_value.case_cong)
qed

section \<open>Keys\<close>

lemma budget_keys_eq [simp]:
  assumes "collision_free (rp_sha R)"
  shows "budget_key R s = budget_key R s' \<longleftrightarrow> s = s'"
    and "model_key R s q = model_key R s' q' \<longleftrightarrow> s = s' \<and> q = q'"
    and "tool_key R s c = tool_key R s' c' \<longleftrightarrow> s = s' \<and> c = c'"
    and "budget_key R s \<noteq> model_key R s' q" and "model_key R s' q \<noteq> budget_key R s"
    and "budget_key R s \<noteq> tool_key R s' c" and "tool_key R s' c \<noteq> budget_key R s"
    and "tool_key R s' c \<noteq> model_key R s q"
  using assms by (simp_all add: budget_key_def model_key_def tool_key_def repo_key_def)

lemma model_scope_eq [simp]:
  "collision_free (rp_sha R) \<Longrightarrow> model_scope R s = model_scope R s' \<longleftrightarrow> s = s'"
  by (simp add: model_scope_def repo_scope_def scope_digest_def digest_eq)

lemma budget_record_simps [simp]:
  "rec_key (usage_record R s u n) = budget_key R s" "rec_data (usage_record R s u n) = Usage u"
  "rec_revision (usage_record R s u n) = n" "rec_kind (usage_record R s u n) = ''budget_scope''"
  "rec_key (model_record R m n) = model_key R (mr_scope m) (mr_request m)"
  "rec_data (model_record R m n) = Model_reservation m" "rec_revision (model_record R m n) = n"
  "rec_key (tool_record R c) = tool_key R (tl_scope c) (tl_call c)"
  "rec_data (tool_record R c) = Tool_reservation c"
  by (simp_all add: usage_record_def model_record_def tool_record_def project_record_def budget_key_def
      model_key_def tool_key_def)

lemma model_record_columns:
  "rec_kind (model_record R m n) = ''budget_model''"
  "rec_scope (model_record R m n) = Some (model_scope R (mr_scope m))"
  "rec_state (model_record R m n) = Some (reservation_value (mr_status m))"
  by (simp_all add: model_record_def project_record_def)

text \<open>Where a reservation or a usage is found, it is what the key says.\<close>

lemma placed_model:
  assumes "collision_free (rp_sha R)" and "budgets_ok R t" and "txn_ok t"
    and "get_record t (model_key R s q) = Some r" and "decode_model r = Inr m"
  shows "r = model_record R m (rec_revision r) \<and> mr_scope m = s \<and> mr_request m = q \<and>
    rec_data r = Model_reservation m \<and> model_reservation_ok m"
proof -
  from assms(5) have d: "rec_data r = Model_reservation m" "model_reservation_ok m"
    by (auto simp: decode_model_def eres split: domain_value.splits)
  with budgets_placed [OF assms(2,4)] have r: "r = model_record R m (rec_revision r)"
    by (simp add: placed_def)
  then have "model_key R (mr_scope m) (mr_request m) = model_key R s q"
    using txn_ok_record_key [OF assms(3,4)] budget_record_simps(5) by metis
  with assms(1) r d show ?thesis by simp
qed

lemma scope_record_Inr:
  "scope_record R s t = Inr (r, u) \<longleftrightarrow>
    get_record t (budget_key R s) = Some r \<and> rec_data r = Usage u \<and> usage_ok u \<and> bu_scope u = s"
  by (auto simp: scope_record_def decode_scope_record_def decode_usage_def eres split: domain_value.splits)

lemma scope_record_ledger:
  assumes "scope_record R s t = Inr (r, u)" and "budgets_ok R t"
  obtains limits where "u = ledger s limits t" "within_limits u" "bu_limits u = limits"
proof -
  from assms(1) have r: "get_record t (budget_key R s) = Some r" "rec_data r = Usage u"
    by (simp_all add: scope_record_Inr)
  from budgets_ledger [OF assms(2) r(1)] obtain limits where
    "rec_data r = Usage (ledger s limits t)" "within_limits (ledger s limits t)" .
  moreover have "bu_limits (ledger s limits t) = limits" by (simp add: ledger_def)
  ultimately show ?thesis using r(2) by (intro that [of limits]) simp_all
qed

section \<open>Writes\<close>

text \<open>
  Every mutation writes at most one reservation of a scope and then the usage of that scope.
\<close>

definition budget_write :: "repo \<Rightarrow> string \<Rightarrow> task_record \<Rightarrow> budget_usage \<Rightarrow> int \<Rightarrow> task_txn \<Rightarrow> task_txn" where
  "budget_write R s r u n t =
     put_record (budget_key R s) (usage_record R s u n) (put_record (rec_key r) r t)"

definition reservation_of :: "repo \<Rightarrow> string \<Rightarrow> task_record \<Rightarrow> bool" where
  "reservation_of R s r =
     (case rec_data r of
        Model_reservation m \<Rightarrow> r = model_record R m (rec_revision r) \<and> model_reservation_ok m \<and> mr_scope m = s
      | Tool_reservation c \<Rightarrow> r = tool_record R c \<and> tl_scope c = s
      | _ \<Rightarrow> False)"

lemma weights_usage [simp]:
  "rec_data r = Usage u \<Longrightarrow> model_weight w s r = 0" "rec_data r = Usage u \<Longrightarrow> tool_weight s r = 0"
  by (simp_all add: model_weight_def tool_weight_def)

lemma weights_other:
  "reservation_of R s r \<Longrightarrow> s' \<noteq> s \<Longrightarrow> model_weight w s' r = 0"
  "reservation_of R s r \<Longrightarrow> s' \<noteq> s \<Longrightarrow> tool_weight s' r = 0"
  by (auto simp: reservation_of_def model_weight_def tool_weight_def split: domain_value.splits)

lemma reservation_key:
  "collision_free (rp_sha R) \<Longrightarrow> reservation_of R s r \<Longrightarrow> rec_key r \<noteq> budget_key R s'"
  by (auto simp: reservation_of_def split: domain_value.splits dest!: arg_cong [where f = rec_key])

lemma tally_write:
  assumes ok: "txn_ok t" and free: "collision_free (rp_sha R)" and r: "reservation_of R s r"
    and row: "get_record t (budget_key R s) = Some row" and w: "w row = 0" "w (usage_record R s u n) = 0"
  shows "tally w (budget_write R s r u n t) =
    tally w t + w r - (case get_record t (rec_key r) of None \<Rightarrow> 0 | Some c \<Rightarrow> w c)"
proof -
  let ?t1 = "put_record (rec_key r) r t"
  have ok1: "txn_ok ?t1" using ok by (simp add: txn_ok_put)
  have row1: "get_record ?t1 (budget_key R s) = Some row"
    using reservation_key [OF free r, of s] row by (auto simp: store_effects)
  have "tally w (budget_write R s r u n t) = tally w ?t1"
    using tally_put [OF ok1, of "usage_record R s u n" "budget_key R s" w] row1 w
    by (simp add: budget_write_def)
  also have "\<dots> = tally w t + w r - (case get_record t (rec_key r) of None \<Rightarrow> 0 | Some c \<Rightarrow> w c)"
    by (rule tally_put [OF ok]) simp
  finally show ?thesis .
qed

lemma get_record_write:
  "get_record (budget_write R s r u n t) =
    (get_record t)(rec_key r \<mapsto> r, budget_key R s \<mapsto> usage_record R s u n)"
  by (simp add: budget_write_def store_effects)

lemma txn_ok_write: "txn_ok t \<Longrightarrow> txn_ok (budget_write R s r u n t)"
  by (simp add: budget_write_def txn_ok_put)

lemma budgets_ok_write:
  assumes ok: "txn_ok t" "budgets_ok R t" and free: "collision_free (rp_sha R)" and r: "reservation_of R s r"
    and row: "get_record t (budget_key R s) = Some row" "rec_data row = Usage old"
    and before: "\<And>c. get_record t (rec_key r) = Some c \<Longrightarrow> reservation_of R s c"
    and u: "u = ledger s limits (budget_write R s r u n t)" "within_limits u"
  shows "budgets_ok R (budget_write R s r u n t)"
proof -
  let ?t = "budget_write R s r u n t"
  note get = get_record_write [of R s r u n t]
  have key: "rec_key r \<noteq> budget_key R s'" for s' using reservation_key [OF free r] .
  have pl: "placed R ?t c" if c: "get_record ?t k = Some c" for k c
  proof -
    have present: "get_record t k' \<noteq> None \<Longrightarrow> get_record ?t k' \<noteq> None" for k' by (simp add: get)
    have "c = usage_record R s u n \<or> c = r \<or> get_record t k = Some c"
      using c unfolding get by (cases "k = budget_key R s"; cases "k = rec_key r") simp_all
    then consider "c = usage_record R s u n" | "c = r" | "get_record t k = Some c" by blast
    then show ?thesis
    proof cases
      case 2
      then show ?thesis using r by (auto simp: placed_def reservation_of_def get split: domain_value.splits)
    next
      case 3
      from budgets_placed [OF ok(2) this] present show ?thesis
        by (auto simp: placed_def split: domain_value.splits)
    qed (simp add: placed_def)
  qed
  have led: "\<exists>l. rec_data c = Usage (ledger s' l ?t) \<and> within_limits (ledger s' l ?t)"
    if c: "get_record ?t (budget_key R s') = Some c" for s' c
  proof (cases "s' = s")
    case True
    with c have "c = usage_record R s u n" by (simp add: get)
    with True u show ?thesis by (intro exI [of _ limits]) simp
  next
    case False
    with c key [of s'] free have "get_record t (budget_key R s') = Some c" by (auto simp: get split: if_splits)
    from budgets_ledger [OF ok(2) this] obtain l where
      l: "rec_data c = Usage (ledger s' l t)" "within_limits (ledger s' l t)" .
    have "tally w ?t = tally w t"
      if "w row = 0" "w (usage_record R s u n) = 0" "\<And>x. reservation_of R s x \<Longrightarrow> w x = 0" for w
      using tally_write [OF ok(1) free r row(1), of w u n] that r before by (auto split: option.splits)
    from this [of "model_weight _ s'"] this [of "tool_weight s'"] have "ledger s' l ?t = ledger s' l t"
      using weights_other [OF _ False] row(2) by (simp add: ledger_def)
    with l show ?thesis by (intro exI [of _ l]) simp
  qed
  from pl led show ?thesis unfolding budgets_ok_def by blast
qed

end
