(* ===== verification/Budget_Steps.thy ===== *)
theory Budget_Steps
  imports Budget_Facts
begin

text \<open>
  The operations of the budget repository as writes: what each one returns and stores, that
  \<open>budgets_ok\<close> is kept, that a dispatch is admitted once, that a settlement is final, and what
  the admission check lets through.
\<close>

section \<open>Effects\<close>

lemma txn_over_write [simp]: "txn_over m (budget_write R s r u n t) = txn_over m t"
  by (simp add: budget_write_def)

lemma replace_usage_Inr:
  assumes "replace_usage R row u t = Inr (x, t')"
  shows "t' = put_record (budget_key R (bu_scope u)) (usage_record R (bu_scope u) u (rec_revision row + 1)) t"
  using assms by (auto simp: replace_usage_def replace_checked_def eres replace_record_True)

lemma admit_model_Inr:
  assumes "admit_model_txn B clock m t = Inr (v, t')"
  obtains row u where
    "scope_record (br_repo B) (mr_scope m) t = Inr (row, u)"
    "get_record t (model_key (br_repo B) (mr_scope m) (mr_request m)) = None"
    "check_admission B clock row u (Some Model_requests) t = Inr ()"
    "v = u\<lparr>bu_requests := bu_requests u + 1, bu_in_flight := bu_in_flight u + 1\<rparr>" "usage_ok v"
    "t' = budget_write (br_repo B) (mr_scope m) (model_record (br_repo B) m 0) v (rec_revision row + 1) t"
proof -
  from assms obtain row u x t1 y where
    s: "scope_record (br_repo B) (mr_scope m) t = Inr (row, u)" and
    n: "get_record t (model_key (br_repo B) (mr_scope m) (mr_request m)) = None" and
    c: "check_admission B clock row u (Some Model_requests) t = Inr ()" and
    v: "v = u\<lparr>bu_requests := bu_requests u + 1, bu_in_flight := bu_in_flight u + 1\<rparr>" "usage_ok v" and
    i: "insert_record (model_record (br_repo B) m 0) t = Inr (x, t1)" and
    p: "replace_usage (br_repo B) row v t1 = Inr (y, t')"
    by (auto simp: admit_model_txn_def eres)
  have "bu_scope u = mr_scope m" using s by (simp add: scope_record_Inr)
  with replace_usage_Inr [OF p] i v(1)
  have "t' = budget_write (br_repo B) (mr_scope m) (model_record (br_repo B) m 0) v (rec_revision row + 1) t"
    by (simp add: budget_write_def insert_record_eq)
  with s n c v show ?thesis by (rule that)
qed

lemma admit_tool_Inr:
  assumes "admit_tool_txn B clock c t = Inr (v, t')"
  obtains
    (replayed) row where "scope_record (br_repo B) (tl_scope c) t = Inr (row, v)" "t' = t"
      "get_record t (tool_key (br_repo B) (tl_scope c) (tl_call c)) \<noteq> None"
  | (admitted) row u where
      "scope_record (br_repo B) (tl_scope c) t = Inr (row, u)"
      "get_record t (tool_key (br_repo B) (tl_scope c) (tl_call c)) = None"
      "check_admission B clock row u (Some Tool_calls) t = Inr ()"
      "v = u\<lparr>bu_tools := bu_tools u + 1\<rparr>" "usage_ok v"
      "t' = budget_write (br_repo B) (tl_scope c) (tool_record (br_repo B) c) v (rec_revision row + 1) t"
proof (cases "get_record t (tool_key (br_repo B) (tl_scope c) (tl_call c))")
  case (Some r)
  with assms show ?thesis
    by (auto simp: admit_tool_txn_def eres dest!: make_tool_reservation_Inr intro: replayed)
next
  case None
  with assms obtain row u x t1 y where
    s: "scope_record (br_repo B) (tl_scope c) t = Inr (row, u)" and
    k: "check_admission B clock row u (Some Tool_calls) t = Inr ()" and
    v: "v = u\<lparr>bu_tools := bu_tools u + 1\<rparr>" "usage_ok v" and
    i: "insert_record (tool_record (br_repo B) c) t = Inr (x, t1)" and
    p: "replace_usage (br_repo B) row v t1 = Inr (y, t')"
    by (auto simp: admit_tool_txn_def eres dest!: make_tool_reservation_Inr)
  have "bu_scope u = tl_scope c" using s by (simp add: scope_record_Inr)
  with replace_usage_Inr [OF p] i v(1)
  have "t' = budget_write (br_repo B) (tl_scope c) (tool_record (br_repo B) c) v (rec_revision row + 1) t"
    by (simp add: budget_write_def insert_record_eq)
  with s None k v show ?thesis by (rule admitted)
qed

definition settled_reservation :: "model_reservation \<Rightarrow> int option \<Rightarrow> model_reservation" where
  "settled_reservation m tokens = m\<lparr>mr_status := settled_status tokens, mr_tokens := tokens\<rparr>"

lemma settle_model_Inr:
  assumes "settle_model_txn R s q tokens t = Inr (v, t')" and "collision_free (rp_sha R)" 
  obtains
    (settled) row r m where "scope_record R s t = Inr (row, v)" "t' = t"
      "get_record t (model_key R s q) = Some r" "decode_model r = Inr m"
      "mr_status m = settled_status tokens" "mr_tokens m = tokens"
  | (settles) row u r m where
      "scope_record R s t = Inr (row, u)" "get_record t (model_key R s q) = Some r" "decode_model r = Inr m"
      "mr_status m = In_flight" "v = settled_usage u tokens" "usage_ok v"
      "model_reservation_ok (settled_reservation m tokens)"
      "get_record t' = get_record (budget_write R s
         (model_record R (settled_reservation m tokens) (rec_revision r + 1)) v (rec_revision row + 1) t)"
      "txn_ok t \<Longrightarrow> txn_ok t'" "\<And>m. txn_over m t \<Longrightarrow> txn_over m t'"
proof -
  from assms(1) obtain row u r m where
    s: "scope_record R s t = Inr (row, u)" and r: "get_record t (model_key R s q) = Some r" and
    m: "decode_model r = Inr m" and id: "mr_scope m = s" "mr_request m = q"
    by (auto simp: settle_model_txn_def eres)
  show ?thesis
  proof (cases "mr_status m = In_flight")
    case False
    with assms(1) s r m id show ?thesis
      by (intro settled [of row r m]) (auto simp: settle_model_txn_def eres)
  next
    case True
    let ?m = "settled_reservation m tokens"
    let ?ps = "[\<lparr>repl_record = model_record R ?m (rec_revision r + 1), repl_expected = rec_revision r\<rparr>,
                \<lparr>repl_record = usage_record R s (settled_usage u tokens) (rec_revision row + 1),
                  repl_expected = rec_revision row\<rparr>]"
    from assms(1) s r m id True obtain x where
      ok: "usage_ok (settled_usage u tokens)" "model_reservation_ok ?m" and
      v: "v = settled_usage u tokens" and
      w: "replace_records ?ps t = (Inr x, t')"
      by (auto simp: settle_model_txn_def eres settled_reservation_def split: prod.splits sum.splits)
    have key: "model_key R s q \<noteq> budget_key R s" using assms(2) by simp
    have sc: "mr_scope ?m = s" "mr_request ?m = q" using id by (simp_all add: settled_reservation_def)
    let ?a = "model_record R ?m (rec_revision r + 1)" and ?b = "usage_record R s v (rec_revision row + 1)"
    have "distinct (map rec_key (map repl_record (sort_key (rec_key \<circ> repl_record) ?ps)))"
      using replace_records_effect(1) [OF w] by (simp add: distinct_map_sort_key [unfolded comp_def] comp_def)
    from get_record_put_all [OF this] have
      "get_record t' = get_record t ++ map_of (map (\<lambda>r. (rec_key r, r)) (map repl_record (sort_key (rec_key \<circ> repl_record) ?ps)))"
      unfolding replace_records_effect(3) [OF w] .
    also have "\<dots> = (get_record t)(rec_key ?a \<mapsto> ?a, rec_key ?b \<mapsto> ?b)"
      using key by (cases "model_key R s q \<le> budget_key R s") (auto simp: sc v fun_eq_iff)
    finally have get: "get_record t' = get_record (budget_write R s ?a v (rec_revision row + 1) t)"
      by (simp add: get_record_write)
    have over: "txn_over m t \<Longrightarrow> txn_over m t'" for m by (simp only: replace_records_effect(3) [OF w] txn_over_put_all)
    from settles [OF s r m True v] ok v get txn_ok_replace_records [OF w] over show ?thesis by blast
  qed
qed

section \<open>The ledger is kept\<close>

text \<open>How a write moves the counters of its scope.\<close>

lemma ledger_write:
  assumes "txn_ok t" and "collision_free (rp_sha R)" and "reservation_of R s r"
    and "get_record t (budget_key R s) = Some row" and "rec_data row = Usage old"
  shows "ledger s limits (budget_write R s r u n t) =
    (let gain = (\<lambda>w. w r - (case get_record t (rec_key r) of None \<Rightarrow> 0 | Some c \<Rightarrow> w c)); l = ledger s limits t in
     l\<lparr>bu_requests := bu_requests l + gain (model_weight (\<lambda>_. 1) s),
       bu_tools := bu_tools l + gain (tool_weight s),
       bu_tokens := bu_tokens l + gain (model_weight tokens_weight s),
       bu_in_flight := bu_in_flight l + gain (model_weight (status_weight In_flight) s),
       bu_unknown := bu_unknown l + gain (model_weight (status_weight Unknown_usage) s)\<rparr>)"
  using tally_write [OF assms(1-4), of "model_weight _ s" u n] tally_write [OF assms(1-4), of "tool_weight s" u n]
    assms(5)
  by (simp add: ledger_def Let_def)

lemma check_admission_limit:
  "check_admission B clock row u (Some d) t = Inr x \<Longrightarrow> dimension_limit d (bu_limits u) = Some n \<Longrightarrow>
    dimension_count d u < n"
  by (auto simp: check_admission_def eres)

definition fresh_reservation :: "model_reservation \<Rightarrow> bool" where
  "fresh_reservation m = (model_reservation_ok m \<and> mr_status m = In_flight)"

lemma reservation_of_model [simp]:
  "reservation_of R s (model_record R m n) \<longleftrightarrow> model_reservation_ok m \<and> mr_scope m = s"
  by (simp add: reservation_of_def)

lemma reservation_of_tool [simp]: "reservation_of R s (tool_record R c) \<longleftrightarrow> tl_scope c = s"
  by (simp add: reservation_of_def)

lemma scope_record_row:
  "scope_record R s t = Inr (row, u) \<Longrightarrow> get_record t (budget_key R s) = Some row \<and> rec_data row = Usage u"
  by (simp add: scope_record_Inr)

lemma admit_model_keeps:
  assumes run: "admit_model_txn B clock m t = Inr (v, t')" and m: "fresh_reservation m"
    and ok: "txn_ok t" "budgets_ok (br_repo B) t" and free: "collision_free (rp_sha (br_repo B))"
  shows "txn_ok t'" and "budgets_ok (br_repo B) t'"
proof -
  let ?R = "br_repo B" and ?s = "mr_scope m" and ?r = "model_record (br_repo B) m 0"
  show "txn_ok t'" by (rule admit_model_Inr [OF run]) (simp add: txn_ok_write ok)
  from run obtain row u where
    s: "scope_record ?R ?s t = Inr (row, u)" and n: "get_record t (rec_key ?r) = None" and
    c: "check_admission B clock row u (Some Model_requests) t = Inr ()" and
    v: "v = u\<lparr>bu_requests := bu_requests u + 1, bu_in_flight := bu_in_flight u + 1\<rparr>" and
    t': "t' = budget_write ?R ?s ?r v (rec_revision row + 1) t"
    by (rule admit_model_Inr) simp
  from s ok(2) obtain limits where u: "u = ledger ?s limits t" "within_limits u" "bu_limits u = limits"
    by (rule scope_record_ledger)
  note row = scope_record_row [OF s]
  have r: "reservation_of ?R ?s ?r" using m by (simp add: fresh_reservation_def)
  have "v = ledger ?s limits t'"
    unfolding t' ledger_write [OF ok(1) free r row [THEN conjunct1] row [THEN conjunct2]] n
    using m by (simp add: v u(1) Let_def model_weight_def tool_weight_def status_weight_def tokens_weight_def
        fresh_reservation_def model_reservation_ok_def)
  moreover have "within_limits v"
    using u(2) check_admission_limit [OF c] by (auto simp: v within_limits_def split: option.splits)
  ultimately show "budgets_ok ?R t'"
    unfolding t' using n by (intro budgets_ok_write [OF ok free r row [THEN conjunct1] row [THEN conjunct2]]) simp_all
qed

lemma admit_tool_keeps:
  assumes run: "admit_tool_txn B clock c t = Inr (v, t')"
    and ok: "txn_ok t" "budgets_ok (br_repo B) t" and free: "collision_free (rp_sha (br_repo B))"
  shows "txn_ok t'" and "budgets_ok (br_repo B) t'"
proof -
  let ?R = "br_repo B" and ?s = "tl_scope c" and ?r = "tool_record (br_repo B) c"
  from run show "txn_ok t'" using ok(1) by (cases rule: admit_tool_Inr) (simp_all add: txn_ok_write)
  from run show "budgets_ok ?R t'"
  proof (cases rule: admit_tool_Inr)
    case (admitted row u)
    from admitted(1) ok(2) obtain limits where u: "u = ledger ?s limits t" "within_limits u" "bu_limits u = limits"
      by (rule scope_record_ledger)
    note row = scope_record_row [OF admitted(1)] and t' = admitted(6) and v = admitted(4)
    have n: "get_record t (rec_key ?r) = None" using admitted(2) by simp
    have r: "reservation_of ?R ?s ?r" by simp
    have "v = ledger ?s limits t'"
      unfolding t' ledger_write [OF ok(1) free r row [THEN conjunct1] row [THEN conjunct2]] n
      by (simp add: v u(1) Let_def model_weight_def tool_weight_def)
    moreover have "within_limits v"
      using u(2) check_admission_limit [OF admitted(3)] by (auto simp: v within_limits_def split: option.splits)
    ultimately show ?thesis
      unfolding t' using n by (intro budgets_ok_write [OF ok free r row [THEN conjunct1] row [THEN conjunct2]]) simp_all
  qed (use ok in simp)
qed

lemma settle_model_keeps:
  assumes run: "settle_model_txn R s q tokens t = Inr (v, t')"
    and ok: "txn_ok t" "budgets_ok R t" and free: "collision_free (rp_sha R)"
  shows "txn_ok t'" and "budgets_ok R t'"
proof -
  from run free show ok': "txn_ok t'" using ok(1) by (cases rule: settle_model_Inr) simp_all
  from run free show "budgets_ok R t'"
  proof (cases rule: settle_model_Inr)
    case (settles row u r m)
    let ?r = "model_record R (settled_reservation m tokens) (rec_revision r + 1)"
    let ?t = "budget_write R s ?r v (rec_revision row + 1) t"
    from placed_model [OF free ok(2,1) settles(2,3)] have
      pl: "r = model_record R m (rec_revision r)" "mr_scope m = s" "mr_request m = q"
        "rec_data r = Model_reservation m" "model_reservation_ok m" by auto
    from settles(1) ok(2) obtain limits where u: "u = ledger s limits t" "within_limits u" "bu_limits u = limits"
      by (rule scope_record_ledger)
    note row = scope_record_row [OF settles(1)]
    have sc: "mr_scope (settled_reservation m tokens) = s" "mr_request (settled_reservation m tokens) = q"
      using pl by (simp_all add: settled_reservation_def)
    have c: "get_record t (rec_key ?r) = Some r" using settles(2) by (simp add: sc)
    have r: "reservation_of R s ?r" using settles(7) by (simp add: sc)
    have none: "mr_tokens m = None" using pl(5) settles(4) by (simp add: model_reservation_ok_def)
    have v: "v = ledger s limits ?t"
      unfolding ledger_write [OF ok(1) free r row [THEN conjunct1] row [THEN conjunct2]] c
      using settles(4) none pl(2,4)
      by (cases tokens) (simp_all add: settles(5) u(1) Let_def model_weight_def tool_weight_def status_weight_def
          tokens_weight_def settled_usage_def settled_reservation_def settled_status_def)
    have w: "within_limits v" using u(2)
      by (cases tokens) (auto simp: settles(5) settled_usage_def within_limits_def split: option.splits)
    have before: "reservation_of R s x" if "get_record t (rec_key ?r) = Some x" for x
      using that c pl by (auto simp: reservation_of_def)
    have "budgets_ok R ?t"
      by (rule budgets_ok_write [OF ok free r row [THEN conjunct1] row [THEN conjunct2] before v w])
    with budgets_ok_cong [OF txn_ok_write [OF ok(1)] ok' settles(8)] show ?thesis .
  qed (use ok in simp)
qed

lemma ensure_budget_keeps:
  assumes run: "ensure_budget R s limits t = Inr (v, t')" and limits: "make_budget limits = Inr limits"
    and ok: "txn_ok t" "budgets_ok R t" and free: "collision_free (rp_sha R)"
  shows "txn_ok t'" and "budgets_ok R t'"
proof -
  have "txn_ok t' \<and> budgets_ok R t'"
  proof (cases "get_record t (budget_key R s)")
    case (Some r)
    with run ok show ?thesis by (auto simp: ensure_budget_def eres)
  next
    case None
    let ?r = "usage_record R s (new_usage s limits) 0"
    let ?t = "put_record (budget_key R s) ?r t"
    from None run have t': "t' = ?t" by (auto simp: ensure_budget_def eres insert_record_eq)
    have same: "tally w ?t = tally w t" if "w ?r = 0" for w
      using tally_put [OF ok(1), of ?r "budget_key R s" w] None that by simp
    have led: "ledger s' l ?t = ledger s' l t" for s' l by (simp add: ledger_def same)
    have absent: "model_weight w s r = 0" "tool_weight s r = 0" if "r \<in> set (ov_values (t_records t))" for w r
    proof -
      from that have "get_record t (rec_key r) = Some r"
        using keyed_values [OF txn_okD(1) [OF ok(1)]] by (simp add: get_record_def)
      from budgets_placed [OF ok(2) this] None show "model_weight w s r = 0" "tool_weight s r = 0"
        by (auto simp: placed_def model_weight_def tool_weight_def split: domain_value.splits)
    qed
    have zero: "tally (model_weight w s) t = 0" "tally (tool_weight s) t = 0" for w
      using absent by (simp_all add: tally_def table_sum_def cong: map_cong)
    have new: "new_usage s limits = ledger s limits ?t"
      unfolding led by (simp add: new_usage_def ledger_def zero)
    have w: "within_limits (new_usage s limits)"
      using limits by (auto simp: make_budget_def eres not_negative_def within_limits_def new_usage_def split: option.splits)
    have pl: "placed R ?t c" if "get_record ?t k = Some c" for k c
      using that budgets_placed [OF ok(2), of k c]
      by (auto simp: store_effects placed_def split: if_splits domain_value.splits)
    have "\<exists>l. rec_data c = Usage (ledger s' l ?t) \<and> within_limits (ledger s' l ?t)"
      if c: "get_record ?t (budget_key R s') = Some c" for s' c
    proof (cases "s' = s")
      case True
      with c have "c = ?r" by (simp add: store_effects)
      with True new w show ?thesis by (intro exI [of _ limits]) simp
    next
      case False
      with c free have "get_record t (budget_key R s') = Some c" by (simp add: store_effects)
      from budgets_ledger [OF ok(2) this] obtain l where
        "rec_data c = Usage (ledger s' l t)" "within_limits (ledger s' l t)" .
      then show ?thesis by (intro exI [of _ l]) (simp add: led)
    qed
    with pl have "budgets_ok R ?t" unfolding budgets_ok_def by blast
    then show ?thesis using ok(1) by (simp add: t' txn_ok_put)
  qed
  then show "txn_ok t'" "budgets_ok R t'" by simp_all
qed

section \<open>Runs\<close>

text \<open>A step is a committed mutation of the repository, with its own reservations and times.\<close>

inductive budget_step :: "repo \<Rightarrow> task_store \<Rightarrow> task_store \<Rightarrow> bool" for R where
  ensured: "mem_mutate now (ensure_budget R s limits) m = (Inr v, m') \<Longrightarrow> make_budget limits = Inr limits \<Longrightarrow>
    budget_step R m m'"
| model: "mem_mutate now (admit_model_txn B clock r) m = (Inr v, m') \<Longrightarrow> br_repo B = R \<Longrightarrow> fresh_reservation r \<Longrightarrow>
    budget_step R m m'"
| settled: "mem_mutate now (settle_model_txn R s q tokens) m = (Inr v, m') \<Longrightarrow> budget_step R m m'"
| tool: "mem_mutate now (admit_tool_txn B clock c) m = (Inr v, m') \<Longrightarrow> br_repo B = R \<Longrightarrow> budget_step R m m'"

abbreviation budget_runs :: "repo \<Rightarrow> task_store \<Rightarrow> task_store \<Rightarrow> bool" where
  "budget_runs R \<equiv> rtranclp (budget_step R)"

definition budget_store_ok :: "repo \<Rightarrow> task_store \<Rightarrow> bool" where
  "budget_store_ok R m = (mem_ok m \<and> budgets_ok R (begin_txn 0 m))"

lemma budgets_ok_begin:
  assumes "mem_ok m" and "budgets_ok R (begin_txn 0 m)"
  shows "budgets_ok R (begin_txn now m)"
  by (rule budgets_ok_cong [OF mem_ok_txn [OF assms(1)] mem_ok_txn [OF assms(1)] _ assms(2)]) simp

lemma budget_commit:
  assumes run: "mem_mutate now fn m = (Inr v, m')" and ok: "budget_store_ok R m"
    and keeps: "\<And>t'. fn (begin_txn now m) = Inr (v, t') \<Longrightarrow> txn_ok (begin_txn now m) \<Longrightarrow>
      budgets_ok R (begin_txn now m) \<Longrightarrow> txn_ok t' \<and> budgets_ok R t' \<and> txn_over m t'"
  shows "budget_store_ok R m'"
proof -
  from ok have m: "mem_ok m" "budgets_ok R (begin_txn 0 m)" by (simp_all add: budget_store_ok_def)
  note k = keeps [OF _ mem_ok_txn [OF m(1)] budgets_ok_begin [OF m]]
  from run m(1) obtain t' where t': "fn (begin_txn now m) = Inr (v, t')" "mem_ok m'"
      "\<And>n. get_record (begin_txn n m') = get_record t'"
    by (rule mutate_commit) (use k in blast)+
  with k budgets_ok_cong [OF _ mem_ok_txn [OF t'(2)], of t' 0] show ?thesis
    unfolding budget_store_ok_def by blast
qed

lemma budget_step_ok:
  assumes "budget_step R m m'" and "budget_store_ok R m" and "collision_free (rp_sha R)"
  shows "budget_store_ok R m'"
  using assms(1)
proof cases
  case (ensured now s limits v)
  show ?thesis
  proof (rule budget_commit [OF ensured(1) assms(2)])
    fix t' assume r: "ensure_budget R s limits (begin_txn now m) = Inr (v, t')" "txn_ok (begin_txn now m)"
      "budgets_ok R (begin_txn now m)"
    have "txn_over m t'" using r(1)
      by (auto simp: ensure_budget_def eres insert_record_eq split: option.splits)
    with ensure_budget_keeps [OF r(1) ensured(2) r(2,3) assms(3)]
    show "txn_ok t' \<and> budgets_ok R t' \<and> txn_over m t'" by simp
  qed
next
  case (model now B clock r v)
  show ?thesis
  proof (rule budget_commit [OF model(1) assms(2)])
    fix t' assume r: "admit_model_txn B clock r (begin_txn now m) = Inr (v, t')" "txn_ok (begin_txn now m)"
      "budgets_ok R (begin_txn now m)"
    have "txn_over m t'" by (rule admit_model_Inr [OF r(1)]) simp
    with admit_model_keeps [OF r(1) model(3) r(2)] r(3) assms(3) model(2)
    show "txn_ok t' \<and> budgets_ok R t' \<and> txn_over m t'" by simp
  qed
next
  case (settled now s q tokens v)
  show ?thesis
  proof (rule budget_commit [OF settled assms(2)])
    fix t' assume r: "settle_model_txn R s q tokens (begin_txn now m) = Inr (v, t')" "txn_ok (begin_txn now m)"
      "budgets_ok R (begin_txn now m)"
    from r(1) assms(3) have "txn_over m t'" by (cases rule: settle_model_Inr) simp_all
    with settle_model_keeps [OF r assms(3)] show "txn_ok t' \<and> budgets_ok R t' \<and> txn_over m t'" by simp
  qed
next
  case (tool now B clock c v)
  show ?thesis
  proof (rule budget_commit [OF tool(1) assms(2)])
    fix t' assume r: "admit_tool_txn B clock c (begin_txn now m) = Inr (v, t')" "txn_ok (begin_txn now m)"
      "budgets_ok R (begin_txn now m)"
    from r(1) have "txn_over m t'" by (cases rule: admit_tool_Inr) simp_all
    with admit_tool_keeps [OF r(1,2)] r(3) assms(3) tool(2)
    show "txn_ok t' \<and> budgets_ok R t' \<and> txn_over m t'" by simp
  qed
qed

definition empty_store :: task_store where
  "empty_store =
     \<lparr>m_records = [], m_aliases = [], m_sequences = [], m_facts = [], m_operations = [], m_op_streams = []\<rparr>"

lemma empty_store_ok: "budget_store_ok R empty_store"
proof -
  have "txn_ok (begin_txn 0 empty_store)"
    by (simp add: txn_ok_def empty_store_def begin_txn_def get_record_def keyed_def ov_inv_new)
  then show ?thesis
    by (simp add: budget_store_ok_def mem_ok_def budgets_ok_def) (simp add: empty_store_def)
qed

section \<open>Dispatch once\<close>

text \<open>A reservation stays, so the request it stands for is not admitted again.\<close>

definition model_reserved :: "repo \<Rightarrow> task_store \<Rightarrow> string \<Rightarrow> string \<Rightarrow> bool" where
  "model_reserved R m s q = (get_record (begin_txn 0 m) (model_key R s q) \<noteq> None)"

definition tool_reserved :: "repo \<Rightarrow> task_store \<Rightarrow> string \<Rightarrow> string \<Rightarrow> bool" where
  "tool_reserved R m s c = (get_record (begin_txn 0 m) (tool_key R s c) \<noteq> None)"

lemma get_record_write_kept: "get_record t k \<noteq> None \<Longrightarrow> get_record (budget_write R s r u n t) k \<noteq> None"
  by (simp add: get_record_write)

lemma budget_step_kept:
  assumes "budget_step R m m'" and "budget_store_ok R m" and "collision_free (rp_sha R)"
    and k: "get_record (begin_txn 0 m) k \<noteq> None"
  shows "get_record (begin_txn 0 m') k \<noteq> None"
proof -
  have k': "get_record (begin_txn now m) k \<noteq> None" for now using k by simp
  have "\<exists>t'. get_record t' k \<noteq> None \<and> txn_ok t' \<and> txn_over m t' \<and> m' = apply_transaction t' m"
    if run: "mem_mutate now fn m = (Inr v, m')"
      and keeps: "\<And>t'. fn (begin_txn now m) = Inr (v, t') \<Longrightarrow> txn_ok t' \<and> txn_over m t' \<and> get_record t' k \<noteq> None"
    for now and fn :: "budget_usage task_action" and v
    using run keeps by (auto simp: mem_mutate_def split: sum.splits prod.splits option.splits)
  note commit = this
  from assms(2) have m: "mem_ok m" "budgets_ok R (begin_txn 0 m)" by (simp_all add: budget_store_ok_def)
  note ok = mem_ok_txn [OF m(1)] and b = budgets_ok_begin [OF m]
  from assms(1) have "\<exists>t'. get_record t' k \<noteq> None \<and> txn_ok t' \<and> txn_over m t' \<and> m' = apply_transaction t' m"
  proof cases
    case (ensured now s limits v)
    show ?thesis
    proof (rule commit [OF ensured(1)])
      fix t' assume "ensure_budget R s limits (begin_txn now m) = Inr (v, t')"
      then show "txn_ok t' \<and> txn_over m t' \<and> get_record t' k \<noteq> None"
        using k' ok by (auto simp: ensure_budget_def eres insert_record_eq store_effects txn_ok_put simp del: begin_txn_get split: option.splits)
    qed
  next
    case (model now B clock r v)
    show ?thesis
    proof (rule commit [OF model(1)])
      fix t' assume "admit_model_txn B clock r (begin_txn now m) = Inr (v, t')"
      then show "txn_ok t' \<and> txn_over m t' \<and> get_record t' k \<noteq> None"
        by (rule admit_model_Inr) (simp add: txn_ok_write ok get_record_write_kept k' del: begin_txn_get)
    qed
  next
    case (settled now s q tokens v)
    show ?thesis
    proof (rule commit [OF settled])
      fix t' assume "settle_model_txn R s q tokens (begin_txn now m) = Inr (v, t')"
      then show "txn_ok t' \<and> txn_over m t' \<and> get_record t' k \<noteq> None" using assms(3)
        by (cases rule: settle_model_Inr) (simp_all add: ok get_record_write_kept k' del: begin_txn_get)
    qed
  next
    case (tool now B clock c v)
    show ?thesis
    proof (rule commit [OF tool(1)])
      fix t' assume "admit_tool_txn B clock c (begin_txn now m) = Inr (v, t')"
      then show "txn_ok t' \<and> txn_over m t' \<and> get_record t' k \<noteq> None"
        by (cases rule: admit_tool_Inr) (simp_all add: txn_ok_write ok get_record_write_kept k' del: begin_txn_get)
    qed
  qed
  then obtain t' where t': "get_record t' k \<noteq> None" "txn_ok t'" "txn_over m t'" "m' = apply_transaction t' m" by blast
  then show ?thesis using apply_transaction_get(1) [OF t'(2,3)] by simp
qed

interpretation models: dispatch_gate "budget_step R" "\<lambda>m. budget_store_ok R m \<and> collision_free (rp_sha R)"
  "\<lambda>(s, q) m. model_reserved R m s q"
  "\<lambda>(s, q) m. \<exists>now B clock r v t'. br_repo B = R \<and> mr_scope r = s \<and> mr_request r = q \<and>
     admit_model_txn B clock r (begin_txn now m) = Inr (v, t')" for R
proof
  fix m m' :: task_store and i :: "string \<times> string"
  assume "budget_step R m m'" and "budget_store_ok R m \<and> collision_free (rp_sha R)"
  then show "budget_store_ok R m' \<and> collision_free (rp_sha R)" by (blast intro: budget_step_ok)
next
  fix m m' :: task_store and i :: "string \<times> string"
  assume "budget_step R m m'" and "budget_store_ok R m \<and> collision_free (rp_sha R)"
    and "(\<lambda>(s, q) m. model_reserved R m s q) i m"
  then show "(\<lambda>(s, q) m. model_reserved R m s q) i m'"
    unfolding model_reserved_def by (cases i) (use budget_step_kept in blast)
next
  fix m :: task_store and i :: "string \<times> string"
  assume "(\<lambda>(s, q) m. \<exists>now B clock r v t'. br_repo B = R \<and> mr_scope r = s \<and> mr_request r = q \<and>
     admit_model_txn B clock r (begin_txn now m) = Inr (v, t')) i m"
  then obtain now B clock r v t' where "br_repo B = R" "i = (mr_scope r, mr_request r)"
      "admit_model_txn B clock r (begin_txn now m) = Inr (v, t')" by (cases i) auto
  then show "\<not> (\<lambda>(s, q) m. model_reserved R m s q) i m"
    by (auto simp: model_reserved_def elim!: admit_model_Inr)
qed

lemma dispatch_again_refused:
  assumes "budget_runs (br_repo B) m m'" and "budget_store_ok (br_repo B) m"
    and "collision_free (rp_sha (br_repo B))" and "model_reserved (br_repo B) m (mr_scope r) (mr_request r)"
  shows "isl (admit_model_txn B clock r (begin_txn now m'))"
proof -
  have "admit_model_txn B clock r (begin_txn now m') \<noteq> Inr (v, t')" for v t'
    using models.refused_forever [OF assms(1), of "(mr_scope r, mr_request r)"] assms(2-4) by auto
  then show ?thesis by (cases "admit_model_txn B clock r (begin_txn now m')") auto
qed

lemma admitted_reserved:
  assumes "mem_mutate now (admit_model_txn B clock r) m = (Inr v, m')" and "mem_ok m"
  shows "model_reserved (br_repo B) m' (mr_scope r) (mr_request r)"
proof -
  have k: "admit_model_txn B clock r (begin_txn now m) = Inr (v, t') \<Longrightarrow>
      txn_ok t' \<and> txn_over m t' \<and> get_record t' (model_key (br_repo B) (mr_scope r) (mr_request r)) \<noteq> None" for t'
    by (erule admit_model_Inr) (simp add: txn_ok_write mem_ok_txn assms(2) get_record_write)
  obtain t' where t': "admit_model_txn B clock r (begin_txn now m) = Inr (v, t')"
      "\<And>n. get_record (begin_txn n m') = get_record t'"
    using assms by (rule mutate_commit) (use k in blast)+
  from k [OF t'(1)] show ?thesis unfolding model_reserved_def t'(2) by blast
qed

section \<open>Settlement is final\<close>

lemma settle_again:
  assumes run: "settle_model_txn R s q tokens t = Inr (v, t')" and ok: "txn_ok t" "budgets_ok R t"
    and free: "collision_free (rp_sha R)"
  shows "settle_model_txn R s q other t' =
    (if other = tokens then Inr (v, t')
     else Inl (AIError STORAGE_CONFLICT [(''reason'', JStr ''budget_settlement_changed'')]))"
proof -
  have stored: "\<exists>row r m. scope_record R s t' = Inr (row, v) \<and> get_record t' (model_key R s q) = Some r \<and>
      decode_model r = Inr m \<and> mr_scope m = s \<and> mr_request m = q \<and> mr_status m \<noteq> In_flight \<and>
      mr_status m = settled_status tokens \<and> mr_tokens m = tokens"
    using run free
  proof (cases rule: settle_model_Inr)
    case (settled row r m)
    with placed_model [OF free ok(2,1) settled(3,4)] show ?thesis
      by (intro exI [of _ row] exI [of _ r] exI [of _ m]) (simp add: settled_status_def)
  next
    case (settles row u r m)
    from placed_model [OF free ok(2,1) settles(2,3)] have id: "mr_scope m = s" "mr_request m = q" by auto
    have "bu_scope u = s" using settles(1) by (simp add: scope_record_Inr)
    then have "scope_record R s t' = Inr (usage_record R s v (rec_revision row + 1), v)"
      using settles(6) unfolding scope_record_Inr settles(8) get_record_write
      by (simp add: settles(5) settled_usage_def)
    moreover have "get_record t' (model_key R s q) =
        Some (model_record R (settled_reservation m tokens) (rec_revision r + 1))"
      unfolding settles(8) get_record_write using free id by (simp add: settled_reservation_def)
    moreover have "decode_model (model_record R (settled_reservation m tokens) (rec_revision r + 1)) =
        Inr (settled_reservation m tokens)"
      using settles(7) by (simp add: decode_model_def eres)
    ultimately show ?thesis using id by (simp add: settled_reservation_def settled_status_def)
  qed
  then obtain row r m where st: "scope_record R s t' = Inr (row, v)" "get_record t' (model_key R s q) = Some r"
      "decode_model r = Inr m" "mr_scope m = s" "mr_request m = q" "mr_status m \<noteq> In_flight"
      "mr_status m = settled_status tokens" "mr_tokens m = tokens" by blast
  then show ?thesis by (auto simp: settle_model_txn_def)
qed

section \<open>The admission check\<close>

text \<open>
  The reservations that the check lists are those the usage counts in flight, so the check never
  finds the two apart, and a token limit lets a request through only while every other one is
  settled or running here.
\<close>

lemma count_by_weight: "sum_list (map (\<lambda>x. if P x then 1 else 0) xs) = int (length (filter P xs))"
  by (induction xs) simp_all

lemma in_flight_rows:
  fixes s :: string
  assumes ok: "txn_ok t" "budgets_ok R t" and free: "collision_free (rp_sha R)"
  defines "rows \<equiv> list_records (in_flight_query R s) t"
  shows "int (length rows) = tally (model_weight (status_weight In_flight) s) t"
    and "r \<in> set rows \<longleftrightarrow> get_record t (rec_key r) = Some r \<and>
      (\<exists>m. rec_data r = Model_reservation m \<and> mr_scope m = s \<and> mr_status m = In_flight)"
proof -
  let ?q = "in_flight_query R s"
  have stored: "r \<in> set (ov_values (t_records t)) \<longleftrightarrow> get_record t (rec_key r) = Some r" for r
    using keyed_values [OF txn_okD(1) [OF ok(1)]] by (simp add: get_record_def)
  have match: "matches_record ?q r \<longleftrightarrow>
      (\<exists>m. rec_data r = Model_reservation m \<and> mr_scope m = s \<and> mr_status m = In_flight)"
    if "r \<in> set (ov_values (t_records t))" for r
  proof (cases "rec_data r")
    case (Model_reservation m)
    from that stored have "get_record t (rec_key r) = Some r" by simp
    from budgets_placed [OF ok(2) this] Model_reservation have e: "r = model_record R m (rec_revision r)"
      by (simp add: placed_def)
    have "rec_kind r = ''budget_model''" "rec_scope r = Some (model_scope R (mr_scope m))"
        "rec_state r = Some (reservation_value (mr_status m))"
      by (subst e, simp add: model_record_columns)+
    moreover have "reservation_value (mr_status m) = ''in_flight'' \<longleftrightarrow> mr_status m = In_flight"
      by (cases "mr_status m") simp_all
    ultimately show ?thesis using free Model_reservation by (auto simp: matches_record_def in_flight_query_def)
  qed (use that stored [of r] budgets_placed [OF ok(2)] in
      \<open>force simp: matches_record_def in_flight_query_def placed_def tool_record_def project_record_def\<close>)+
  have rows: "rows = sort_key record_order (filter (matches_record ?q) (ov_values (t_records t)))"
    by (simp add: rows_def list_records_def limited_def after_key_def in_flight_query_def)
  show "r \<in> set rows \<longleftrightarrow> get_record t (rec_key r) = Some r \<and>
      (\<exists>m. rec_data r = Model_reservation m \<and> mr_scope m = s \<and> mr_status m = In_flight)"
    using stored [of r] match [of r] by (auto simp: rows)
  have "model_weight (status_weight In_flight) s r = (if matches_record ?q r then 1 else 0)"
    if "r \<in> set (ov_values (t_records t))" for r
    unfolding match [OF that] by (auto simp: model_weight_def status_weight_def split: domain_value.splits)
  then have "tally (model_weight (status_weight In_flight) s) t =
      sum_list (map (\<lambda>r. if matches_record ?q r then 1 else 0) (ov_values (t_records t)))"
    by (simp add: tally_def table_sum_def cong: map_cong)
  also have "\<dots> = int (length (filter (matches_record ?q) (ov_values (t_records t))))"
    by (rule count_by_weight)
  finally show "int (length rows) = tally (model_weight (status_weight In_flight) s) t" by (simp add: rows)
qed

lemma never_inconsistent:
  assumes ok: "txn_ok t" "budgets_ok (br_repo B) t" and free: "collision_free (rp_sha (br_repo B))"
    and row: "scope_record (br_repo B) s t = Inr (row, u)"
  shows "check_admission B clock row u dim t \<noteq> Inl (Unresolved_local_reservation s' revision True)"
proof -
  from row ok(2) obtain limits where u: "u = ledger s limits t" by (rule scope_record_ledger)
  have s: "bu_scope u = s" using row by (simp add: scope_record_Inr)
  have rows: "int (length (list_records (in_flight_query (br_repo B) s) t)) = bu_in_flight u"
    using in_flight_rows(1) [OF ok free, of s] by (simp add: u ledger_def)
  have plain: "check_in_flight B s n r \<noteq> Inl (Unresolved_local_reservation s' revision True)" for n r
    by (auto simp: check_in_flight_def decode_model_def integrity_def make_model_reservation_def budget_rejected_def
        ebind_eq_Inl ensure_eq_Inl split: domain_value.splits sum.splits if_splits)
  have "emap (check_in_flight B s n) xs \<noteq> Inl (Unresolved_local_reservation s' revision True)" for n xs
    using plain emap_Inl by metis
  then show ?thesis
    using rows
    by (auto simp: check_admission_def check_tokens_def budget_rejected_def s ebind_eq_Inl ensure_eq_Inl Let_def
        split: option.splits if_splits)
qed

lemma check_admission_gate:
  assumes run: "check_admission B clock row u (Some d) t = Inr x"
    and ok: "txn_ok t" "budgets_ok (br_repo B) t" and free: "collision_free (rp_sha (br_repo B))"
    and row: "scope_record (br_repo B) s t = Inr (row, u)" and tokens: "rb_tokens (bu_limits u) = Some n"
    and r: "get_record t k = Some r" "rec_data r = Model_reservation m" "mr_scope m = s"
  shows "bu_tokens u < n" and "mr_status m \<noteq> Unknown_usage"
    and "mr_status m = In_flight \<Longrightarrow> mr_owner m = br_owner B \<and>
      (mr_scope m, mr_request m, mr_admission m) \<in> set (br_active B)"
proof -
  from row ok(2) obtain limits where u: "u = ledger s limits t" by (rule scope_record_ledger)
  have s: "bu_scope u = s" using row by (simp add: scope_record_Inr)
  from run tokens have un: "bu_unknown u = 0" and tk: "bu_tokens u < n" and
    fl: "bu_in_flight u \<noteq> 0 \<Longrightarrow>
      \<exists>xs. emap (check_in_flight B s (rec_revision row)) (list_records (in_flight_query (br_repo B) s) t) = Inr xs"
    by (auto simp: check_admission_def check_tokens_def s eres Let_def split: if_splits)
  show "bu_tokens u < n" by (rule tk)
  have key: "rec_key r = k" using txn_ok_record_key [OF ok(1) r(1)] .
  have mem: "r \<in> set (ov_values (t_records t))"
    using keyed_values [OF txn_okD(1) [OF ok(1)], of r] r(1) key by (simp add: get_record_def)
  have pos: "1 \<le> tally (model_weight (status_weight x) s) t" if "mr_status m = x" for x
  proof -
    have "model_weight (status_weight x) s r = 1" using r that by (simp add: model_weight_def status_weight_def)
    moreover have "model_weight (status_weight x) s r \<le> tally (model_weight (status_weight x) s) t"
      unfolding tally_def table_sum_def
      by (rule member_le_sum_list) (use mem in \<open>auto simp: model_weight_def status_weight_def split: domain_value.splits\<close>)
    ultimately show ?thesis by simp
  qed
  show "mr_status m \<noteq> Unknown_usage" using pos [of Unknown_usage] un by (auto simp: u ledger_def)
  assume fli: "mr_status m = In_flight"
  with pos [of In_flight] have "bu_in_flight u \<noteq> 0" by (simp add: u ledger_def)
  with fl obtain xs where xs: "emap (check_in_flight B s (rec_revision row))
      (list_records (in_flight_query (br_repo B) s) t) = Inr xs" by blast
  have "r \<in> set (list_records (in_flight_query (br_repo B) s) t)"
    using in_flight_rows(2) [OF ok free, of r s] r fli key by auto
  with emap_ex [OF xs] obtain y where "check_in_flight B s (rec_revision row) r = Inr y" by blast
  with r(2) show "mr_owner m = br_owner B \<and> (mr_scope m, mr_request m, mr_admission m) \<in> set (br_active B)"
    by (auto simp: check_in_flight_def decode_model_def eres)
qed

end
