(* ===== verification/Task_Admission.thy ===== *)
theory Task_Admission
  imports Task_Repo Durability
begin

text \<open>
  \<open>TaskAdmissionRepositoryImpl\<close> of \<open>ai/persistence/_task_admission_repository.py\<close>: the
  submission of a graph (prepared, admitted or cancelled), its admission with the records and
  the first event, the checks of a replayed admission, and the page of graphs to recover.
  The keys and record checks it shares with the task repository are those of \<open>Task_Repo\<close>.
\<close>

section \<open>Submissions\<close>

definition submission_key :: "repo \<Rightarrow> string \<Rightarrow> bytes" where
  "submission_key R g = repo_key R ''task_submission'' (JStr g)"

definition payload_key :: "repo \<Rightarrow> string \<Rightarrow> bytes" where
  "payload_key R g = repo_key R ''task_submission_payload'' (JStr g)"

definition ledger_key :: "repo \<Rightarrow> string \<Rightarrow> bytes" where
  "ledger_key R i = operation_key (rp_sha R) (rp_ns R) (rp_tenant R) (rp_domain R) (JStr i)"

definition submission_record :: "repo \<Rightarrow> string \<Rightarrow> submission_ref \<Rightarrow> string \<Rightarrow> task_record" where
  "submission_record R g s st = project_record R ''task_submission'' (JStr g) (Submission_ref s) None None (Some st)"

definition replace_submission :: "task_record \<Rightarrow> string \<Rightarrow> unit task_action" where
  "replace_submission r st t =
     ebind (replace_record (r\<lparr>rec_state := Some st, rec_revision := rec_revision r + 1\<rparr>) (rec_revision r) t)
       (\<lambda>(ok, t'). ensure ok Submission_conflict (Inr ((), t')))"

section \<open>A committed admission\<close>

definition validate_operation_identity :: "repo \<Rightarrow> op_record \<Rightarrow> admission \<Rightarrow> unit res" where
  "validate_operation_identity R v a =
     ensure (oi_id v = ad_operation a \<and> oi_tenant v = rp_tenant R \<and> oi_resource_kind v = TASK_GRAPH \<and>
             oi_resource v = ad_graph a \<and> oi_execution v = None \<and> oi_kind v = TASK_NODE \<and>
             \<not> oi_compactable v) (ai STORAGE_INTEGRITY_ERROR) (Inr ())"

definition validate_succeeded_operation :: "op_record \<Rightarrow> string \<Rightarrow> unit res" where
  "validate_succeeded_operation v g =
     ensure (oi_status v = OP_SUCCEEDED \<and> oi_result_ref v = Some g \<and>
             (case oi_result_digest v of None \<Rightarrow> False | Some d \<Rightarrow> is_sha256 d) \<and> oi_error v = None)
       (ai STORAGE_INTEGRITY_ERROR) (Inr ())"

definition current_graph :: "repo \<Rightarrow> string \<Rightarrow> task_txn \<Rightarrow> (graph_view \<times> node_view list) res" where
  "current_graph R g t =
     ebind (of_option (ai STORAGE_INTEGRITY_ERROR) (get_record t (graph_key R g))) (\<lambda>r.
     ebind (validate_graph_record R r g) (\<lambda>_.
     ebind (decode_graph r) (\<lambda>header.
       ensure (gv_id header = g) (ai STORAGE_INTEGRITY_ERROR)
         (ebind (nodes_with_definitions R g t) (\<lambda>(nodes, views).
          ebind (make_graph \<lparr>tg_id = g, tg_nodes = nodes\<rparr>) (\<lambda>_.
          ebind (effective_status header views (Some nodes)) (\<lambda>status.
            Inr (\<lparr>gv_id = g, gv_status = status, gv_nodes = nodes\<rparr>, views))))))))"

definition require_committed_admission ::
  "repo \<Rightarrow> task_record \<Rightarrow> task_record \<Rightarrow> op_input stored_operation option \<Rightarrow> task_txn \<Rightarrow> (admission \<times> graph_view) res" where
  "require_committed_admission R graph_record admission_record stored t =
     ebind (decode_admission admission_record) (\<lambda>existing.
     ebind (decode_graph graph_record) (\<lambda>header.
     ebind (validate_graph_record R graph_record (gv_id header)) (\<lambda>_.
     ebind (validate_admission_record R admission_record (gv_id header)) (\<lambda>_.
     ebind (current_graph R (gv_id header) t) (\<lambda>(current, _).
     ebind (make_graph \<lparr>tg_id = gv_id current, tg_nodes = gv_nodes current\<rparr>) (\<lambda>persisted.
     ebind (of_option (ai STORAGE_INTEGRITY_ERROR)
              (case stored of None \<Rightarrow> get_operation t (ledger_key R (ad_operation existing)) | Some v \<Rightarrow> Some v))
       (\<lambda>v.
     ebind (validate_operation_identity R (decode_operation v) existing) (\<lambda>_.
       ensure (oi_request (decode_operation v) = ad_digest existing) (ai STORAGE_INTEGRITY_ERROR)
         (ebind (validate_succeeded_operation (decode_operation v) (tg_id persisted)) (\<lambda>_.
            Inr (existing, current)))))))))))"

definition same_admission_contract :: "admission \<Rightarrow> admission \<Rightarrow> bool" where
  "same_admission_contract a b =
     (ad_version a = ad_version b \<and> ad_graph a = ad_graph b \<and> ad_principal a = ad_principal b \<and>
      ad_limits a = ad_limits b \<and> ad_operation a = ad_operation b \<and> ad_digest a = ad_digest b)"

definition canonical_occupied :: "repo \<Rightarrow> task_record \<Rightarrow> task_record \<Rightarrow> admission \<Rightarrow> task_txn \<Rightarrow> bool res" where
  "canonical_occupied R graph_record admission_record candidate t =
     ebind (decode_admission admission_record) (\<lambda>existing.
       if ad_operation existing = ad_operation candidate then Inr False
       else case get_operation t (ledger_key R (ad_operation existing)) of
           None \<Rightarrow> Inr False
         | Some v \<Rightarrow>
             ebind (require_committed_admission R graph_record admission_record (Some v) t) (\<lambda>_. Inr True))"

section \<open>The submission of a graph\<close>

definition submission_in_txn :: "repo \<Rightarrow> submission_ref \<Rightarrow> task_txn \<Rightarrow> task_record option res" where
  "submission_in_txn R s t =
     ensure (sr_namespace s = rp_ns R \<and> sr_tenant s = rp_tenant R) (ai STORAGE_OWNER_MISMATCH)
       (case get_record t (submission_key R (sr_graph s)) of
          None \<Rightarrow> Inr None
        | Some r \<Rightarrow>
            ebind (decode_submission_ref r) (\<lambda>stored.
              ensure (rec_kind r = ''task_submission'' \<and> rec_scope r = None \<and> rec_parent r = None \<and>
                      rec_sort r = sortable_identity (rp_sha R) (JStr (sr_graph s)) \<and>
                      rec_state r \<in> {Some ''prepared'', Some ''admitted'', Some ''cancelled''} \<and>
                      sr_namespace stored = rp_ns R \<and> sr_tenant stored = rp_tenant R \<and>
                      sr_graph stored = sr_graph s) (ai STORAGE_INTEGRITY_ERROR)
                (if stored = s then Inr (Some r)
                 else if sr_operation stored \<noteq> sr_operation s then
                   (case get_record t (graph_key R (sr_graph s)) of
                      None \<Rightarrow> Inl (ai IDEMPOTENCY_CONFLICT)
                    | Some graph \<Rightarrow>
                        ebind (of_option (ai STORAGE_INTEGRITY_ERROR) (get_record t (admission_key R (sr_graph s)))) (\<lambda>a.
                        ebind (require_committed_admission R graph a None t) (\<lambda>_. Inl (ai STORAGE_CONFLICT))))
                 else Inl (ai IDEMPOTENCY_CONFLICT))))"

definition submission_status :: "repo \<Rightarrow> submission_ref \<Rightarrow> task_txn \<Rightarrow> string option res" where
  "submission_status R s t =
     ebind (submission_in_txn R s t) (\<lambda>r. Inr (case r of None \<Rightarrow> None | Some record \<Rightarrow> rec_state record))"

definition prepared_submission :: "repo \<Rightarrow> task_record \<Rightarrow> submission \<Rightarrow> task_txn \<Rightarrow> submission res" where
  "prepared_submission R head candidate t =
     (if rec_state head \<noteq> Some ''prepared'' then Inr candidate
      else
        ebind (of_option (ai STORAGE_INTEGRITY_ERROR) (get_record t (payload_key R (tg_id (sb_graph candidate))))) (\<lambda>payload.
          ensure (rec_kind payload = ''task_submission_payload'') (ai STORAGE_INTEGRITY_ERROR)
            (ebind (decode_submission (rp_sha R) payload) (\<lambda>stored.
             ebind (submission_reference stored) (\<lambda>stored_ref.
             ebind (submission_reference candidate) (\<lambda>candidate_ref.
               ensure (stored_ref = candidate_ref) (ai STORAGE_INTEGRITY_ERROR) (Inr stored)))))))"

definition prepare_txn :: "repo \<Rightarrow> submission \<Rightarrow> (submission \<times> bool) task_action" where
  "prepare_txn R s t =
     ebind (submission_reference s) (\<lambda>reference.
     ebind (submission_in_txn R reference t) (\<lambda>head.
       case head of
         Some r \<Rightarrow> ebind (prepared_submission R r s t) (\<lambda>p. Inr ((p, False), t))
       | None \<Rightarrow>
           (let g = tg_id (sb_graph s) in
            ensure (get_records t [graph_key R g, admission_key R g, payload_key R g] = [] \<and>
                    get_operation t (ledger_key R (ad_operation (sb_admission s))) = None)
              (ai STORAGE_INTEGRITY_ERROR)
              (ebind (insert_records
                        [submission_record R g reference ''prepared'',
                         project_record R ''task_submission_payload'' (JStr g) (Submission s) None None None] t)
                 (\<lambda>(_, t'). Inr ((s, True), t'))))))"

definition prepare_readback :: "repo \<Rightarrow> submission \<Rightarrow> task_txn \<Rightarrow> (submission \<times> bool) observation res" where
  "prepare_readback R s t =
     ebind (submission_reference s) (\<lambda>reference.
     ebind (submission_in_txn R reference t) (\<lambda>head.
       case head of
         None \<Rightarrow> Inr \<lparr>ob_state = Not_committed, ob_value = None, ob_error = None\<rparr>
       | Some r \<Rightarrow>
           ebind (prepared_submission R r s t) (\<lambda>p.
             Inr \<lparr>ob_state = Committed, ob_value = Some (p, False), ob_error = None\<rparr>)))"

section \<open>Cancellation of a submission\<close>

definition cancel_input_ok :: "repo \<Rightarrow> submission_ref \<Rightarrow> op_input \<Rightarrow> bool" where
  "cancel_input_ok R s v =
     (oi_tenant v = rp_tenant R \<and> oi_resource_kind v = TASK_GRAPH \<and> oi_resource v = sr_graph s \<and>
      oi_execution v = None \<and> oi_kind v = TASK_CANCEL \<and> oi_status v = OP_PENDING)"

definition drop_payload :: "repo \<Rightarrow> submission_ref \<Rightarrow> unit task_action" where
  "drop_payload R s t =
     ebind (of_option (ai STORAGE_INTEGRITY_ERROR) (get_record t (payload_key R (sr_graph s)))) (\<lambda>payload.
     ebind (decode_submission (rp_sha R) payload) (\<lambda>prepared.
     ebind (submission_reference prepared) (\<lambda>reference.
       ensure (reference = s) (ai STORAGE_INTEGRITY_ERROR)
         (ebind (delete_record (rec_key payload) None t) (\<lambda>(_, t'). Inr ((), t'))))))"

definition cancelled_operation :: "repo \<Rightarrow> op_input \<Rightarrow> string \<Rightarrow> op_input" where
  "cancelled_operation R v g =
     v\<lparr>oi_status := OP_SUCCEEDED, oi_result_ref := Some g,
       oi_result_digest := Some (canonical_sha256 (rp_sha R)
         (JObj [(''graph_id'', JStr g), (''status'', JStr (status_value CANCELLED))]))\<rparr>"

definition cancel_submission_txn :: "repo \<Rightarrow> submission_ref \<Rightarrow> op_input \<Rightarrow> bool task_action" where
  "cancel_submission_txn R s v t =
     ebind (submission_in_txn R s t) (\<lambda>head.
     ebind (case head of
              Some r \<Rightarrow> Inr (r, t)
            | None \<Rightarrow>
                let r = submission_record R (sr_graph s) s ''cancelled'' in
                ebind (insert_records [r] t) (\<lambda>(_, t'). Inr (r, t'))) (\<lambda>(r, t1).
       let graph_record = get_record t1 (graph_key R (sr_graph s)); admitted = (graph_record \<noteq> None) in
       ensure (\<not> ((rec_state r = Some ''admitted'' \<and> \<not> admitted) \<or> (rec_state r = Some ''prepared'' \<and> admitted)))
         (ai STORAGE_INTEGRITY_ERROR)
         (ebind (if rec_state r = Some ''prepared'' then drop_payload R s t1 else Inr ((), t1)) (\<lambda>(_, t2).
          ebind (if rec_state r \<noteq> Some ''cancelled'' then replace_submission r ''cancelled'' t2 else Inr ((), t2))
            (\<lambda>(_, t3).
          ebind (case graph_record of
                   Some g \<Rightarrow>
                     ebind (validate_graph_record R g (sr_graph s)) (\<lambda>_.
                     ebind (guard_record (rec_key g) (rec_revision g) t3) (\<lambda>(guarded, t4).
                       ensure (guarded \<noteq> None) Submission_conflict (Inr (v, t4))))
                 | None \<Rightarrow> Inr (cancelled_operation R v (sr_graph s), t3)) (\<lambda>(pending, t5).
          ebind (append_operation R pending t5) (\<lambda>(_, t6). Inr (admitted, t6))))))))"

definition cancel_submission_readback ::
  "repo \<Rightarrow> submission_ref \<Rightarrow> op_input \<Rightarrow> task_txn \<Rightarrow> bool observation res" where
  "cancel_submission_readback R s v t =
     ebind (submission_in_txn R s t) (\<lambda>head.
       case head of
         None \<Rightarrow> Inr \<lparr>ob_state = Not_committed, ob_value = None, ob_error = None\<rparr>
       | Some r \<Rightarrow>
           if rec_state r \<noteq> Some ''cancelled'' then Inr \<lparr>ob_state = Not_committed, ob_value = None, ob_error = None\<rparr>
           else (case get_operation t (ledger_key R (oi_id v)) of
               None \<Rightarrow> Inr \<lparr>ob_state = Not_committed, ob_value = None, ob_error = None\<rparr>
             | Some stored \<Rightarrow>
                 ensure (oi_request (decode_operation stored) = oi_request v) (ai IDEMPOTENCY_CONFLICT)
                   (Inr \<lparr>ob_state = Committed,
                         ob_value = Some (\<not> Option.is_none (get_record t (graph_key R (sr_graph s)))),
                         ob_error = None\<rparr>)))"

section \<open>Admission\<close>

definition initial_status :: "task_node \<Rightarrow> task_status res" where
  "initial_status n = (if tn_deps n = [] then dependency_status n (\<lambda>_. None) else Inr PENDING)"

definition initial_view :: "string \<Rightarrow> task_node \<Rightarrow> node_view res" where
  "initial_view g n =
     ebind (initial_status n) (\<lambda>s.
       make_view
         \<lparr>nv_graph = g, nv_id = tn_id n, nv_deps = tn_deps n, nv_status = s, nv_owner = None, nv_fence = 0,
          nv_expires = None, nv_result = None,
          nv_error = (if s = BLOCKED then Some (code_value TASK_DEPENDENCY_FAILED) else None),
          nv_error_digest = None, nv_execution = None, nv_next_attempt = None, nv_occupies = False,
          nv_origin = None, nv_details = []\<rparr>)"

definition submit_result_digest :: "repo \<Rightarrow> task_graph \<Rightarrow> string res" where
  "submit_result_digest R g =
     ebind (emap (initial_view (tg_id g)) (tg_nodes g)) (\<lambda>views.
     ebind (isolated_status views (tg_nodes g)) (\<lambda>status.
       Inr (canonical_sha256 (rp_sha R)
              (JObj [(''graph_id'', JStr (tg_id g)), (''status'', JStr (status_value status))]))))"

definition node_records :: "repo \<Rightarrow> string \<Rightarrow> task_node \<times> node_view \<Rightarrow> task_record list" where
  "node_records R g = (\<lambda>(n, v).
     [project_record R ''task_node_definition'' (pair_ident g (tn_id n)) (Definition n) None
        (Some (definition_parent R g)) None,
      project_record R ''task_node_state'' (pair_ident g (tn_id n)) (Node v) None
        (Some (state_parent R g)) (Some (status_value (nv_status v)))])"

definition admission_records ::
  "repo \<Rightarrow> admission \<Rightarrow> task_graph \<Rightarrow> task_status \<Rightarrow> node_view list \<Rightarrow> task_record list" where
  "admission_records R a g status views =
     project_record R ''task_graph'' (JStr (tg_id g))
       (Graph \<lparr>gv_id = tg_id g, gv_status = status, gv_nodes = []\<rparr>) None None (Some (status_value status)) #
     project_record R ''task_admission'' (JStr (tg_id g)) (Admission a) (Some (recovery_scope R)) None None #
     concat (map (node_records R (tg_id g)) (zip (tg_nodes g) views))"

definition insert_admission_records :: "repo \<Rightarrow> admission \<Rightarrow> task_graph \<Rightarrow> graph_view task_action" where
  "insert_admission_records R a g t =
     ebind (emap (initial_view (tg_id g)) (tg_nodes g)) (\<lambda>views.
     ebind (isolated_status views (tg_nodes g)) (\<lambda>status.
       let view = \<lparr>gv_id = tg_id g, gv_status = status, gv_nodes = tg_nodes g\<rparr> in
       ebind (insert_records (admission_records R a g status views) t) (\<lambda>(_, t1).
       ebind (state_drafts None \<lparr>es_graph = view, es_views = views\<rparr>) (\<lambda>drafts.
       ebind (append_events (rp_sha R) (rp_ns R) (rp_tenant R) (rp_domain R) (tg_id g) (graph_key R (tg_id g))
                drafts False t1) (\<lambda>(_, t2). Inr (view, t2))))))"

definition create_admission :: "repo \<Rightarrow> admission \<Rightarrow> task_graph \<Rightarrow> graph_view task_action" where
  "create_admission R a g t =
     ebind (insert_admission_records R a g t) (\<lambda>(view, t1).
     ebind (submit_result_digest R g) (\<lambda>dg.
     ebind (append_operation R
              \<lparr>oi_id = ad_operation a, oi_tenant = rp_tenant R, oi_resource_kind = TASK_GRAPH,
               oi_resource = tg_id g, oi_execution = None, oi_kind = TASK_NODE, oi_status = OP_SUCCEEDED,
               oi_request = ad_digest a, oi_result_ref = Some (tg_id g), oi_result_digest = Some dg,
               oi_error = None, oi_compactable = False, oi_created = t_now t1, oi_updated = t_now t1\<rparr> t1) (\<lambda>(_, t2).
       Inr (view, t2))))"

definition repair_aggregate :: "repo \<Rightarrow> task_record \<Rightarrow> graph_view \<Rightarrow> graph_view task_action" where
  "repair_aggregate R graph_record view t =
     ebind (decode_graph graph_record) (\<lambda>header.
       let stored = \<lparr>gv_id = gv_id header, gv_status = gv_status header, gv_nodes = gv_nodes view\<rparr>;
           stale = (\<lambda>r. gv_status stored \<noteq> gv_status view \<or> rec_state r \<noteq> Some (status_value (gv_status view))) in
       if \<not> stale graph_record then Inr (view, t)
       else
         ebind (guard_event_owner (graph_key R (gv_id view)) STORAGE_INTEGRITY_ERROR t) (\<lambda>(current, t1).
         ebind (if stale current
                then ebind (projected_record R current (Graph (stored\<lparr>gv_status := gv_status view\<rparr>)))
                       (\<lambda>candidate. replace_checked candidate (rec_revision current) t1)
                else Inr ((), t1)) (\<lambda>(_, t2).
         ebind (graph_drafts stored view) (\<lambda>drafts.
         ebind (append_events (rp_sha R) (rp_ns R) (rp_tenant R) (rp_domain R) (gv_id view)
                  (graph_key R (gv_id view)) drafts True t2) (\<lambda>(_, t3). Inr (view, t3))))))"

definition cancelled_graph :: "string \<Rightarrow> graph_view" where
  "cancelled_graph g = \<lparr>gv_id = g, gv_status = CANCELLED, gv_nodes = []\<rparr>"

text \<open>The admission proper, once the submission is settled.\<close>

definition admit_graph :: "repo \<Rightarrow> bool \<Rightarrow> admission \<Rightarrow> task_graph \<Rightarrow> graph_view task_action" where
  "admit_graph R replayed a g t =
     (let graph_record = get_record t (graph_key R (tg_id g));
          admission_record = get_record t (admission_key R (tg_id g));
          stored = get_operation t (ledger_key R (ad_operation a));
          definitions = list_records (node_query (definition_parent R (tg_id g)) ''task_node_definition'') t;
          states = list_records (node_query (state_parent R (tg_id g)) ''task_node_state'') t in
      case (graph_record, admission_record, stored) of
        (None, None, None) \<Rightarrow>
          ensure (definitions = [] \<and> states = [] \<and> \<not> replayed) (ai STORAGE_INTEGRITY_ERROR) (create_admission R a g t)
      | (Some graph, Some ad, None) \<Rightarrow>
          ebind (canonical_occupied R graph ad a t) (\<lambda>occupied.
            if occupied then Inl (ai STORAGE_CONFLICT) else Inl (ai STORAGE_INTEGRITY_ERROR))
      | (Some graph, Some ad, Some v) \<Rightarrow>
          ensure (oi_request (decode_operation v) = ad_digest a) (ai IDEMPOTENCY_CONFLICT)
            (ebind (validate_operation_identity R (decode_operation v) a) (\<lambda>_.
             ebind (require_committed_admission R graph ad (Some v) t) (\<lambda>(existing, view).
               ensure (existing = a \<or> same_admission_contract existing a) (ai STORAGE_INTEGRITY_ERROR)
                 (repair_aggregate R graph view t))))
      | _ \<Rightarrow> Inl (ai STORAGE_INTEGRITY_ERROR))"

definition admit_txn :: "repo \<Rightarrow> admission \<Rightarrow> task_graph \<Rightarrow> bool \<Rightarrow> graph_view task_action" where
  "admit_txn R a g require_prepared t =
     ebind (make_submission (rp_sha R) \<lparr>sb_namespace = rp_ns R, sb_admission = a, sb_graph = g\<rparr>) (\<lambda>s.
     ebind (submission_reference s) (\<lambda>reference.
     ebind (submission_in_txn R reference t) (\<lambda>head.
       case head of
         None \<Rightarrow>
           if require_prepared then Inl (ai STORAGE_NOT_FOUND)
           else
             ebind (insert_record (submission_record R (tg_id g) reference ''admitted'') t) (\<lambda>(_, t1).
               admit_graph R False a g t1)
       | Some r \<Rightarrow>
           if rec_state r = Some ''prepared'' then
             ebind (prepared_submission R r s t) (\<lambda>p.
             ebind (replace_submission r ''admitted'' t) (\<lambda>(_, t1).
             ebind (delete_record (payload_key R (tg_id (sb_graph p))) None t1) (\<lambda>(_, t2).
               admit_graph R False (sb_admission p) (sb_graph p) t2)))
           else if rec_state r = Some ''cancelled'' \<and> get_record t (graph_key R (tg_id g)) = None
           then Inr (cancelled_graph (tg_id g), t)
           else admit_graph R (rec_state r = Some ''admitted'') a g t)))"

text \<open>The guards that \<open>_admit\<close> and \<open>admit_prepared\<close> apply before the transaction.\<close>

definition admit_guard :: "repo \<Rightarrow> admission \<Rightarrow> task_graph \<Rightarrow> unit res" where
  "admit_guard R a g =
     ebind (validate_graph (rp_sha R) a g) (\<lambda>_.
     ebind (admission_launch a) (\<lambda>l.
       ensure (pr_tenant (la_principal l) = rp_tenant R) (ai STORAGE_OWNER_MISMATCH) (Inr ())))"

definition admit_prepared_guard :: "repo \<Rightarrow> submission \<Rightarrow> unit res" where
  "admit_prepared_guard R s =
     ensure (sb_namespace s = rp_ns R) (ai STORAGE_OWNER_MISMATCH) (admit_guard R (sb_admission s) (sb_graph s))"

end
