(* ===== verification/Task_Admission_Reads.thy ===== *)
theory Task_Admission_Reads
  imports Task_Admission
begin

text \<open>
  The rest of \<open>TaskAdmissionRepositoryImpl\<close>: the read-back of an admission, the retry of its
  commit, and the reads \<open>get\<close> and \<open>list_recoverable_page\<close>.

  A page cursor is the base64 text of the sort key and key of the last record.  It is the pair
  itself here: \<open>record_order\<close> of the record.
\<close>

section \<open>Commit\<close>

definition not_committed :: "exc option \<Rightarrow> 'a observation" where
  "not_committed e = \<lparr>ob_state = Not_committed, ob_value = None, ob_error = e\<rparr>"

definition partial_integrity :: "exc \<Rightarrow> 'a observation" where
  "partial_integrity e = \<lparr>ob_state = Partial_integrity_error, ob_value = None, ob_error = Some e\<rparr>"

definition committed_value :: "'a \<Rightarrow> 'a observation" where
  "committed_value v = \<lparr>ob_state = Committed, ob_value = Some v, ob_error = None\<rparr>"

text \<open>The \<open>try\<close> of \<open>_read_admission\<close>: what its body returned or raised.\<close>

definition observed :: "'a observation res \<Rightarrow> 'a observation res" where
  "observed m =
     (case m of
        Inr ob \<Rightarrow> Inr ob
      | Inl e \<Rightarrow>
          if exc_code e \<noteq> None then Inr (partial_integrity e)
          else if e \<in> {KeyError, TypeError, ValueError} then Inr (partial_integrity (ai STORAGE_INTEGRITY_ERROR))
          else Inl e)"

definition read_admission :: "repo \<Rightarrow> admission \<Rightarrow> task_graph \<Rightarrow> task_txn \<Rightarrow> graph_view observation res" where
  "read_admission R a g t =
     ebind (make_submission (rp_sha R) \<lparr>sb_namespace = rp_ns R, sb_admission = a, sb_graph = g\<rparr>) (\<lambda>s.
     ebind (submission_reference s) (\<lambda>reference.
     ebind (submission_in_txn R reference t) (\<lambda>head.
       let graph_record = get_record t (graph_key R (tg_id g));
           admission_record = get_record t (admission_key R (tg_id g));
           stored = get_operation t (ledger_key R (ad_operation a));
           definitions = list_records (node_query (definition_parent R (tg_id g)) ''task_node_definition'') t;
           states = list_records (node_query (state_parent R (tg_id g)) ''task_node_state'') t in
       if (case head of None \<Rightarrow> False | Some r \<Rightarrow> rec_state r = Some ''cancelled'' \<and> graph_record = None)
       then Inr (committed_value (cancelled_graph (tg_id g)))
       else if graph_record = None \<and> admission_record = None \<and> Option.is_none stored \<and> definitions = [] \<and> states = []
       then Inr (not_committed None)
       else observed
         (case (graph_record, admission_record, stored) of
            (Some graph, Some ad, None) \<Rightarrow>
              ebind (canonical_occupied R graph ad a t) (\<lambda>occupied.
                if occupied then Inr (not_committed (Some (ai STORAGE_CONFLICT)))
                else Inl (ai STORAGE_INTEGRITY_ERROR))
          | (Some graph, Some ad, Some v) \<Rightarrow>
              if oi_request (decode_operation v) \<noteq> ad_digest a
              then Inr (not_committed (Some (ai IDEMPOTENCY_CONFLICT)))
              else
                ebind (validate_operation_identity R (decode_operation v) a) (\<lambda>_.
                ebind (require_committed_admission R graph ad (Some v) t) (\<lambda>(existing, view).
                  ensure (existing = a \<or> same_admission_contract existing a) (ai STORAGE_INTEGRITY_ERROR)
                    (Inr (committed_value view))))
          | _ \<Rightarrow> Inl (ai STORAGE_INTEGRITY_ERROR)))))"

text \<open>
  \<open>_commit\<close>: a commit that lost the race for its submission is tried again, at most eight times;
  \<open>results i\<close> is what attempt \<open>i\<close> came to.
\<close>

definition commit_attempts :: nat where
  "commit_attempts = 8"

fun last_attempt :: "nat \<Rightarrow> nat \<Rightarrow> (nat \<Rightarrow> 'a commit_result) \<Rightarrow> 'a commit_result" where
  "last_attempt 0 i results = results i"
| "last_attempt (Suc n) i results =
     (if cr_state (results i) = Not_committed \<and> cr_error (results i) = Some Submission_conflict \<and>
         \<not> cr_cancelled (results i)
      then last_attempt n (Suc i) results else results i)"

definition commit_outcome :: "'a commit_result \<Rightarrow> 'a res" where
  "commit_outcome r =
     (if cr_cancelled r then Inl Cancelled_error
      else
        case (cr_state r, cr_value r, cr_error r) of
          (Committed, Some v, _) \<Rightarrow> Inr v
        | (state, _, Some e) \<Rightarrow>
            if exc_code e \<in> {Some IDEMPOTENCY_CONFLICT, Some STORAGE_OWNER_MISMATCH, Some STORAGE_NOT_FOUND,
                            Some STORAGE_CONFLICT} \<or> state \<in> {Not_committed, Partial_integrity_error}
            then Inl e else Inl (ai STORAGE_COMMIT_UNKNOWN)
        | _ \<Rightarrow> Inl (ai STORAGE_COMMIT_UNKNOWN))"

definition commit_submission :: "(nat \<Rightarrow> 'a commit_result) \<Rightarrow> 'a res" where
  "commit_submission results = commit_outcome (last_attempt (commit_attempts - 1) 0 results)"

section \<open>Reads\<close>

definition get_admission :: "repo \<Rightarrow> string \<Rightarrow> string \<Rightarrow> task_txn \<Rightarrow> admission option res" where
  "get_admission R g tenant t =
     (if tenant \<noteq> rp_tenant R then Inr None
      else case (get_record t (graph_key R g), get_record t (admission_key R g)) of
          (None, None) \<Rightarrow> Inr None
        | (Some graph, Some ad) \<Rightarrow>
            ebind (validate_graph_record R graph g) (\<lambda>_.
            ebind (validate_admission_record R ad g) (\<lambda>_.
            ebind (decode_admission ad) (\<lambda>a.
              ensure (ad_graph a = g \<and> pr_tenant (ad_principal a) = tenant) (ai STORAGE_INTEGRITY_ERROR)
                (ebind (of_option (ai STORAGE_INTEGRITY_ERROR) (get_operation t (ledger_key R (ad_operation a)))) (\<lambda>v.
                 ebind (require_committed_admission R graph ad (Some v) t) (\<lambda>(existing, _).
                   ensure (existing = a) (ai STORAGE_INTEGRITY_ERROR) (Inr (Some a))))))))
        | _ \<Rightarrow> Inl (ai STORAGE_INTEGRITY_ERROR))"

definition recoverable_query :: "(string \<times> bytes) option \<Rightarrow> nat \<Rightarrow> record_query" where
  "recoverable_query after n =
     \<lparr>rq_scope = None, rq_parent = None, rq_kind = Some ''task_graph'', rq_states = Some [''PENDING'', ''RUNNING''],
      rq_prefix = None, rq_after = after, rq_limit = Some n\<rparr>"

definition recoverable_header :: "repo \<Rightarrow> task_record \<Rightarrow> graph_view res" where
  "recoverable_header R r =
     ebind (decode_graph r) (\<lambda>header.
     ebind (validate_graph_record R r (gv_id header)) (\<lambda>_.
     ebind (require_canonical (gv_status header)) (\<lambda>_.
       ensure (rec_state r = Some (status_value (gv_status header)) \<and> gv_status header \<in> {PENDING, RUNNING})
         (ai STORAGE_INTEGRITY_ERROR) (Inr header))))"

definition recoverable_launch :: "repo \<Rightarrow> task_txn \<Rightarrow> graph_view \<Rightarrow> launch res" where
  "recoverable_launch R t header =
     ebind (of_option (ai STORAGE_INTEGRITY_ERROR) (get_record t (admission_key R (gv_id header)))) (\<lambda>r.
     ebind (validate_admission_record R r (gv_id header)) (\<lambda>_.
     ebind (decode_admission r) (\<lambda>a.
       ensure (ad_graph a = gv_id header \<and> pr_tenant (ad_principal a) = rp_tenant R) (ai STORAGE_INTEGRITY_ERROR)
         (ebind (of_option (ai STORAGE_INTEGRITY_ERROR) (get_operation t (ledger_key R (ad_operation a)))) (\<lambda>v.
          ebind (validate_operation_identity R (decode_operation v) a) (\<lambda>_.
            ensure (oi_request (decode_operation v) = ad_digest a) (ai STORAGE_INTEGRITY_ERROR)
              (ebind (validate_succeeded_operation (decode_operation v) (ad_graph a)) (\<lambda>_. admission_launch a))))))))"

definition list_recoverable_page ::
  "repo \<Rightarrow> (string \<times> bytes) option \<Rightarrow> int \<Rightarrow> task_txn \<Rightarrow> (launch list \<times> (string \<times> bytes) option) res" where
  "list_recoverable_page R after limit t =
     ensure (1 \<le> limit \<and> limit \<le> 1000) (ai REQUEST_FIELD_INVALID)
       (let q = recoverable_query after (nat limit + 1) in
        ensure (record_query_ok q) ValueError
          (let records = list_records q t; selected = take (nat limit) records in
           ebind (emap (recoverable_header R) selected) (\<lambda>headers.
           ebind (emap (recoverable_launch R t) headers) (\<lambda>launches.
             Inr (launches,
                  if nat limit < length records \<and> selected \<noteq> [] then Some (record_order (last selected)) else None)))))"

text \<open>The largest page that the guard accepts is never served: its query asks for one record more.\<close>

lemma recoverable_query_ok: "record_query_ok (recoverable_query after n) \<Longrightarrow> n \<le> 1000"
  by (simp add: record_query_ok_def recoverable_query_def limit_ok_def)

lemma largest_page_refused: "list_recoverable_page R after 1000 t = Inl ValueError"
proof -
  have "\<not> record_query_ok (recoverable_query after 1001)" using recoverable_query_ok [of after 1001] by auto
  then show ?thesis by (simp add: list_recoverable_page_def)
qed

end
