(* ===== verification/Samples.thy ===== *)
theory Samples
  imports Task_Outcomes Task_Reads Budget_Steps Task_Admission_Reads
begin

text \<open>
  A concrete repository and store for the witnesses: the digest is the identity on byte
  strings, and the store holds a graph \<open>g\<close> with a node \<open>a\<close> and a node \<open>b\<close> that depends on it,
  as an admission writes them.
\<close>

definition sample_repo :: repo where
  "sample_repo = \<lparr>rp_sha = (\<lambda>s. s), rp_ns = ''n'', rp_tenant = ''t'', rp_domain = ''d''\<rparr>"

definition sample_node :: "string \<Rightarrow> string list \<Rightarrow> task_node" where
  "sample_node u ds =
     \<lparr>tn_id = u, tn_deps = ds, tn_task = Some (''task'', 1), tn_input = [], tn_original = None,
      tn_cost = 1, tn_expander = None, tn_refs = [], tn_capture = None, tn_timeout = None,
      tn_attempts = 1, tn_delay = 0, tn_contract = None, tn_effects = No_effect,
      tn_reconcile = False, tn_policy = All_succeeded, tn_failure = Propagate\<rparr>"

definition sample_view :: "string \<Rightarrow> string list \<Rightarrow> task_status \<Rightarrow> node_view" where
  "sample_view u ds s =
     \<lparr>nv_graph = ''g'', nv_id = u, nv_deps = ds, nv_status = s, nv_owner = None, nv_fence = 0,
      nv_expires = None, nv_result = None, nv_error = None, nv_error_digest = None,
      nv_execution = None, nv_next_attempt = None, nv_occupies = False, nv_origin = None,
      nv_details = []\<rparr>"

definition running_view :: "string \<Rightarrow> string list \<Rightarrow> int \<Rightarrow> int \<Rightarrow> node_view" where
  "running_view u ds fence expires =
     (sample_view u ds RUNNING)\<lparr>nv_owner := Some ''w'', nv_fence := fence, nv_expires := Some expires\<rparr>"

definition sample_digest :: string where
  "sample_digest = replicate 64 CHR ''0''"

definition sample_principal :: principal where
  "sample_principal = \<lparr>pr_id = ''p'', pr_tenant = ''t'', pr_kind = ''user''\<rparr>"

definition sample_limits :: task_limits where
  "sample_limits = \<lparr>max_concurrency = 2, max_depth = 4, max_nodes = 8, max_budget = 10\<rparr>"

definition sample_records :: "node_view list \<Rightarrow> task_record list" where
  "sample_records views =
     project_record sample_repo ''task_graph'' (JStr ''g'')
       (Graph \<lparr>gv_id = ''g'', gv_status = PENDING, gv_nodes = []\<rparr>) None None (Some ''PENDING'') #
     project_record sample_repo ''task_admission'' (JStr ''g'')
       (Admission \<lparr>ad_version = 1, ad_graph = ''g'', ad_principal = sample_principal, ad_limits = sample_limits,
                   ad_operation = sample_digest, ad_digest = sample_digest, ad_correlation = [], ad_budget = None,
                   ad_budget_scope = None, ad_effects = Live\<rparr>)
       (Some (recovery_scope sample_repo)) None None #
     concat (map (\<lambda>v.
       [project_record sample_repo ''task_node_definition'' (pair_ident ''g'' (nv_id v))
          (Definition (sample_node (nv_id v) (nv_deps v))) None (Some (definition_parent sample_repo ''g'')) None,
        project_record sample_repo ''task_node_state'' (pair_ident ''g'' (nv_id v)) (Node v) None
          (Some (state_parent sample_repo ''g'')) (Some (status_value (nv_status v)))]) views)"

definition sample_store :: "node_view list \<Rightarrow> task_store" where
  "sample_store views =
     \<lparr>m_records = map (\<lambda>r. (rec_key r, r)) (sample_records views), m_aliases = [], m_sequences = [],
      m_facts = [], m_operations = [], m_op_streams = []\<rparr>"

definition sample_txn :: "node_view list \<Rightarrow> int \<Rightarrow> task_txn" where
  "sample_txn views now = begin_txn now (sample_store views)"


lemma sample_txn_ok:
  assumes "distinct (map rec_key (sample_records vs))"
  shows "txn_ok (sample_txn vs now)"
proof -
  have "keyed rec_key (ov_new (map (\<lambda>r. (rec_key r, r)) (sample_records vs)))"
    using assms map_of_by_key [OF assms] by (auto simp: keyed_def comp_def intro!: ov_inv_new)
  then show ?thesis
    by (simp add: txn_ok_def sample_txn_def sample_store_def begin_txn_def get_record_def)
      (simp add: keyed_def ov_inv_new)
qed

lemma sample_log_gapless: "log_gapless R g (sample_txn vs now)"
  by (simp add: log_gapless_def stream_gapless_def log_length_def sample_txn_def sample_store_def
      get_sequence_def get_fact_def)

lemma decode_node_status: "decode_node r = Inr v \<Longrightarrow> rec_data r = Node u \<Longrightarrow> nv_status v = nv_status u"
  by (auto simp: decode_node_def persisted_view_def eres)

lemma sample_columns_agree: "columns_agree (sample_txn vs now)"
  unfolding columns_agree_def
proof (intro allI impI)
  fix k r v assume r: "get_record (sample_txn vs now) k = Some r" and gn: "rec_kind r = ''task_node_state''"
    and d: "decode_node r = Inr v"
  have "r \<in> set (sample_records vs)"
    using map_of_SomeD [OF r [unfolded sample_txn_def begin_txn_get(1)]] by (auto simp: sample_store_def)
  with gn obtain u where "rec_state r = Some (status_value (nv_status u))" "rec_data r = domain_data (Node u)"
    by (auto simp: sample_records_def project_record_def Let_def)
  with decode_node_status [OF d] show "rec_state r = Some (status_value (nv_status v))"
    by (auto simp: persisted_view_def)
qed

lemma sample_txn_now [simp]: "t_now (sample_txn vs now) = now"
  by (simp add: sample_txn_def begin_txn_def)

text \<open>The two nodes before the first claim, and with node \<open>a\<close> running.\<close>

definition sample_ready :: task_txn where
  "sample_ready = sample_txn [sample_view ''a'' [] READY, sample_view ''b'' [''a''] PENDING] 1000"

definition sample_running :: task_txn where
  "sample_running = sample_txn [running_view ''a'' [] 1 5000, sample_view ''b'' [''a''] PENDING] 1000"

definition sample_lease :: "int \<Rightarrow> int \<Rightarrow> task_lease" where
  "sample_lease fence expires =
     \<lparr>ls_graph = ''g'', ls_node = ''a'', ls_tenant = ''t'', ls_owner = ''w'', ls_fence = fence,
      ls_expires = expires, ls_execution = None\<rparr>"

lemma sample_ready_ok: "txn_ok sample_ready" "log_gapless sample_repo ''g'' sample_ready"
  "columns_agree sample_ready" "t_now sample_ready = 1000"
proof -
  show "txn_ok sample_ready" unfolding sample_ready_def by (rule sample_txn_ok) code_simp
qed (simp_all add: sample_ready_def sample_log_gapless sample_columns_agree)

lemma sample_running_ok: "txn_ok sample_running" "log_gapless sample_repo ''g'' sample_running"
  "columns_agree sample_running" "t_now sample_running = 1000"
proof -
  show "txn_ok sample_running" unfolding sample_running_def by (rule sample_txn_ok) code_simp
qed (simp_all add: sample_running_def sample_log_gapless sample_columns_agree)

text \<open>What an operation returns, and whether its transaction may commit.\<close>

definition returns :: "('a \<times> task_txn) res \<Rightarrow> ('a \<Rightarrow> bool) \<Rightarrow> bool" where
  "returns r P = (case r of Inl e \<Rightarrow> False | Inr (x, t) \<Rightarrow> P x \<and> t_error t = None)"

lemma returnsE:
  assumes "returns (fn t) P"
  obtains x t' where "fn t = Inr (x, t')" "P x" "\<And>m now. t = begin_txn now m \<Longrightarrow> mem_mutate now fn m = (Inr x, apply_transaction t' m)"
proof -
  from assms obtain x t' where "fn t = Inr (x, t')" "P x" "t_error t' = None"
    by (auto simp: returns_def split: sum.splits)
  then show ?thesis by (intro that) (auto simp: mem_mutate_def)
qed

lemma sample_claim_returns:
  "returns (claim_txn sample_repo ''g'' ''a'' ''t'' ''w'' 60 sample_ready) (\<lambda>l. l = sample_lease 1 60001000)"
  by code_simp

lemma sample_claim:
  "\<exists>t'. claim_txn sample_repo ''g'' ''a'' ''t'' ''w'' 60 sample_ready = Inr (sample_lease 1 60001000, t')"
  using returnsE [where fn = "claim_txn sample_repo ''g'' ''a'' ''t'' ''w'' 60", OF sample_claim_returns] by metis

text \<open>The stores behind them, and what one committed operation makes of them.\<close>

definition ready_store :: task_store where
  "ready_store = sample_store [sample_view ''a'' [] READY, sample_view ''b'' [''a''] PENDING]"

definition running_store :: task_store where
  "running_store = sample_store [running_view ''a'' [] 1 5000, sample_view ''b'' [''a''] PENDING]"

lemma sample_stores: "begin_txn 1000 ready_store = sample_ready" "begin_txn 1000 running_store = sample_running"
  by (simp_all add: ready_store_def running_store_def sample_ready_def sample_running_def sample_txn_def)

lemma sample_store_ok:
  assumes "distinct (map rec_key (sample_records vs))"
  shows "store_ok R (sample_store vs)"
proof -
  have "txn_ok (begin_txn 0 (sample_store vs))" "columns_agree (begin_txn 0 (sample_store vs))"
      "log_gapless R g (begin_txn 0 (sample_store vs))" for g
    using sample_txn_ok [OF assms, of 0] sample_columns_agree [of vs 0] sample_log_gapless [of R g vs 0]
    by (simp_all add: sample_txn_def)
  with assms show ?thesis by (simp add: store_ok_def mem_ok_def sample_store_def comp_def)
qed

lemma sample_stores_ok: "store_ok R ready_store" "store_ok R running_store" "collision_free (rp_sha sample_repo)"
proof -
  show "store_ok R ready_store" unfolding ready_store_def by (rule sample_store_ok) code_simp
  show "store_ok R running_store" unfolding running_store_def by (rule sample_store_ok) code_simp
qed (simp add: collision_free_def sample_repo_def)

definition node_has :: "task_store \<Rightarrow> bytes \<Rightarrow> (node_view \<Rightarrow> bool) \<Rightarrow> bool" where
  "node_has m k P =
     (case map_of (m_records m) k of
        None \<Rightarrow> False
      | Some r \<Rightarrow> rec_kind r = ''task_node_state'' \<and> (case decode_node r of Inl e \<Rightarrow> False | Inr v \<Rightarrow> P v))"

lemma node_hasE:
  assumes "node_has m k P"
  obtains v where "node_in m k v" "P v"
  using assms by (auto simp: node_has_def node_in_def node_at_def split: option.splits sum.splits)

lemma sample_nodes:
  "node_has ready_store (state_key sample_repo ''g'' ''a'') (\<lambda>v. nv_status v = READY \<and> nv_fence v = 0)"
  "node_has running_store (state_key sample_repo ''g'' ''a'') (\<lambda>v. nv_status v = RUNNING \<and> nv_fence v = 1)"
  by code_simp+

lemma sample_claim_step: "\<exists>m. store_step sample_repo ''g'' ready_store m"
proof -
  obtain t' where "\<And>m now. sample_ready = begin_txn now m \<Longrightarrow>
      mem_mutate now (claim_txn sample_repo ''g'' ''a'' ''t'' ''w'' 60) m = (Inr (sample_lease 1 60001000), apply_transaction t' m)"
    using returnsE [where fn = "claim_txn sample_repo ''g'' ''a'' ''t'' ''w'' 60", OF sample_claim_returns] by metis
  from store_step.claimed [OF this [OF sample_stores(1) [symmetric]]] show ?thesis by blast
qed

lemma sample_renew_returns:
  "returns (renew_txn sample_repo (sample_lease 1 5000) 60 2000 sample_running) (\<lambda>l. True)"
  by code_simp

lemma sample_renew_step: "\<exists>m. store_step sample_repo ''g'' running_store m"
proof -
  obtain l t' where "\<And>m now. sample_running = begin_txn now m \<Longrightarrow>
      mem_mutate now (renew_txn sample_repo (sample_lease 1 5000) 60 2000) m = (Inr l, apply_transaction t' m)"
    using returnsE [where fn = "renew_txn sample_repo (sample_lease 1 5000) 60 2000", OF sample_renew_returns] by metis
  from store_step.renewed [OF this [OF sample_stores(2) [symmetric]]] show ?thesis by (auto simp: sample_lease_def)
qed

definition sample_failure :: failure where
  "sample_failure = \<lparr>fl_error = ''boom'', fl_digest = replicate 64 CHR ''0'', fl_origin = ''node'', fl_details = []\<rparr>"

definition started :: "node_view \<Rightarrow> node_view" where
  "started v = (if nv_id v = ''a'' then v\<lparr>nv_status := RUNNING, nv_owner := Some ''w'', nv_fence := 1, nv_expires := Some 5000\<rparr> else v)"

text \<open>The lease of \<open>a\<close> has expired; \<open>a\<close> waits for a recovery.\<close>

definition sample_lapsed :: task_txn where
  "sample_lapsed = sample_txn [running_view ''a'' [] 1 500, sample_view ''b'' [''a''] PENDING] 1000"

definition suspended_view :: node_view where
  "suspended_view = (running_view ''a'' [] 1 500)\<lparr>nv_status := RECOVERY_REQUIRED, nv_owner := None, nv_expires := None,
     nv_error := Some (code_value TASK_EFFECT_UNKNOWN), nv_error_digest := Some sample_digest, nv_execution := Some ''x''\<rparr>"

definition sample_suspended :: task_txn where
  "sample_suspended = sample_txn [suspended_view, sample_view ''b'' [''a''] PENDING] 1000"

lemma sample_lapsed_ok: "txn_ok sample_lapsed" "log_gapless sample_repo ''g'' sample_lapsed"
proof -
  show "txn_ok sample_lapsed" unfolding sample_lapsed_def by (rule sample_txn_ok) code_simp
qed (simp add: sample_lapsed_def sample_log_gapless)

lemma sample_suspended_ok: "txn_ok sample_suspended" "log_gapless sample_repo ''g'' sample_suspended"
proof -
  show "txn_ok sample_suspended" unfolding sample_suspended_def by (rule sample_txn_ok) code_simp
qed (simp add: sample_suspended_def sample_log_gapless)

lemma sample_poll: "returns (scheduler_state_txn sample_repo ''g'' sample_lapsed) (\<lambda>_. True)"
  by code_simp

text \<open>The graph by itself: \<open>a\<close> may expand, \<open>b\<close> waits for it.\<close>

definition sample_graph :: task_graph where
  "sample_graph = \<lparr>tg_id = ''g'',
     tg_nodes = [(sample_node ''a'' [])\<lparr>tn_expander := Some (''x'', 1)\<rparr>, sample_node ''b'' [''a'']]\<rparr>"

definition sample_views :: "node_view list" where
  "sample_views = [sample_view ''a'' [] SUCCEEDED, sample_view ''b'' [''a''] PENDING]"

definition sample_defs :: "(string \<times> task_node) list" where
  "sample_defs = [(''a'', sample_node ''a'' []), (''b'', sample_node ''b'' [''a''])]"

text \<open>A store of one small record.\<close>

definition small_record :: "bytes \<Rightarrow> nat \<Rightarrow> nat stored_record" where
  "small_record k d =
     \<lparr>rec_key = k, rec_scope = None, rec_parent = None, rec_kind = ''small'', rec_sort = ''s'', rec_state = None,
      rec_revision = 0, rec_owner = None, rec_fence = 0, rec_expires = None, rec_data = d\<rparr>"

definition small_store :: "(nat, nat, nat) mem_store" where
  "small_store =
     \<lparr>m_records = [(''k'', small_record ''k'' 0)], m_aliases = [], m_sequences = [], m_facts = [],
      m_operations = [], m_op_streams = []\<rparr>"

definition small_txn :: "(nat, nat, nat) txn" where
  "small_txn = begin_txn 10 small_store"

end
