(* ===== verification/Budget_Samples.thy ===== *)
theory Budget_Samples
  imports Samples
begin

text \<open>
  A concrete budget for the witnesses: the store of the scope \<open>s\<close> once it is opened, and with one
  model request in flight.
\<close>

definition sample_budget :: run_budget where
  "sample_budget = \<lparr>rb_requests = Some 2, rb_tools = Some 1, rb_tokens = Some 10, rb_deadline = None\<rparr>"

definition sample_budgets :: budget_repo where
  "sample_budgets = \<lparr>br_repo = sample_repo, br_owner = ''o'', br_active = [(''s'', ''q'', ''x'')]\<rparr>"

definition sample_request :: model_reservation where
  "sample_request =
     \<lparr>mr_scope = ''s'', mr_request = ''q'', mr_owner = ''o'', mr_admission = ''x'', mr_status = In_flight,
      mr_tokens = None\<rparr>"

definition opened_store :: task_store where
  "opened_store = snd (mem_mutate 0 (ensure_budget sample_repo ''s'' sample_budget) empty_store)"

definition busy_store :: task_store where
  "busy_store = snd (mem_mutate 0 (admit_model_txn sample_budgets 0 sample_request) opened_store)"

lemma mutated: "\<not> isl (fst (mem_mutate now fn m)) \<Longrightarrow> \<exists>v. mem_mutate now fn m = (Inr v, snd (mem_mutate now fn m))"
  by (cases "fst (mem_mutate now fn m)") (auto simp: prod_eq_iff)

lemma sample_budget_steps:
  "budget_step sample_repo empty_store opened_store" "budget_step sample_repo opened_store busy_store"
  "\<exists>v. mem_mutate 0 (admit_model_txn sample_budgets 0 sample_request) opened_store = (Inr v, busy_store)"
proof -
  have "\<not> isl (fst (mem_mutate 0 (ensure_budget sample_repo ''s'' sample_budget) empty_store))" by code_simp
  from mutated [OF this] obtain v where
    v: "mem_mutate 0 (ensure_budget sample_repo ''s'' sample_budget) empty_store = (Inr v, opened_store)"
    by (auto simp: opened_store_def)
  have "make_budget sample_budget = Inr sample_budget" by code_simp
  from budget_step.ensured [OF v this] show "budget_step sample_repo empty_store opened_store" .
  have "\<not> isl (fst (mem_mutate 0 (admit_model_txn sample_budgets 0 sample_request) opened_store))" by code_simp
  from mutated [OF this] show w: "\<exists>v. mem_mutate 0 (admit_model_txn sample_budgets 0 sample_request) opened_store = (Inr v, busy_store)"
    by (simp add: busy_store_def)
  have "fresh_reservation sample_request" by code_simp
  with w show "budget_step sample_repo opened_store busy_store"
    by (auto intro: budget_step.model simp: sample_budgets_def)
qed

lemma sample_budget_stores_ok: "budget_store_ok sample_repo opened_store" "budget_store_ok sample_repo busy_store"
proof -
  show "budget_store_ok sample_repo opened_store"
    using budget_step_ok [OF sample_budget_steps(1) empty_store_ok sample_stores_ok(3)] .
  from budget_step_ok [OF sample_budget_steps(2) this sample_stores_ok(3)]
  show "budget_store_ok sample_repo busy_store" .
qed

lemma sample_busy_ok: "txn_ok (begin_txn 0 busy_store)" "budgets_ok sample_repo (begin_txn 0 busy_store)"
  using sample_budget_stores_ok(2) by (simp_all add: budget_store_ok_def mem_ok_txn)

end
