(* ===== verification/Task_Admission_Facts.thy ===== *)
theory Task_Admission_Facts
  imports Task_Admission_Reads Task_Runs
begin

text \<open>
  What an admission leaves behind: the records it inserts are read back as the graph with its
  initial nodes, its log starts with one event, and what later operations need of the store
  holds.  A graph of roots that propagate a failure is refused.
\<close>

section \<open>The initial nodes\<close>

lemma initial_view_Inr:
  assumes "initial_view g n = Inr v"
  shows "nv_id v = tn_id n" and "nv_graph v = g" and "nv_deps v = tn_deps n" and "view_ok v"
    and "nv_owner v = None" and "nv_fence v = 0" and "nv_expires v = None" and "nv_execution v = None"
    and "initial_status n = Inr (nv_status v)"
  using assms by (auto simp: initial_view_def eres)

lemma initial_views:
  assumes "emap (initial_view g) nodes = Inr views"
  shows "map nv_id views = map tn_id nodes"
    and "(n, v) \<in> set (zip nodes views) \<Longrightarrow> initial_view g n = Inr v"
    and "n \<in> set nodes \<Longrightarrow> \<exists>v. (n, v) \<in> set (zip nodes views)"
    and "v \<in> set views \<Longrightarrow> \<exists>n. (n, v) \<in> set (zip nodes views)"
proof -
  have l: "list_all2 (\<lambda>n v. initial_view g n = Inr v) nodes views" using assms by (simp add: emap_eq_Inr)
  then show "map nv_id views = map tn_id nodes"
    by (induction rule: list_all2_induct) (simp_all add: initial_view_Inr(1))
  show "(n, v) \<in> set (zip nodes views) \<Longrightarrow> initial_view g n = Inr v" using l by (auto simp: list_all2_iff)
  show "n \<in> set nodes \<Longrightarrow> \<exists>v. (n, v) \<in> set (zip nodes views)"
    using list_all2_lengthD [OF l] by (metis in_set_impl_in_set_zip1)
  show "v \<in> set views \<Longrightarrow> \<exists>n. (n, v) \<in> set (zip nodes views)"
    using list_all2_lengthD [OF l] by (metis in_set_impl_in_set_zip2)
qed

section \<open>The records of an admission\<close>

definition stored_definition :: "repo \<Rightarrow> string \<Rightarrow> task_node \<Rightarrow> task_record" where
  "stored_definition R g n =
     project_record R ''task_node_definition'' (pair_ident g (tn_id n)) (Definition n) None
       (Some (definition_parent R g)) None"

definition stored_state :: "repo \<Rightarrow> string \<Rightarrow> string \<Rightarrow> node_view \<Rightarrow> task_record" where
  "stored_state R g i v =
     project_record R ''task_node_state'' (pair_ident g i) (Node v) None
       (Some (state_parent R g)) (Some (status_value (nv_status v)))"

lemma stored_definition_simps [simp]:
  "rec_key (stored_definition R g n) = definition_key R g (tn_id n)"
  "rec_kind (stored_definition R g n) = ''task_node_definition''"
  "rec_parent (stored_definition R g n) = Some (definition_parent R g)"
  "init_node n = Inr n \<Longrightarrow> reads_definition R g (stored_definition R g n) n"
  by (simp_all add: stored_definition_def project_record_def definition_key_def reads_definition_def
      decode_definition_def eres)

lemma stored_state_simps [simp]:
  "rec_key (stored_state R g i v) = state_key R g i" "rec_kind (stored_state R g i v) = ''task_node_state''"
  "rec_parent (stored_state R g i v) = Some (state_parent R g)"
  "rec_state (stored_state R g i v) = Some (status_value (nv_status v))"
  by (simp_all add: stored_state_def project_record_def state_key_def)

lemma stored_state_decode: "view_ok v \<Longrightarrow> decode_node (stored_state R g i v) = Inr (v\<lparr>nv_deps := []\<rparr>)"
  by (rule decode_node_written) (simp_all add: stored_state_def project_record_def)

lemma stored_state_reads: "view_ok v \<Longrightarrow> reads_state R g (stored_state R g (nv_id v) v) v"
  by (simp add: reads_state_def stored_state_decode eres) (simp add: stored_state_def project_record_def)

lemma set_admission_records:
  "set (admission_records R a g status views) =
    {project_record R ''task_graph'' (JStr (tg_id g))
       (Graph \<lparr>gv_id = tg_id g, gv_status = status, gv_nodes = []\<rparr>) None None (Some (status_value status)),
     project_record R ''task_admission'' (JStr (tg_id g)) (Admission a) (Some (recovery_scope R)) None None} \<union>
    (\<Union>(n, v)\<in>set (zip (tg_nodes g) views).
       {stored_definition R (tg_id g) n, stored_state R (tg_id g) (tn_id n) v})"
  by (auto simp: admission_records_def node_records_def stored_definition_def stored_state_def)

lemma inserted_record:
  assumes "insert_records rs t = Inr (u, t')"
  shows "get_record t' k = Some r \<longleftrightarrow> r \<in> set rs \<and> rec_key r = k \<or> get_record t k = Some r"
proof -
  have d: "distinct (map rec_key rs)" and n: "\<And>q. q \<in> set rs \<Longrightarrow> get_record t (rec_key q) = None"
    using insert_records_eq(1,2) [OF assms] by blast+
  have m: "map_of (map (\<lambda>r. (rec_key r, r)) rs) k = Some r \<longleftrightarrow> r \<in> set rs \<and> rec_key r = k"
    by (rule map_of_by_key [OF d])
  show ?thesis
  proof (cases "map_of (map (\<lambda>r. (rec_key r, r)) rs) k")
    case None
    then have "r \<notin> set rs \<or> rec_key r \<noteq> k" using m by auto
    with None show ?thesis by (auto simp: insert_records_get [OF assms] map_add_def)
  next
    case (Some q)
    then have "q \<in> set rs" "rec_key q = k" using map_of_by_key [OF d] by auto
    with n have "get_record t k = None" by auto
    with Some m show ?thesis by (auto simp: insert_records_get [OF assms] map_add_def)
  qed
qed

text \<open>What is inserted is a projection of the graph, where no node of it existed before.\<close>

lemma no_node_records:
  assumes "list_records (node_query p knd) t = []" and "txn_ok t" and "get_record t k = Some r"
  shows "\<not> (rec_kind r = knd \<and> rec_parent r = Some p)"
proof
  assume "rec_kind r = knd \<and> rec_parent r = Some p"
  then have "matches_record (node_query p knd) r" by (simp add: matches_record_def node_query_def)
  with set_node_query [OF assms(2), of p knd] assms(1,3) txn_ok_record_key [OF assms(2,3)] show False by auto
qed

lemma map_insort_key: "map f (insort_key f x xs) = insort (f x) (map f xs)"
  by (induction xs) simp_all

lemma map_sort_key: "map f (sort_key f xs) = sort (map f xs)"
  by (induction xs) (simp_all add: map_insort_key)

lemma admission_projects:
  assumes views: "emap (initial_view (tg_id g)) (tg_nodes g) = Inr views"
    and ins: "insert_records (admission_records R a g status views) t = Inr (u, t')"
    and ok: "txn_ok t" and ids: "distinct (map tn_id (tg_nodes g))"
    and nodes: "\<forall>n\<in>set (tg_nodes g). init_node n = Inr n"
    and empty: "list_records (node_query (definition_parent R (tg_id g)) ''task_node_definition'') t = []"
      "list_records (node_query (state_parent R (tg_id g)) ''task_node_state'') t = []"
  shows "projects R (tg_id g) t' (sort_key tn_id (tg_nodes g)) (sort_key nv_id views)"
proof -
  let ?g = "tg_id g" and ?pairs = "set (zip (tg_nodes g) views)"
  note iv = initial_views [OF views] and rec = inserted_record [OF ins]
  have old: "\<not> definition_record R ?g r \<and> \<not> graph_node R ?g r" if "get_record t k = Some r" for k r
    using no_node_records [OF empty(1) ok that] no_node_records [OF empty(2) ok that]
    by (simp add: definition_record_def graph_node_def)
  have pair: "n \<in> set (tg_nodes g) \<and> v \<in> set views \<and> nv_id v = tn_id n \<and> nv_deps v = tn_deps n \<and> view_ok v \<and>
      init_node n = Inr n \<and>
      get_record t' (definition_key R ?g (tn_id n)) = Some (stored_definition R ?g n) \<and>
      get_record t' (state_key R ?g (tn_id n)) = Some (stored_state R ?g (tn_id n) v)"
    if p: "(n, v) \<in> ?pairs" for n v
  proof -
    have "{stored_definition R ?g n, stored_state R ?g (tn_id n) v} \<subseteq> set (admission_records R a g status views)"
      using p by (auto simp: set_admission_records)
    with p nodes iv(2) [OF p] show ?thesis
      by (auto simp: rec initial_view_Inr set_zip_leftD [OF p] dest: set_zip_rightD)
  qed
  have new: "\<exists>n v. (n, v) \<in> ?pairs \<and> (r = stored_definition R ?g n \<or> r = stored_state R ?g (tn_id n) v)"
    if "get_record t' k = Some r" "definition_record R ?g r \<or> graph_node R ?g r" for k r
    using that old unfolding rec set_admission_records
    by (auto simp: definition_record_def graph_node_def project_record_def)
  show ?thesis
    unfolding projects_def set_sort
  proof (intro conjI allI impI ballI)
    show "map tn_id (sort_key tn_id (tg_nodes g)) = map nv_id (sort_key nv_id views)"
      "distinct (map nv_id (sort_key nv_id views))" "sorted (map nv_id (sort_key nv_id views))"
      using ids by (simp_all add: map_sort_key iv(1))
  next
    fix r assume "get_record t' (rec_key r) = Some r" "definition_record R ?g r"
    with new obtain n v where n: "(n, v) \<in> ?pairs" "r = stored_definition R ?g n"
      by (force simp: definition_record_def)
    with pair show "\<exists>d\<in>set (tg_nodes g). reads_definition R ?g r d"
      by (intro bexI [of _ n]) auto
  next
    fix d assume "d \<in> set (tg_nodes g)"
    with iv(3) pair show "\<exists>r. get_record t' (definition_key R ?g (tn_id d)) = Some r \<and> reads_definition R ?g r d"
      by (metis stored_definition_simps(4))
  next
    fix r assume "get_record t' (rec_key r) = Some r" "graph_node R ?g r"
    with new obtain n v where n: "(n, v) \<in> ?pairs" "r = stored_state R ?g (tn_id n) v"
      by (force simp: graph_node_def)
    with pair show "\<exists>v\<in>set views. reads_state R ?g r v"
      by (intro bexI [of _ v]) (metis stored_state_reads, blast)
  next
    fix v assume "v \<in> set views"
    with iv(4) obtain n where n: "(n, v) \<in> ?pairs" by blast
    with pair [OF n] show "\<exists>r. get_record t' (state_key R ?g (nv_id v)) = Some r \<and> reads_state R ?g r v"
      by (metis stored_state_reads)
    from pair [OF n] show "\<exists>d\<in>set (tg_nodes g). tn_id d = nv_id v \<and> nv_deps v = tn_deps d" by auto
  qed
qed

text \<open>A graph stays valid when its nodes are listed in another order.\<close>

lemma make_graph_sorted:
  assumes "make_graph g = Inr g" and "\<forall>n\<in>set (tg_nodes g). init_node n = Inr n"
  shows "make_graph \<lparr>tg_id = tg_id g, tg_nodes = sort_key tn_id (tg_nodes g)\<rparr> \<in> range Inr"
proof -
  have d: "\<forall>n\<in>set (tg_nodes g). distinct (tn_deps n)"
    using assms(2) init_node_ok by (metis node_identity_ok_def)
  let ?g = "\<lparr>tg_id = tg_id g, tg_nodes = sort_key tn_id (tg_nodes g)\<rparr>"
  have "make_graph ?g = Inr ?g"
    using make_graph_iff [of ?g] make_graph_iff [OF d] assms(1) d by (simp add: distinct_map)
  then show ?thesis by blast
qed

section \<open>The first event\<close>

text \<open>An owner that the transaction has written needs no second guard.\<close>

lemma append_events_own:
  assumes "append_events sha ns tn dm g gk ds False t = Inr (u, t')" and "gk \<in> set (t_guarded t)"
  shows "append_events sha ns tn dm g gk ds True t = Inr (u, t')"
proof (cases "ds = []")
  case False
  with assms(1) obtain q t1 where gd: "guard_event_owner gk STORAGE_INTEGRITY_ERROR t = Inr (q, t1)" and
    "append_events sha ns tn dm g gk ds True t1 = Inr (u, t')"
    by (auto simp: append_events_def ebind_eq_Inr)
  moreover have "t1 = t"
    using gd assms(2) by (auto simp: guard_event_owner_def eres elim!: guard_record_eq)
  ultimately show ?thesis by simp
qed (use assms(1) in \<open>simp add: append_events_def\<close>)

lemma put_all_guarded: "set (t_guarded (fold (\<lambda>r. put_record (rec_key r) r) rs t)) = rec_key ` set rs \<union> set (t_guarded t)"
  by (induction rs arbitrary: t) auto

lemma create_admission_steps:
  fixes t' :: task_txn
  assumes "create_admission R a g t = Inr (view, t')"
  obtains views status t1 drafts t2 d x where
    "emap (initial_view (tg_id g)) (tg_nodes g) = Inr views" "isolated_status views (tg_nodes g) = Inr status"
    "view = \<lparr>gv_id = tg_id g, gv_status = status, gv_nodes = tg_nodes g\<rparr>"
    "insert_records (admission_records R a g status views) t = Inr ((), t1)"
    "state_drafts None \<lparr>es_graph = view, es_views = views\<rparr> = Inr drafts"
    "append_events (rp_sha R) (rp_ns R) (rp_tenant R) (rp_domain R) (tg_id g) (graph_key R (tg_id g)) drafts False t1 = Inr ((), t2)"
    "append_operation R d t2 = Inr (x, t')"
  using assms unfolding create_admission_def insert_admission_records_def Let_def
  by (simp only: ebind_eq_Inr split_paired_Ex prod.case sum.inject prod.inject unit_ex) blast

lemma create_admission_Inr:
  assumes run: "create_admission R a g t = Inr (view, t')" and ok: "repo_ok R (tg_id g) t"
    and free: "collision_free (rp_sha R)"
  obtains views t1 where
    "emap (initial_view (tg_id g)) (tg_nodes g) = Inr views"
    "isolated_status views (tg_nodes g) = Inr (gv_status view)" "gv_id view = tg_id g" "gv_nodes view = tg_nodes g"
    "insert_records (admission_records R a g (gv_status view) views) t = Inr ((), t1)"
    "get_record t' = get_record t1" "repo_ok R (tg_id g) t'"
    "log_length t' (log_sequence R (tg_id g)) = log_length t (log_sequence R (tg_id g)) + 1"
proof -
  let ?g = "tg_id g"
  from run obtain views status t1 drafts t2 d x where
    v: "emap (initial_view ?g) (tg_nodes g) = Inr views" and st: "isolated_status views (tg_nodes g) = Inr status" and
    view: "view = \<lparr>gv_id = ?g, gv_status = status, gv_nodes = tg_nodes g\<rparr>" and
    ins: "insert_records (admission_records R a g status views) t = Inr ((), t1)" and
    dr: "state_drafts None \<lparr>es_graph = view, es_views = views\<rparr> = Inr drafts" and
    ap: "append_events (rp_sha R) (rp_ns R) (rp_tenant R) (rp_domain R) ?g (graph_key R ?g) drafts False t1 = Inr ((), t2)" and
    op: "append_operation R d t2 = Inr (x, t')"
    by (rule create_admission_steps)
  have "graph_key R ?g \<in> set (t_guarded t1)"
    unfolding insert_records_eq(3) [OF ins] put_all_guarded set_sort
    by (simp add: admission_records_def project_record_def graph_key_def)
  note ap1 = append_events_own [OF ap this]
  have fr1: "t_facts t1 = t_facts t" "t_sequences t1 = t_sequences t"
    unfolding insert_records_eq(3) [OF ins] by simp_all
  have gap1: "log_gapless R ?g t1" using repo_okD(2) [OF ok] log_gapless_lookups [of t1 R ?g t] fr1
    by (simp add: get_fact_def get_sequence_def)
  have ok1: "txn_ok t1" using txn_ok_insert_records [OF ins repo_okD(1) [OF ok]] .
  have "length drafts = 1" using dr by (auto simp: state_drafts_def)
  with append_log [OF ap1 gap1 ok1] have gap2: "log_gapless R ?g t2" and ok2: "txn_ok t2" and
    r2: "get_record t2 = get_record t1" and
    s2: "get_sequence t2 (log_sequence R ?g) = get_sequence t (log_sequence R ?g) + 1"
    using fr1(2) by (auto simp: get_sequence_def)
  from append_operation_effect [OF op free ok2, of ?g] have
    e: "get_record t' = get_record t2" "get_fact t' = get_fact t2" "txn_ok t'"
      "get_sequence t' (log_sequence R ?g) = get_sequence t2 (log_sequence R ?g)"
    by (simp_all add: get_record_def [abs_def] get_fact_def [abs_def])
  have "column_ok r" if "r \<in> set (admission_records R a g status views)" for r
  proof -
    from that consider "rec_kind r \<noteq> ''task_node_state''"
      | n v where "(n, v) \<in> set (zip (tg_nodes g) views)" "r = stored_state R ?g (tn_id n) v"
      by (auto simp: set_admission_records project_record_def)
    then show ?thesis
    proof cases
      case (2 n v)
      with initial_views(2) [OF v] initial_view_Inr(4) have "view_ok v" by blast
      from column_ok_decoded [OF stored_state_decode [OF this]] 2 show ?thesis by simp
    qed (rule column_ok_kind)
  qed
  then have "columns_agree t1" using columns_insert [OF ins repo_okD(3) [OF ok]] by blast
  then have "columns_agree t'" using columns_same [of t' t1] e(1) r2 by simp
  moreover have "log_gapless R ?g t'" using gap2 log_gapless_lookups [of t' R ?g t2] e(2,4) by simp
  ultimately have "repo_ok R ?g t'" using e(3) by (simp add: repo_ok_def)
  moreover have "log_length t' (log_sequence R ?g) = log_length t (log_sequence R ?g) + 1"
    using e(4) s2 by (simp add: log_length_def)
  moreover have "get_record t' = get_record t1" using e(1) r2 by simp
  ultimately show ?thesis using that v st ins by (simp add: view)
qed

text \<open>An admission implements the creation of an abstract state: the graph with its initial nodes.\<close>

theorem admission_state:
  assumes run: "create_admission R a g t = Inr (view, t')" and ok: "repo_ok R (tg_id g) t"
    and free: "collision_free (rp_sha R)" and g: "make_graph g = Inr g"
    and nodes: "\<forall>n\<in>set (tg_nodes g). init_node n = Inr n"
    and empty: "list_records (node_query (definition_parent R (tg_id g)) ''task_node_definition'') t = []"
      "list_records (node_query (state_parent R (tg_id g)) ''task_node_state'') t = []"
  obtains views where
    "emap (initial_view (tg_id g)) (tg_nodes g) = Inr views"
    "isolated_status views (tg_nodes g) = Inr (gv_status view)"
    "event_state_in_txn R (tg_id g) t' = Inr (Some
       \<lparr>es_graph = view\<lparr>gv_nodes := sort_key tn_id (tg_nodes g)\<rparr>, es_views = sort_key nv_id views\<rparr>)"
    "repo_ok R (tg_id g) t'"
proof -
  from create_admission_Inr [OF run ok free] obtain views t1 where
    v: "emap (initial_view (tg_id g)) (tg_nodes g) = Inr views"
      "isolated_status views (tg_nodes g) = Inr (gv_status view)" "gv_id view = tg_id g" and
    ins: "insert_records (admission_records R a g (gv_status view) views) t = Inr ((), t1)" and
    t': "get_record t' = get_record t1" "repo_ok R (tg_id g) t'" .
  have ids: "distinct (map tn_id (tg_nodes g))" using g by (auto simp: make_graph_def eres graph_ids_def deps_table_def comp_def)
  let ?r = "project_record R ''task_graph'' (JStr (tg_id g))
       (Graph \<lparr>gv_id = tg_id g, gv_status = gv_status view, gv_nodes = []\<rparr>) None None (Some (status_value (gv_status view)))"
  have gr: "get_record t' (graph_key R (tg_id g)) = Some ?r"
    unfolding t'(1) inserted_record [OF ins] set_admission_records by (simp add: project_record_def graph_key_def)
  have "projects R (tg_id g) t1 (sort_key tn_id (tg_nodes g)) (sort_key nv_id views)"
    by (rule admission_projects [OF v(1) ins repo_okD(1) [OF ok] ids nodes empty])
  then have p: "projects R (tg_id g) t' (sort_key tn_id (tg_nodes g)) (sort_key nv_id views)"
    by (simp add: projects_def t'(1))
  have vr: "validate_graph_record R ?r (tg_id g) = Inr ()"
    by (simp add: validate_graph_record_def project_record_def graph_key_def ensure_def)
  have "event_state_in_txn R (tg_id g) t' = Inr (Some
      \<lparr>es_graph = view\<lparr>gv_nodes := sort_key tn_id (tg_nodes g)\<rparr>, es_views = sort_key nv_id views\<rparr>)"
    unfolding event_state_iff [OF repo_okD(1) [OF t'(2)]]
    using gr vr p make_graph_sorted [OF g nodes] isolated_status_canonical [OF v(2)] v(3)
    by (intro exI [of _ ?r] exI [of _ "\<lparr>gv_id = tg_id g, gv_status = gv_status view, gv_nodes = []\<rparr>"])
      (simp add: decode_graph_def project_record_def)
  from that [OF v(1,2) this t'(2)] show ?thesis .
qed

section \<open>The status of an admission\<close>

text \<open>
  The first event of a log accepts a pending or a succeeded graph only, so a graph with any other
  initial status is not admitted.
\<close>

lemma admission_status:
  assumes "create_admission R a g t = Inr (view, t')"
  shows "gv_status view \<in> {PENDING, SUCCEEDED}"
proof -
  from assms obtain views status drafts and t1 t2 :: task_txn where
    view: "view = \<lparr>gv_id = tg_id g, gv_status = status, gv_nodes = tg_nodes g\<rparr>" and
    dr: "state_drafts None \<lparr>es_graph = view, es_views = views\<rparr> = Inr drafts" and
    ap: "append_events (rp_sha R) (rp_ns R) (rp_tenant R) (rp_domain R) (tg_id g) (graph_key R (tg_id g)) drafts False t1 = Inr ((), t2)"
    by (rule create_admission_steps)
  have "drafts = [plain_draft GRAPH_ADMITTED status]" using dr by (simp add: state_drafts_def view)
  with ap obtain n now ev where "make_event (tg_id g) n now (plain_draft GRAPH_ADMITTED status) = Inr ev"
    by (auto simp: append_events_def number_events_def eres)
  then have "event_type_ok GRAPH_ADMITTED (plain_draft GRAPH_ADMITTED status)"
    by (simp add: make_event_Inr) (simp add: plain_draft_def)
  then show ?thesis by (simp add: view plain_draft_def)
qed

lemma initial_root_blocked:
  "tn_deps n = [] \<Longrightarrow> tn_policy n = Any_succeeded \<Longrightarrow> initial_view g n = Inr v \<Longrightarrow> nv_status v = BLOCKED"
  by (auto dest!: initial_view_Inr(9) simp: initial_status_def dependency_status_def)

lemma propagating_roots_refused:
  assumes roots: "\<forall>n\<in>set (tg_nodes g). tn_deps n = [] \<and> tn_policy n = Any_succeeded"
    and n: "n \<in> set (tg_nodes g)" "tn_failure n = Propagate" and ids: "distinct (map tn_id (tg_nodes g))"
  shows "isl (create_admission R a g t)"
proof (cases "create_admission R a g t")
  case (Inr r)
  obtain view t' where r: "r = (view, t')" by (cases r)
  with Inr have run: "create_admission R a g t = Inr (view, t')" by simp
  from run obtain views where v: "emap (initial_view (tg_id g)) (tg_nodes g) = Inr views"
      "isolated_status views (tg_nodes g) = Inr (gv_status view)"
    by (rule create_admission_steps) simp
  have all: "\<forall>w\<in>set views. nv_status w = BLOCKED"
    using initial_views(2,4) [OF v(1)] roots initial_root_blocked by (metis set_zip_leftD)
  from initial_views(2,3) [OF v(1)] n(1) obtain w where w: "w \<in> set views" "nv_id w = tn_id n"
    using initial_view_Inr(1) set_zip_rightD by metis
  have "policy_of (tg_nodes g) (tn_id n) = Some Propagate"
  proof -
    have "distinct (map fst (rev (map (\<lambda>n. (tn_id n, tn_failure n)) (tg_nodes g))))"
      using ids by (simp add: rev_map [symmetric] comp_def)
    with n show ?thesis unfolding policy_of_def by (intro map_of_is_SomeI) (force simp: rev_map)+
  qed
  with w all isolated_status_eq [OF isolated_status_Inr [OF v(2)]] v(2) have "gv_status view = BLOCKED" by force
  with admission_status [OF run] show ?thesis by simp
qed simp

end
