(* ===== verification/Task_Submission_Steps.thy ===== *)
theory Task_Submission_Steps
  imports Task_Admission_Facts
begin

text \<open>
  The operations on submissions as steps of the store.  Each one touches only the records of
  its graph (\<open>local\<close>), so a submission that was withdrawn before its graph existed stays
  withdrawn, and no admission of it ever creates the graph.
\<close>

section \<open>The records of a graph\<close>

definition graph_keys :: "repo \<Rightarrow> string \<Rightarrow> bytes set" where
  "graph_keys R g =
     {submission_key R g, payload_key R g, graph_key R g, admission_key R g} \<union>
     range (definition_key R g) \<union> range (state_key R g)"

lemma graph_keys_in [simp]:
  "submission_key R g \<in> graph_keys R g" "payload_key R g \<in> graph_keys R g" "graph_key R g \<in> graph_keys R g"
  "admission_key R g \<in> graph_keys R g" "definition_key R g n \<in> graph_keys R g" "state_key R g n \<in> graph_keys R g"
  by (simp_all add: graph_keys_def)

lemma graph_keys_other:
  assumes "collision_free (rp_sha R)" and "h \<noteq> g"
  shows "submission_key R h \<notin> graph_keys R g" and "graph_key R h \<notin> graph_keys R g"
  using assms by (auto simp: graph_keys_def submission_key_def payload_key_def key_defs)

definition local :: "repo \<Rightarrow> string \<Rightarrow> task_txn \<Rightarrow> task_txn \<Rightarrow> bool" where
  "local R g t t' \<longleftrightarrow> same_base t t' \<and>
     (txn_ok t \<longrightarrow> txn_ok t' \<and> (\<forall>k. k \<notin> graph_keys R g \<longrightarrow> get_record t' k = get_record t k))"

lemma local_refl: "local R g t t"
  by (simp add: local_def same_base_def)

lemma local_trans: "local R g t t1 \<Longrightarrow> local R g t1 t2 \<Longrightarrow> local R g t t2"
  by (simp add: local_def same_base_def)

lemma same_base_yields: "yields (framed R g t) m \<Longrightarrow> m = Inr (x, t') \<Longrightarrow> same_base t t'"
  by (auto simp: yields_def framed_def)

section \<open>Primitives\<close>

lemma insert_records_local:
  assumes "insert_records rs t = Inr (u, t')" and "\<forall>r\<in>set rs. rec_key r \<in> graph_keys R g"
  shows "local R g t t'"
  unfolding local_def
proof (intro conjI impI allI)
  show "same_base t t'" using same_base_yields [OF insert_records_framed [OF framed_refl] assms(1)] .
  show "txn_ok t \<Longrightarrow> txn_ok t'" by (rule txn_ok_insert_records [OF assms(1)])
  fix k assume k: "k \<notin> graph_keys R g"
  with assms(2) have "map_of (map (\<lambda>r. (rec_key r, r)) rs) k = None" by (auto simp: map_of_eq_None_iff)
  then show "get_record t' k = get_record t k" by (simp add: insert_records_get [OF assms(1)] map_add_def)
qed

lemma insert_record_local:
  "insert_record r t = Inr (u, t') \<Longrightarrow> rec_key r \<in> graph_keys R g \<Longrightarrow> local R g t t'"
  by (simp add: insert_record_def insert_records_local)

lemma put_local: "rec_key r = k \<Longrightarrow> k \<in> graph_keys R g \<Longrightarrow> local R g t (put_record k r t)"
  by (auto simp: local_def same_base_put txn_ok_put get_record_put)

lemma guard_local:
  assumes "guard_record k e t = Inr (Some q, t')" and "k \<in> graph_keys R g"
  shows "local R g t t'"
  using assms(1)
proof (cases rule: guard_record_eq)
  case (fresh c)
  show ?thesis
  proof (cases "txn_ok t")
    case True
    with fresh have "rec_key q = k" by (auto dest: txn_ok_record_key)
    with fresh assms(2) show ?thesis by (simp add: put_local)
  next
    case False
    with fresh same_base_put show ?thesis by (simp add: local_def)
  qed
qed (simp add: local_refl)

lemma replace_record_local:
  assumes "replace_record r e t = Inr (b, t')" and "rec_key r \<in> graph_keys R g"
  shows "local R g t t'"
  using assms by (cases b) (auto simp: replace_record_True put_local local_refl dest!: replace_record_False)

lemma replace_checked_local:
  "replace_checked r e t = Inr (u, t') \<Longrightarrow> rec_key r \<in> graph_keys R g \<Longrightarrow> local R g t t'"
  by (auto simp: replace_checked_def eres intro: replace_record_local)

lemma delete_all_base: "delete_all ks ov = Inr ov' \<Longrightarrow> ov_base ov' = ov_base ov"
  unfolding delete_all_def by (induction ks arbitrary: ov) (auto simp: eres ov_delete_def split: if_splits)

lemma delete_owners_base: "delete_record_owners ks t = Inr t' \<Longrightarrow> same_base t t'"
  by (auto simp: delete_record_owners_def same_base_def eres dest!: delete_all_base split: if_splits)

lemma delete_record_local:
  assumes "delete_record k e t = Inr (b, t')" and "k \<in> graph_keys R g"
  shows "local R g t t'"
proof (cases b)
  case True
  with assms(1) obtain n q t1 where g: "guard_record k n t = Inr (Some q, t1)" and
    d: "delete_record_owners [k] t1 = Inr t'"
    by (auto simp: delete_record_def Let_def eres split: option.splits if_splits)
  have "same_base t t'"
    using guard_local [OF g assms(2)] delete_owners_base [OF d] by (simp add: local_def same_base_def)
  with delete_record_True assms True show ?thesis unfolding local_def by fastforce
next
  case False
  with assms(1) have "t' = t" by (auto dest: delete_record_False)
  then show ?thesis by (simp add: local_refl)
qed

lemma append_operation_local:
  assumes "append_operation R v t = Inr (x, t')" and "collision_free (rp_sha R)"
  shows "local R g t t'"
proof -
  have "same_base t t'" using same_base_yields [OF append_operation_framed [OF assms(2) framed_refl] assms(1)] .
  with append_operation_effect [OF assms, of g] show ?thesis
    by (simp add: local_def get_record_def)
qed

lemma append_events_local:
  assumes "append_events (rp_sha R) (rp_ns R) (rp_tenant R) (rp_domain R) g (graph_key R g) ds guarded t = Inr (u, t')"
    and "collision_free (rp_sha R)"
  shows "local R g t t'"
proof -
  have base: "same_base t t'" using same_base_yields [OF append_guarded_framed [OF assms(2) framed_refl] assms(1)] .
  have tail: "local R g t1 t'"
    if a: "append_events (rp_sha R) (rp_ns R) (rp_tenant R) (rp_domain R) g (graph_key R g) ds True t1 = Inr (u, t')" for t1
  proof -
    have "same_base t1 t'" using same_base_yields [OF append_framed [OF assms(2) framed_refl] a] .
    moreover have "get_record t' = get_record t1"
      using a insert_facts_frame
      by (cases "ds = []") (force simp: append_events_def eres reserve_sequence_eq get_record_def [abs_def])+
    ultimately show ?thesis using txn_ok_append_events [OF a] by (simp add: local_def)
  qed
  show ?thesis
  proof (cases "guarded \<or> ds = []")
    case True
    with assms(1) have "append_events (rp_sha R) (rp_ns R) (rp_tenant R) (rp_domain R) g (graph_key R g) ds True t = Inr (u, t')"
      by (cases guarded) (simp_all add: append_events_def)
    then show ?thesis by (rule tail)
  next
    case False
    with assms(1) obtain q t1 e where "guard_record (graph_key R g) e t = Inr (Some q, t1)" and
      a: "append_events (rp_sha R) (rp_ns R) (rp_tenant R) (rp_domain R) g (graph_key R g) ds True t1 = Inr (u, t')"
      by (auto simp: append_events_def guard_event_owner_def eres)
    then show ?thesis using local_trans [OF guard_local tail [OF a]] by simp
  qed
qed

section \<open>The operations\<close>

lemma submission_in_txn_Inr:
  "submission_in_txn R s t = Inr (Some r) \<Longrightarrow>
    get_record t (submission_key R (sr_graph s)) = Some r \<and> decode_submission_ref r = Inr s"
  "submission_in_txn R s t = Inr None \<Longrightarrow> get_record t (submission_key R (sr_graph s)) = None"
  by (auto simp: submission_in_txn_def eres split: option.splits if_splits)

lemma project_key [simp]: "rec_key (project_record R knd i v sc pa st) = repo_key R knd i"
  by (simp add: project_record_def Let_def split: prod.split)

lemma submission_record_key [simp]: "rec_key (submission_record R g s st) = submission_key R g"
  by (simp add: submission_record_def submission_key_def)

lemma replace_submission_local:
  assumes "replace_submission r st t = Inr (u, t')" and "get_record t0 (submission_key R g) = Some r" and "txn_ok t0"
  shows "local R g t t'"
proof -
  have "rec_key r = submission_key R g" using txn_ok_record_key [OF assms(3,2)] .
  with assms(1) show ?thesis
    by (auto simp: replace_submission_def eres elim!: replace_record_local)
qed

lemma prepare_local:
  assumes run: "prepare_txn R s t = Inr (x, t')" and "tg_id (sb_graph s) = g"
  shows "local R g t t'"
proof -
  from run consider "t' = t"
    | u where "insert_records [submission_record R g u ''prepared'',
         project_record R ''task_submission_payload'' (JStr g) (Submission s) None None None] t = Inr ((), t')"
    by (auto simp: prepare_txn_def eres Let_def assms(2) split: option.splits)
  then show ?thesis
  proof cases
    case (2 u)
    then show ?thesis by (rule insert_records_local) (simp add: payload_key_def [symmetric])
  qed (simp add: local_refl)
qed

lemma drop_payload_local:
  assumes "drop_payload R s t = Inr (u, t')" and "txn_ok t"
  shows "local R (sr_graph s) t t'"
proof -
  from assms(1) obtain p b where p: "get_record t (payload_key R (sr_graph s)) = Some p" and
    d: "delete_record (rec_key p) None t = Inr (b, t')"
    by (auto simp: drop_payload_def eres)
  from delete_record_local [OF d] txn_ok_record_key [OF assms(2) p] show ?thesis by simp
qed

lemma cancel_submission_steps:
  fixes t' :: task_txn
  assumes "cancel_submission_txn R s v t = Inr (admitted, t')"
  obtains r t1 t2 t3 t5 v' x where
    "submission_in_txn R s t = Inr (Some r) \<and> t1 = t \<or>
     submission_in_txn R s t = Inr None \<and> r = submission_record R (sr_graph s) s ''cancelled'' \<and>
       insert_records [r] t = Inr ((), t1)"
    "admitted \<longleftrightarrow> get_record t1 (graph_key R (sr_graph s)) \<noteq> None"
    "if rec_state r = Some ''prepared'' then drop_payload R s t1 = Inr ((), t2) else t2 = t1"
    "if rec_state r \<noteq> Some ''cancelled'' then replace_submission r ''cancelled'' t2 = Inr ((), t3) else t3 = t2"
    "t5 = t3 \<or> (\<exists>e q. guard_record (graph_key R (sr_graph s)) e t3 = Inr (Some q, t5))"
    "get_record t1 (graph_key R (sr_graph s)) = None \<longrightarrow> t5 = t3"
    "append_operation R v' t5 = Inr (x, t')"
proof -
  let ?k = "graph_key R (sr_graph s)"
  from assms obtain head r t1 t2 t3 t5 v' x where
    hd: "submission_in_txn R s t = Inr head" and
    i: "(case head of
         Some r \<Rightarrow> Inr (r, t)
       | None \<Rightarrow> ebind (insert_records [submission_record R (sr_graph s) s ''cancelled''] t)
           (\<lambda>(_, t'). Inr (submission_record R (sr_graph s) s ''cancelled'', t'))) = Inr (r, t1)" and
    a: "(get_record t1 ?k \<noteq> None) = admitted" and
    d: "(if rec_state r = Some ''prepared'' then drop_payload R s t1 else Inr ((), t1)) = Inr ((), t2)" and
    c: "(if rec_state r \<noteq> Some ''cancelled'' then replace_submission r ''cancelled'' t2 else Inr ((), t2)) = Inr ((), t3)" and
    g: "(case get_record t1 ?k of
          Some g \<Rightarrow>
            ebind (validate_graph_record R g (sr_graph s)) (\<lambda>_.
            ebind (guard_record (rec_key g) (rec_revision g) t3) (\<lambda>(guarded, t4).
              ensure (guarded \<noteq> None) Submission_conflict (Inr (v, t4))))
        | None \<Rightarrow> Inr (cancelled_operation R v (sr_graph s), t3)) = Inr (v', t5)" and
    op: "append_operation R v' t5 = Inr (x, t')"
    unfolding cancel_submission_txn_def Let_def
    by (simp only: ebind_eq_Inr ensure_eq_Inr prod.case split_paired_Ex sum.inject prod.inject unit_ex) blast
  have h: "submission_in_txn R s t = Inr (Some r) \<and> t1 = t \<or>
     submission_in_txn R s t = Inr None \<and> r = submission_record R (sr_graph s) s ''cancelled'' \<and>
       insert_records [r] t = Inr ((), t1)"
    using hd i by (cases head) (auto simp: eres)
  have "t5 = t3 \<or> (\<exists>e q. guard_record ?k e t3 = Inr (Some q, t5))" and "get_record t1 ?k = None \<longrightarrow> t5 = t3"
    using g by (auto simp: eres validate_graph_record_def split: option.splits)
  with h a d c op show ?thesis by (intro that [of r t1 t2 t3 t5 v' x]) (simp_all split: if_splits)
qed

lemma cancel_submission_local:
  assumes run: "cancel_submission_txn R s v t = Inr (admitted, t')" and ok: "txn_ok t"
    and free: "collision_free (rp_sha R)"
  shows "local R (sr_graph s) t t'"
proof -
  from cancel_submission_steps [OF run] obtain r t1 t2 t3 t5 v' x where
    h: "submission_in_txn R s t = Inr (Some r) \<and> t1 = t \<or>
     submission_in_txn R s t = Inr None \<and> r = submission_record R (sr_graph s) s ''cancelled'' \<and>
       insert_records [r] t = Inr ((), t1)" and
    d: "if rec_state r = Some ''prepared'' then drop_payload R s t1 = Inr ((), t2) else t2 = t1" and
    c: "if rec_state r \<noteq> Some ''cancelled'' then replace_submission r ''cancelled'' t2 = Inr ((), t3) else t3 = t2" and
    g: "t5 = t3 \<or> (\<exists>e q. guard_record (graph_key R (sr_graph s)) e t3 = Inr (Some q, t5))" and
    op: "append_operation R v' t5 = Inr (x, t')" .
  have 1: "local R (sr_graph s) t t1"
    using h by (auto simp: local_refl intro: insert_records_local)
  with ok have ok1: "txn_ok t1" by (simp add: local_def)
  have r: "get_record t1 (submission_key R (sr_graph s)) = Some r"
    using h submission_in_txn_Inr(1) inserted_record [of "[r]" t "()" t1] by auto
  have 2: "local R (sr_graph s) t1 t2"
    using d drop_payload_local [OF _ ok1] by (auto simp: local_refl split: if_splits)
  have 3: "local R (sr_graph s) t2 t3"
    using c replace_submission_local [OF _ r ok1] by (auto simp: local_refl split: if_splits)
  have 4: "local R (sr_graph s) t3 t5"
    using g guard_local graph_keys_in(3) local_refl by blast
  from 1 2 3 4 append_operation_local [OF op free] show ?thesis using local_trans by blast
qed

section \<open>Admission\<close>

lemma admission_records_keys: "r \<in> set (admission_records R a g st views) \<Longrightarrow> rec_key r \<in> graph_keys R (tg_id g)"
  by (auto simp: set_admission_records graph_key_def [symmetric] admission_key_def [symmetric])

lemma create_admission_local:
  assumes "create_admission R a g t = Inr (view, t')" and "collision_free (rp_sha R)"
  shows "local R (tg_id g) t t'"
  using assms(1)
proof (rule create_admission_steps)
  fix views status t1 drafts t2 d x
  assume "insert_records (admission_records R a g status views) t = Inr ((), t1)"
    and e: "append_events (rp_sha R) (rp_ns R) (rp_tenant R) (rp_domain R) (tg_id g) (graph_key R (tg_id g)) drafts False t1 = Inr ((), t2)"
    and op: "append_operation R d t2 = Inr (x, t')"
  then have "local R (tg_id g) t t1" using insert_records_local admission_records_keys by blast
  from local_trans [OF local_trans [OF this append_events_local [OF e assms(2)]] append_operation_local [OF op assms(2)]]
  show ?thesis .
qed

lemma require_committed_Inr:
  assumes "require_committed_admission R gr ar stored t = Inr (existing, view)"
  obtains header where "decode_graph gr = Inr header" "validate_graph_record R gr (gv_id header) = Inr ()"
    "gv_id view = gv_id header"
  using assms unfolding require_committed_admission_def
  by (auto simp: eres current_graph_def)

lemma guard_owner_local:
  assumes "guard_event_owner (graph_key R g) m t = Inr (q, t')"
  shows "local R g t t'" and "\<exists>c. get_record t (graph_key R g) = Some c \<and> rec_kind q = rec_kind c \<and> rec_data q = rec_data c"
proof -
  from assms obtain e where g: "guard_record (graph_key R g) e t = Inr (Some q, t')"
    by (auto simp: guard_event_owner_def eres)
  from guard_local [OF g] show "local R g t t'" by simp
  from g show "\<exists>c. get_record t (graph_key R g) = Some c \<and> rec_kind q = rec_kind c \<and> rec_data q = rec_data c"
    by (cases rule: guard_record_eq) simp_all
qed

lemma repair_aggregate_local:
  assumes run: "repair_aggregate R gr view t = Inr (v, t')" and gr: "get_record t (graph_key R g) = Some gr"
    and header: "decode_graph gr = Inr header" "validate_graph_record R gr (gv_id header) = Inr ()" "gv_id view = gv_id header"
    and ok: "txn_ok t" and free: "collision_free (rp_sha R)"
  shows "local R g t t'"
proof -
  have "rec_key gr = graph_key R (gv_id header)" "rec_kind gr = ''task_graph''"
    using header(2) by (simp_all add: validate_graph_record_def eres)
  with txn_ok_record_key [OF ok gr] keys_distinct(13) [OF free] have id: "gv_id header = g" "rec_kind gr = ''task_graph''" by auto
  let ?append = "append_events (rp_sha R) (rp_ns R) (rp_tenant R) (rp_domain R) g (graph_key R g)"
  from run consider "t' = t"
    | current t1 drafts where "guard_event_owner (graph_key R g) STORAGE_INTEGRITY_ERROR t = Inr (current, t1)"
      "?append drafts True t1 = Inr ((), t')"
    | current t1 t2 drafts candidate st where
      "guard_event_owner (graph_key R g) STORAGE_INTEGRITY_ERROR t = Inr (current, t1)"
      "projected_record R current (Graph \<lparr>gv_id = g, gv_status = st, gv_nodes = gv_nodes view\<rparr>) = Inr candidate"
      "replace_checked candidate (rec_revision current) t1 = Inr ((), t2)" "?append drafts True t2 = Inr ((), t')"
    unfolding repair_aggregate_def header(1) ebind_Inr Let_def header(3) id(1)
    by (auto simp: eres simp del: replace_checked_Inr split: if_splits)
  then show ?thesis
  proof cases
    case (2 current t1 drafts)
    show ?thesis by (rule local_trans [OF guard_owner_local(1) [OF 2(1)] append_events_local [OF 2(2) free]])
  next
    case (3 current t1 t2 drafts candidate st)
    from guard_owner_local(2) [OF 3(1)] gr id(2) have "rec_kind current = ''task_graph''" by auto
    with 3(2) have "rec_key candidate = graph_key R g" by (auto simp: projected_record_def graph_key_def)
    with replace_checked_local [OF 3(3)] have "local R g t1 t2" by simp
    with guard_owner_local(1) [OF 3(1)] append_events_local [OF 3(4) free] show ?thesis using local_trans by blast
  qed (simp add: local_refl)
qed

lemma admit_graph_local:
  assumes run: "admit_graph R replayed a g t = Inr (view, t')" and ok: "txn_ok t" and free: "collision_free (rp_sha R)"
  shows "local R (tg_id g) t t'"
proof -
  from run consider "create_admission R a g t = Inr (view, t')"
    | gr ar v existing w where "get_record t (graph_key R (tg_id g)) = Some gr"
      "require_committed_admission R gr ar (Some v) t = Inr (existing, w)" "repair_aggregate R gr w t = Inr (view, t')"
    unfolding admit_graph_def Let_def by (auto simp: eres split: option.splits if_splits)
  then show ?thesis
  proof cases
    case (2 gr ar v existing w)
    from require_committed_Inr [OF 2(2)] repair_aggregate_local [OF 2(3,1) _ _ _ ok free] show ?thesis by metis
  qed (rule create_admission_local [OF _ free])
qed

text \<open>A submission and its reference name the same graph.\<close>

lemma make_submission_Inr:
  "make_submission sha s = Inr s' \<Longrightarrow> s' = s \<and> tg_id (sb_graph s) = ad_graph (sb_admission s)"
  by (auto simp: make_submission_def validate_graph_def eres)

lemma submission_reference_Inr:
  "submission_reference s = Inr ref \<Longrightarrow> sr_graph ref = ad_graph (sb_admission s)"
  by (auto simp: submission_reference_def make_submission_ref_def eres)

lemma prepared_submission_Inr:
  assumes "prepared_submission R head s t = Inr p" and "rec_state head = Some ''prepared''"
    and "tg_id (sb_graph s) = ad_graph (sb_admission s)"
  shows "tg_id (sb_graph p) = tg_id (sb_graph s)"
proof -
  from assms(1,2) obtain payload ref where d: "decode_submission (rp_sha R) payload = Inr p" and
    r: "submission_reference p = Inr ref" "submission_reference s = Inr ref"
    by (auto simp: prepared_submission_def eres)
  from d have "make_submission (rp_sha R) p = Inr p"
    by (auto simp: decode_submission_def eres dest: make_submission_Inr split: domain_value.splits)
  with make_submission_Inr submission_reference_Inr [OF r(1)] submission_reference_Inr [OF r(2)] assms(3) show ?thesis
    by fastforce
qed

lemma admit_steps:
  assumes "admit_txn R a g require_prepared t = Inr (view, t')"
  obtains
    (cancelled) ref r where "sr_graph ref = tg_id g" "tg_id g = ad_graph a"
      "submission_in_txn R ref t = Inr (Some r)" "rec_state r = Some ''cancelled''"
      "get_record t (graph_key R (tg_id g)) = None" "view = cancelled_graph (tg_id g)" "t' = t"
  | (fresh) ref t1 where "sr_graph ref = tg_id g" "tg_id g = ad_graph a" "submission_in_txn R ref t = Inr None"
      "insert_record (submission_record R (tg_id g) ref ''admitted'') t = Inr ((), t1)"
      "admit_graph R False a g t1 = Inr (view, t')"
  | (prepared) ref r t1 b t2 and p :: submission where "sr_graph ref = tg_id g" "tg_id g = ad_graph a"
      "submission_in_txn R ref t = Inr (Some r)" "rec_state r = Some ''prepared''"
      "tg_id (sb_graph p) = tg_id g" "replace_submission r ''admitted'' t = Inr ((), t1)"
      "delete_record (payload_key R (tg_id g)) None t1 = Inr (b, t2)"
      "admit_graph R False (sb_admission p) (sb_graph p) t2 = Inr (view, t')"
  | (replayed) ref r again where "sr_graph ref = tg_id g" "tg_id g = ad_graph a"
      "submission_in_txn R ref t = Inr (Some r)"
      "\<not> (rec_state r = Some ''cancelled'' \<and> get_record t (graph_key R (tg_id g)) = None)"
      "admit_graph R again a g t = Inr (view, t')"
proof -
  let ?s = "\<lparr>sb_namespace = rp_ns R, sb_admission = a, sb_graph = g\<rparr>"
  from assms obtain s ref head where s: "make_submission (rp_sha R) ?s = Inr s" and
    ref: "submission_reference s = Inr ref" and h: "submission_in_txn R ref t = Inr head"
    unfolding admit_txn_def by (simp only: ebind_eq_Inr) blast
  from make_submission_Inr [OF s] have s': "s = ?s" "tg_id g = ad_graph a" by simp_all
  with submission_reference_Inr [OF ref] have id: "sr_graph ref = tg_id g" by simp
  note run = assms [unfolded admit_txn_def s ebind_Inr ref h]
  show ?thesis
  proof (cases head)
    case None
    with run obtain t1 where "insert_record (submission_record R (tg_id g) ref ''admitted'') t = Inr ((), t1)"
        "admit_graph R False a g t1 = Inr (view, t')"
      by (auto simp: ebind_eq_Inr split: if_splits)
    with fresh [OF id s'(2)] h None show ?thesis by simp
  next
    case (Some r)
    note h = h [unfolded Some]
    show ?thesis
    proof (cases "rec_state r = Some ''prepared''")
      case True
      with run Some obtain p t1 b t2 where p: "prepared_submission R r s t = Inr p"
          "replace_submission r ''admitted'' t = Inr ((), t1)"
          "delete_record (payload_key R (tg_id (sb_graph p))) None t1 = Inr (b, t2)"
          "admit_graph R False (sb_admission p) (sb_graph p) t2 = Inr (view, t')"
        by (auto simp: ebind_eq_Inr)
      from prepared_submission_Inr [OF p(1) True] s' have i: "tg_id (sb_graph p) = tg_id g" by simp
      show ?thesis by (rule prepared [OF id s'(2) h True i p(2) p(3) [unfolded i] p(4)])
    next
      case False
      show ?thesis
      proof (cases "rec_state r = Some ''cancelled'' \<and> get_record t (graph_key R (tg_id g)) = None")
        case True
        with run Some have "view = cancelled_graph (tg_id g)" "t' = t" by auto
        with True show ?thesis by (intro cancelled [OF id s'(2) h]) simp_all
      next
        case no: False
        with run Some False have "admit_graph R (rec_state r = Some ''admitted'') a g t = Inr (view, t')" by auto
        with no show ?thesis by (rule replayed [OF id s'(2) h])
      qed
    qed
  qed
qed

lemma admit_local:
  assumes run: "admit_txn R a g require_prepared t = Inr (view, t')" and ok: "txn_ok t"
    and free: "collision_free (rp_sha R)"
  shows "local R (tg_id g) t t'"
  using run
proof (cases rule: admit_steps)
  case (fresh ref t1)
  from insert_record_local [OF fresh(4)] have 1: "local R (tg_id g) t t1" by simp
  with ok have "txn_ok t1" by (simp add: local_def)
  from local_trans [OF 1 admit_graph_local [OF fresh(5) this free]] show ?thesis .
next
  case (prepared ref r t1 b t2 p)
  from submission_in_txn_Inr(1) [OF prepared(3)] prepared(1)
  have "get_record t (submission_key R (tg_id g)) = Some r" by simp
  from replace_submission_local [OF prepared(6) this ok] have 1: "local R (tg_id g) t t1" .
  from delete_record_local [OF prepared(7)] local_trans [OF 1] have 2: "local R (tg_id g) t t2" by simp
  then have "txn_ok t2" using ok by (simp add: local_def)
  from admit_graph_local [OF prepared(8) this free] prepared(5) local_trans [OF 2] show ?thesis by simp
next
  case (replayed ref r again)
  show ?thesis by (rule admit_graph_local [OF replayed(5) ok free])
qed (simp add: local_refl)

section \<open>Withdrawn submissions\<close>

inductive submission_step :: "repo \<Rightarrow> task_store \<Rightarrow> task_store \<Rightarrow> bool" for R where
  prepared: "mem_mutate now (prepare_txn R s) m = (Inr p, m') \<Longrightarrow>
    make_submission (rp_sha R) s = Inr s \<Longrightarrow> submission_step R m m'"
| admitted: "mem_mutate now (admit_txn R a g require_prepared) m = (Inr view, m') \<Longrightarrow> submission_step R m m'"
| cancelled: "mem_mutate now (cancel_submission_txn R s v) m = (Inr b, m') \<Longrightarrow> submission_step R m m'"

abbreviation submission_runs :: "repo \<Rightarrow> task_store \<Rightarrow> task_store \<Rightarrow> bool" where
  "submission_runs R \<equiv> rtranclp (submission_step R)"

text \<open>The head of the submission is cancelled and its graph was never created.\<close>

definition withdrawn_in :: "repo \<Rightarrow> submission_ref \<Rightarrow> task_txn \<Rightarrow> bool" where
  "withdrawn_in R s t \<longleftrightarrow>
     (\<exists>r. submission_in_txn R s t = Inr (Some r) \<and> rec_state r = Some ''cancelled'') \<and>
     get_record t (graph_key R (sr_graph s)) = None"

definition withdrawn :: "repo \<Rightarrow> submission_ref \<Rightarrow> task_store \<Rightarrow> bool" where
  "withdrawn R s m \<longleftrightarrow> withdrawn_in R s (begin_txn 0 m)"

lemma submission_in_txn_Some:
  "submission_in_txn R s t = Inr (Some r) \<longleftrightarrow>
    get_record t (submission_key R (sr_graph s)) = Some r \<and> decode_submission_ref r = Inr s \<and>
    sr_namespace s = rp_ns R \<and> sr_tenant s = rp_tenant R \<and> rec_kind r = ''task_submission'' \<and>
    rec_scope r = None \<and> rec_parent r = None \<and> rec_sort r = sortable_identity (rp_sha R) (JStr (sr_graph s)) \<and>
    rec_state r \<in> {Some ''prepared'', Some ''admitted'', Some ''cancelled''}"
  by (auto simp: submission_in_txn_def eres split: option.splits if_splits)

lemma withdrawn_in_cong:
  assumes "withdrawn_in R s t" and "get_record t' (submission_key R (sr_graph s)) = get_record t (submission_key R (sr_graph s))"
    and "get_record t' (graph_key R (sr_graph s)) = get_record t (graph_key R (sr_graph s))"
  shows "withdrawn_in R s t'"
  using assms by (simp add: withdrawn_in_def submission_in_txn_Some)

lemma withdrawn_at: "withdrawn R s m \<Longrightarrow> withdrawn_in R s (begin_txn now m)"
  unfolding withdrawn_def by (erule withdrawn_in_cong) simp_all

text \<open>Whoever looks up the graph of a withdrawn submission finds that submission, or is refused.\<close>

lemma withdrawn_found:
  assumes "withdrawn_in R s t" and "submission_in_txn R s' t = Inr h" and "sr_graph s' = sr_graph s"
  obtains r where "s' = s" "h = Some r" "rec_state r = Some ''cancelled''"
proof -
  from assms(1) obtain r where r: "get_record t (submission_key R (sr_graph s)) = Some r"
      "decode_submission_ref r = Inr s" "rec_state r = Some ''cancelled''"
    by (auto simp: withdrawn_in_def submission_in_txn_Some)
  with assms(2,3) submission_in_txn_Inr [of R s' t] show ?thesis by (cases h) (auto intro: that)
qed

lemma withdrawn_prepare:
  assumes "withdrawn_in R s t" and "prepare_txn R p t = Inr (x, t')" and "ad_graph (sb_admission p) = sr_graph s"
  shows "t' = t"
proof -
  from assms(2) obtain ref h where ref: "submission_reference p = Inr ref" "submission_in_txn R ref t = Inr h"
    by (auto simp: prepare_txn_def ebind_eq_Inr)
  from submission_reference_Inr [OF ref(1)] assms(3) have "sr_graph ref = sr_graph s" by simp
  with assms(1) ref(2) obtain r where "h = Some r" by (rule withdrawn_found)
  with assms(2) ref show ?thesis by (auto simp: prepare_txn_def eres)
qed

lemma withdrawn_admit:
  assumes w: "withdrawn_in R s t" and run: "admit_txn R a g require_prepared t = Inr (view, t')"
    and id: "tg_id g = sr_graph s"
  shows "view = cancelled_graph (sr_graph s) \<and> t' = t"
proof -
  have none: "get_record t (graph_key R (tg_id g)) = None" using w id by (simp add: withdrawn_in_def)
  have found: "\<exists>r. h = Some r \<and> rec_state r = Some ''cancelled''"
    if "submission_in_txn R ref t = Inr h" "sr_graph ref = tg_id g" for ref h
    using withdrawn_found [OF w that(1)] that(2) id by metis
  from run show ?thesis
  proof (cases rule: admit_steps)
    case (fresh ref t1)
    from found [OF fresh(3,1)] show ?thesis by simp
  next
    case (prepared ref r t1 b t2 p)
    from found [OF prepared(3,1)] prepared(4) show ?thesis by simp
  next
    case (replayed ref r again)
    from found [OF replayed(3,1)] replayed(4) none show ?thesis by simp
  qed (simp add: id)
qed

lemma withdrawn_cancel:
  assumes w: "withdrawn_in R s t" and run: "cancel_submission_txn R s' v t = Inr (b, t')" and id: "sr_graph s' = sr_graph s"
    and ok: "txn_ok t" and free: "collision_free (rp_sha R)"
  shows "get_record t' = get_record t"
proof -
  from cancel_submission_steps [OF run] obtain r t1 t2 t3 t5 v' x where
    h: "submission_in_txn R s' t = Inr (Some r) \<and> t1 = t \<or>
     submission_in_txn R s' t = Inr None \<and> r = submission_record R (sr_graph s') s' ''cancelled'' \<and>
       insert_records [r] t = Inr ((), t1)" and
    d: "if rec_state r = Some ''prepared'' then drop_payload R s' t1 = Inr ((), t2) else t2 = t1" and
    c: "if rec_state r \<noteq> Some ''cancelled'' then replace_submission r ''cancelled'' t2 = Inr ((), t3) else t3 = t2" and
    g: "get_record t1 (graph_key R (sr_graph s')) = None \<longrightarrow> t5 = t3" and
    op: "append_operation R v' t5 = Inr (x, t')"
    by (rule cancel_submission_steps [OF run])
  from h have r: "rec_state r = Some ''cancelled'' \<and> t1 = t"
  proof
    assume "submission_in_txn R s' t = Inr (Some r) \<and> t1 = t"
    with withdrawn_found [OF w _ id] show ?thesis by (metis option.inject)
  next
    assume "submission_in_txn R s' t = Inr None \<and> r = submission_record R (sr_graph s') s' ''cancelled'' \<and>
       insert_records [r] t = Inr ((), t1)"
    with withdrawn_found [OF w _ id] show ?thesis by (metis option.distinct(1))
  qed
  with d c have "t3 = t" by simp
  moreover have "t5 = t3" using g r w id by (simp add: withdrawn_in_def)
  ultimately show ?thesis using append_operation_effect [OF op free] ok by (simp add: get_record_def [abs_def])
qed

text \<open>The cancellation that found no graph withdraws the submission.\<close>

definition reference_ok :: "submission_ref \<Rightarrow> bool" where
  "reference_ok s \<longleftrightarrow> make_principal (sr_principal s) \<in> range Inr \<and> make_submission_ref s = Inr s"

lemma submission_record_decode:
  "reference_ok s \<Longrightarrow> decode_submission_ref (submission_record R g s st) = Inr s"
  by (auto simp: decode_submission_ref_def submission_record_def project_record_def integrity_def reference_ok_def)

lemma cancel_withdraws:
  assumes run: "cancel_submission_txn R s v t = Inr (False, t')" and s: "reference_ok s"
    and ok: "txn_ok t" and free: "collision_free (rp_sha R)"
  shows "withdrawn_in R s t'"
proof -
  let ?sk = "submission_key R (sr_graph s)" and ?gk = "graph_key R (sr_graph s)"
  have keys: "?sk \<noteq> ?gk" "?sk \<noteq> payload_key R (sr_graph s)"
    using free by (simp_all add: submission_key_def payload_key_def key_defs)
  from cancel_submission_steps [OF run] obtain r t1 t2 t3 t5 v' x where
    h: "submission_in_txn R s t = Inr (Some r) \<and> t1 = t \<or>
     submission_in_txn R s t = Inr None \<and> r = submission_record R (sr_graph s) s ''cancelled'' \<and>
       insert_records [r] t = Inr ((), t1)" and
    a: "False \<longleftrightarrow> get_record t1 ?gk \<noteq> None" and
    d: "if rec_state r = Some ''prepared'' then drop_payload R s t1 = Inr ((), t2) else t2 = t1" and
    c: "if rec_state r \<noteq> Some ''cancelled'' then replace_submission r ''cancelled'' t2 = Inr ((), t3) else t3 = t2" and
    g: "get_record t1 ?gk = None \<longrightarrow> t5 = t3" and
    op: "append_operation R v' t5 = Inr (x, t')"
    by (rule cancel_submission_steps [OF run])
  have a: "get_record t1 ?gk = None" using a by simp
  have 1: "submission_in_txn R s t1 = Inr (Some r)" and ok1: "txn_ok t1"
  proof -
    show "txn_ok t1" using h ok txn_ok_insert_records by blast
    from h show "submission_in_txn R s t1 = Inr (Some r)"
    proof
      assume n: "submission_in_txn R s t = Inr None \<and> r = submission_record R (sr_graph s) s ''cancelled'' \<and>
        insert_records [r] t = Inr ((), t1)"
      then have "insert_records [r] t = Inr ((), t1)" by blast
      moreover have "rec_key r = ?sk" using n by simp
      ultimately have "get_record t1 ?sk = Some r" by (simp add: inserted_record)
      moreover from n have "sr_namespace s = rp_ns R \<and> sr_tenant s = rp_tenant R"
        by (auto simp: submission_in_txn_def eres)
      ultimately show ?thesis using n submission_record_decode [OF s]
        by (auto simp: submission_in_txn_Some) (simp_all add: submission_record_def project_record_def)
    qed simp
  qed
  have 2: "submission_in_txn R s t2 = Inr (Some r) \<and> get_record t2 ?gk = None"
  proof (cases "rec_state r = Some ''prepared''")
    case True
    with d obtain p b where p: "get_record t1 (payload_key R (sr_graph s)) = Some p" and
      "delete_record (rec_key p) None t1 = Inr (b, t2)"
      by (auto simp: drop_payload_def eres)
    with txn_ok_record_key [OF ok1 p] have "delete_record (payload_key R (sr_graph s)) None t1 = Inr (b, t2)" by simp
    then have "get_record t2 = get_record t1 \<or> get_record t2 = (get_record t1)(payload_key R (sr_graph s) := None)"
      by (cases b) (auto dest: delete_record_False delete_record_True [OF _ ok1])
    with 1 a keys(2) show ?thesis by (auto simp: submission_in_txn_Some)
  qed (use d 1 a in simp)
  have 3: "withdrawn_in R s t3"
  proof (cases "rec_state r = Some ''cancelled''")
    case False
    let ?r = "r\<lparr>rec_state := Some ''cancelled'', rec_revision := rec_revision r + 1\<rparr>"
    have "rec_key r = ?sk" using txn_ok_record_key [OF ok1] 1 by (simp add: submission_in_txn_Some)
    with c False have "get_record t3 = (get_record t2)(?sk \<mapsto> ?r)"
      by (auto simp: replace_submission_def eres replace_record_True get_record_put)
    moreover have "decode_submission_ref ?r = decode_submission_ref r" by (simp add: decode_submission_ref_def)
    ultimately show ?thesis using 2 keys(1) by (auto simp: withdrawn_in_def submission_in_txn_Some)
  qed (use c 2 in \<open>auto simp: withdrawn_in_def\<close>)
  have ok3: "txn_ok t3"
  proof -
    have "local R (sr_graph s) t1 t2"
      using d drop_payload_local [OF _ ok1] by (auto simp: local_refl split: if_splits)
    then have ok2: "txn_ok t2" using ok1 by (simp add: local_def)
    have "local R (sr_graph s) t2 t3"
      using c replace_submission_local [OF _ _ ok1, of r _ t2 "()" t3 R "sr_graph s"] 1
      by (auto simp: local_refl submission_in_txn_Some split: if_splits)
    with ok2 show ?thesis by (simp add: local_def)
  qed
  have "get_record t' = get_record t3"
    using append_operation_effect [OF op free] g a ok3 by (simp add: get_record_def [abs_def])
  with 3 show ?thesis by (intro withdrawn_in_cong [OF 3]) simp_all
qed

lemma submission_commit:
  assumes run: "mem_mutate now fn m = (Inr v, m')" and ok: "mem_ok m"
    and l: "\<And>t'. fn (begin_txn now m) = Inr (v, t') \<Longrightarrow> \<exists>g. local R g (begin_txn now m) t'"
  obtains t' where "fn (begin_txn now m) = Inr (v, t')" "mem_ok m'" "\<And>n. get_record (begin_txn n m') = get_record t'"
proof -
  have "txn_ok t' \<and> txn_over m t'" if "fn (begin_txn now m) = Inr (v, t')" for t'
  proof -
    from l [OF that] obtain g where "local R g (begin_txn now m) t'" ..
    with mem_ok_txn [OF ok] show ?thesis
      by (auto simp: local_def same_base_def txn_over_def begin_txn_def ov_new_def)
  qed
  with run ok show ?thesis using that by (rule mutate_commit) blast+
qed

text \<open>What an operation on one graph does to a withdrawn submission: nothing.\<close>

lemma withdrawn_local:
  assumes "withdrawn_in R s t" and "local R g t t'" and "g \<noteq> sr_graph s" and "txn_ok t" and "collision_free (rp_sha R)"
  shows "withdrawn_in R s t'"
  using assms(2,4) graph_keys_other [OF assms(5), of "sr_graph s" g] assms(3)
  by (intro withdrawn_in_cong [OF assms(1)]) (auto simp: local_def)

lemma submission_step_sound:
  assumes step: "submission_step R m m'" and ok: "mem_ok m" and free: "collision_free (rp_sha R)"
  shows "mem_ok m' \<and> (withdrawn R s m \<longrightarrow> withdrawn R s m')"
proof -
  have finish: "mem_ok m' \<and> (withdrawn R s m \<longrightarrow> withdrawn R s m')"
    if run: "mem_mutate now fn m = (Inr v, m')"
      and l: "\<And>t'. fn (begin_txn now m) = Inr (v, t') \<Longrightarrow> local R g (begin_txn now m) t'"
      and same: "\<And>t'. fn (begin_txn now m) = Inr (v, t') \<Longrightarrow> withdrawn_in R s (begin_txn now m) \<Longrightarrow>
        g = sr_graph s \<Longrightarrow> get_record t' = get_record (begin_txn now m)"
    for now fn g and v :: 'v
  proof -
    from run ok obtain t' where t': "fn (begin_txn now m) = Inr (v, t')" "mem_ok m'"
        "\<And>n. get_record (begin_txn n m') = get_record t'"
      by (rule submission_commit) (use l in blast)+
    have "withdrawn R s m'" if w: "withdrawn R s m"
    proof -
      note w = withdrawn_at [OF w, of now]
      have "withdrawn_in R s t'"
      proof (cases "g = sr_graph s")
        case True
        from same [OF t'(1) w True] show ?thesis by (intro withdrawn_in_cong [OF w]) simp_all
      next
        case False
        from withdrawn_local [OF w l [OF t'(1)] False mem_ok_txn [OF ok] free] show ?thesis .
      qed
      then show ?thesis unfolding withdrawn_def by (rule withdrawn_in_cong) (simp_all only: t'(3))
    qed
    with t'(2) show ?thesis by blast
  qed
  note tok = mem_ok_txn [OF ok]
  from step show ?thesis
  proof cases
    case (prepared now p x)
    from make_submission_Inr [OF prepared(2)] have id: "tg_id (sb_graph p) = ad_graph (sb_admission p)" by simp
    show ?thesis
    proof (rule finish [OF prepared(1), where g = "tg_id (sb_graph p)"])
      fix t' assume run: "prepare_txn R p (begin_txn now m) = Inr (x, t')"
      from prepare_local [OF run refl] show "local R (tg_id (sb_graph p)) (begin_txn now m) t'" .
      assume "withdrawn_in R s (begin_txn now m)" "tg_id (sb_graph p) = sr_graph s"
      with withdrawn_prepare [OF _ run] id show "get_record t' = get_record (begin_txn now m)" by simp
    qed
  next
    case (admitted now a g required view)
    show ?thesis
    proof (rule finish [OF admitted, where g = "tg_id g"])
      fix t' assume run: "admit_txn R a g required (begin_txn now m) = Inr (view, t')"
      from admit_local [OF run tok free] show "local R (tg_id g) (begin_txn now m) t'" .
      assume "withdrawn_in R s (begin_txn now m)" "tg_id g = sr_graph s"
      from withdrawn_admit [OF this(1) run this(2)] show "get_record t' = get_record (begin_txn now m)" by simp
    qed
  next
    case (cancelled now r v b)
    show ?thesis
    proof (rule finish [OF cancelled, where g = "sr_graph r"])
      fix t' assume run: "cancel_submission_txn R r v (begin_txn now m) = Inr (b, t')"
      from cancel_submission_local [OF run tok free] show "local R (sr_graph r) (begin_txn now m) t'" .
      assume "withdrawn_in R s (begin_txn now m)" "sr_graph r = sr_graph s"
      from withdrawn_cancel [OF this(1) run this(2) tok free] show "get_record t' = get_record (begin_txn now m)" .
    qed
  qed
qed

interpretation submissions: dispatch_gate "submission_step R" "\<lambda>m. mem_ok m \<and> collision_free (rp_sha R)" "\<lambda>s m. withdrawn R s m"
  "\<lambda>s m. \<exists>now a g required view t'. tg_id g = sr_graph s \<and>
     admit_txn R a g required (begin_txn now m) = Inr (view, t') \<and>
     \<not> (view = cancelled_graph (sr_graph s) \<and> t' = begin_txn now m)" for R
proof
  fix m m' :: task_store and s :: submission_ref
  assume "submission_step R m m'" and "mem_ok m \<and> collision_free (rp_sha R)"
  then show "mem_ok m' \<and> collision_free (rp_sha R)" using submission_step_sound by blast
next
  fix m m' :: task_store and s :: submission_ref
  assume "submission_step R m m'" and "mem_ok m \<and> collision_free (rp_sha R)" and "withdrawn R s m"
  then show "withdrawn R s m'" using submission_step_sound by blast
next
  fix m :: task_store and s :: submission_ref
  assume "\<exists>now a g required view t'. tg_id g = sr_graph s \<and>
     admit_txn R a g required (begin_txn now m) = Inr (view, t') \<and>
     \<not> (view = cancelled_graph (sr_graph s) \<and> t' = begin_txn now m)"
  then show "\<not> withdrawn R s m" using withdrawn_admit withdrawn_at by blast
qed

lemma withdrawn_forever:
  assumes cancel: "mem_mutate now (cancel_submission_txn R s v) m = (Inr False, m1)" and s: "reference_ok s"
    and ok: "mem_ok m" and free: "collision_free (rp_sha R)" and runs: "submission_runs R m1 m2"
    and id: "tg_id g = sr_graph s" and run: "admit_txn R a g required (begin_txn now' m2) = Inr (view, t')"
  shows "view = cancelled_graph (sr_graph s) \<and> t' = begin_txn now' m2"
proof -
  have "mem_ok m1" using submission_step_sound [OF submission_step.cancelled [OF cancel] ok free] by blast
  moreover have "withdrawn R s m1"
  proof -
    have l: "\<exists>g. local R g (begin_txn now m) t'" if "cancel_submission_txn R s v (begin_txn now m) = Inr (False, t')" for t'
      using cancel_submission_local [OF that mem_ok_txn [OF ok] free] ..
    from cancel ok obtain t' where t': "cancel_submission_txn R s v (begin_txn now m) = Inr (False, t')"
        "\<And>n. get_record (begin_txn n m1) = get_record t'"
      by (rule submission_commit) (use l in blast)+
    from cancel_withdraws [OF t'(1) s mem_ok_txn [OF ok] free] show ?thesis
      unfolding withdrawn_def by (rule withdrawn_in_cong) (simp_all only: t'(2))
  qed
  ultimately show ?thesis using submissions.refused_forever [OF runs, of s] free id run by blast
qed

end
