(* ===== verification/Admission_Samples.thy ===== *)
theory Admission_Samples
  imports Budget_Samples Task_Submission_Steps
begin

text \<open>
  Graphs to admit for the witnesses, and a repository whose digest makes the request of one of them
  admissible, so that a submission of it can be cancelled first.
\<close>

definition sample_two :: task_graph where
  "sample_two = \<lparr>tg_id = ''g'', tg_nodes = [sample_node ''b'' [''a''], sample_node ''a'' []]\<rparr>"

definition sample_admission :: admission where
  "sample_admission =
     \<lparr>ad_version = 1, ad_graph = ''g'', ad_principal = sample_principal, ad_limits = sample_limits,
      ad_operation = sample_digest, ad_digest = sample_digest, ad_correlation = [], ad_budget = None,
      ad_budget_scope = None, ad_effects = Live\<rparr>"

lemma empty_repo_ok: "repo_ok R g (begin_txn now empty_store)"
proof -
  have "store_ok R empty_store"
    using empty_store_ok by (simp add: store_ok_def budget_store_ok_def columns_agree_iff log_gapless_def
        stream_gapless_def log_length_def get_sequence_def get_fact_def) (simp add: empty_store_def)
  then show ?thesis by (rule repo_ok_begin)
qed

definition sample_one :: task_graph where
  "sample_one = \<lparr>tg_id = ''g'', tg_nodes = [sample_node ''a'' []]\<rparr>"

text \<open>
  An injective digest that is 32 bytes long on the request of \<open>sample_one\<close> (340 bytes), so that
  the request digest is one.
\<close>

definition sample_payload :: bytes where
  "sample_payload = canonical_json_bytes (request_mapping sample_one sample_principal sample_limits None Live)"

definition sealed_sha :: "bytes \<Rightarrow> bytes" where
  "sealed_sha s =
     (if length s = 340 then (if s = sample_payload then replicate 32 (CHR 0x00) else CHR 0x01 # s)
      else CHR 0x01 # s)"

definition sealed_repo :: repo where
  "sealed_repo = sample_repo\<lparr>rp_sha := sealed_sha\<rparr>"

lemma sealed_free: "collision_free (rp_sha sealed_repo)"
proof -
  have "hd (replicate 32 (CHR 0x00)) \<noteq> hd (CHR 0x01 # s)" for s :: bytes by simp
  then have "replicate 32 (CHR 0x00) \<noteq> CHR 0x01 # s \<and> CHR 0x01 # s \<noteq> replicate 32 (CHR 0x00)" for s :: bytes by metis
  then show ?thesis by (auto simp: collision_free_def sealed_repo_def sealed_sha_def inj_def split: if_splits)
qed

definition sample_submission :: submission_ref where
  "sample_submission =
     \<lparr>sr_namespace = ''n'', sr_tenant = ''t'', sr_graph = ''g'', sr_digest = sample_digest,
      sr_operation = sample_digest, sr_principal = sample_principal\<rparr>"

definition sample_cancel :: op_input where
  "sample_cancel =
     \<lparr>oi_id = ''c'', oi_tenant = ''t'', oi_resource_kind = TASK_GRAPH, oi_resource = ''g'', oi_execution = None,
      oi_kind = TASK_CANCEL, oi_status = OP_PENDING, oi_request = sample_digest, oi_result_ref = None,
      oi_result_digest = None, oi_error = None, oi_compactable = False, oi_created = 0, oi_updated = 0\<rparr>"

definition cancelled_store :: task_store where
  "cancelled_store = snd (mem_mutate 0 (cancel_submission_txn sealed_repo sample_submission sample_cancel) empty_store)"

lemma sample_cancelled:
  "mem_mutate 0 (cancel_submission_txn sealed_repo sample_submission sample_cancel) empty_store = (Inr False, cancelled_store)"
proof -
  have "fst (mem_mutate 0 (cancel_submission_txn sealed_repo sample_submission sample_cancel) empty_store) = Inr False"
    by code_simp
  then show ?thesis by (simp add: cancelled_store_def prod_eq_iff)
qed

end
