(* ===== verification/Execution_Repo.thy ===== *)
theory Execution_Repo
  imports Budget_Repo
begin

text \<open>
  \<open>ExecutionRepositoryImpl\<close>, \<open>IdempotencyRepositoryImpl\<close> and \<open>EventRepositoryImpl\<close> of
  \<open>ai/persistence/_execution_repositories.py\<close>: the life of an execution in the store.  Its record
  carries a revision that every write raises, the number of its last event, and the generation of
  the producer that may write for it; its events are the facts of a stream.

  The operations are the callbacks that run in a transaction; a public method without one is
  \<open>mem_mutate\<close> of the callback.  A check of the caller's tenant compares with the tenant of the
  repository.
\<close>

section \<open>Decoding\<close>

text \<open>
  An execution with the values nested in it, each one constructed: what decoding does, and what a
  caller has done that passes an execution.
\<close>

definition build_recovery :: "recovery_detail \<Rightarrow> recovery_detail res" where
  "build_recovery d =
     ebind (case rd_pending d of
              None \<Rightarrow> Inr ()
            | Some c \<Rightarrow>
                ebind (emap make_deferred_call (tc_approvals c @ tc_calls c)) (\<lambda>_.
                ebind (make_continuation c) (\<lambda>_. Inr ()))) (\<lambda>_.
     ebind (emap make_barrier (rd_barriers d)) (\<lambda>_.
     ebind (case rd_handoff d of
              None \<Rightarrow> Inr ()
            | Some h \<Rightarrow>
                ebind (make_metrics (to_usage (th_outcome h))) (\<lambda>_.
                ebind (make_outcome (th_outcome h)) (\<lambda>_.
                ebind (make_handoff h) (\<lambda>_. Inr ())))) (\<lambda>_.
       make_recovery d)))"

definition build_execution :: "execution \<Rightarrow> execution res" where
  "build_execution e =
     ebind (case ex_result e of None \<Rightarrow> Inr () | Some r \<Rightarrow> ebind (make_metrics (rs_usage r)) (\<lambda>_. Inr ())) (\<lambda>_.
     ebind (case ex_recovery e of None \<Rightarrow> Inr () | Some d \<Rightarrow> ebind (build_recovery d) (\<lambda>_. Inr ())) (\<lambda>_.
       make_execution e))"

definition decode_any_execution :: "task_record \<Rightarrow> execution res" where
  "decode_any_execution r =
     (case rec_data r of
        Execution e \<Rightarrow> integrity (build_execution e)
      | _ \<Rightarrow> Inl (ai STORAGE_INTEGRITY_ERROR))"

text \<open>
  \<open>ResourceRepository._decode\<close>: a record of the kind of the repository must lie under the
  identity of its value.
\<close>

definition decode_execution :: "repo \<Rightarrow> task_record \<Rightarrow> execution res" where
  "decode_execution R r =
     ebind (decode_any_execution r) (\<lambda>e.
       ensure (rec_kind r = ''execution'' \<and> rec_key r = repo_key R ''execution'' (JStr (ex_id e)))
         (ai STORAGE_INTEGRITY_ERROR) (Inr e))"

definition decode_idempotency :: "repo \<Rightarrow> task_record \<Rightarrow> idempotency res" where
  "decode_idempotency R r =
     (case rec_data r of
        Idempotency i \<Rightarrow>
          ensure (rec_kind r = ''idempotency'' \<and>
                  rec_key r = repo_key R ''idempotency'' (JList [JStr (id_scope i), JStr (id_key i)]))
            (ai STORAGE_INTEGRITY_ERROR) (Inr i)
      | _ \<Rightarrow> Inl (ai STORAGE_INTEGRITY_ERROR))"

definition decode_seal :: "task_record \<Rightarrow> history_seal res" where
  "decode_seal r =
     (case rec_data r of
        History_seal s \<Rightarrow> integrity (ebind (emap make_head (hs_heads s)) (\<lambda>_. make_seal s))
      | _ \<Rightarrow> Inl (ai STORAGE_INTEGRITY_ERROR))"

section \<open>Keys, reads and writes\<close>

type_synonym execution_txn = "details value_txn"
type_synonym execution_store = "details value_store"
type_synonym 'a execution_action = "(details, 'a) value_action"

definition execution_key :: "repo \<Rightarrow> string \<Rightarrow> bytes" where
  "execution_key R x = repo_key R ''execution'' (JStr x)"

definition idempotency_key :: "repo \<Rightarrow> string \<Rightarrow> string \<Rightarrow> bytes" where
  "idempotency_key R s k = repo_key R ''idempotency'' (JList [JStr s, JStr k])"

definition seal_key :: "repo \<Rightarrow> string \<Rightarrow> bytes" where
  "seal_key R x = repo_key R ''execution_history_seal'' (JStr x)"

definition execution_stream :: "repo \<Rightarrow> string \<Rightarrow> bytes" where
  "execution_stream R x = stream_digest (rp_sha R) (rp_ns R) (rp_tenant R) (rp_domain R) ''execution'' (JStr x)"

definition execution_row :: "repo \<Rightarrow> execution \<Rightarrow> task_record" where
  "execution_row R e =
     project_record R ''execution'' (JStr (ex_id e)) (Execution e) None None (Some (execution_value (ex_status e)))"

definition idempotency_row :: "repo \<Rightarrow> idempotency \<Rightarrow> task_record" where
  "idempotency_row R i =
     project_record R ''idempotency'' (JList [JStr (id_scope i), JStr (id_key i)]) (Idempotency i) None None
       (Some (idempotency_value (id_status i)))"

text \<open>A \<open>StoredFact\<close> of the stream; its kind is limited to 32 characters.\<close>

definition event_row :: "repo \<Rightarrow> string \<Rightarrow> int \<Rightarrow> event_append \<Rightarrow> details stored_fact res" where
  "event_row R x n v =
     ensure (0 \<le> n) ValueError
    (ensure (ea_type v \<noteq> [] \<and> length (ea_type v) \<le> 32) ValueError
      (Inr \<lparr>fact_stream = execution_stream R x, fact_sequence = n, fact_owner = execution_key R x,
            fact_kind = ea_type v, fact_subject = None, fact_state = None, fact_data = ea_payload v\<rparr>))"

definition number_from :: "int \<Rightarrow> 'a list \<Rightarrow> (int \<times> 'a) list" where
  "number_from n vs = zip [n..n + int (length vs) - 1] vs"

definition put_events :: "repo \<Rightarrow> string \<Rightarrow> int \<Rightarrow> event_append list \<Rightarrow> unit execution_action" where
  "put_events R x first events t =
     ebind (emap (\<lambda>(n, v). event_row R x n v) (number_from first events)) (\<lambda>facts. insert_facts facts t)"

definition read_execution :: "repo \<Rightarrow> string \<Rightarrow> execution_txn \<Rightarrow> (task_record \<times> execution) option res" where
  "read_execution R x t =
     (case get_record t (execution_key R x) of
        None \<Rightarrow> Inr None
      | Some r \<Rightarrow> ebind (decode_execution R r) (\<lambda>e. Inr (Some (r, e))))"

definition load_execution :: "exc \<Rightarrow> repo \<Rightarrow> string \<Rightarrow> execution_txn \<Rightarrow> (task_record \<times> execution) res" where
  "load_execution missing R x t = ebind (read_execution R x t) (of_option missing)"

text \<open>\<open>_replace_checked(transaction, _projected_record(...), ...)\<close>, after the constructor of the new value.\<close>

definition write_execution :: "repo \<Rightarrow> task_record \<Rightarrow> execution \<Rightarrow> execution execution_action" where
  "write_execution R r e t =
     ebind (build_execution e) (\<lambda>e.
     ebind (projected_record R r (Execution e)) (\<lambda>candidate.
     ebind (replace_checked candidate (rec_revision r) t) (\<lambda>(_, t'). Inr (e, t'))))"

definition get_execution :: "repo \<Rightarrow> string \<Rightarrow> execution_txn \<Rightarrow> execution option res" where
  "get_execution R x t = ebind (read_execution R x t) (\<lambda>v. Inr (map_option snd v))"

record observed_execution =
  ob_execution :: execution
  ob_revision :: int

definition get_observed :: "repo \<Rightarrow> string \<Rightarrow> execution_txn \<Rightarrow> observed_execution option res" where
  "get_observed R x t =
     ebind (read_execution R x t)
       (\<lambda>v. Inr (map_option (\<lambda>(r, e). \<lparr>ob_execution = e, ob_revision = rec_revision r\<rparr>) v))"

definition get_recovery :: "repo \<Rightarrow> string \<Rightarrow> execution_txn \<Rightarrow> execution option res" where
  "get_recovery R x t =
     ebind (get_execution R x t) (\<lambda>v. Inr (case v of None \<Rightarrow> None | Some e \<Rightarrow> if ex_recovery e = None then None else Some e))"

text \<open>The record a confirmed receipt stands for.\<close>

definition observed_row :: "repo \<Rightarrow> observed_execution \<Rightarrow> task_record" where
  "observed_row R ob = (execution_row R (ob_execution ob))\<lparr>rec_revision := ob_revision ob\<rparr>"

definition create_execution_txn :: "repo \<Rightarrow> execution \<Rightarrow> execution execution_action" where
  "create_execution_txn R e t =
     ebind (read_execution R (ex_id e) t) (\<lambda>v.
       case v of
         Some (_, existing) \<Rightarrow> ensure (existing = e) (ai STORAGE_CONFLICT) (Inr (existing, t))
       | None \<Rightarrow>
           ebind (build_execution e) (\<lambda>e.
           ebind (insert_record (execution_row R e) t) (\<lambda>(_, t'). Inr (e, t'))))"

section \<open>Compare and set\<close>

definition swap_execution_txn :: "repo \<Rightarrow> string \<Rightarrow> int \<Rightarrow> execution \<Rightarrow> execution execution_action" where
  "swap_execution_txn R x expected e t =
     ebind (load_execution (ai STORAGE_NOT_FOUND) R x t) (\<lambda>(r, current).
       ensure (ex_revision current = expected \<and> ex_id e = x \<and> ex_revision e = expected + 1) (ai STORAGE_CONFLICT)
         (write_execution R r e t))"

definition commit_boundary_txn ::
  "repo \<Rightarrow> observed_execution \<Rightarrow> execution \<Rightarrow> int \<Rightarrow> string \<Rightarrow> observed_execution execution_action" where
  "commit_boundary_txn R ob e generation claim t =
     (let current = ob_execution ob in
      ensure (ex_id current = ex_id e \<and> ex_status current = STARTED \<and> ex_generation current = generation \<and>
              ex_claim current = Some claim \<and> ex_generation e = ex_generation current \<and>
              ex_claim e = ex_claim current \<and> (e = current \<or> ex_revision e = ex_revision current + 1))
        (ai STORAGE_CONFLICT)
        (if e = current then
           ebind (guard_record_revision (execution_key R (ex_id current)) (ob_revision ob) t) (\<lambda>(revision, t').
             ensure (revision = Some (ob_revision ob + 1)) (ai STORAGE_CONFLICT)
               (Inr (\<lparr>ob_execution = current, ob_revision = ob_revision ob + 1\<rparr>, t')))
         else
           ebind (build_execution e) (\<lambda>e.
           ebind (replace_checked ((execution_row R e)\<lparr>rec_revision := ob_revision ob + 1\<rparr>) (ob_revision ob) t)
             (\<lambda>(_, t'). Inr (\<lparr>ob_execution = e, ob_revision = ob_revision ob + 1\<rparr>, t')))))"

section \<open>Producers\<close>

text \<open>A write for an execution is fenced by the generation of its producer.\<close>

definition guard_execution :: "bytes \<Rightarrow> task_record \<Rightarrow> task_record execution_action" where
  "guard_execution k r t =
     ebind (guard_record k (rec_revision r) t) (\<lambda>(guarded, t').
       ebind (of_option (ai STORAGE_CONFLICT) guarded) (\<lambda>g. Inr (g, t')))"

definition require_producer_txn ::
  "repo \<Rightarrow> string \<Rightarrow> int \<Rightarrow> bool \<Rightarrow> (execution \<times> task_record) execution_action" where
  "require_producer_txn R x generation allow_cancelling t =
     ensure (1 \<le> generation) (ai STORAGE_CONFLICT)
    (ebind (load_execution (ai STORAGE_INTEGRITY_ERROR) R x t) (\<lambda>(r, e).
     ensure (ex_id e = x) (ai STORAGE_INTEGRITY_ERROR)
    (ensure (ex_generation e = generation) (ai STORAGE_CONFLICT)
    (ensure (\<not> (ex_status e = CANCELLING \<and> \<not> allow_cancelling)) (ai EXECUTION_CANCELLED)
    (ensure (ex_status e \<in> (if allow_cancelling then {STARTED, CANCELLING, FINALIZING} else {STARTED}))
      (ai STORAGE_CONFLICT)
      (ebind (guard_execution (execution_key R x) r t) (\<lambda>(g, t'). Inr ((e, g), t'))))))))"

definition require_history_write_txn :: "repo \<Rightarrow> string \<Rightarrow> (execution \<times> task_record) execution_action" where
  "require_history_write_txn R x t =
     ebind (load_execution (ai STORAGE_INTEGRITY_ERROR) R x t) (\<lambda>(r, e).
     ensure (ex_id e = x) (ai STORAGE_INTEGRITY_ERROR)
    (ensure (ex_seal e = None \<and> \<not> ended (ex_status e)) (ai STORAGE_CONFLICT)
      (ebind (guard_execution (execution_key R x) r t) (\<lambda>(g, t'). Inr ((e, g), t')))))"

definition guard_recovery_txn :: "repo \<Rightarrow> execution \<Rightarrow> unit execution_action" where
  "guard_recovery_txn R e t =
     ebind (load_execution (ai STORAGE_NOT_FOUND) R (ex_id e) t) (\<lambda>(r, current).
       ensure (ex_revision current = ex_revision e \<and> ex_event_seq current = ex_event_seq e \<and>
               ex_status current = ex_status e \<and>
               ex_status current \<in> {PENDING_START, STARTED, EX_RECOVERY_REQUIRED, CANCELLING, FINALIZING})
         (ai STORAGE_CONFLICT)
         (ebind (guard_execution (execution_key R (ex_id e)) r t) (\<lambda>(_, t'). Inr ((), t'))))"

definition guard_parent_txn :: "repo \<Rightarrow> execution \<Rightarrow> int \<Rightarrow> unit execution_action" where
  "guard_parent_txn R e generation t =
     ensure (1 \<le> generation) (ai STORAGE_OWNER_MISMATCH)
    (ebind (of_option (ai STORAGE_OWNER_MISMATCH) (ex_parent e)) (\<lambda>p.
     ebind (get_execution R p t) (\<lambda>v.
     ebind (of_option (ai STORAGE_INTEGRITY_ERROR) v) (\<lambda>parent.
     ensure (ex_root parent = ex_root e) (ai STORAGE_INTEGRITY_ERROR)
    (ensure (ex_status parent \<noteq> CANCELLING) (ai EXECUTION_CANCELLED)
    (ensure (ex_status parent = STARTED) (ai STORAGE_CONFLICT)
      (ebind (require_producer_txn R (ex_id parent) generation False t) (\<lambda>(_, t'). Inr ((), t')))))))))"

section \<open>Events\<close>

text \<open>\<open>EventRepository\<close> decodes the execution without the checks of its kind and key.\<close>

definition append_events_txn ::
  "repo \<Rightarrow> string \<Rightarrow> event_append list \<Rightarrow> int option \<Rightarrow> event_record list execution_action" where
  "append_events_txn R x events expected t =
     (if events = [] then Inr ([], t)
      else
        ebind (of_option (ai STORAGE_NOT_FOUND) (get_record t (execution_key R x))) (\<lambda>r.
        ebind (decode_any_execution r) (\<lambda>e.
        ensure (case expected of None \<Rightarrow> True | Some n \<Rightarrow> ex_event_seq e = n) (ai STORAGE_CONFLICT)
       (ebind (write_execution R r
                (e\<lparr>ex_event_seq := ex_event_seq e + int (length events),
                   ex_revision := ex_revision e + int (length events), ex_updated := t_now t\<rparr>) t) (\<lambda>(_, t1).
        ebind (put_events R x (ex_event_seq e + 1) events t1) (\<lambda>(_, t2).
        ebind (emap (\<lambda>(n, v). make_event_record
                  \<lparr>er_execution = x, er_seq = n, er_type = ea_type v, er_payload = ea_payload v\<rparr>)
                (number_from (ex_event_seq e + 1) events)) (\<lambda>records. Inr (records, t2))))))))"

definition append_next_txn :: "repo \<Rightarrow> string \<Rightarrow> string \<Rightarrow> details \<Rightarrow> int option \<Rightarrow> event_record execution_action" where
  "append_next_txn R x event payload expected t =
     ebind (make_append \<lparr>ea_type = event, ea_payload = payload\<rparr>) (\<lambda>v.
     ebind (append_events_txn R x [v] expected t) (\<lambda>(records, t'). Inr (hd records, t')))"

definition advance_event_seq_txn :: "repo \<Rightarrow> string \<Rightarrow> int \<Rightarrow> execution execution_action" where
  "advance_event_seq_txn R x expected t =
     ebind (load_execution (ai STORAGE_NOT_FOUND) R x t) (\<lambda>(r, e).
       ensure (ex_event_seq e = expected) (ai STORAGE_CONFLICT)
         (write_execution R r
           (e\<lparr>ex_event_seq := ex_event_seq e + 1, ex_revision := ex_revision e + 1, ex_updated := t_now t\<rparr>) t))"

definition event_query :: "bytes \<Rightarrow> int \<Rightarrow> nat \<Rightarrow> fact_query" where
  "event_query stream after n =
     \<lparr>fq_stream = stream, fq_after = Some after, fq_limit = Some n, fq_subject = None, fq_latest = False,
      fq_latest_per_subject = False\<rparr>"

text \<open>A page of the largest size is followed by a look at the next event.\<close>

definition list_execution_events ::
  "repo \<Rightarrow> string \<Rightarrow> string \<Rightarrow> int \<Rightarrow> int \<Rightarrow> execution_txn \<Rightarrow> (event_record list \<times> string option) res" where
  "list_execution_events R x tenant after limit t =
     (if tenant \<noteq> rp_tenant R then Inr ([], None)
      else
        ensure (1 \<le> limit \<and> limit \<le> 1000) (ai PAGE_LIMIT_INVALID)
       (ensure (0 \<le> after) ValueError
         (let stream = execution_stream R x;
              values = list_facts (event_query stream after (min (nat limit + 1) 1000)) t;
              values = (if limit = 1000 \<and> length values = 1000
                        then values @ take 1 (list_facts (event_query stream (fact_sequence (last values)) 1) t)
                        else values) in
          ebind (emap (\<lambda>f. make_event_record
                    \<lparr>er_execution = x, er_seq = fact_sequence f, er_type = fact_kind f, er_payload = fact_data f\<rparr>)
                  (take (nat limit) values)) (\<lambda>items.
            Inr (items, if nat limit < length values \<and> items \<noteq> [] then Some (json_int (er_seq (last items))) else None)))))"

end
