(* ===== verification/Execution_Ops.thy ===== *)
theory Execution_Ops
  imports Execution_Repo
begin

text \<open>
  The transitions of an execution, from \<open>ai/persistence/_execution_repositories.py\<close>: its start under
  an idempotency key, the claims of its runs, waiting and cancellation, recovery, the commit of
  its end, and what keeps its record from being collected.
\<close>

section \<open>The common transition\<close>

text \<open>The arguments of \<open>_transition_execution\<close>; \<open>tq_task\<close> is \<open>task_state\<close>.\<close>

record transition_request =
  tq_execution :: string
  tq_revision :: int
  tq_event_seq :: int
  tq_expected :: "execution_status option"
  tq_next :: execution_status
  tq_event :: string
  tq_payload :: details
  tq_updated :: int
  tq_pending :: "event_append list"
  tq_task :: "(int \<times> int option \<times> int option \<times> string option \<times> details) option"
  tq_recovery :: "recovery_detail option"

definition task_updates ::
  "(int \<times> int option \<times> int option \<times> string option \<times> details) option \<Rightarrow> execution \<Rightarrow> execution res" where
  "task_updates v e =
     (case v of
        None \<Rightarrow> Inr e
      | Some (attempt, deadline, next, error, details) \<Rightarrow>
          ensure (\<not> agent_bound (ex_binding e)) (ai STORAGE_INTEGRITY_ERROR)
            (Inr (e\<lparr>ex_attempt := attempt, ex_deadline := deadline, ex_next_attempt := next, ex_error := error,
                    ex_details := details\<rparr>)))"

definition transition_events :: "transition_request \<Rightarrow> event_append list" where
  "transition_events q = tq_pending q @ [\<lparr>ea_type = tq_event q, ea_payload = tq_payload q\<rparr>]"

definition advanced :: "transition_request \<Rightarrow> execution \<Rightarrow> execution" where
  "advanced q e =
     (let n = int (length (transition_events q)) in
      e\<lparr>ex_status := tq_next q, ex_recovery := (if tq_recovery q = None then ex_recovery e else tq_recovery q),
        ex_revision := ex_revision e + n, ex_event_seq := ex_event_seq e + n, ex_updated := tq_updated q\<rparr>)"

definition transition_execution_txn :: "repo \<Rightarrow> transition_request \<Rightarrow> execution execution_action" where
  "transition_execution_txn R q t =
     ebind (load_execution (ai STORAGE_CONFLICT) R (tq_execution q) t) (\<lambda>(r, e).
     ensure (ex_revision e = tq_revision q \<and> ex_event_seq e = tq_event_seq q \<and>
             (case tq_expected q of None \<Rightarrow> True | Some s \<Rightarrow> ex_status e = s)) (ai STORAGE_CONFLICT)
    (ebind (task_updates (tq_task q) e) (\<lambda>u.
     ebind (write_execution R r (advanced q u) t) (\<lambda>(e', t1).
     ebind (put_events R (tq_execution q) (ex_event_seq e + 1) (transition_events q) t1) (\<lambda>(_, t2).
       Inr (e', t2))))))"

definition simple_transition ::
  "string \<Rightarrow> int \<Rightarrow> int \<Rightarrow> execution_status \<Rightarrow> string \<Rightarrow> details \<Rightarrow> int \<Rightarrow> transition_request" where
  "simple_transition x revision event_seq next event payload updated =
     \<lparr>tq_execution = x, tq_revision = revision, tq_event_seq = event_seq, tq_expected = None, tq_next = next,
      tq_event = event, tq_payload = payload, tq_updated = updated, tq_pending = [], tq_task = None,
      tq_recovery = None\<rparr>"

text \<open>\<open>ExecutionStartUnknownCommit\<close> carries the fields of a start claim.\<close>

definition mark_start_unknown_txn :: "repo \<Rightarrow> start_claim \<Rightarrow> execution execution_action" where
  "mark_start_unknown_txn R c =
     transition_execution_txn R (simple_transition (cl_execution c) (cl_revision c) (cl_event_seq c) START_UNKNOWN
       ''EXECUTION_START_UNKNOWN'' [] (cl_started c))"

definition request_cancel_txn ::
  "repo \<Rightarrow> cancel_request \<Rightarrow> execution_status option \<Rightarrow> event_append list \<Rightarrow> recovery_detail option \<Rightarrow>
    execution execution_action" where
  "request_cancel_txn R c expected pending recovery =
     transition_execution_txn R
       ((simple_transition (cn_execution c) (cn_revision c) (cn_event_seq c) CANCELLING ''CANCEL_REQUESTED''
           [(''operation_id'', JStr (cn_operation c))] (cn_requested c))
          \<lparr>tq_expected := expected, tq_pending := pending, tq_recovery := recovery\<rparr>)"

definition transition_task_txn :: "repo \<Rightarrow> transition_request \<Rightarrow> execution execution_action" where
  "transition_task_txn R q t =
     ensure (case tq_task q of None \<Rightarrow> False | Some (attempt, _) \<Rightarrow> 0 \<le> attempt) (ai REQUEST_FIELD_INVALID)
       (transition_execution_txn R q t)"

definition enter_wait_txn ::
  "repo \<Rightarrow> string \<Rightarrow> int \<Rightarrow> int \<Rightarrow> int \<Rightarrow> event_append list \<Rightarrow> event_append list \<Rightarrow> int \<Rightarrow>
    recovery_detail option \<Rightarrow> execution execution_action" where
  "enter_wait_txn R x revision event_seq run_seq audit deferred occurred recovery t =
     ensure (deferred \<noteq> [] \<and>
             list_all (\<lambda>v. ea_type v \<in> {''APPROVAL_REQUESTED'', ''EXTERNAL_REQUESTED''}) deferred) ValueError
    (ebind (get_execution R x t) (\<lambda>v.
     ensure (case v of
               None \<Rightarrow> False
             | Some e \<Rightarrow> ex_status e = STARTED \<and> ex_revision e = revision \<and> ex_event_seq e = event_seq \<and>
                 ex_run_seq e = run_seq) (ai STORAGE_CONFLICT)
    (ebind (transition_execution_txn R
             ((simple_transition x revision event_seq WAITING_DEFERRED (ea_type (last deferred))
                 (ea_payload (last deferred)) occurred)
                \<lparr>tq_expected := Some STARTED, tq_pending := audit @ butlast deferred, tq_recovery := recovery\<rparr>) t)
       (\<lambda>(e, t'). ensure (ex_run_seq e = run_seq) (ai STORAGE_INTEGRITY_ERROR) (Inr (e, t'))))))"

section \<open>Claims of a run\<close>

text \<open>A claim makes its caller the producer: the generation becomes the new revision.\<close>

definition taken_over :: "int \<Rightarrow> int \<Rightarrow> string option \<Rightarrow> recovery_detail option \<Rightarrow> execution \<Rightarrow> execution" where
  "taken_over now run_seq claim recovery e =
     e\<lparr>ex_run_seq := run_seq, ex_recovery := (if recovery = None then ex_recovery e else recovery),
       ex_generation := ex_revision e + 1, ex_claim := claim, ex_revision := ex_revision e + 1, ex_updated := now\<rparr>"

definition claim_run_txn ::
  "repo \<Rightarrow> execution_status \<Rightarrow> string \<Rightarrow> int \<Rightarrow> int option \<Rightarrow> int \<Rightarrow> string option \<Rightarrow> recovery_detail option \<Rightarrow>
    execution execution_action" where
  "claim_run_txn R status x revision event_seq run_seq claim recovery t =
     ebind (load_execution (ai STORAGE_NOT_FOUND) R x t) (\<lambda>(r, e).
     ensure (ex_status e = status \<and> ex_revision e = revision \<and>
             (case event_seq of None \<Rightarrow> True | Some n \<Rightarrow> ex_event_seq e = n) \<and> ex_run_seq e = run_seq \<and>
             ex_generation e < ex_revision e + 1) (ai STORAGE_CONFLICT)
       (write_execution R r ((taken_over (t_now t) (ex_run_seq e + 1) claim recovery e)\<lparr>ex_status := STARTED\<rparr>) t))"

definition claim_next_run_txn ::
  "repo \<Rightarrow> string \<Rightarrow> int \<Rightarrow> int \<Rightarrow> string option \<Rightarrow> recovery_detail option \<Rightarrow> execution execution_action" where
  "claim_next_run_txn R x revision run_seq claim recovery =
     claim_run_txn R STARTED x revision None run_seq claim recovery"

definition claim_resume_txn ::
  "repo \<Rightarrow> string \<Rightarrow> int \<Rightarrow> int \<Rightarrow> int \<Rightarrow> string option \<Rightarrow> recovery_detail option \<Rightarrow>
    execution execution_action" where
  "claim_resume_txn R x revision event_seq run_seq claim recovery =
     claim_run_txn R WAITING_DEFERRED x revision (Some event_seq) run_seq claim recovery"

text \<open>The first run with its input: two revisions in one write.\<close>

definition claim_prepared_txn ::
  "repo \<Rightarrow> string \<Rightarrow> int \<Rightarrow> int \<Rightarrow> payload_ref \<Rightarrow> string \<Rightarrow> recovery_detail option \<Rightarrow>
    observed_execution option \<Rightarrow> execution execution_action" where
  "claim_prepared_txn R x revision run_seq context claim recovery ob t =
     ebind (case ob of
              None \<Rightarrow> load_execution (ai STORAGE_NOT_FOUND) R x t
            | Some v \<Rightarrow> ensure (ex_id (ob_execution v) = x) (ai STORAGE_CONFLICT)
                (Inr (observed_row R v, ob_execution v))) (\<lambda>(r, e).
     ensure (ex_status e = STARTED \<and> ex_revision e = revision \<and> ex_run_seq e = run_seq \<and> run_seq = 0 \<and>
             ex_context e = None \<and> ex_generation e < ex_revision e + 1) (ai STORAGE_CONFLICT)
    (ebind (build_execution (taken_over (t_now t) 1 (Some claim) recovery e)) (\<lambda>admitted.
       write_execution R r (admitted\<lparr>ex_context := Some context, ex_revision := ex_revision admitted + 1\<rparr>) t)))"

section \<open>Recovery\<close>

text \<open>
  The receipt of a cancellation is admitted by the caller's operation, in the same group
  transaction, before the intent is published.
\<close>

definition recovery_cancel_txn ::
  "repo \<Rightarrow> execution \<Rightarrow> string \<Rightarrow> 'a execution_action \<Rightarrow> 'a execution_action" where
  "recovery_cancel_txn R e operation admit t =
     ebind (load_execution (ai STORAGE_NOT_FOUND) R (ex_id e) t) (\<lambda>(r, current).
     ensure (ex_status current = EX_RECOVERY_REQUIRED \<and> ex_revision current = ex_revision e \<and>
             ex_event_seq current = ex_event_seq e) (ai STORAGE_CONFLICT)
    (ebind (admit t) (\<lambda>(admitted, t1).
     ebind (write_execution R r
              (current\<lparr>ex_revision := ex_revision current + 1, ex_event_seq := ex_event_seq current + 1,
                       ex_updated := t_now t\<rparr>) t1) (\<lambda>(updated, t2).
     ebind (put_events R (ex_id e) (ex_event_seq updated)
              [\<lparr>ea_type = ''CANCEL_REQUESTED'', ea_payload = [(''operation_id'', JStr operation)]\<rparr>] t2) (\<lambda>(_, t3).
       Inr (admitted, t3))))))"

text \<open>The arguments of \<open>transition_recovery_in_transaction\<close> beyond the execution it expects.\<close>

record recovery_change =
  rg_next :: execution_status
  rg_event :: string
  rg_payload :: details
  rg_error :: "string option"
  rg_details :: details
  rg_audit :: "event_append list"
  rg_generation :: "int option"
  rg_run_seq :: "int option"
  rg_recovery :: "recovery_detail option"

definition resumed :: "recovery_change \<Rightarrow> bool" where
  "resumed q = (rg_event q = ''EXECUTION_RESUMED'')"

definition payload_claim :: "details \<Rightarrow> string option res" where
  "payload_claim payload =
     (case map_of payload ''producer_claim_id'' of
        None \<Rightarrow> Inl KeyError
      | Some JNull \<Rightarrow> Inr None
      | Some (JStr s) \<Rightarrow> Inr (Some s)
      | Some _ \<Rightarrow> Inl ValueError)"

definition transition_recovery_txn :: "repo \<Rightarrow> execution \<Rightarrow> recovery_change \<Rightarrow> execution execution_action" where
  "transition_recovery_txn R e q t =
     (let events = rg_audit q @ [\<lparr>ea_type = rg_event q, ea_payload = rg_payload q\<rparr>]; n = int (length events) in
      ebind (case rg_generation q of
               None \<Rightarrow> Inr t
             | Some generation \<Rightarrow> ebind (require_producer_txn R (ex_id e) generation True t) (\<lambda>(_, t'). Inr t')) (\<lambda>t1.
      ebind (load_execution (ai STORAGE_NOT_FOUND) R (ex_id e) t1) (\<lambda>(r, current).
      ensure (ex_revision current = ex_revision e \<and> ex_event_seq current = ex_event_seq e \<and>
              ex_status current = ex_status e) (ai STORAGE_CONFLICT)
     (ensure (case rg_run_seq q of None \<Rightarrow> True | Some s \<Rightarrow> resumed q \<and> s = ex_run_seq current + 1) (ai STORAGE_CONFLICT)
     (ensure (\<not> (resumed q \<and> ex_revision e + n \<le> ex_generation current)) (ai STORAGE_CONFLICT)
     (ebind (if resumed q then payload_claim (rg_payload q) else Inr (ex_claim current)) (\<lambda>claim.
      ebind (write_execution R r
               (current\<lparr>ex_status := rg_next q,
                        ex_generation := (if resumed q then ex_revision e + n else ex_generation current),
                        ex_claim := claim,
                        ex_run_seq := (case rg_run_seq q of None \<Rightarrow> ex_run_seq current | Some s \<Rightarrow> s),
                        ex_recovery := (if rg_recovery q = None then ex_recovery current else rg_recovery q),
                        ex_revision := ex_revision e + n, ex_event_seq := ex_event_seq e + n,
                        ex_error := rg_error q, ex_details := rg_details q, ex_diagnostics := None,
                        ex_updated := t_now t1\<rparr>) t1) (\<lambda>(updated, t2).
      ebind (put_events R (ex_id e) (ex_event_seq e + 1) events t2) (\<lambda>(_, t3). Inr (updated, t3))))))))))"

section \<open>Start under an idempotency key\<close>

definition read_idempotency :: "repo \<Rightarrow> string \<Rightarrow> string \<Rightarrow> execution_txn \<Rightarrow> (task_record \<times> idempotency) option res" where
  "read_idempotency R s k t =
     (case get_record t (idempotency_key R s k) of
        None \<Rightarrow> Inr None
      | Some r \<Rightarrow> ebind (decode_idempotency R r) (\<lambda>i. Inr (Some (r, i))))"

definition get_idempotency :: "repo \<Rightarrow> string \<Rightarrow> string \<Rightarrow> execution_txn \<Rightarrow> idempotency option res" where
  "get_idempotency R s k t = ebind (read_idempotency R s k t) (\<lambda>v. Inr (map_option snd v))"

definition reserve_idempotency_txn :: "repo \<Rightarrow> idempotency \<Rightarrow> unit execution_action" where
  "reserve_idempotency_txn R i t =
     ensure (id_kind i = EXECUTION) (ai STORAGE_INTEGRITY_ERROR) (insert_record (idempotency_row R i) t)"

text \<open>\<open>reserve\<close>: a conflict is settled by the record that is there.\<close>

definition reserve_idempotency ::
  "repo \<Rightarrow> int \<Rightarrow> idempotency \<Rightarrow> execution_store \<Rightarrow> idempotency res \<times> execution_store" where
  "reserve_idempotency R now i m =
     (case mem_mutate now (reserve_idempotency_txn R i) m of
        (Inr _, m') \<Rightarrow> (Inr i, m')
      | (Inl e, m') \<Rightarrow>
          (if exc_code e \<noteq> Some STORAGE_CONFLICT then Inl e
           else ebind (get_idempotency R (id_scope i) (id_key i) (begin_txn now m')) (\<lambda>v.
             case v of
               Some existing \<Rightarrow> ensure (same_idempotency existing i) (ai STORAGE_CONFLICT) (Inr existing)
             | None \<Rightarrow> Inl (ai STORAGE_CONFLICT)), m'))"

definition swap_idempotency_txn ::
  "repo \<Rightarrow> string \<Rightarrow> string \<Rightarrow> idempotency_status \<Rightarrow> idempotency \<Rightarrow> idempotency execution_action" where
  "swap_idempotency_txn R s k expected next t =
     ensure (id_kind next = EXECUTION) (ai STORAGE_INTEGRITY_ERROR)
    (ebind (read_idempotency R s k t) (\<lambda>v.
     ebind (of_option (ai STORAGE_CONFLICT) v) (\<lambda>(r, current).
     ensure (id_status current = expected) (ai STORAGE_CONFLICT)
    (ebind (projected_record R r (Idempotency next)) (\<lambda>candidate.
     ebind (replace_checked candidate (rec_revision r) t) (\<lambda>(_, t'). Inr (next, t')))))))"

definition resource_query :: "repo \<Rightarrow> string \<Rightarrow> record_query" where
  "resource_query R x =
     \<lparr>rq_scope = Some (repo_scope R ''idempotency'' ''resource'' (JList [JStr ''EXECUTION'', JStr x])),
      rq_parent = None, rq_kind = Some ''idempotency'', rq_states = None, rq_prefix = None, rq_after = None,
      rq_limit = None\<rparr>"

definition list_by_resource :: "repo \<Rightarrow> string \<Rightarrow> execution_txn \<Rightarrow> idempotency list res" where
  "list_by_resource R x t = emap (decode_idempotency R) (list_records (resource_query R x) t)"

definition get_terminal_idempotency :: "repo \<Rightarrow> string \<Rightarrow> execution_txn \<Rightarrow> idempotency option res" where
  "get_terminal_idempotency R x t =
     ebind (list_by_resource R x t) (\<lambda>values.
       ensure (length values \<le> 1) (ai STORAGE_INTEGRITY_ERROR)
         (Inr (case values of [] \<Rightarrow> None | v # _ \<Rightarrow> Some v)))"

text \<open>
  \<open>reserve_start\<close>: the first reservation of a key creates the execution; a later one gets the
  execution that won.  \<open>context_write\<close> publishes the prepared input context, in an archive of the
  same storage group.
\<close>

definition admit_budget :: "repo \<Rightarrow> start_reservation \<Rightarrow> unit execution_action" where
  "admit_budget R v t =
     (case ex_budget (sv_execution v) of
        None \<Rightarrow> Inr ((), t)
      | Some s \<Rightarrow>
          (case sv_budget v of
             None \<Rightarrow> ebind (read_budget R s t) (\<lambda>_. Inr ((), t))
           | Some limits \<Rightarrow> ebind (ensure_budget R s limits t) (\<lambda>(_, t'). Inr ((), t'))))"

definition winner :: "repo \<Rightarrow> start_reservation \<Rightarrow> idempotency \<Rightarrow> execution_txn \<Rightarrow> reservation_result res" where
  "winner R v existing t =
     ensure (same_identity existing (sv_idempotency v)) (ai IDEMPOTENCY_CONFLICT)
    (ebind (load_execution (ai STORAGE_INTEGRITY_ERROR) R (id_resource existing) t) (\<lambda>(_, e).
       Inr \<lparr>rv_execution = e, rv_idempotency = existing, rv_created = False\<rparr>))"

definition reserve_start_txn ::
  "repo \<Rightarrow> start_reservation \<Rightarrow> unit execution_action option \<Rightarrow> reservation_result execution_action" where
  "reserve_start_txn R v context_write t =
     (let e = sv_execution v; i = sv_idempotency v in
      ensure (id_kind i = EXECUTION) (ai STORAGE_INTEGRITY_ERROR)
     (ensure (\<not> (sv_budget v \<noteq> None \<and> ex_budget e \<noteq> Some (''execution:'' @ ex_id e))) (ai STORAGE_INTEGRITY_ERROR)
     (ebind (read_idempotency R (id_scope i) (id_key i) t) (\<lambda>existing.
      case existing of
        Some (_, existing) \<Rightarrow> ebind (winner R v existing t) (\<lambda>result. Inr (result, t))
      | None \<Rightarrow>
          ensure (get_record t (execution_key R (ex_id e)) = None) (ai STORAGE_INTEGRITY_ERROR)
         (ebind (build_execution e) (\<lambda>e.
          ebind (if ex_parent e = None then Inr t
                 else ebind (of_option (ai STORAGE_OWNER_MISMATCH) (sv_parent_generation v)) (\<lambda>generation.
                      ebind (guard_parent_txn R e generation t) (\<lambda>(_, t'). Inr t'))) (\<lambda>t1.
          ebind (admit_budget R v t1) (\<lambda>(_, t2).
          ebind (case context_write of None \<Rightarrow> Inr ((), t2) | Some write \<Rightarrow> write t2) (\<lambda>(_, t3).
          ebind (insert_records [execution_row R e, idempotency_row R i] t3) (\<lambda>(_, t4).
            Inr (\<lparr>rv_execution = e, rv_idempotency = i, rv_created = True\<rparr>, t4)))))))))))"

definition claimed_idempotency :: "start_claim \<Rightarrow> idempotency" where
  "claimed_idempotency c =
     \<lparr>id_scope = cl_scope c, id_key = cl_key c, id_request = cl_request c, id_kind = EXECUTION,
      id_resource = cl_execution c, id_status = ID_STARTED, id_result = None, id_error = None,
      id_created = cl_started c, id_updated = cl_started c\<rparr>"

definition started_execution :: "start_claim \<Rightarrow> execution \<Rightarrow> execution" where
  "started_execution c e =
     e\<lparr>ex_status := STARTED, ex_revision := ex_revision e + 1, ex_event_seq := ex_event_seq e + 1,
       ex_updated := cl_started c,
       ex_started := (if ex_started e = None then Some (cl_started c) else ex_started e),
       ex_recovery := (if ex_recovery e = None \<and> agent_bound (ex_binding e) then Some new_recovery
                       else ex_recovery e)\<rparr>"

definition claim_start_txn :: "repo \<Rightarrow> start_claim \<Rightarrow> execution execution_action" where
  "claim_start_txn R c t =
     ebind (load_execution (ai STORAGE_CONFLICT) R (cl_execution c) t) (\<lambda>(r, e).
     ensure (ex_revision e = cl_revision c \<and> ex_event_seq e = cl_event_seq c \<and> ex_status e = PENDING_START)
       (ai STORAGE_CONFLICT)
    (ebind (read_idempotency R (cl_scope c) (cl_key c) t) (\<lambda>existing.
     ebind (case existing of
              None \<Rightarrow>
                ebind (build_execution (started_execution c e)) (\<lambda>next.
                ebind (insert_records [idempotency_row R (claimed_idempotency c)] t) (\<lambda>(_, t1).
                  write_execution R r next t1))
            | Some (ir, i) \<Rightarrow>
                ensure (same_idempotency i (claimed_idempotency c) \<and> id_status i = RESERVED) (ai STORAGE_CONFLICT)
               (ebind (build_execution (started_execution c e)) (\<lambda>next.
                ebind (projected_record R r (Execution next)) (\<lambda>candidate.
                ebind (projected_record R ir
                         (Idempotency (i\<lparr>id_status := ID_STARTED, id_updated := cl_started c\<rparr>))) (\<lambda>candidate'.
                ebind (replace_all
                         [\<lparr>repl_record = candidate, repl_expected = rec_revision r\<rparr>,
                          \<lparr>repl_record = candidate', repl_expected = rec_revision ir\<rparr>] t) (\<lambda>(_, t1).
                  Inr (next, t1))))))) (\<lambda>(next, t1).
     ebind (put_events R (cl_execution c) (ex_event_seq next)
              [\<lparr>ea_type = ''EXECUTION_STARTED'', ea_payload = []\<rparr>] t1) (\<lambda>(_, t2). Inr (next, t2))))))"

section \<open>The end of an execution\<close>

definition output_digest :: "result_value \<Rightarrow> string option" where
  "output_digest r = map_option sp_digest (rs_output r)"

definition ended_idempotency :: "execution_status \<Rightarrow> idempotency_status" where
  "ended_idempotency s =
     (if s = EX_SUCCEEDED then COMPLETED else if s = EX_CANCELLED then ID_CANCELLED else ID_FAILED)"

definition terminal_idempotency ::
  "repo \<Rightarrow> terminal_commit \<Rightarrow> idempotency option \<Rightarrow> execution_txn \<Rightarrow> idempotency_update option res" where
  "terminal_idempotency R c ident t =
     (let x = ex_id (tm_execution c) in
      ebind (case ident of
               Some i \<Rightarrow> ensure (id_kind i = EXECUTION \<and> id_resource i = x) (ai STORAGE_INTEGRITY_ERROR) (Inr (Some i))
             | None \<Rightarrow>
                 let records = list_records (resource_query R x) t in
                 ensure (length records \<le> 1) (ai STORAGE_INTEGRITY_ERROR)
                   (case records of [] \<Rightarrow> Inr None | r # _ \<Rightarrow> ebind (decode_idempotency R r) (\<lambda>i. Inr (Some i)))) (\<lambda>v.
        Inr (map_option (\<lambda>i.
          \<lparr>iu_scope = id_scope i, iu_key = id_key i, iu_expected = id_status i,
           iu_next = ended_idempotency (ex_status (tm_execution c)), iu_request = id_request i,
           iu_result = output_digest (tm_result c), iu_error = ex_error (tm_execution c)\<rparr>) v)))"

text \<open>What \<open>_commit_terminal\<close> compares of the stored execution with the one committed.\<close>

definition commit_fits :: "terminal_commit \<Rightarrow> execution \<Rightarrow> bool" where
  "commit_fits c e =
     (ex_revision e = tm_revision c \<and> ex_event_seq e = tm_event_seq c \<and>
      ex_restart e = ex_restart (tm_execution c) \<and> ex_trace e = ex_trace (tm_execution c) \<and>
      ex_generation e = ex_generation (tm_execution c) \<and> ex_claim e = ex_claim (tm_execution c) \<and>
      (case tm_generation c of None \<Rightarrow> True | Some g \<Rightarrow> ex_generation e = g))"

definition committed_idempotency ::
  "repo \<Rightarrow> string \<Rightarrow> idempotency_update \<Rightarrow> execution_txn \<Rightarrow> domain_value record_replacement res" where
  "committed_idempotency R x u t =
     ebind (read_idempotency R (iu_scope u) (iu_key u) t) (\<lambda>v.
     ebind (of_option (ai STORAGE_INTEGRITY_ERROR) v) (\<lambda>(r, i).
     ensure (id_kind i = EXECUTION \<and> id_resource i = x \<and> id_scope i = iu_scope u \<and> id_key i = iu_key u \<and>
             id_request i = iu_request u) (ai STORAGE_INTEGRITY_ERROR)
    (ensure (id_status i = iu_expected u) (ai EXECUTION_RESULT_CONFLICT)
    (ebind (projected_record R r
              (Idempotency (i\<lparr>id_status := iu_next u, id_request := iu_request u, id_result := iu_result u,
                             id_error := iu_error u, id_updated := t_now t\<rparr>))) (\<lambda>candidate.
       Inr \<lparr>repl_record = candidate, repl_expected = rec_revision r\<rparr>)))))"

definition committed_operation ::
  "repo \<Rightarrow> operation_update \<Rightarrow> execution_txn \<Rightarrow> op_input stored_operation res" where
  "committed_operation R u t =
     ebind (of_option (ai STORAGE_INTEGRITY_ERROR)
              (get_operation t (operation_key (rp_sha R) (rp_ns R) (rp_tenant R) (rp_domain R) (JStr (ou_id u)))))
       (\<lambda>current.
         ensure (oi_status (decode_operation current) = ou_expected u) (ai EXECUTION_RESULT_CONFLICT)
           (Inr (stored_from_operation
             ((decode_operation current)\<lparr>oi_status := ou_next u, oi_result_ref := ou_result_ref u,
                 oi_result_digest := ou_result u, oi_error := ou_error u, oi_updated := t_now t\<rparr>) current)))"

definition commit_terminal_txn ::
  "repo \<Rightarrow> terminal_commit \<Rightarrow> event_append list \<Rightarrow> terminal_result execution_action" where
  "commit_terminal_txn R c pending t =
     (let x = ex_id (tm_execution c);
          events = pending @ [\<lparr>ea_type = tm_event c, ea_payload = tm_payload c\<rparr>];
          n = int (length events) in
      ebind (make_commit c) (\<lambda>_.
      ebind (load_execution (ai EXECUTION_RESULT_CONFLICT) R x t) (\<lambda>(r, e).
      ensure (commit_fits c e) (ai EXECUTION_RESULT_CONFLICT)
     (ebind (case tm_idempotency c of
               None \<Rightarrow> Inr []
             | Some u \<Rightarrow> ebind (committed_idempotency R x u t) (\<lambda>p. Inr [p])) (\<lambda>ps.
      ebind (case tm_operation c of
               None \<Rightarrow> Inr None
             | Some u \<Rightarrow> ebind (committed_operation R u t) (\<lambda>v. Inr (Some (u, v)))) (\<lambda>operation.
      ebind (build_execution ((tm_execution c)\<lparr>ex_revision := ex_revision e + n, ex_event_seq := ex_event_seq e + n,
               ex_result := Some (tm_result c)\<rparr>)) (\<lambda>next.
      ebind (projected_record R r (Execution next)) (\<lambda>candidate.
      ebind (replace_all (\<lparr>repl_record = candidate, repl_expected = rec_revision r\<rparr> # ps) t) (\<lambda>(_, t1).
      ebind (put_events R x (ex_event_seq e + 1) events t1) (\<lambda>(_, t2).
      ebind (case operation of
               None \<Rightarrow> Inr t2
             | Some (u, v) \<Rightarrow>
                 ebind (replace_operation v (op_status_value (ou_expected u)) t2) (\<lambda>(ok, t').
                   ensure ok (ai EXECUTION_RESULT_CONFLICT) (Inr t'))) (\<lambda>t3.
        Inr (\<lparr>tv_execution = next, tv_result = tm_result c\<rparr>, t3))))))))))))"

definition commit_closed_terminal_txn ::
  "repo \<Rightarrow> terminal_commit \<Rightarrow> event_append list \<Rightarrow> terminal_result execution_action" where
  "commit_closed_terminal_txn R c pending t =
     ensure (\<not> ex_trace (tm_execution c)) (ai STORAGE_INTEGRITY_ERROR) (commit_terminal_txn R c pending t)"

section \<open>A turn that was pending\<close>

text \<open>
  An execution that ran before its reservation was stored is inserted with its end.  The replay
  reads the execution from the store, \<open>outside\<close>, not from the transaction.
\<close>

definition pending_turn_result ::
  "repo \<Rightarrow> start_reservation \<Rightarrow> execution_txn \<Rightarrow> execution_txn \<Rightarrow> terminal_result option res" where
  "pending_turn_result R v outside t =
     (let i = sv_idempotency v in
      ebind (read_idempotency R (id_scope i) (id_key i) t) (\<lambda>stored.
      case stored of
        None \<Rightarrow> Inr None
      | Some (_, current) \<Rightarrow>
          ensure (same_identity current i) (ai IDEMPOTENCY_CONFLICT)
         (ebind (get_execution R (id_resource current) outside) (\<lambda>execution.
          case execution of
            None \<Rightarrow> Inl (ai EXECUTION_RESULT_CONFLICT)
          | Some e \<Rightarrow>
              (case ex_result e of
                 None \<Rightarrow> Inl (ai EXECUTION_RESULT_CONFLICT)
               | Some result \<Rightarrow>
                   ensure (ended (ex_status e) \<and> id_status current = ended_idempotency (ex_status e) \<and>
                           ex_trace e = ex_trace (sv_execution v) \<and> (ex_seal e \<noteq> None) = ex_trace e \<and>
                           (rs_output result \<noteq> None) = (ex_status e = EX_SUCCEEDED) \<and>
                           id_result current = output_digest result \<and> id_error current = ex_error e)
                     (ai EXECUTION_RESULT_CONFLICT)
                     (Inr (Some \<lparr>tv_execution = e, tv_result = result\<rparr>)))))))"

definition same_admission :: "execution \<Rightarrow> execution \<Rightarrow> bool" where
  "same_admission a b =
     (ex_session a = ex_session b \<and> binding_digest (ex_binding a) = binding_digest (ex_binding b) \<and>
      ex_principal a = ex_principal b \<and> ex_principal_kind a = ex_principal_kind b \<and> ex_input a = ex_input b \<and>
      ex_binding a = ex_binding b \<and> ex_parent a = ex_parent b \<and> ex_parent_call a = ex_parent_call b \<and>
      ex_root a = ex_root b \<and> ex_previous a = ex_previous b \<and> ex_fork_base a = ex_fork_base b \<and>
      ex_lineage a = ex_lineage b \<and> ex_created a = ex_created b \<and> ex_mode a = ex_mode b \<and>
      ex_planning a = ex_planning b \<and> ex_thinking a = ex_thinking b \<and> ex_memory a = ex_memory b \<and>
      ex_instructions a = ex_instructions b \<and> ex_imported a = ex_imported b \<and>
      ex_correlation a = ex_correlation b \<and> ex_capture a = ex_capture b \<and> ex_budget a = ex_budget b \<and>
      ex_restart a = ex_restart b \<and> ex_trace a = ex_trace b \<and> ex_effects a = ex_effects b \<and>
      ex_conversation a = ex_conversation b)"

definition ended_event :: "execution_status \<Rightarrow> string" where
  "ended_event s =
     (if s = EX_SUCCEEDED then ''EXECUTION_SUCCEEDED'' else if s = EX_FAILED then ''EXECUTION_FAILED''
      else ''EXECUTION_CANCELLED'')"

definition audit_types :: "string set" where
  "audit_types =
     {''MODEL_REQUEST_STARTED'', ''MODEL_REQUEST_FINISHED'', ''ASSISTANT_PART_COMPLETED'', ''TOOL_CALL_STARTED'',
      ''TOOL_CALL_FINISHED''}"

definition insert_pending_turn_txn ::
  "repo \<Rightarrow> start_reservation \<Rightarrow> terminal_commit \<Rightarrow> event_append list \<Rightarrow>
    (terminal_result \<times> task_record) execution_action" where
  "insert_pending_turn_txn R v c audit t =
     (let a = sv_execution v; e = tm_execution c; i = sv_idempotency v; x = ex_id a;
          events = \<lparr>ea_type = ''EXECUTION_STARTED'', ea_payload = []\<rparr> # audit @
                   [\<lparr>ea_type = tm_event c, ea_payload = tm_payload c\<rparr>] in
      ebind (make_commit c) (\<lambda>_.
      ensure (id_kind i = EXECUTION) (ai STORAGE_INTEGRITY_ERROR)
     (ensure (ex_conversation a \<and> ex_conversation e \<and> ex_id e = x \<and> id_resource i = x \<and> id_status i = RESERVED \<and>
              ended (ex_status e) \<and> tm_event c = ended_event (ex_status e) \<and> tm_operation c = None \<and>
              (rs_output (tm_result c) \<noteq> None) = (ex_status e = EX_SUCCEEDED)) (ai STORAGE_INTEGRITY_ERROR)
     (ensure (same_admission a e) (ai STORAGE_INTEGRITY_ERROR)
     (ensure (list_all (\<lambda>w. ea_type w \<in> audit_types) audit) (ai STORAGE_INTEGRITY_ERROR)
     (ebind (build_execution (e\<lparr>ex_result := Some (tm_result c), ex_event_seq := int (length events),
               ex_closed := True, ex_revision := tm_revision c + int (length audit) + 1\<rparr>)) (\<lambda>final.
      ebind (insert_records
               [execution_row R final,
                idempotency_row R (i\<lparr>id_status := ended_idempotency (ex_status e),
                  id_result := output_digest (tm_result c), id_error := ex_error e, id_updated := t_now t\<rparr>)] t)
        (\<lambda>(_, t1).
      ebind (put_events R x 1 events t1) (\<lambda>(_, t2).
        Inr ((\<lparr>tv_execution = final, tv_result = tm_result c\<rparr>, execution_row R final), t2))))))))))"

section \<open>Retention\<close>

definition acquire_hold_txn :: "repo \<Rightarrow> string \<Rightarrow> string \<Rightarrow> bool execution_action" where
  "acquire_hold_txn R x hold t =
     ensure (\<not> blank hold) (ai REQUEST_FIELD_INVALID)
    (ebind (load_execution (ai STORAGE_NOT_FOUND) R x t) (\<lambda>(r, e).
     ensure (\<not> ex_closed e) (ai STORAGE_CONFLICT)
       (if hold \<in> set (ex_holds e) then Inr (False, t)
        else ebind (write_execution R r
                      (e\<lparr>ex_holds := sort (ex_holds e @ [hold]), ex_revision := ex_revision e + 1,
                         ex_updated := t_now t\<rparr>) t) (\<lambda>(_, t'). Inr (True, t')))))"

definition release_hold_txn :: "repo \<Rightarrow> string \<Rightarrow> string \<Rightarrow> execution execution_action" where
  "release_hold_txn R x hold t =
     ensure (\<not> blank hold) (ai REQUEST_FIELD_INVALID)
    (ebind (load_execution (ai STORAGE_NOT_FOUND) R x t) (\<lambda>(r, e).
       if hold \<notin> set (ex_holds e) then Inr (e, t)
       else write_execution R r
              (e\<lparr>ex_holds := filter (\<lambda>h. h \<noteq> hold) (ex_holds e), ex_revision := ex_revision e + 1,
                 ex_updated := t_now t\<rparr>) t))"

definition close_retention_txn ::
  "repo \<Rightarrow> string \<Rightarrow> observed_execution option \<Rightarrow> (bool \<times> execution option) execution_action" where
  "close_retention_txn R x ob t =
     ebind (case ob of
              None \<Rightarrow> read_execution R x t
            | Some v \<Rightarrow> ensure (ex_id (ob_execution v) = x) (ai STORAGE_CONFLICT)
                (Inr (Some (observed_row R v, ob_execution v)))) (\<lambda>v.
     case v of
       None \<Rightarrow> Inr ((True, None), t)
     | Some (r, e) \<Rightarrow>
         if \<not> ended (ex_status e) \<or> ex_holds e \<noteq> [] \<or> recovery_state_of e = Some Handoff
         then Inr ((False, Some e), t)
         else if ex_closed e then Inr ((True, Some e), t)
         else ebind (write_execution R r
                       (e\<lparr>ex_closed := True, ex_revision := ex_revision e + 1, ex_updated := t_now t\<rparr>) t)
                (\<lambda>(next, t'). Inr ((True, Some next), t')))"

section \<open>History seals\<close>

definition get_seal :: "repo \<Rightarrow> string \<Rightarrow> execution_txn \<Rightarrow> history_seal option res" where
  "get_seal R x t =
     (case get_record t (seal_key R x) of
        None \<Rightarrow> Inr None
      | Some r \<Rightarrow>
          ensure (rec_kind r = ''execution_history_seal'') (ai STORAGE_INTEGRITY_ERROR)
         (ebind (decode_seal r) (\<lambda>s.
          ensure (hs_execution s = x) (ai STORAGE_INTEGRITY_ERROR) (Inr (Some s)))))"

definition put_seal_txn :: "repo \<Rightarrow> history_seal \<Rightarrow> history_seal execution_action" where
  "put_seal_txn R s t =
     (case get_record t (seal_key R (hs_execution s)) of
        Some r \<Rightarrow>
          ebind (decode_seal r) (\<lambda>existing. ensure (existing = s) (ai STORAGE_INTEGRITY_ERROR) (Inr (existing, t)))
      | None \<Rightarrow>
          ebind (insert_record (project_record R ''execution_history_seal'' (JStr (hs_execution s)) (History_seal s)
                   None None None) t) (\<lambda>(_, t'). Inr (s, t')))"

end
