(* ===== verification/Execution_Facts.thy ===== *)
theory Execution_Facts
  imports Execution_Ops
begin

text \<open>
  What the operations on executions keep.  \<open>exec_at\<close> and \<open>idem_at\<close> read the store as a table of
  executions and of idempotency records.  \<open>rows_ok\<close> says that each of these records is the
  projection of the value under whose key it lies; \<open>tables_evolve\<close> what a write may change: an
  execution changes only with a higher revision, its generation never falls and belongs to one
  producer, no event is lost, and an idempotency record keeps its identity and its execution.
  \<open>balanced R x n\<close> says that every log is numbered up to the event number of its execution, and
  that of \<open>x\<close> up to \<open>n\<close>: between the write of the execution and that of its events the two differ.
\<close>

section \<open>The tables\<close>

definition exec_at :: "repo \<Rightarrow> string \<Rightarrow> execution_txn \<Rightarrow> execution option" where
  "exec_at R x t =
     (case get_record t (execution_key R x) of
        None \<Rightarrow> None
      | Some r \<Rightarrow> (case rec_data r of Execution e \<Rightarrow> Some e | _ \<Rightarrow> None))"

definition idem_at :: "repo \<Rightarrow> string \<Rightarrow> string \<Rightarrow> execution_txn \<Rightarrow> idempotency option" where
  "idem_at R s k t =
     (case get_record t (idempotency_key R s k) of
        None \<Rightarrow> None
      | Some r \<Rightarrow> (case rec_data r of Idempotency i \<Rightarrow> Some i | _ \<Rightarrow> None))"

definition row_ok :: "repo \<Rightarrow> bytes \<Rightarrow> task_record \<Rightarrow> bool" where
  "row_ok R key r =
     ((\<forall>x. key = execution_key R x \<longrightarrow>
         (\<exists>e n. r = (execution_row R e)\<lparr>rec_revision := n\<rparr> \<and> ex_id e = x \<and> build_execution e = Inr e)) \<and>
      (\<forall>s k. key = idempotency_key R s k \<longrightarrow>
         (\<exists>i n. r = (idempotency_row R i)\<lparr>rec_revision := n\<rparr> \<and> id_scope i = s \<and> id_key i = k)))"

definition rows_ok :: "repo \<Rightarrow> execution_txn \<Rightarrow> bool" where
  "rows_ok R t = (\<forall>key r. get_record t key = Some r \<longrightarrow> row_ok R key r)"

definition seq_at :: "repo \<Rightarrow> string \<Rightarrow> execution_txn \<Rightarrow> int" where
  "seq_at R x t = (case exec_at R x t of None \<Rightarrow> 0 | Some e \<Rightarrow> ex_event_seq e)"

definition log_numbered :: "repo \<Rightarrow> string \<Rightarrow> int \<Rightarrow> execution_txn \<Rightarrow> bool" where
  "log_numbered R x n t = (\<forall>i. get_fact t (execution_stream R x) i \<noteq> None \<longleftrightarrow> 1 \<le> i \<and> i \<le> n)"

definition balanced :: "repo \<Rightarrow> string \<Rightarrow> int \<Rightarrow> execution_txn \<Rightarrow> bool" where
  "balanced R x n t =
     (0 \<le> n \<and> log_numbered R x n t \<and> (\<forall>y. y \<noteq> x \<longrightarrow> 0 \<le> seq_at R y t \<and> log_numbered R y (seq_at R y t) t))"

definition executions_ok :: "repo \<Rightarrow> execution_txn \<Rightarrow> bool" where
  "executions_ok R t = (txn_ok t \<and> rows_ok R t \<and> (\<forall>x. balanced R x (seq_at R x t) t))"

definition succeeds :: "execution \<Rightarrow> execution \<Rightarrow> bool" where
  "succeeds e e' =
     (e' = e \<or>
      ex_revision e < ex_revision e' \<and> ex_generation e \<le> ex_generation e' \<and>
      (ex_generation e' = ex_generation e \<longrightarrow> ex_claim e' = ex_claim e) \<and> ex_event_seq e \<le> ex_event_seq e')"

definition tables_evolve :: "repo \<Rightarrow> execution_txn \<Rightarrow> execution_txn \<Rightarrow> bool" where
  "tables_evolve R t t' =
     ((\<forall>m. txn_over m t \<longrightarrow> txn_over m t') \<and> (txn_ok t \<longrightarrow> txn_ok t') \<and> (rows_ok R t \<longrightarrow> rows_ok R t') \<and>
      (\<forall>x e. exec_at R x t = Some e \<longrightarrow> (\<exists>e'. exec_at R x t' = Some e' \<and> succeeds e e')) \<and>
      (\<forall>s n f. get_fact t s n = Some f \<longrightarrow> get_fact t' s n = Some f) \<and>
      (\<forall>s k i. idem_at R s k t = Some i \<longrightarrow> (\<exists>i'. idem_at R s k t' = Some i' \<and> same_idempotency i' i)))"

lemma same_idempotency_refl [simp]: "same_idempotency i i"
  by (simp add: same_idempotency_def same_identity_def)

lemma same_idempotency_trans: "same_idempotency i j \<Longrightarrow> same_idempotency j k \<Longrightarrow> same_idempotency i k"
  by (simp add: same_idempotency_def same_identity_def)

lemma succeeds_refl [simp]: "succeeds e e"
  by (simp add: succeeds_def)

lemma succeedsI:
  "ex_revision e < ex_revision e' \<Longrightarrow> ex_generation e \<le> ex_generation e' \<Longrightarrow>
    (ex_generation e' = ex_generation e \<Longrightarrow> ex_claim e' = ex_claim e) \<Longrightarrow> ex_event_seq e \<le> ex_event_seq e' \<Longrightarrow>
    succeeds e e'"
  by (simp add: succeeds_def)

lemma succeeds_trans: "succeeds e e' \<Longrightarrow> succeeds e' e'' \<Longrightarrow> succeeds e e''"
  by (auto simp: succeeds_def)

lemma tables_evolve_refl [simp]: "tables_evolve R t t"
  by (simp add: tables_evolve_def)

lemma tables_evolve_trans: "tables_evolve R t t1 \<Longrightarrow> tables_evolve R t1 t2 \<Longrightarrow> tables_evolve R t t2"
  unfolding tables_evolve_def by (meson same_idempotency_trans succeeds_trans)

lemma execution_keys [simp]:
  assumes "collision_free (rp_sha R)"
  shows "execution_key R x = execution_key R y \<longleftrightarrow> x = y"
    and "idempotency_key R s k = idempotency_key R s' k' \<longleftrightarrow> s = s' \<and> k = k'"
    and "execution_key R x \<noteq> idempotency_key R s k" and "idempotency_key R s k \<noteq> execution_key R x"
    and "execution_stream R x = execution_stream R y \<longleftrightarrow> x = y"
    and "budget_key R b \<noteq> execution_key R x" and "budget_key R b \<noteq> idempotency_key R s k"
    and "seal_key R b \<noteq> execution_key R x" and "seal_key R b \<noteq> idempotency_key R s k"
  using assms by (simp_all add: execution_key_def idempotency_key_def execution_stream_def budget_key_def
      seal_key_def repo_key_def)

text \<open>The tables depend on the records of their keys alone.\<close>

lemma exec_at_cong: "get_record t' (execution_key R x) = get_record t (execution_key R x) \<Longrightarrow> exec_at R x t' = exec_at R x t"
  by (simp add: exec_at_def)

lemma idem_at_cong: "get_record t' (idempotency_key R s k) = get_record t (idempotency_key R s k) \<Longrightarrow> idem_at R s k t' = idem_at R s k t"
  by (simp add: idem_at_def)

lemma row_data [simp]:
  "rec_data (execution_row R e) = Execution e" "rec_key (execution_row R e) = execution_key R (ex_id e)"
  "rec_kind (execution_row R e) = ''execution''" "rec_revision (execution_row R e) = 0"
  "rec_data (idempotency_row R i) = Idempotency i" "rec_kind (idempotency_row R i) = ''idempotency''"
  "rec_key (idempotency_row R i) = idempotency_key R (id_scope i) (id_key i)" "rec_revision (idempotency_row R i) = 0"
  by (simp_all add: execution_row_def idempotency_row_def project_record_def Let_def execution_key_def
      idempotency_key_def split: prod.split)

lemma rows_execution:
  assumes "rows_ok R t" and "get_record t (execution_key R x) = Some r"
  obtains e where "r = (execution_row R e)\<lparr>rec_revision := rec_revision r\<rparr>" "rec_data r = Execution e" "ex_id e = x"
    "build_execution e = Inr e" "exec_at R x t = Some e" "decode_execution R r = Inr e" "decode_any_execution r = Inr e"
    "rec_kind r = ''execution''"
proof -
  from assms have "row_ok R (execution_key R x) r" unfolding rows_ok_def by blast
  then obtain e n where r: "r = (execution_row R e)\<lparr>rec_revision := n\<rparr>" "ex_id e = x" "build_execution e = Inr e"
    unfolding row_ok_def by blast
  show ?thesis
  proof (rule that [of e])
    show "r = (execution_row R e)\<lparr>rec_revision := rec_revision r\<rparr>" using r(1) by simp
    show "exec_at R x t = Some e" by (simp add: exec_at_def assms(2) r(1))
    show "decode_any_execution r = Inr e" by (simp add: decode_any_execution_def r integrity_def)
    then show "decode_execution R r = Inr e" using r(2) by (simp add: decode_execution_def r(1) execution_key_def)
  qed (simp_all add: r)
qed

lemma rows_idempotency:
  assumes "rows_ok R t" and "get_record t (idempotency_key R s k) = Some r"
  obtains i where "r = (idempotency_row R i)\<lparr>rec_revision := rec_revision r\<rparr>" "rec_data r = Idempotency i"
    "id_scope i = s" "id_key i = k" "idem_at R s k t = Some i" "decode_idempotency R r = Inr i"
proof -
  from assms have "row_ok R (idempotency_key R s k) r" unfolding rows_ok_def by blast
  then obtain i n where r: "r = (idempotency_row R i)\<lparr>rec_revision := n\<rparr>" "id_scope i = s" "id_key i = k"
    unfolding row_ok_def by blast
  show ?thesis
  proof (rule that [of i])
    show "r = (idempotency_row R i)\<lparr>rec_revision := rec_revision r\<rparr>" using r(1) by simp
    show "idem_at R s k t = Some i" by (simp add: idem_at_def assms(2) r(1))
    show "decode_idempotency R r = Inr i" using r(2,3) by (simp add: decode_idempotency_def r(1) idempotency_key_def)
  qed (simp_all add: r)
qed

lemma read_execution_eq:
  assumes "rows_ok R t"
  shows "read_execution R x t =
    Inr (case get_record t (execution_key R x) of None \<Rightarrow> None | Some r \<Rightarrow> map_option (Pair r) (exec_at R x t))"
  using assms by (cases "get_record t (execution_key R x)")
    (auto simp: read_execution_def elim!: rows_execution)

lemma load_execution_Inr:
  assumes "rows_ok R t"
  shows "load_execution err R x t = Inr (r, e) \<longleftrightarrow> get_record t (execution_key R x) = Some r \<and> exec_at R x t = Some e"
  using assms by (cases "get_record t (execution_key R x)")
    (auto simp: load_execution_def read_execution_eq eres elim!: rows_execution)

lemma read_idempotency_eq:
  assumes "rows_ok R t"
  shows "read_idempotency R s k t =
    Inr (case get_record t (idempotency_key R s k) of None \<Rightarrow> None | Some r \<Rightarrow> map_option (Pair r) (idem_at R s k t))"
  using assms by (cases "get_record t (idempotency_key R s k)")
    (auto simp: read_idempotency_def elim!: rows_idempotency)

lemma exec_at_id: "rows_ok R t \<Longrightarrow> exec_at R x t = Some e \<Longrightarrow> ex_id e = x"
  by (cases "get_record t (execution_key R x)") (auto simp: exec_at_def elim: rows_execution)

lemma exec_at_None: "rows_ok R t \<Longrightarrow> exec_at R x t = None \<longleftrightarrow> get_record t (execution_key R x) = None"
  by (cases "get_record t (execution_key R x)") (auto simp: exec_at_def elim: rows_execution)

section \<open>Writes of rows\<close>

lemma put_execution:
  assumes "collision_free (rp_sha R)" and "ex_id e = x" and "build_execution e = Inr e"
    and "t' = put_record (execution_key R x) ((execution_row R e)\<lparr>rec_revision := n\<rparr>) t"
  shows "exec_at R y t' = (if y = x then Some e else exec_at R y t)"
    and "idem_at R s k t' = idem_at R s k t" and "t_facts t' = t_facts t"
    and "rows_ok R t \<Longrightarrow> rows_ok R t'" and "txn_ok t \<Longrightarrow> txn_ok t'"
    and "txn_over m t \<Longrightarrow> txn_over m t'"
proof -
  let ?r = "(execution_row R e)\<lparr>rec_revision := n\<rparr>"
  note g = get_record_put [of "execution_key R x" ?r t, folded assms(4)]
  show "exec_at R y t' = (if y = x then Some e else exec_at R y t)"
    by (simp add: exec_at_def g assms(1))
  show "idem_at R s k t' = idem_at R s k t" by (simp add: idem_at_def g assms(1))
  show "t_facts t' = t_facts t" by (simp add: assms(4))
  show "txn_ok t \<Longrightarrow> txn_ok t'" using assms(2,4) by (simp add: txn_ok_put)
  show "txn_over m t \<Longrightarrow> txn_over m t'" by (simp add: assms(4))
  have "row_ok R (execution_key R x) ?r"
    using assms(1-3) by (auto simp: row_ok_def)
  then show "rows_ok R t \<Longrightarrow> rows_ok R t'" by (simp add: rows_ok_def g)
qed

lemma put_idempotency:
  assumes "collision_free (rp_sha R)" and "id_scope i = s" and "id_key i = k"
    and "t' = put_record (idempotency_key R s k) ((idempotency_row R i)\<lparr>rec_revision := n\<rparr>) t"
  shows "exec_at R y t' = exec_at R y t"
    and "idem_at R s' k' t' = (if s' = s \<and> k' = k then Some i else idem_at R s' k' t)"
    and "t_facts t' = t_facts t" and "rows_ok R t \<Longrightarrow> rows_ok R t'" and "txn_ok t \<Longrightarrow> txn_ok t'"
    and "txn_over m t \<Longrightarrow> txn_over m t'"
proof -
  let ?r = "(idempotency_row R i)\<lparr>rec_revision := n\<rparr>"
  note g = get_record_put [of "idempotency_key R s k" ?r t, folded assms(4)]
  show "exec_at R y t' = exec_at R y t" by (simp add: exec_at_def g assms(1))
  show "idem_at R s' k' t' = (if s' = s \<and> k' = k then Some i else idem_at R s' k' t)"
    by (simp add: idem_at_def g assms(1))
  show "t_facts t' = t_facts t" by (simp add: assms(4))
  show "txn_ok t \<Longrightarrow> txn_ok t'" using assms(2-4) by (simp add: txn_ok_put)
  show "txn_over m t \<Longrightarrow> txn_over m t'" by (simp add: assms(4))
  have "row_ok R (idempotency_key R s k) ?r"
    using assms(1-3) by (auto simp: row_ok_def)
  then show "rows_ok R t \<Longrightarrow> rows_ok R t'" by (simp add: rows_ok_def g)
qed

text \<open>A write that leaves the tables and the facts alone.\<close>

definition unseen :: "repo \<Rightarrow> execution_txn \<Rightarrow> execution_txn \<Rightarrow> bool" where
  "unseen R t t' =
     ((\<forall>m. txn_over m t \<longrightarrow> txn_over m t') \<and> (txn_ok t \<longrightarrow> txn_ok t') \<and> (rows_ok R t \<longrightarrow> rows_ok R t') \<and>
      (\<forall>x. exec_at R x t' = exec_at R x t) \<and> (\<forall>s k. idem_at R s k t' = idem_at R s k t) \<and>
      t_facts t' = t_facts t \<and> t_now t' = t_now t)"

lemma unseen_tables: "unseen R t t' \<Longrightarrow> tables_evolve R t t'"
  by (auto simp: unseen_def tables_evolve_def get_fact_def)

lemma unseen_refl [simp]: "unseen R t t"
  by (simp add: unseen_def)

lemma unseen_trans: "unseen R t t1 \<Longrightarrow> unseen R t1 t2 \<Longrightarrow> unseen R t t2"
  by (simp add: unseen_def)

lemma balanced_cong:
  "(\<And>y. y \<noteq> x \<Longrightarrow> exec_at R y t' = exec_at R y t) \<Longrightarrow> t_facts t' = t_facts t \<Longrightarrow> balanced R x n t' = balanced R x n t"
  by (simp add: balanced_def seq_at_def log_numbered_def get_fact_def)

lemma unseen_ok: "unseen R t t' \<Longrightarrow> executions_ok R t \<Longrightarrow> executions_ok R t'"
proof -
  assume u: "unseen R t t'" and ok: "executions_ok R t"
  then have "balanced R x n t' = balanced R x n t" for x n by (intro balanced_cong) (simp_all add: unseen_def)
  with u ok show ?thesis by (simp add: executions_ok_def seq_at_def unseen_def)
qed

lemma put_elsewhere:
  assumes "\<And>x. rec_key r \<noteq> execution_key R x" and "\<And>s k. rec_key r \<noteq> idempotency_key R s k"
  shows "unseen R t (put_record (rec_key r) r t)"
proof -
  have row: "row_ok R (rec_key r) r" using assms by (simp add: row_ok_def)
  have "exec_at R x (put_record (rec_key r) r t) = exec_at R x t" for x
    using assms(1) [of x] by (intro exec_at_cong) (simp add: get_record_put)
  moreover have "idem_at R s k (put_record (rec_key r) r t) = idem_at R s k t" for s k
    using assms(2) [of s k] by (intro idem_at_cong) (simp add: get_record_put)
  moreover have "rows_ok R t \<Longrightarrow> rows_ok R (put_record (rec_key r) r t)"
    using row by (simp add: rows_ok_def get_record_put)
  ultimately show ?thesis by (simp add: unseen_def txn_ok_put)
qed

text \<open>A guard raises the storage revision of a row and nothing that is read.\<close>

lemma row_ok_revision: "row_ok R key r \<Longrightarrow> row_ok R key (r\<lparr>rec_revision := n\<rparr>)"
  unfolding row_ok_def by fastforce

lemma guard_unseen:
  assumes "guard_record k n t = Inr (Some q, t')" and "txn_ok t"
  shows "unseen R t t'"
  using assms(1)
proof (cases rule: guard_record_eq)
  case (fresh c)
  let ?t = "put_record k (c\<lparr>rec_revision := n + 1\<rparr>) t"
  have "exec_at R x ?t = exec_at R x t" for x by (simp add: exec_at_def get_record_put fresh(2))
  moreover have "idem_at R s i ?t = idem_at R s i t" for s i by (simp add: idem_at_def get_record_put fresh(2))
  moreover have "rows_ok R t \<Longrightarrow> rows_ok R ?t"
    using fresh(2) row_ok_revision by (simp add: rows_ok_def get_record_put)
  moreover have "txn_ok ?t" using txn_ok_guard [OF assms] fresh by simp
  ultimately show ?thesis using fresh(4,5) by (simp add: unseen_def)
qed simp

lemma write_execution_effect:
  assumes "write_execution R r e t = Inr (e', t')" and "rec_kind r = ''execution''"
  shows "e' = e" and "build_execution e = Inr e"
    and "t' = put_record (execution_key R (ex_id e)) ((execution_row R e)\<lparr>rec_revision := rec_revision r + 1\<rparr>) t"
    and "\<exists>c. get_record t (execution_key R (ex_id e)) = Some c \<and> rec_revision c = rec_revision r"
proof -
  from assms(1) obtain e1 c u where b: "build_execution e = Inr e1" and c: "projected_record R r (Execution e1) = Inr c"
    and w: "replace_checked c (rec_revision r) t = Inr (u, t')" and e': "e' = e1"
    by (auto simp: write_execution_def eres)
  have e1: "e1 = e" using b by (auto simp: build_execution_def eres)
  have c': "c = (execution_row R e)\<lparr>rec_revision := rec_revision r + 1\<rparr>"
    using c assms(2) e1 by (auto simp: projected_record_def execution_row_def project_record_def Let_def)
  have k: "rec_key c = execution_key R (ex_id e)" by (simp add: c')
  have "replace_record c (rec_revision r) t = Inr (True, t')" using w by (auto simp: replace_checked_def eres)
  then have "t' = put_record (rec_key c) c t" "\<exists>d. get_record t (rec_key c) = Some d \<and> rec_revision d = rec_revision r"
    by (auto simp: replace_record_True)
  then show "t' = put_record (execution_key R (ex_id e)) ((execution_row R e)\<lparr>rec_revision := rec_revision r + 1\<rparr>) t"
      "\<exists>c. get_record t (execution_key R (ex_id e)) = Some c \<and> rec_revision c = rec_revision r"
    by (simp_all only: k) (simp only: c')
  show "e' = e" "build_execution e = Inr e" using b e' e1 by simp_all
qed


section \<open>Events\<close>

definition event_at :: "repo \<Rightarrow> string \<Rightarrow> int \<Rightarrow> event_append \<Rightarrow> details stored_fact" where
  "event_at R x n v =
     \<lparr>fact_stream = execution_stream R x, fact_sequence = n, fact_owner = execution_key R x, fact_kind = ea_type v,
      fact_subject = None, fact_state = None, fact_data = ea_payload v\<rparr>"

lemma number_from_simps [simp]:
  "number_from n [] = []" "number_from n (v # vs) = (n, v) # number_from (n + 1) vs"
  by (simp_all add: number_from_def upto_rec1 algebra_simps)

lemma number_from_nth: "i < length vs \<Longrightarrow> number_from n vs ! i = (n + int i, vs ! i)"
  by (simp add: number_from_def)

lemma number_from_length [simp]: "length (number_from n vs) = length vs"
  by (simp add: number_from_def)

lemma put_events_Nil [simp]: "put_events R x n [] t = Inr (u, t') \<longleftrightarrow> t' = t"
  by (simp add: put_events_def)

lemma put_events_Cons:
  "put_events R x n (v # vs) t = Inr (u, t') \<longleftrightarrow>
    0 \<le> n \<and> ea_type v \<noteq> [] \<and> length (ea_type v) \<le> 32 \<and>
    (\<exists>t1. insert_fact (event_at R x n v) t = Inr ((), t1) \<and> put_events R x (n + 1) vs t1 = Inr (u, t'))"
  by (auto simp: put_events_def eres event_row_def event_at_def insert_facts_Cons)

lemma put_events_frame:
  assumes "put_events R x n vs t = Inr (u, t')"
  shows "get_record t' = get_record t" and "txn_over m t \<Longrightarrow> txn_over m t'" and "txn_ok t \<Longrightarrow> txn_ok t'"
    and "t_now t' = t_now t" and "t_operations t' = t_operations t"
proof -
  have "get_record t' = get_record t \<and> (txn_over m t \<longrightarrow> txn_over m t') \<and> (txn_ok t \<longrightarrow> txn_ok t') \<and> t_now t' = t_now t \<and>
      t_operations t' = t_operations t"
    using assms
  proof (induction vs arbitrary: n t)
    case (Cons v vs)
    then obtain t1 where t1: "insert_fact (event_at R x n v) t = Inr ((), t1)" "put_events R x (n + 1) vs t1 = Inr (u, t')"
      by (auto simp: put_events_Cons)
    have "get_record t1 = get_record t \<and> (txn_over m t \<longrightarrow> txn_over m t1) \<and> t_now t1 = t_now t \<and> t_operations t1 = t_operations t"
      using t1(1) by (auto simp: insert_fact_eq get_record_def txn_over_def)
    with Cons.IH [OF t1(2)] txn_ok_insert_fact [OF t1(1)] show ?case by simp
  qed simp
  then show "get_record t' = get_record t" "txn_over m t \<Longrightarrow> txn_over m t'" "txn_ok t \<Longrightarrow> txn_ok t'" "t_now t' = t_now t"
      "t_operations t' = t_operations t"
    by simp_all
qed

lemma put_events_facts:
  assumes "put_events R x n vs t = Inr (u, t')"
  shows "get_fact t' s i =
    (if s = execution_stream R x \<and> n \<le> i \<and> i < n + int (length vs) then Some (event_at R x i (vs ! nat (i - n)))
     else get_fact t s i)"
  using assms
proof (induction vs arbitrary: n t)
  case (Cons v vs)
  then obtain t1 where t1: "insert_fact (event_at R x n v) t = Inr ((), t1)" "put_events R x (n + 1) vs t1 = Inr (u, t')"
    by (auto simp: put_events_Cons)
  have "get_fact t1 s i = (if s = execution_stream R x \<and> i = n then Some (event_at R x n v) else get_fact t s i)"
    using t1(1) by (auto simp: insert_fact_eq get_fact_def fact_key_def event_at_def)
  moreover have "(v # vs) ! nat (i - n) = (if i = n then v else vs ! nat (i - (n + 1)))" if "n \<le> i"
    using that by (auto simp: nth_Cons' intro!: arg_cong [of _ _ "(!) vs"])
  ultimately show ?case using Cons.IH [OF t1(2)] by (auto simp: event_at_def)
next
  case Nil
  then have "t' = t" by simp
  then show ?case by auto
qed

lemma put_events_absent:
  assumes "put_events R x n vs t = Inr (u, t')" and "n \<le> i" and "i < n + int (length vs)"
  shows "get_fact t (execution_stream R x) i = None"
  using assms
proof (induction vs arbitrary: n t)
  case (Cons v vs)
  then obtain t1 where t1: "insert_fact (event_at R x n v) t = Inr ((), t1)" "put_events R x (n + 1) vs t1 = Inr (u, t')"
    by (auto simp: put_events_Cons)
  show ?case
  proof (cases "i = n")
    case True
    with t1(1) show ?thesis by (simp add: insert_fact_eq event_at_def)
  next
    case False
    with Cons.prems have "get_fact t1 (execution_stream R x) i = None" by (intro Cons.IH [OF t1(2)]) simp_all
    with False t1(1) show ?thesis by (simp add: insert_fact_eq get_fact_def event_at_def fact_key_def split: if_splits)
  qed
qed simp

text \<open>Appending after the last event of a balanced log keeps it balanced.\<close>

lemma put_events_balanced:
  assumes "put_events R x (n + 1) vs t = Inr (u, t')" and "balanced R x n t" and "collision_free (rp_sha R)"
  shows "balanced R x (n + int (length vs)) t'"
proof -
  have e: "exec_at R y t' = exec_at R y t" for y
    by (rule exec_at_cong) (simp add: put_events_frame(1) [OF assms(1)])
  note f = put_events_facts [OF assms(1)]
  have "log_numbered R x (n + int (length vs)) t'"
    using assms(2) unfolding balanced_def log_numbered_def f by auto
  moreover have "log_numbered R y k t' = log_numbered R y k t" if "y \<noteq> x" for y k
    using that assms(3) by (simp add: log_numbered_def f)
  ultimately show ?thesis using assms(2) by (simp add: balanced_def seq_at_def e)
qed

lemma put_events_tables:
  assumes "put_events R x n vs t = Inr (u, t')"
  shows "tables_evolve R t t'"
proof -
  note g = put_events_frame(1) [OF assms]
  have "get_fact t' s i = Some f" if "get_fact t s i = Some f" for s i f
    using put_events_facts [OF assms, of s i] put_events_absent [OF assms, of i] that
    by (cases "s = execution_stream R x \<and> n \<le> i \<and> i < n + int (length vs)") (auto simp del: put_events_Nil)
  with put_events_frame(2,3) [OF assms] show ?thesis
    by (simp add: tables_evolve_def rows_ok_def exec_at_def idem_at_def g)
qed

section \<open>A step of one execution\<close>

text \<open>The execution \<open>x\<close> becomes \<open>e\<close>; idempotency records may move on.\<close>

definition moved :: "repo \<Rightarrow> string \<Rightarrow> execution \<Rightarrow> execution_txn \<Rightarrow> execution_txn \<Rightarrow> bool" where
  "moved R x e t t' =
     ((\<forall>m. txn_over m t \<longrightarrow> txn_over m t') \<and> (txn_ok t \<longrightarrow> txn_ok t') \<and> (rows_ok R t \<longrightarrow> rows_ok R t') \<and>
      (\<forall>y. exec_at R y t' = (if y = x then Some e else exec_at R y t)) \<and> t_facts t' = t_facts t \<and>
      (\<forall>s k i. idem_at R s k t = Some i \<longrightarrow> (\<exists>i'. idem_at R s k t' = Some i' \<and> same_idempotency i' i)))"

lemma moved_put:
  assumes "collision_free (rp_sha R)" and "ex_id e = x" and "build_execution e = Inr e"
  shows "moved R x e t (put_record (execution_key R x) ((execution_row R e)\<lparr>rec_revision := n\<rparr>) t)"
  using put_execution [OF assms refl] by (simp add: moved_def)

lemma moved_unseen: "unseen R t t1 \<Longrightarrow> moved R x e t1 t' \<Longrightarrow> moved R x e t t'"
  by (simp add: unseen_def moved_def)

lemma moved_after:
  assumes "tables_evolve R t t0" and "\<And>y. exec_at R y t0 = exec_at R y t" and "t_facts t0 = t_facts t" and m: "moved R x e t0 t1"
  shows "moved R x e t t1"
proof -
  have "\<exists>v. idem_at R s k t1 = Some v \<and> same_idempotency v i" if i: "idem_at R s k t = Some i" for s k i
  proof -
    from assms(1) i obtain v where v: "idem_at R s k t0 = Some v" "same_idempotency v i" unfolding tables_evolve_def by blast
    with m obtain w where "idem_at R s k t1 = Some w" "same_idempotency w v" unfolding moved_def by blast
    with v(2) show ?thesis by (blast intro: same_idempotency_trans)
  qed
  with assms show ?thesis by (simp add: moved_def tables_evolve_def)
qed

lemma moved_unseen': "moved R x e t t1 \<Longrightarrow> unseen R t1 t' \<Longrightarrow> moved R x e t t'"
  by (simp add: unseen_def moved_def)

lemma moved_put_idempotency:
  assumes "moved R x e t t1" and "collision_free (rp_sha R)" and "id_scope i = s" and "id_key i = k"
    and "\<And>j. idem_at R s k t1 = Some j \<Longrightarrow> same_idempotency i j"
  shows "moved R x e t (put_record (idempotency_key R s k) ((idempotency_row R i)\<lparr>rec_revision := n\<rparr>) t1)"
proof -
  let ?t = "put_record (idempotency_key R s k) ((idempotency_row R i)\<lparr>rec_revision := n\<rparr>) t1"
  note p = put_idempotency [OF assms(2-4) refl, where t = t1 and n = n]
  have "\<exists>v. idem_at R s' k' ?t = Some v \<and> same_idempotency v w" if w: "idem_at R s' k' t = Some w" for s' k' w
  proof -
    from assms(1) w obtain v where v: "idem_at R s' k' t1 = Some v" "same_idempotency v w" unfolding moved_def by blast
    show ?thesis
    proof (cases "s' = s \<and> k' = k")
      case True
      with v assms(5) [of v] show ?thesis by (simp add: p(2)) (blast intro: same_idempotency_trans)
    next
      case False
      with v show ?thesis by (auto simp: p(2))
    qed
  qed
  with assms(1) p(1,3-6) show ?thesis by (simp add: moved_def)
qed

lemma moved_tables:
  assumes "moved R x e t t'" and "\<And>old. exec_at R x t = Some old \<Longrightarrow> succeeds old e"
  shows "tables_evolve R t t'"
  using assms by (auto simp: moved_def tables_evolve_def get_fact_def)

lemma step_events:
  assumes m: "moved R x e t t1" and p: "put_events R x (seq_at R x t + 1) vs t1 = Inr (u, t2)"
    and ok: "executions_ok R t" and cf: "collision_free (rp_sha R)"
    and old: "\<And>old. exec_at R x t = Some old \<Longrightarrow> succeeds old e"
    and seq: "ex_event_seq e = seq_at R x t + int (length vs)"
  shows "executions_ok R t2" and "tables_evolve R t t2" and "exec_at R x t2 = Some e"
proof -
  have ev: "tables_evolve R t t1" using moved_tables [OF m old] .
  show "tables_evolve R t t2" using tables_evolve_trans [OF ev put_events_tables [OF p]] .
  have e: "exec_at R y t2 = (if y = x then Some e else exec_at R y t)" for y
    using m exec_at_cong [of t2 R y t1] by (simp add: put_events_frame(1) [OF p] moved_def)
  then show "exec_at R x t2 = Some e" by simp
  have "balanced R x (seq_at R x t) t1 = balanced R x (seq_at R x t) t"
    using m by (intro balanced_cong) (simp_all add: moved_def)
  with ok have b: "balanced R x (ex_event_seq e) t2"
    unfolding seq by (intro put_events_balanced [OF p _ cf]) (simp add: executions_ok_def)
  have "balanced R y (seq_at R y t2) t2" for y
    using b e by (cases "y = x") (auto simp: balanced_def seq_at_def)
  with ok m put_events_frame(3) [OF p] show "executions_ok R t2"
    by (simp add: executions_ok_def moved_def rows_ok_def put_events_frame(1) [OF p])
qed

lemma step_quiet:
  assumes "moved R x e t t'" and "executions_ok R t" and "collision_free (rp_sha R)"
    and "\<And>old. exec_at R x t = Some old \<Longrightarrow> succeeds old e" and "ex_event_seq e = seq_at R x t"
  shows "executions_ok R t'" and "tables_evolve R t t'" and "exec_at R x t' = Some e"
  using step_events [OF assms(1) _ assms(2-4), of "[]" "()"] assms(5) by simp_all

end
