(* ===== verification/Execution_Sound.thy ===== *)
theory Execution_Sound
  imports Execution_Facts
begin

text \<open>
  Each operation on executions keeps \<open>executions_ok\<close> and only lets the tables evolve; \<open>sound\<close> is
  the two together, with what the operation made of its execution.
\<close>

definition sound :: "repo \<Rightarrow> execution_txn \<Rightarrow> execution_txn \<Rightarrow> bool" where
  "sound R t t' = (executions_ok R t' \<and> tables_evolve R t t')"

lemma executions_sound_refl [simp]: "executions_ok R t \<Longrightarrow> sound R t t"
  by (simp add: sound_def)

lemma executions_sound_trans: "sound R t t1 \<Longrightarrow> sound R t1 t2 \<Longrightarrow> sound R t t2"
  by (auto simp: sound_def intro: tables_evolve_trans)

lemma sound_unseen: "unseen R t t' \<Longrightarrow> executions_ok R t \<Longrightarrow> sound R t t'"
  by (simp add: sound_def unseen_ok unseen_tables)

lemma executions_okD:
  assumes "executions_ok R t"
  shows "txn_ok t" and "rows_ok R t" and "balanced R x (seq_at R x t) t"
  using assms by (simp_all add: executions_ok_def)

lemma seq_at_Some: "exec_at R x t = Some e \<Longrightarrow> seq_at R x t = ex_event_seq e"
  by (simp add: seq_at_def)

section \<open>Read, write, append\<close>

lemma load_Inr:
  assumes "load_execution err R x t = Inr (r, e)" and "rows_ok R t"
  shows "get_record t (execution_key R x) = Some r" and "exec_at R x t = Some e" and "ex_id e = x"
    and "rec_kind r = ''execution''" and "build_execution e = Inr e"
proof -
  show g: "get_record t (execution_key R x) = Some r" and e: "exec_at R x t = Some e"
    using assms by (simp_all add: load_execution_Inr)
  from assms(2) g obtain f where f: "r = (execution_row R f)\<lparr>rec_revision := rec_revision r\<rparr>" "ex_id f = x"
      "build_execution f = Inr f" "exec_at R x t = Some f" "rec_kind r = ''execution''"
    by (rule rows_execution)
  with e show "ex_id e = x" "rec_kind r = ''execution''" "build_execution e = Inr e" by simp_all
qed

lemma write_moved:
  assumes w: "write_execution R r e t = Inr (e', t')" and k: "rec_kind r = ''execution''" and "ex_id e = x"
    and cf: "collision_free (rp_sha R)"
  shows "moved R x e t t'" and "e' = e"
  using write_execution_effect [OF w k] moved_put [OF cf assms(3)] assms(3) by simp_all

lemma rewrite_sound:
  assumes l: "load_execution err R x t = Inr (r, old)" and w: "write_execution R r e t = Inr (e', t1)"
    and p: "put_events R x (ex_event_seq old + 1) vs t1 = Inr (u, t2)"
    and ok: "executions_ok R t" and cf: "collision_free (rp_sha R)"
    and e: "ex_id e = ex_id old" "succeeds old e" "ex_event_seq e = ex_event_seq old + int (length vs)"
  shows "sound R t t2" and "exec_at R x t2 = Some e" and "e' = e"
proof -
  note r = load_Inr [OF l executions_okD(2) [OF ok]]
  note m = write_moved [OF w r(4) _ cf, of x]
  note s = seq_at_Some [OF r(2)]
  show "e' = e" using m(2) e(1) r(3) by simp
  have "moved R x e t t1" using m(1) e(1) r(3) by simp
  from step_events [OF this p [folded s] ok cf] e r(2) s
  show "sound R t t2" "exec_at R x t2 = Some e" by (simp_all add: sound_def)
qed

lemma write_sound:
  assumes "load_execution err R x t = Inr (r, old)" and "write_execution R r e t = Inr (e', t')"
    and "executions_ok R t" and "collision_free (rp_sha R)" and "ex_id e = ex_id old" and "succeeds old e"
    and "ex_event_seq e = ex_event_seq old"
  shows "sound R t t'" and "exec_at R x t' = Some e" and "e' = e"
  using rewrite_sound [OF assms(1,2) _ assms(3-6), of "[]" "()"] assms(7) by simp_all

section \<open>Guards\<close>

lemma guard_execution_unseen: "guard_execution k r t = Inr (g, t') \<Longrightarrow> txn_ok t \<Longrightarrow> unseen R t t'"
  by (auto simp: guard_execution_def eres intro: guard_unseen)

lemma require_producer_Inr:
  assumes "require_producer_txn R x generation allow t = Inr ((e, g), t')" and ok: "executions_ok R t"
  shows "unseen R t t'" and "exec_at R x t = Some e" and "ex_generation e = generation"
    and "ex_status e \<in> (if allow then {STARTED, CANCELLING, FINALIZING} else {STARTED})" and "1 \<le> generation"
proof -
  from assms obtain r where l: "load_execution (ai STORAGE_INTEGRITY_ERROR) R x t = Inr (r, e)"
    and "ex_generation e = generation" "ex_status e \<in> (if allow then {STARTED, CANCELLING, FINALIZING} else {STARTED})"
      "1 \<le> generation"
    and g: "guard_execution (execution_key R x) r t = Inr (g, t')"
    by (auto simp: require_producer_txn_def eres)
  then show "exec_at R x t = Some e" "ex_generation e = generation"
      "ex_status e \<in> (if allow then {STARTED, CANCELLING, FINALIZING} else {STARTED})" "1 \<le> generation"
    using load_Inr [OF l executions_okD(2) [OF ok]] by simp_all
  show "unseen R t t'" using guard_execution_unseen [OF g executions_okD(1) [OF ok]] .
qed

lemma history_write_unseen: "require_history_write_txn R x t = Inr (v, t') \<Longrightarrow> executions_ok R t \<Longrightarrow> unseen R t t'"
  by (auto simp: require_history_write_txn_def eres intro: guard_execution_unseen dest: executions_okD(1))

lemma guard_recovery_unseen: "guard_recovery_txn R e t = Inr (u, t') \<Longrightarrow> executions_ok R t \<Longrightarrow> unseen R t t'"
  by (auto simp: guard_recovery_txn_def eres intro: guard_execution_unseen dest: executions_okD(1))

lemma guard_parent_unseen: "guard_parent_txn R e generation t = Inr (u, t') \<Longrightarrow> executions_ok R t \<Longrightarrow> unseen R t t'"
  by (auto simp: guard_parent_txn_def eres dest: require_producer_Inr(1))

section \<open>Compare and set\<close>

text \<open>What the callers of a compare-and-set leave alone.\<close>

definition keeps_control :: "execution \<Rightarrow> execution \<Rightarrow> bool" where
  "keeps_control e e' =
     (ex_event_seq e' = ex_event_seq e \<and> ex_generation e' = ex_generation e \<and> ex_claim e' = ex_claim e)"

lemma swap_execution_Inr:
  assumes run: "swap_execution_txn R x expected e t = Inr (v, t')" and ok: "executions_ok R t"
    and cf: "collision_free (rp_sha R)"
    and control: "\<And>old. exec_at R x t = Some old \<Longrightarrow> ex_revision old = expected \<Longrightarrow> keeps_control old e"
  shows "sound R t t'" and "exec_at R x t' = Some e" and "v = e"
    and "\<exists>old. exec_at R x t = Some old \<and> ex_revision old = expected" and "ex_revision e = expected + 1"
proof -
  from run obtain r old where l: "load_execution (ai STORAGE_NOT_FOUND) R x t = Inr (r, old)"
    and c: "ex_revision old = expected" "ex_id e = x" "ex_revision e = expected + 1"
    and w: "write_execution R r e t = Inr (v, t')"
    by (auto simp: swap_execution_txn_def eres)
  note r = load_Inr [OF l executions_okD(2) [OF ok]]
  have k: "keeps_control old e" using control r(2) c(1) .
  then have s: "succeeds old e" using c by (simp add: succeeds_def keeps_control_def)
  from write_sound [OF l w ok cf _ s] k c(2) r(3)
  show "sound R t t'" "exec_at R x t' = Some e" "v = e" by (simp_all add: keeps_control_def)
  show "\<exists>old. exec_at R x t = Some old \<and> ex_revision old = expected" "ex_revision e = expected + 1"
    using r(2) c by simp_all
qed

text \<open>A receipt that was confirmed: a row of its storage revision holds its execution.\<close>

definition confirmed :: "repo \<Rightarrow> observed_execution \<Rightarrow> execution_txn \<Rightarrow> bool" where
  "confirmed R ob t =
     (\<forall>r. get_record t (execution_key R (ex_id (ob_execution ob))) = Some r \<and> rec_revision r = ob_revision ob \<longrightarrow>
        rec_data r = Execution (ob_execution ob))"

lemma confirmed_exec:
  "confirmed R ob t \<Longrightarrow> get_record t (execution_key R (ex_id (ob_execution ob))) = Some r \<Longrightarrow>
    rec_revision r = ob_revision ob \<Longrightarrow> exec_at R (ex_id (ob_execution ob)) t = Some (ob_execution ob)"
  by (simp add: confirmed_def exec_at_def)

lemma observed_write:
  assumes w: "write_execution R (observed_row R ob) e t = Inr (e', t')" and ok: "executions_ok R t"
    and cf: "collision_free (rp_sha R)" and c: "confirmed R ob t"
    and e: "ex_id e = ex_id (ob_execution ob)" "succeeds (ob_execution ob) e"
      "ex_event_seq e = ex_event_seq (ob_execution ob)"
  shows "sound R t t'" and "exec_at R (ex_id e) t' = Some e" and "e' = e"
    and "exec_at R (ex_id e) t = Some (ob_execution ob)"
proof -
  have k: "rec_kind (observed_row R ob) = ''execution''" "rec_revision (observed_row R ob) = ob_revision ob"
    by (simp_all add: observed_row_def)
  note w' = write_execution_effect [OF w k(1)]
  have m: "moved R (ex_id e) e t t'" "e' = e" using write_moved [OF w k(1) refl cf] .
  have x: "exec_at R (ex_id e) t = Some (ob_execution ob)"
    using w'(4) confirmed_exec [OF c] e(1) by (auto simp: k(2))
  from step_quiet [OF m(1) ok cf] e x m(2) seq_at_Some [OF x]
  show "sound R t t'" "exec_at R (ex_id e) t' = Some e" "e' = e" "exec_at R (ex_id e) t = Some (ob_execution ob)"
    by (simp_all add: sound_def)
qed

lemma commit_boundary_write:
  assumes run: "commit_boundary_txn R ob e generation claim t = Inr (v, t')" and ne: "e \<noteq> ob_execution ob"
  shows "write_execution R (observed_row R ob) e t = Inr (e, t')"
proof -
  from run ne obtain e1 u where b: "build_execution e = Inr e1" and
    w: "replace_checked ((execution_row R e1)\<lparr>rec_revision := ob_revision ob + 1\<rparr>) (ob_revision ob) t = Inr (u, t')"
    by (auto simp: commit_boundary_txn_def Let_def eres)
  have e1: "e1 = e" using b by (auto simp: build_execution_def eres)
  have p: "projected_record R (observed_row R ob) (Execution e) =
      Inr ((execution_row R e)\<lparr>rec_revision := ob_revision ob + 1\<rparr>)"
    by (simp add: projected_record_def observed_row_def execution_row_def project_record_def Let_def)
  show ?thesis using b w by (simp add: write_execution_def e1 p) (simp add: observed_row_def)
qed

lemma commit_boundary_sound:
  assumes run: "commit_boundary_txn R ob e generation claim t = Inr (v, t')" and ok: "executions_ok R t"
    and cf: "collision_free (rp_sha R)" and c: "confirmed R ob t"
    and seq: "ex_event_seq e = ex_event_seq (ob_execution ob)"
  shows "sound R t t'"
proof (cases "e = ob_execution ob")
  case True
  with run have g: "guard_record_revision (execution_key R (ex_id e)) (ob_revision ob) t =
      Inr (Some (ob_revision ob + 1), t')"
    by (auto simp: commit_boundary_txn_def Let_def eres)
  then have "\<exists>q. guard_record (execution_key R (ex_id e)) (ob_revision ob) t = Inr (Some q, t')"
    by (auto simp: guard_record_def guard_record_revision_def eres get_record_put split: option.splits if_splits)
  then show ?thesis using guard_unseen executions_okD(1) [OF ok] sound_unseen [OF _ ok] by blast
next
  case False
  from run False have i: "ex_id e = ex_id (ob_execution ob)" "ex_generation e = ex_generation (ob_execution ob)"
      "ex_claim e = ex_claim (ob_execution ob)" "ex_revision e = ex_revision (ob_execution ob) + 1"
    by (auto simp: commit_boundary_txn_def Let_def eres)
  from observed_write(1) [OF commit_boundary_write [OF run False] ok cf c] i seq show ?thesis
    by (simp add: succeeds_def)
qed

section \<open>Events and transitions\<close>

lemma append_events_Inr:
  assumes run: "append_events_txn R x events expected t = Inr (records, t')" and ok: "executions_ok R t"
    and cf: "collision_free (rp_sha R)" and ne: "events \<noteq> []"
  obtains old where "exec_at R x t = Some old" "sound R t t'"
    "exec_at R x t' = Some (old\<lparr>ex_event_seq := ex_event_seq old + int (length events),
       ex_revision := ex_revision old + int (length events), ex_updated := t_now t\<rparr>)"
proof -
  from run ne obtain r old v t1 u where g: "get_record t (execution_key R x) = Some r" and
    d: "decode_any_execution r = Inr old" and
    w: "write_execution R r (old\<lparr>ex_event_seq := ex_event_seq old + int (length events),
       ex_revision := ex_revision old + int (length events), ex_updated := t_now t\<rparr>) t = Inr (v, t1)" and
    p: "put_events R x (ex_event_seq old + 1) events t1 = Inr (u, t')"
    by (auto simp: append_events_txn_def eres)
  have rows: "rows_ok R t" using executions_okD(2) [OF ok] .
  have e: "exec_at R x t = Some old"
    using rows g by (rule rows_execution) (use d in simp)
  then have l: "load_execution (ai STORAGE_NOT_FOUND) R x t = Inr (r, old)" using g by (simp add: load_execution_Inr [OF rows])
  from rewrite_sound [OF l w p ok cf] ne e show ?thesis by (intro that) (simp_all add: succeeds_def)
qed

lemma append_events_sound:
  assumes "append_events_txn R x events expected t = Inr (records, t')" and "executions_ok R t"
    and "collision_free (rp_sha R)"
  shows "sound R t t'"
proof (cases "events = []")
  case True
  with assms show ?thesis by (simp add: append_events_txn_def)
next
  case False
  from append_events_Inr [OF assms False] show ?thesis by blast
qed

lemma task_updates_Inr:
  assumes "task_updates v e = Inr u"
  shows "ex_id u = ex_id e" and "ex_revision u = ex_revision e" and "ex_event_seq u = ex_event_seq e"
    and "ex_generation u = ex_generation e" and "ex_claim u = ex_claim e" and "ex_run_seq u = ex_run_seq e"
  using assms by (auto simp: task_updates_def eres split: option.splits)

lemma transition_execution_Inr:
  assumes run: "transition_execution_txn R q t = Inr (e, t')" and ok: "executions_ok R t"
    and cf: "collision_free (rp_sha R)"
  obtains old u where "exec_at R (tq_execution q) t = Some old" "task_updates (tq_task q) old = Inr u"
    "ex_revision old = tq_revision q" "ex_event_seq old = tq_event_seq q"
    "\<forall>s. tq_expected q = Some s \<longrightarrow> ex_status old = s" "e = advanced q u" "sound R t t'"
    "exec_at R (tq_execution q) t' = Some e"
proof -
  from run obtain r old u t1 x where l: "load_execution (ai STORAGE_CONFLICT) R (tq_execution q) t = Inr (r, old)" and
    c: "ex_revision old = tq_revision q" "ex_event_seq old = tq_event_seq q"
      "case tq_expected q of None \<Rightarrow> True | Some s \<Rightarrow> ex_status old = s" and
    u: "task_updates (tq_task q) old = Inr u" and
    w: "write_execution R r (advanced q u) t = Inr (e, t1)" and
    p: "put_events R (tq_execution q) (ex_event_seq old + 1) (transition_events q) t1 = Inr (x, t')"
    by (auto simp: transition_execution_txn_def eres)
  note t = task_updates_Inr [OF u]
  have s: "succeeds old (advanced q u)" "ex_id (advanced q u) = ex_id old"
      "ex_event_seq (advanced q u) = ex_event_seq old + int (length (transition_events q))"
    using t by (simp_all add: succeeds_def advanced_def Let_def transition_events_def)
  note s' = rewrite_sound [OF l w p ok cf s(2,1,3)]
  show ?thesis
    by (rule that [of old u])
      (use s' load_Inr(2) [OF l executions_okD(2) [OF ok]] c u in \<open>auto split: option.splits\<close>)
qed

lemma transition_execution_sound:
  "transition_execution_txn R q t = Inr (e, t') \<Longrightarrow> executions_ok R t \<Longrightarrow> collision_free (rp_sha R) \<Longrightarrow> sound R t t'"
  by (erule (2) transition_execution_Inr)

lemma enter_wait_sound:
  assumes "enter_wait_txn R x revision event_seq run_seq audit deferred occurred recovery t = Inr (e, t')"
    and "executions_ok R t" and "collision_free (rp_sha R)"
  shows "sound R t t'"
  using assms by (auto simp: enter_wait_txn_def eres intro: transition_execution_sound)

lemma transition_task_sound:
  "transition_task_txn R q t = Inr (e, t') \<Longrightarrow> executions_ok R t \<Longrightarrow> collision_free (rp_sha R) \<Longrightarrow> sound R t t'"
  by (auto simp: transition_task_txn_def eres intro: transition_execution_sound)

section \<open>Claims of a run\<close>

lemma claim_run_Inr:
  assumes run: "claim_run_txn R status x revision event_seq run_seq claim recovery t = Inr (e, t')"
    and ok: "executions_ok R t" and cf: "collision_free (rp_sha R)"
  obtains old where "exec_at R x t = Some old" "ex_status old = status" "ex_revision old = revision"
    "ex_run_seq old = run_seq" "ex_generation old < ex_generation e" "ex_generation e = ex_revision e"
    "ex_revision e = revision + 1" "ex_claim e = claim" "ex_status e = STARTED" "sound R t t'" "exec_at R x t' = Some e"
proof -
  let ?e = "\<lambda>old. (taken_over (t_now t) (ex_run_seq old + 1) claim recovery old)\<lparr>ex_status := STARTED\<rparr>"
  from run obtain r old where l: "load_execution (ai STORAGE_NOT_FOUND) R x t = Inr (r, old)" and
    c: "ex_status old = status" "ex_revision old = revision" "ex_run_seq old = run_seq"
      "ex_generation old < ex_revision old + 1" and
    w: "write_execution R r (?e old) t = Inr (e, t')"
    by (auto simp: claim_run_txn_def eres)
  have s: "ex_id (?e old) = ex_id old" "succeeds old (?e old)" "ex_event_seq (?e old) = ex_event_seq old"
    using c(4) by (simp_all add: succeeds_def taken_over_def)
  note s' = write_sound [OF l w ok cf s]
  show ?thesis
    by (rule that [of old]) (use s' load_Inr(2) [OF l executions_okD(2) [OF ok]] c in \<open>simp_all add: taken_over_def\<close>)
qed

lemma claim_run_sound:
  "claim_run_txn R status x revision event_seq run_seq claim recovery t = Inr (e, t') \<Longrightarrow> executions_ok R t \<Longrightarrow>
    collision_free (rp_sha R) \<Longrightarrow> sound R t t'"
  by (erule (2) claim_run_Inr)

lemma claim_prepared_sound:
  assumes run: "claim_prepared_txn R x revision run_seq context claim recovery ob t = Inr (e, t')"
    and ok: "executions_ok R t" and cf: "collision_free (rp_sha R)"
    and c: "\<And>v. ob = Some v \<Longrightarrow> confirmed R v t"
  shows "sound R t t'"
proof -
  let ?a = "\<lambda>old. taken_over (t_now t) 1 (Some claim) recovery old"
  let ?e = "\<lambda>a. a\<lparr>ex_context := Some context, ex_revision := ex_revision a + 1\<rparr>"
  from run obtain r old a where
    l: "(case ob of None \<Rightarrow> load_execution (ai STORAGE_NOT_FOUND) R x t
         | Some v \<Rightarrow> ensure (ex_id (ob_execution v) = x) (ai STORAGE_CONFLICT) (Inr (observed_row R v, ob_execution v))) =
        Inr (r, old)" and
    g: "ex_generation old < ex_revision old + 1" and
    a: "build_execution (?a old) = Inr a" and w: "write_execution R r (?e a) t = Inr (e, t')"
    by (auto simp: claim_prepared_txn_def eres)
  have "a = ?a old" using a by (auto simp: build_execution_def eres)
  then have s: "ex_id (?e a) = ex_id old" "succeeds old (?e a)" "ex_event_seq (?e a) = ex_event_seq old"
    using g by (simp_all add: succeeds_def taken_over_def)
  show ?thesis
  proof (cases ob)
    case None
    with l have "load_execution (ai STORAGE_NOT_FOUND) R x t = Inr (r, old)" by simp
    from write_sound(1) [OF this w ok cf s] show ?thesis .
  next
    case (Some v)
    with l have v: "r = observed_row R v" "old = ob_execution v" by (simp_all add: ensure_def split: if_splits)
    from observed_write(1) [OF w [unfolded v(1)] ok cf c [OF Some] s [unfolded v(2)]] show ?thesis .
  qed
qed

section \<open>Recovery\<close>

lemma append_operation_unseen:
  assumes "append_operation R v t = Inr (w, t')"
  shows "unseen R t t'"
proof -
  have "get_record t' = get_record t \<and> t_facts t' = t_facts t \<and> t_now t' = t_now t \<and>
      (\<forall>m. txn_over m t \<longrightarrow> txn_over m t') \<and> (txn_ok t \<longrightarrow> txn_ok t')"
    using assms
    by (auto simp: append_operation_def reserve_operation_def put_operation_def eres insert_operation_eq
        set_operation_at_def get_record_def txn_over_def next_sequence_def put_sequence_def txn_ok_def keyed_set ov_inv_set
        distinct_update split: option.splits if_splits)
  then show ?thesis by (simp add: unseen_def rows_ok_def exec_at_def idem_at_def)
qed

lemma recovery_cancel_sound:
  assumes run: "recovery_cancel_txn R e operation admit t = Inr (v, t')" and ok: "executions_ok R t"
    and cf: "collision_free (rp_sha R)" and admit: "\<And>w t1. admit t = Inr (w, t1) \<Longrightarrow> unseen R t t1"
  shows "sound R t t'"
proof -
  let ?e = "\<lambda>old. old\<lparr>ex_revision := ex_revision old + 1, ex_event_seq := ex_event_seq old + 1, ex_updated := t_now t\<rparr>"
  from run obtain r old t1 e2 t2 u where l: "load_execution (ai STORAGE_NOT_FOUND) R (ex_id e) t = Inr (r, old)" and
    a: "admit t = Inr (v, t1)" and w: "write_execution R r (?e old) t1 = Inr (e2, t2)" and
    p: "put_events R (ex_id e) (ex_event_seq e2)
          [\<lparr>ea_type = ''CANCEL_REQUESTED'', ea_payload = [(''operation_id'', JStr operation)]\<rparr>] t2 = Inr (u, t')"
    by (auto simp: recovery_cancel_txn_def eres)
  note r = load_Inr [OF l executions_okD(2) [OF ok]]
  note m = write_moved [OF w r(4) _ cf, of "ex_id e"]
  have e2: "e2 = ?e old" and mv: "moved R (ex_id e) (?e old) t t2"
    using m r(3) moved_unseen [OF admit [OF a]] by simp_all
  from step_events [OF mv _ ok cf, of "[\<lparr>ea_type = ''CANCEL_REQUESTED'', ea_payload = [(''operation_id'', JStr operation)]\<rparr>]"]
  show ?thesis using p r(2) seq_at_Some [OF r(2)] by (simp add: e2 sound_def succeeds_def)
qed

lemma transition_recovery_Inr:
  assumes run: "transition_recovery_txn R e q t = Inr (v, t')" and ok: "executions_ok R t" and cf: "collision_free (rp_sha R)"
  obtains old where "exec_at R (ex_id e) t = Some old" "ex_revision old = ex_revision e"
    "\<forall>g. rg_generation q = Some g \<longrightarrow> ex_generation old = g" "sound R t t'" "exec_at R (ex_id e) t' = Some v"
    "ex_status v = rg_next q" "ex_generation v = (if resumed q then ex_revision v else ex_generation old)"
proof -
  let ?events = "rg_audit q @ [\<lparr>ea_type = rg_event q, ea_payload = rg_payload q\<rparr>]"
  let ?n = "int (length ?events)"
  let ?w = "\<lambda>t1 old claim. old\<lparr>ex_status := rg_next q,
     ex_generation := (if resumed q then ex_revision e + ?n else ex_generation old), ex_claim := claim,
     ex_run_seq := (case rg_run_seq q of None \<Rightarrow> ex_run_seq old | Some s \<Rightarrow> s),
     ex_recovery := (if rg_recovery q = None then ex_recovery old else rg_recovery q),
     ex_revision := ex_revision e + ?n, ex_event_seq := ex_event_seq e + ?n, ex_error := rg_error q,
     ex_details := rg_details q, ex_diagnostics := None, ex_updated := t_now t1\<rparr>"
  from run obtain t1 r old claim t2 u where
    g: "(case rg_generation q of None \<Rightarrow> Inr t
         | Some generation \<Rightarrow> ebind (require_producer_txn R (ex_id e) generation True t) (\<lambda>(_, t'). Inr t')) = Inr t1" and
    l: "load_execution (ai STORAGE_NOT_FOUND) R (ex_id e) t1 = Inr (r, old)" and
    c: "ex_revision old = ex_revision e" "ex_event_seq old = ex_event_seq e"
      "\<not> (resumed q \<and> ex_revision e + ?n \<le> ex_generation old)" and
    k: "(if resumed q then payload_claim (rg_payload q) else Inr (ex_claim old)) = Inr claim" and
    w: "write_execution R r (?w t1 old claim) t1 = Inr (v, t2)" and
    p: "put_events R (ex_id e) (ex_event_seq e + 1) ?events t2 = Inr (u, t')"
    unfolding transition_recovery_txn_def Let_def
    by (simp only: ebind_eq_Inr ensure_eq_Inr split_paired_Ex prod.case sum.inject prod.inject) blast
  have g': "unseen R t t1 \<and> (\<forall>n. rg_generation q = Some n \<longrightarrow> (\<exists>f. exec_at R (ex_id e) t = Some f \<and> ex_generation f = n))"
    using g require_producer_Inr(1-3) [OF _ ok] by (auto simp: eres split: option.splits)
  then have ok1: "executions_ok R t1" and e1: "exec_at R (ex_id e) t1 = exec_at R (ex_id e) t"
    using unseen_ok [OF _ ok] by (auto simp: unseen_def)
  note r = load_Inr [OF l executions_okD(2) [OF ok1]]
  let ?v = "?w t1 old claim"
  have s: "ex_id ?v = ex_id old" "succeeds old ?v" "ex_event_seq ?v = ex_event_seq old + ?n"
    using c k by (auto intro!: succeedsI split: if_splits)
  note s' = rewrite_sound [OF l w _ ok1 cf s, unfolded c(2), OF p]
  have "sound R t t'" using executions_sound_trans [OF sound_unseen [OF _ ok] s'(1)] g' by simp
  with s' g' r(2) e1 c(1) show ?thesis by (intro that [of old]) auto
qed

section \<open>Idempotency records\<close>

lemma projected_idempotency:
  assumes "projected_record R r (Idempotency i) = Inr c" and "rec_kind r = ''idempotency''"
  shows "c = (idempotency_row R i)\<lparr>rec_revision := rec_revision r + 1\<rparr>"
  using assms by (auto simp: projected_record_def idempotency_row_def project_record_def Let_def)

lemma projected_execution:
  assumes "projected_record R r (Execution e) = Inr c" and "rec_kind r = ''execution''"
  shows "c = (execution_row R e)\<lparr>rec_revision := rec_revision r + 1\<rparr>"
  using assms by (auto simp: projected_record_def execution_row_def project_record_def Let_def)

lemma read_idempotency_Inr:
  assumes "read_idempotency R s k t = Inr (Some (r, i))" and "rows_ok R t"
  shows "get_record t (idempotency_key R s k) = Some r" and "idem_at R s k t = Some i" and "id_scope i = s"
    and "id_key i = k" and "rec_kind r = ''idempotency''"
proof -
  from assms show g: "get_record t (idempotency_key R s k) = Some r" and i: "idem_at R s k t = Some i"
    by (auto simp: read_idempotency_eq split: option.splits)
  from assms(2) g obtain j where "id_scope j = s" "id_key j = k" "idem_at R s k t = Some j" "decode_idempotency R r = Inr j"
    by (rule rows_idempotency)
  with i show "id_scope i = s" "id_key i = k" "rec_kind r = ''idempotency''"
    by (auto simp: decode_idempotency_def eres split: domain_value.splits)
qed

lemma put_idempotency_sound:
  assumes cf: "collision_free (rp_sha R)" and k: "id_scope i = s" "id_key i = k"
    and same: "\<And>j. idem_at R s k t = Some j \<Longrightarrow> same_idempotency i j" and ok: "executions_ok R t"
  shows "sound R t (put_record (idempotency_key R s k) ((idempotency_row R i)\<lparr>rec_revision := n\<rparr>) t)"
proof -
  let ?t = "put_record (idempotency_key R s k) ((idempotency_row R i)\<lparr>rec_revision := n\<rparr>) t"
  note p = put_idempotency [OF cf k refl, where t = t and n = n]
  have "balanced R x m ?t = balanced R x m t" for x m by (rule balanced_cong) (simp_all add: p(1))
  with ok p(1,4,5) have "executions_ok R ?t" by (simp add: executions_ok_def seq_at_def)
  moreover have "tables_evolve R t ?t" using p same by (auto simp: tables_evolve_def get_fact_def)
  ultimately show ?thesis by (simp add: sound_def)
qed

lemma row_plain: "(idempotency_row R i)\<lparr>rec_revision := 0\<rparr> = idempotency_row R i"
    "(execution_row R e)\<lparr>rec_revision := 0\<rparr> = execution_row R e"
  by (simp_all add: idempotency_row_def execution_row_def project_record_def Let_def split: prod.split)

lemma reserve_idempotency_sound:
  assumes "reserve_idempotency_txn R i t = Inr (u, t')" and ok: "executions_ok R t" and cf: "collision_free (rp_sha R)"
  shows "sound R t t'"
proof -
  from assms(1) have t': "get_record t (idempotency_key R (id_scope i) (id_key i)) = None"
      "t' = put_record (idempotency_key R (id_scope i) (id_key i)) (idempotency_row R i) t"
    by (auto simp: reserve_idempotency_txn_def eres insert_record_eq)
  from put_idempotency_sound [OF cf refl refl _ ok, of i 0] t' show ?thesis by (simp add: idem_at_def row_plain)
qed

lemma swap_idempotency_sound:
  assumes run: "swap_idempotency_txn R s k expected v t = Inr (w, t')" and ok: "executions_ok R t"
    and cf: "collision_free (rp_sha R)" and same: "\<And>j. idem_at R s k t = Some j \<Longrightarrow> same_idempotency v j"
  shows "sound R t t'"
proof -
  from run obtain r j c u where rd: "read_idempotency R s k t = Inr (Some (r, j))" and
    c: "projected_record R r (Idempotency v) = Inr c" and w: "replace_checked c (rec_revision r) t = Inr (u, t')"
    by (auto simp: swap_idempotency_txn_def eres)
  note r = read_idempotency_Inr [OF rd executions_okD(2) [OF ok]]
  have "same_idempotency v j" using same [OF r(2)] .
  then have k: "id_scope v = s" "id_key v = k"
    using r(3,4) by (simp_all add: same_idempotency_def same_identity_def)
  have "t' = put_record (rec_key c) c t" using w by (auto simp: replace_checked_def eres replace_record_True)
  then have "t' = put_record (idempotency_key R s k) ((idempotency_row R v)\<lparr>rec_revision := rec_revision r + 1\<rparr>) t"
    using projected_idempotency [OF c r(5)] k by simp
  with put_idempotency_sound [OF cf k same ok] show ?thesis by simp
qed

section \<open>Start\<close>

text \<open>Two rows that are written together: an execution and its idempotency record.\<close>

lemma moved_both:
  assumes cf: "collision_free (rp_sha R)" and e: "ex_id e = x" "build_execution e = Inr e"
    and i: "\<And>j. idem_at R (id_scope i) (id_key i) t = Some j \<Longrightarrow> same_idempotency i j"
    and g: "get_record t' = (get_record t)(execution_key R x \<mapsto> (execution_row R e)\<lparr>rec_revision := n\<rparr>,
        idempotency_key R (id_scope i) (id_key i) \<mapsto> (idempotency_row R i)\<lparr>rec_revision := n'\<rparr>)"
    and f: "t_facts t' = t_facts t" and o: "\<And>m. txn_over m t \<Longrightarrow> txn_over m t'" and ok: "txn_ok t \<Longrightarrow> txn_ok t'"
  shows "moved R x e t t'"
proof -
  let ?t1 = "put_record (execution_key R x) ((execution_row R e)\<lparr>rec_revision := n\<rparr>) t"
  let ?t2 = "put_record (idempotency_key R (id_scope i) (id_key i)) ((idempotency_row R i)\<lparr>rec_revision := n'\<rparr>) ?t1"
  have "moved R x e t ?t2"
    using put_execution(2) [OF cf e refl] i by (intro moved_put_idempotency [OF moved_put [OF cf e] cf refl refl]) simp
  moreover have "get_record ?t2 = get_record t'" by (simp only: g get_record_put)
  moreover from this have "exec_at R y ?t2 = exec_at R y t'" "idem_at R s k ?t2 = idem_at R s k t'" "rows_ok R ?t2 = rows_ok R t'" for y s k
    by (simp_all add: exec_at_def idem_at_def rows_ok_def)
  ultimately show ?thesis using f o ok by (simp add: moved_def)
qed

lemma inserted_both:
  assumes ins: "insert_records [execution_row R e, idempotency_row R i] t = Inr (u, t')"
    and cf: "collision_free (rp_sha R)" and b: "build_execution e = Inr e"
  shows "moved R (ex_id e) e t t'" and "exec_at R (ex_id e) t = None" and "idem_at R (id_scope i) (id_key i) t = None"
    and "idem_at R (id_scope i) (id_key i) t' = Some i"
proof -
  note q = insert_records_eq [OF ins]
  have n: "get_record t (execution_key R (ex_id e)) = None" "get_record t (idempotency_key R (id_scope i) (id_key i)) = None"
    using q(2) [of "execution_row R e"] q(2) [of "idempotency_row R i"] by simp_all
  then show "exec_at R (ex_id e) t = None" "idem_at R (id_scope i) (id_key i) t = None" by (simp_all add: exec_at_def idem_at_def)
  have g: "get_record t' = (get_record t)(execution_key R (ex_id e) \<mapsto> (execution_row R e)\<lparr>rec_revision := 0\<rparr>,
      idempotency_key R (id_scope i) (id_key i) \<mapsto> (idempotency_row R i)\<lparr>rec_revision := 0\<rparr>)"
    using cf by (simp add: insert_records_get [OF ins] row_plain map_add_def fun_eq_iff)
  then show "idem_at R (id_scope i) (id_key i) t' = Some i" by (simp add: idem_at_def)
  show "moved R (ex_id e) e t t'"
    by (rule moved_both [OF cf refl b _ g])
      (use n txn_ok_insert_records [OF ins] in \<open>simp_all add: idem_at_def q(3)\<close>)
qed

lemma ensure_budget_unseen:
  assumes "ensure_budget R s limits t = Inr (v, t')" and "collision_free (rp_sha R)"
  shows "unseen R t t'"
proof (cases "get_record t (budget_key R s)")
  case None
  with assms(1) obtain u where "t' = put_record (rec_key (usage_record R s u 0)) (usage_record R s u 0) t"
    by (auto simp: ensure_budget_def eres insert_record_eq)
  moreover have "rec_key (usage_record R s u 0) = budget_key R s"
    by (simp add: usage_record_def project_record_def budget_key_def Let_def)
  ultimately show ?thesis using put_elsewhere [of "usage_record R s u 0" R t] assms(2) by simp
qed (use assms(1) in \<open>auto simp: ensure_budget_def eres\<close>)

lemma admit_budget_unseen:
  "admit_budget R v t = Inr (u, t') \<Longrightarrow> collision_free (rp_sha R) \<Longrightarrow> unseen R t t'"
  by (auto simp: admit_budget_def eres intro: ensure_budget_unseen split: option.splits)

text \<open>A key that is taken answers with the execution that took it.\<close>

lemma reserve_start_replayed:
  assumes run: "reserve_start_txn R v context_write t = Inr (res, t')" and rows: "rows_ok R t"
    and i: "idem_at R (id_scope (sv_idempotency v)) (id_key (sv_idempotency v)) t = Some i"
  shows "same_identity i (sv_idempotency v)" and "exec_at R (id_resource i) t = Some (rv_execution res)"
    and "rv_idempotency res = i" and "\<not> rv_created res" and "t' = t"
proof -
  obtain r where "get_record t (idempotency_key R (id_scope (sv_idempotency v)) (id_key (sv_idempotency v))) = Some r"
    using i by (auto simp: idem_at_def split: option.splits)
  with run i have "ebind (winner R v i t) (\<lambda>result. Inr (result, t)) = Inr (res, t')"
    by (simp add: reserve_start_txn_def Let_def read_idempotency_eq [OF rows] ensure_eq_Inr)
  then obtain r' e where w: "same_identity i (sv_idempotency v)"
      "load_execution (ai STORAGE_INTEGRITY_ERROR) R (id_resource i) t = Inr (r', e)"
      "res = \<lparr>rv_execution = e, rv_idempotency = i, rv_created = False\<rparr>" "t' = t"
    unfolding winner_def
    by (simp only: ebind_eq_Inr ensure_eq_Inr split_paired_Ex prod.case sum.inject prod.inject) blast
  with rows show "same_identity i (sv_idempotency v)" "exec_at R (id_resource i) t = Some (rv_execution res)"
      "rv_idempotency res = i" "\<not> rv_created res" "t' = t" by (simp_all add: load_execution_Inr)
qed

lemma reserve_start_Inr:
  assumes run: "reserve_start_txn R v context_write t = Inr (res, t')" and ok: "executions_ok R t" and cf: "collision_free (rp_sha R)"
    and cw: "\<And>w s s' u. context_write = Some w \<Longrightarrow> w s = Inr (u, s') \<Longrightarrow> unseen R s s'"
    and seq: "ex_event_seq (sv_execution v) = 0"
  obtains
    (replayed) i where "idem_at R (id_scope (sv_idempotency v)) (id_key (sv_idempotency v)) t = Some i"
      "same_identity i (sv_idempotency v)" "exec_at R (id_resource i) t = Some (rv_execution res)"
      "rv_idempotency res = i" "\<not> rv_created res" "t' = t"
  | (created) "idem_at R (id_scope (sv_idempotency v)) (id_key (sv_idempotency v)) t = None"
      "exec_at R (ex_id (sv_execution v)) t = None" "rv_created res"
      "rv_execution res = sv_execution v" "sound R t t'" "exec_at R (ex_id (sv_execution v)) t' = Some (sv_execution v)"
      "idem_at R (id_scope (sv_idempotency v)) (id_key (sv_idempotency v)) t' = Some (sv_idempotency v)"
proof -
  let ?i = "sv_idempotency v" and ?e = "sv_execution v"
  note rows = executions_okD(2) [OF ok]
  show ?thesis
  proof (cases "get_record t (idempotency_key R (id_scope ?i) (id_key ?i))")
    case (Some r)
    from rows Some obtain i where i: "idem_at R (id_scope ?i) (id_key ?i) t = Some i" by (rule rows_idempotency)
    from reserve_start_replayed [OF run rows i] i show ?thesis by (intro replayed)
  next
    case None
    with run obtain e t1 t2 t3 a b c where k: "get_record t (execution_key R (ex_id ?e)) = None" and
      e: "build_execution ?e = Inr e" and
      p: "(if ex_parent e = None then Inr t
           else ebind (of_option (ai STORAGE_OWNER_MISMATCH) (sv_parent_generation v)) (\<lambda>generation.
                ebind (guard_parent_txn R e generation t) (\<lambda>(_, t'). Inr t'))) = Inr t1" and
      bd: "admit_budget R v t1 = Inr (a, t2)" and
      w: "(case context_write of None \<Rightarrow> Inr ((), t2) | Some write \<Rightarrow> write t2) = Inr (b, t3)" and
      ins: "insert_records [execution_row R e, idempotency_row R ?i] t3 = Inr (c, t')" and
      res: "res = \<lparr>rv_execution = e, rv_idempotency = ?i, rv_created = True\<rparr>"
      unfolding reserve_start_txn_def Let_def read_idempotency_eq [OF rows]
      by (simp only: ebind_eq_Inr ensure_eq_Inr split_paired_Ex prod.case sum.inject prod.inject option.case ebind_Inr) blast
    have e': "e = ?e" using e by (auto simp: build_execution_def eres)
    have "unseen R t t1" using p guard_parent_unseen [OF _ ok] by (auto simp: eres split: if_splits)
    moreover have "unseen R t1 t2" using admit_budget_unseen [OF bd cf] .
    moreover have "unseen R t2 t3" using w cw by (cases context_write) auto
    ultimately have u: "unseen R t t3" using unseen_trans by blast
    note both = inserted_both [OF ins [unfolded e'] cf e [unfolded e']]
    have m: "moved R (ex_id ?e) ?e t t'" using moved_unseen [OF u both(1)] .
    have n: "exec_at R (ex_id ?e) t = None" using k by (simp add: exec_at_def)
    then have "seq_at R (ex_id ?e) t = 0" by (simp add: seq_at_def)
    from step_quiet [OF m ok cf] this n seq
    have "sound R t t'" "exec_at R (ex_id ?e) t' = Some ?e" by (simp_all add: sound_def)
    moreover have "idem_at R (id_scope ?i) (id_key ?i) t = None" using None by (simp add: idem_at_def)
    ultimately show ?thesis using n both(4) res e' by (intro created) simp_all
  qed
qed


text \<open>A batch of replacements writes its records and nothing else.\<close>

lemma replace_all_put:
  fixes t :: execution_txn
  assumes "replace_all ps t = Inr (u, t')"
  shows "get_record t' = get_record t ++ map_of (map (\<lambda>p. (rec_key (repl_record p), repl_record p)) ps)"
    and "p \<in> set ps \<Longrightarrow> \<exists>c. get_record t (rec_key (repl_record p)) = Some c \<and> rec_revision c = repl_expected p"
    and "t_facts t' = t_facts t" and "t_now t' = t_now t" and "txn_over m t \<Longrightarrow> txn_over m t'" and "txn_ok t \<Longrightarrow> txn_ok t'"
proof -
  let ?s = "sort_key (rec_key \<circ> repl_record) ps"
  let ?rs = "map repl_record ?s"
  have w: "ps = [] \<and> t' = t \<or> replace_records ps t = (Inr (), t')"
    using assms by (auto simp: replace_all_def split: prod.splits sum.splits if_splits)
  then have d: "distinct (map (rec_key \<circ> repl_record) ps)" and t': "t' = fold (\<lambda>r. put_record (rec_key r) r) ?rs t"
    using replace_records_effect(1,3) [of ps t "()" t'] by auto
  have "map_of (map (\<lambda>p. (rec_key (repl_record p), repl_record p)) ?s) =
      map_of (map (\<lambda>p. (rec_key (repl_record p), repl_record p)) ps)"
    using d by (intro map_of_inject_set [THEN iffD2]) (simp_all add: distinct_map_sort_key [unfolded comp_def] comp_def)
  then show "get_record t' = get_record t ++ map_of (map (\<lambda>p. (rec_key (repl_record p), repl_record p)) ps)"
    using d get_record_put_all [of ?rs t] by (simp add: t' distinct_map_sort_key comp_def)
  show "\<exists>c. get_record t (rec_key (repl_record p)) = Some c \<and> rec_revision c = repl_expected p" if "p \<in> set ps"
    using w that replace_records_effect(2) [of ps t "()" t' p] by auto
  show "txn_ok t \<Longrightarrow> txn_ok t'" using w by (auto dest: txn_ok_replace_records)
  show "txn_over m t \<Longrightarrow> txn_over m t'" by (simp add: t')
  show "t_facts t' = t_facts t" "t_now t' = t_now t" by (simp_all add: t' store_effects)
qed

lemma replaced_both:
  assumes w: "replace_all [\<lparr>repl_record = a, repl_expected = n\<rparr>, \<lparr>repl_record = b, repl_expected = n'\<rparr>] t = Inr (u, t')"
    and a: "a = (execution_row R e)\<lparr>rec_revision := k\<rparr>" and b: "b = (idempotency_row R i)\<lparr>rec_revision := k'\<rparr>"
    and cf: "collision_free (rp_sha R)" and e: "build_execution e = Inr e"
    and i: "\<And>j. idem_at R (id_scope i) (id_key i) t = Some j \<Longrightarrow> same_idempotency i j"
  shows "moved R (ex_id e) e t t'" and "idem_at R (id_scope i) (id_key i) t' = Some i"
proof -
  note q = replace_all_put [OF w]
  have g: "get_record t' = (get_record t)(execution_key R (ex_id e) \<mapsto> (execution_row R e)\<lparr>rec_revision := k\<rparr>,
      idempotency_key R (id_scope i) (id_key i) \<mapsto> (idempotency_row R i)\<lparr>rec_revision := k'\<rparr>)"
    using cf by (simp add: q(1) a b map_add_def fun_eq_iff)
  show "moved R (ex_id e) e t t'" by (rule moved_both [OF cf refl e i g q(3)]) (simp_all add: q(5,6))
  show "idem_at R (id_scope i) (id_key i) t' = Some i" by (simp add: g idem_at_def)
qed

lemma replaced_execution:
  assumes w: "replace_all [\<lparr>repl_record = a, repl_expected = n\<rparr>] t = Inr (u, t')"
    and a: "a = (execution_row R e)\<lparr>rec_revision := k\<rparr>" and cf: "collision_free (rp_sha R)"
    and e: "build_execution e = Inr e"
  shows "moved R (ex_id e) e t t'"
proof -
  let ?t = "put_record (execution_key R (ex_id e)) ((execution_row R e)\<lparr>rec_revision := k\<rparr>) t"
  note q = replace_all_put [OF w]
  have g: "get_record t' = get_record ?t" by (simp add: q(1) a map_add_def fun_eq_iff get_record_put)
  then have "exec_at R y ?t = exec_at R y t'" "idem_at R s j ?t = idem_at R s j t'" "rows_ok R ?t = rows_ok R t'" for y s j
    by (simp_all add: exec_at_def idem_at_def rows_ok_def)
  with moved_put [OF cf refl e, of t k] show ?thesis by (simp add: moved_def q(3,5,6))
qed

definition started_event :: event_append where
  "started_event = \<lparr>ea_type = ''EXECUTION_STARTED'', ea_payload = []\<rparr>"

lemma claim_start_Inr:
  assumes run: "claim_start_txn R c t = Inr (v, t')" and ok: "executions_ok R t" and cf: "collision_free (rp_sha R)"
  obtains e where "exec_at R (cl_execution c) t = Some e" "ex_status e = PENDING_START"
    "ex_revision e = cl_revision c" "v = started_execution c e" "sound R t t'"
    "exec_at R (cl_execution c) t' = Some v"
proof -
  let ?k = "idem_at R (cl_scope c) (cl_key c) t" and ?x = "cl_execution c"
  note rows = executions_okD(2) [OF ok]
  from run obtain r e ident t1 u where l: "load_execution (ai STORAGE_CONFLICT) R ?x t = Inr (r, e)" and
    c: "ex_revision e = cl_revision c" "ex_status e = PENDING_START" and
    rd: "read_idempotency R (cl_scope c) (cl_key c) t = Inr ident" and
    b: "(case ident of
          None \<Rightarrow>
            ebind (build_execution (started_execution c e)) (\<lambda>next.
            ebind (insert_records [idempotency_row R (claimed_idempotency c)] t) (\<lambda>(_, t1).
              write_execution R r next t1))
        | Some (ir, i) \<Rightarrow>
            ensure (same_idempotency i (claimed_idempotency c) \<and> id_status i = RESERVED) (ai STORAGE_CONFLICT)
           (ebind (build_execution (started_execution c e)) (\<lambda>next.
            ebind (projected_record R r (Execution next)) (\<lambda>candidate.
            ebind (projected_record R ir
                     (Idempotency (i\<lparr>id_status := ID_STARTED, id_updated := cl_started c\<rparr>))) (\<lambda>candidate'.
            ebind (replace_all
                     [\<lparr>repl_record = candidate, repl_expected = rec_revision r\<rparr>,
                      \<lparr>repl_record = candidate', repl_expected = rec_revision ir\<rparr>] t) (\<lambda>(_, t1).
              Inr (next, t1))))))) = Inr (v, t1)" and
    p: "put_events R ?x (ex_event_seq v) [started_event] t1 = Inr (u, t')"
    unfolding claim_start_txn_def started_event_def [symmetric]
    by (simp only: ebind_eq_Inr ensure_eq_Inr split_paired_Ex prod.case sum.inject prod.inject) blast
  note r = load_Inr [OF l rows]
  have e: "ex_id (started_execution c e) = ?x" "succeeds e (started_execution c e)"
      "ex_event_seq (started_execution c e) = seq_at R ?x t + 1"
    using r(3) seq_at_Some [OF r(2)] by (simp_all add: started_execution_def succeeds_def)
  have m: "v = started_execution c e \<and> moved R ?x v t t1"
  proof (cases ident)
    case None
    from b None obtain n u1 t0 where n: "build_execution (started_execution c e) = Inr n" and
      i: "insert_records [idempotency_row R (claimed_idempotency c)] t = Inr (u1, t0)" and
      w: "write_execution R r n t0 = Inr (v, t1)"
      by (auto simp: eres)
    have n': "n = started_execution c e" using n by (auto simp: build_execution_def eres)
    let ?i = "claimed_idempotency c"
    have k: "idempotency_key R (id_scope ?i) (id_key ?i) = idempotency_key R (cl_scope c) (cl_key c)"
      by (simp add: claimed_idempotency_def)
    have "get_record t (idempotency_key R (cl_scope c) (cl_key c)) = None"
      using insert_records_eq(2) [OF i, of "idempotency_row R ?i"] k by simp
    moreover have t0: "t0 = put_record (idempotency_key R (cl_scope c) (cl_key c)) ((idempotency_row R ?i)\<lparr>rec_revision := 0\<rparr>) t"
      using insert_records_eq(3) [OF i] k by (simp add: row_plain)
    ultimately have none: "idem_at R (cl_scope c) (cl_key c) t = None" by (simp add: idem_at_def)
    have sc: "id_scope ?i = cl_scope c" "id_key ?i = cl_key c" by (simp_all add: claimed_idempotency_def)
    note pi = put_idempotency [OF cf sc t0]
    have "moved R ?x v t0 t1" and "v = n" using write_moved [OF w r(4) _ cf, of ?x] n' e(1) by simp_all
    moreover have "sound R t t0" unfolding t0 by (rule put_idempotency_sound [OF cf sc _ ok]) (simp add: none)
    ultimately have "moved R ?x v t t1" using moved_after [of R t t0] pi(1,3) by (simp add: sound_def)
    with n' \<open>v = n\<close> show ?thesis by simp
  next
    case (Some ri)
    obtain ir i where ri: "ri = (ir, i)" by (cases ri)
    let ?i = "i\<lparr>id_status := ID_STARTED, id_updated := cl_started c\<rparr>"
    from b Some ri obtain n a a' u1 where n: "build_execution (started_execution c e) = Inr n" and
      a: "projected_record R r (Execution n) = Inr a" "projected_record R ir (Idempotency ?i) = Inr a'" and
      w: "replace_all [\<lparr>repl_record = a, repl_expected = rec_revision r\<rparr>,
                      \<lparr>repl_record = a', repl_expected = rec_revision ir\<rparr>] t = Inr (u1, t1)" and v: "v = n"
      by (auto simp: eres)
    have n': "n = started_execution c e" using n by (auto simp: build_execution_def eres)
    note ri' = read_idempotency_Inr [OF rd [unfolded Some ri] rows]
    have "same_idempotency ?i j" if "idem_at R (id_scope ?i) (id_key ?i) t = Some j" for j
      using that ri'(2-4) by (simp add: same_idempotency_def same_identity_def)
    from replaced_both(1) [OF w projected_execution [OF a(1) r(4)] projected_idempotency [OF a(2) ri'(5)] cf _ this]
    show ?thesis using n n' v e(1) by simp
  qed
  have v: "v = started_execution c e" using m by (rule conjunct1)
  have mv: "moved R ?x v t t1" using m by (rule conjunct2)
  have "put_events R ?x (seq_at R ?x t + 1) [started_event] t1 = Inr (u, t')" using p e(3) v by simp
  from step_events [OF mv this ok cf] e r(2) v have "sound R t t'" "exec_at R ?x t' = Some v"
    by (simp_all add: sound_def)
  with r(2) c v show ?thesis by (intro that [of e]) simp_all
qed

end
