(* ===== verification/Execution_Ends.thy ===== *)
theory Execution_Ends
  imports Execution_Sound
begin

text \<open>
  The end of an execution, and what keeps its record: each operation is \<open>sound\<close>, and the commit of
  an end writes the execution, its events, its idempotency record and its operation together.
\<close>

section \<open>Commit\<close>

lemma build_execution_Inr: "build_execution e = Inr v \<Longrightarrow> v = e \<and> build_execution e = Inr e"
  by (auto simp: build_execution_def eres)

lemma committed_idempotency_Inr:
  assumes "committed_idempotency R x u t = Inr p" and "rows_ok R t"
  obtains r :: task_record and i j where "idem_at R (iu_scope u) (iu_key u) t = Some i" "id_resource i = x" "id_status i = iu_expected u"
    "j = i\<lparr>id_status := iu_next u, id_request := iu_request u, id_result := iu_result u, id_error := iu_error u,
       id_updated := t_now t\<rparr>" "same_idempotency j i"
    "p = \<lparr>repl_record = (idempotency_row R j)\<lparr>rec_revision := rec_revision r + 1\<rparr>, repl_expected = rec_revision r\<rparr>"
proof -
  from assms(1) obtain r i c where rd: "read_idempotency R (iu_scope u) (iu_key u) t = Inr (Some (r, i))" and
    c: "id_resource i = x" "id_scope i = iu_scope u" "id_key i = iu_key u" "id_request i = iu_request u"
      "id_status i = iu_expected u" and
    p: "projected_record R r (Idempotency (i\<lparr>id_status := iu_next u, id_request := iu_request u,
          id_result := iu_result u, id_error := iu_error u, id_updated := t_now t\<rparr>)) = Inr c"
      "p = \<lparr>repl_record = c, repl_expected = rec_revision r\<rparr>"
    by (auto simp: committed_idempotency_def eres)
  note r = read_idempotency_Inr [OF rd assms(2)]
  show ?thesis
    by (rule that [of i _ r])
      (use r(2) c p projected_idempotency [OF p(1) r(5)] in \<open>simp_all add: same_idempotency_def same_identity_def\<close>)
qed

lemma replace_operation_unseen:
  assumes "replace_operation v expected t = Inr (True, t')"
  shows "unseen R t t'"
proof -
  have "get_record t' = get_record t \<and> t_facts t' = t_facts t \<and> t_now t' = t_now t \<and>
      (\<forall>m. txn_over m t \<longrightarrow> txn_over m t')"
    using assms by (auto simp: replace_operation_True get_record_def txn_over_def)
  with txn_ok_replace_operation [OF assms] show ?thesis by (simp add: unseen_def rows_ok_def exec_at_def idem_at_def)
qed

definition committed :: "terminal_commit \<Rightarrow> event_append list \<Rightarrow> execution \<Rightarrow> execution" where
  "committed c pending e =
     (tm_execution c)\<lparr>ex_revision := ex_revision e + int (length pending) + 1,
        ex_event_seq := ex_event_seq e + int (length pending) + 1, ex_result := Some (tm_result c)\<rparr>"

lemma commit_terminal_Inr:
  assumes run: "commit_terminal_txn R c pending t = Inr (v, t')" and ok: "executions_ok R t"
    and cf: "collision_free (rp_sha R)"
  obtains e where "exec_at R (ex_id (tm_execution c)) t = Some e" "commit_fits c e" "ended (ex_status (tm_execution c))"
    "v = \<lparr>tv_execution = committed c pending e, tv_result = tm_result c\<rparr>" "sound R t t'"
    "exec_at R (ex_id (tm_execution c)) t' = Some (committed c pending e)"
    "\<And>u. tm_idempotency c = Some u \<Longrightarrow>
       \<exists>i. idem_at R (iu_scope u) (iu_key u) t' = Some i \<and> id_status i = iu_next u \<and> id_result i = iu_result u \<and>
           id_error i = iu_error u \<and> id_resource i = ex_id (tm_execution c)"
    "get_fact t' (execution_stream R (ex_id (tm_execution c))) (ex_event_seq e + int (length pending) + 1) =
       Some (event_at R (ex_id (tm_execution c)) (ex_event_seq e + int (length pending) + 1)
         \<lparr>ea_type = tm_event c, ea_payload = tm_payload c\<rparr>)"
proof -
  let ?x = "ex_id (tm_execution c)"
  let ?vs = "pending @ [\<lparr>ea_type = tm_event c, ea_payload = tm_payload c\<rparr>]"
  note rows = executions_okD(2) [OF ok]
  from run obtain w r e ps n a u1 t1 u2 t2 and
    operation :: "(operation_update \<times> op_input stored_operation) option" where
    m: "make_commit c = Inr w" and
    l: "load_execution (ai EXECUTION_RESULT_CONFLICT) R ?x t = Inr (r, e)" and fits: "commit_fits c e" and
    ps: "(case tm_idempotency c of None \<Rightarrow> Inr [] | Some u \<Rightarrow> ebind (committed_idempotency R ?x u t) (\<lambda>p. Inr [p])) = Inr ps" and
    n: "build_execution ((tm_execution c)\<lparr>ex_revision := ex_revision e + int (length ?vs),
          ex_event_seq := ex_event_seq e + int (length ?vs), ex_result := Some (tm_result c)\<rparr>) = Inr n" and
    a: "projected_record R r (Execution n) = Inr a" and
    rp: "replace_all (\<lparr>repl_record = a, repl_expected = rec_revision r\<rparr> # ps) t = Inr (u1, t1)" and
    p: "put_events R ?x (ex_event_seq e + 1) ?vs t1 = Inr (u2, t2)" and
    op: "(case operation of
               None \<Rightarrow> Inr t2
             | Some (u, v) \<Rightarrow>
                 ebind (replace_operation v (op_status_value (ou_expected u)) t2) (\<lambda>(ok, t').
                   ensure ok (ai EXECUTION_RESULT_CONFLICT) (Inr t'))) = Inr t'" and
    v: "v = \<lparr>tv_execution = n, tv_result = tm_result c\<rparr>"
    unfolding commit_terminal_txn_def Let_def
    by (simp only: ebind_eq_Inr ensure_eq_Inr split_paired_Ex prod.case sum.inject prod.inject) blast
  note r = load_Inr [OF l rows]
  note n' = build_execution_Inr [OF n]
  have new: "n = committed c pending e" "build_execution n = Inr n" using n' by (simp_all add: committed_def)
  have id: "ex_id n = ?x" by (simp add: new committed_def)
  note a' = projected_execution [OF a r(4)]
  have mv: "moved R ?x n t t1 \<and> (\<forall>u. tm_idempotency c = Some u \<longrightarrow>
       (\<exists>i. idem_at R (iu_scope u) (iu_key u) t1 = Some i \<and> id_status i = iu_next u \<and> id_result i = iu_result u \<and>
           id_error i = iu_error u \<and> id_resource i = ?x))"
  proof (cases "tm_idempotency c")
    case None
    with ps rp have "replace_all [\<lparr>repl_record = a, repl_expected = rec_revision r\<rparr>] t = Inr (u1, t1)" by simp
    from replaced_execution [OF this a' cf new(2)] None id show ?thesis by simp
  next
    case (Some u)
    with ps obtain q where q: "committed_idempotency R ?x u t = Inr q" "ps = [q]" by (auto simp: eres)
    from q(1) rows obtain ir :: task_record and i j where i: "idem_at R (iu_scope u) (iu_key u) t = Some i" "id_resource i = ?x" and
      j: "j = i\<lparr>id_status := iu_next u, id_request := iu_request u, id_result := iu_result u, id_error := iu_error u,
       id_updated := t_now t\<rparr>" "same_idempotency j i" and
      q': "q = \<lparr>repl_record = (idempotency_row R j)\<lparr>rec_revision := rec_revision ir + 1\<rparr>, repl_expected = rec_revision ir\<rparr>"
      by (rule committed_idempotency_Inr)
    have k: "id_scope j = iu_scope u" "id_key j = iu_key u" using i(1) j(1) rows
      by (auto simp: idem_at_def split: option.splits elim: rows_idempotency)
    have same: "same_idempotency j i'" if "idem_at R (id_scope j) (id_key j) t = Some i'" for i'
      using that i(1) j(2) k by simp
    from replaced_both [OF rp [unfolded q(2) q'] a' refl cf new(2) same] id k j(1) i(2) Some show ?thesis by simp
  qed
  have s: "succeeds e n" "ex_event_seq n = seq_at R ?x t + int (length ?vs)"
    using fits seq_at_Some [OF r(2)] by (auto simp: new committed_def commit_fits_def intro!: succeedsI)
  have p': "put_events R ?x (seq_at R ?x t + 1) ?vs t1 = Inr (u2, t2)" using p seq_at_Some [OF r(2)] by simp
  have st: "executions_ok R t2" "tables_evolve R t t2" "exec_at R ?x t2 = Some n"
    using step_events [OF conjunct1 [OF mv] p' ok cf _ s(2)] s(1) r(2) by simp_all
  have un: "unseen R t2 t'"
  proof (cases operation)
    case None
    with op show ?thesis by simp
  next
    case (Some uw)
    with op have "replace_operation (snd uw) (op_status_value (ou_expected (fst uw))) t2 = Inr (True, t')"
      by (cases uw) (auto simp: eres)
    then show ?thesis by (rule replace_operation_unseen)
  qed
  have "sound R t t'" using executions_sound_trans [OF _ sound_unseen [OF un st(1)], of t] st by (simp add: sound_def)
  moreover have "exec_at R ?x t' = Some n" using un st(3) by (simp add: unseen_def)
  moreover have "idem_at R k j t' = idem_at R k j t1" for k j
  proof -
    have "idem_at R k j t2 = idem_at R k j t1" by (rule idem_at_cong) (simp add: put_events_frame(1) [OF p])
    with un show ?thesis by (simp add: unseen_def)
  qed
  moreover have "get_fact t' (execution_stream R ?x) (ex_event_seq e + int (length pending) + 1) =
      Some (event_at R ?x (ex_event_seq e + int (length pending) + 1) \<lparr>ea_type = tm_event c, ea_payload = tm_payload c\<rparr>)"
  proof -
    have "get_fact t' (execution_stream R ?x) j = get_fact t2 (execution_stream R ?x) j" for j
      using un by (simp add: unseen_def get_fact_def)
    then show ?thesis unfolding put_events_facts [OF p] by (simp add: nth_append)
  qed
  moreover have "ended (ex_status (tm_execution c))" using m by (auto simp: make_commit_def Let_def eres)
  ultimately show ?thesis using r(2) fits v mv by (intro that [of e]) (simp_all add: new(1))
qed

lemma commit_terminal_sound:
  "commit_terminal_txn R c pending t = Inr (v, t') \<Longrightarrow> executions_ok R t \<Longrightarrow> collision_free (rp_sha R) \<Longrightarrow> sound R t t'"
  by (erule (2) commit_terminal_Inr)

lemma commit_closed_terminal_sound:
  "commit_closed_terminal_txn R c pending t = Inr (v, t') \<Longrightarrow> executions_ok R t \<Longrightarrow> collision_free (rp_sha R) \<Longrightarrow>
    sound R t t'"
  by (auto simp: commit_closed_terminal_txn_def eres intro: commit_terminal_sound)

section \<open>A turn that was pending\<close>

definition turn_events :: "terminal_commit \<Rightarrow> event_append list \<Rightarrow> event_append list" where
  "turn_events c audit = started_event # audit @ [\<lparr>ea_type = tm_event c, ea_payload = tm_payload c\<rparr>]"

lemma insert_pending_turn_sound:
  assumes run: "insert_pending_turn_txn R v c audit t = Inr (w, t')" and ok: "executions_ok R t"
    and cf: "collision_free (rp_sha R)"
  shows "sound R t t'"
proof -
  let ?i = "(sv_idempotency v)\<lparr>id_status := ended_idempotency (ex_status (tm_execution c)),
    id_result := output_digest (tm_result c), id_error := ex_error (tm_execution c), id_updated := t_now t\<rparr>"
  from run obtain n u1 t1 u2 where id: "ex_id (tm_execution c) = ex_id (sv_execution v)" and
    n: "build_execution ((tm_execution c)\<lparr>ex_result := Some (tm_result c),
          ex_event_seq := int (length (turn_events c audit)), ex_closed := True,
          ex_revision := tm_revision c + int (length audit) + 1\<rparr>) = Inr n" and
    ins: "insert_records [execution_row R n, idempotency_row R ?i] t = Inr (u1, t1)" and
    p: "put_events R (ex_id (sv_execution v)) 1 (turn_events c audit) t1 = Inr (u2, t')"
    unfolding insert_pending_turn_txn_def Let_def turn_events_def started_event_def
    by (simp only: ebind_eq_Inr ensure_eq_Inr split_paired_Ex prod.case sum.inject prod.inject) blast
  note n' = build_execution_Inr [OF n]
  have b: "build_execution n = Inr n" "ex_id n = ex_id (sv_execution v)" "ex_event_seq n = int (length (turn_events c audit))"
    using n' id by simp_all
  note both = inserted_both [OF ins cf b(1), unfolded b(2)]
  have q: "seq_at R (ex_id (sv_execution v)) t = 0" using both(2) by (simp add: seq_at_def)
  from step_events [OF both(1) _ ok cf, of "turn_events c audit"] p b(3) both(2) q show ?thesis by (simp add: sound_def)
qed

section \<open>Retention\<close>

lemma acquire_hold_sound:
  assumes run: "acquire_hold_txn R x h t = Inr (v, t')" and ok: "executions_ok R t" and cf: "collision_free (rp_sha R)"
  shows "sound R t t'"
proof -
  let ?e = "\<lambda>e. e\<lparr>ex_holds := sort (ex_holds e @ [h]), ex_revision := ex_revision e + 1, ex_updated := t_now t\<rparr>"
  from run obtain r e where l: "load_execution (ai STORAGE_NOT_FOUND) R x t = Inr (r, e)" and
    w: "t' = t \<or> (\<exists>e'. write_execution R r (?e e) t = Inr (e', t'))"
    by (auto simp: acquire_hold_txn_def eres split: if_splits)
  have s: "ex_id (?e e) = ex_id e" "succeeds e (?e e)" "ex_event_seq (?e e) = ex_event_seq e"
    by (simp_all add: succeeds_def)
  from w show ?thesis using write_sound(1) [OF l _ ok cf s] ok by auto
qed

lemma release_hold_sound:
  assumes run: "release_hold_txn R x h t = Inr (v, t')" and ok: "executions_ok R t" and cf: "collision_free (rp_sha R)"
  shows "sound R t t'"
proof -
  let ?e = "\<lambda>e. e\<lparr>ex_holds := filter (\<lambda>k. k \<noteq> h) (ex_holds e), ex_revision := ex_revision e + 1, ex_updated := t_now t\<rparr>"
  from run obtain r e where l: "load_execution (ai STORAGE_NOT_FOUND) R x t = Inr (r, e)" and
    w: "t' = t \<or> write_execution R r (?e e) t = Inr (v, t')"
    by (auto simp: release_hold_txn_def eres split: if_splits)
  have s: "ex_id (?e e) = ex_id e" "succeeds e (?e e)" "ex_event_seq (?e e) = ex_event_seq e"
    by (simp_all add: succeeds_def)
  from w show ?thesis using write_sound(1) [OF l _ ok cf s] ok by auto
qed

text \<open>A closed record has ended, is held by nobody and owes no handoff.\<close>

lemma close_retention_Inr:
  assumes run: "close_retention_txn R x ob t = Inr ((b, v), t')" and ok: "executions_ok R t"
    and cf: "collision_free (rp_sha R)" and c: "\<And>w. ob = Some w \<Longrightarrow> confirmed R w t"
  shows "sound R t t'"
    and "b \<Longrightarrow> v = Some e \<Longrightarrow> ended (ex_status e) \<and> ex_holds e = [] \<and> ex_closed e"
proof -
  let ?e = "\<lambda>e. e\<lparr>ex_closed := True, ex_revision := ex_revision e + 1, ex_updated := t_now t\<rparr>"
  have s: "ex_id (?e e) = ex_id e" "succeeds e (?e e)" "ex_event_seq (?e e) = ex_event_seq e" for e
    by (simp_all add: succeeds_def)
  from run obtain w where
    l: "(case ob of None \<Rightarrow> read_execution R x t
         | Some v \<Rightarrow> ensure (ex_id (ob_execution v) = x) (ai STORAGE_CONFLICT)
             (Inr (Some (observed_row R v, ob_execution v)))) = Inr w" and
    k: "(case w of None \<Rightarrow> Inr ((True, None), t)
       | Some (r, e) \<Rightarrow>
         if \<not> ended (ex_status e) \<or> ex_holds e \<noteq> [] \<or> recovery_state_of e = Some Handoff
         then Inr ((False, Some e), t)
         else if ex_closed e then Inr ((True, Some e), t)
         else ebind (write_execution R r (?e e) t) (\<lambda>(next, t'). Inr ((True, Some next), t'))) = Inr ((b, v), t')"
    by (auto simp: close_retention_txn_def ebind_eq_Inr)
  have "sound R t t' \<and> (\<forall>e. b \<and> v = Some e \<longrightarrow> ended (ex_status e) \<and> ex_holds e = [] \<and> ex_closed e)"
  proof (cases "\<exists>r e n. w = Some (r, e) \<and> write_execution R r (?e e) t = Inr (n, t') \<and> ended (ex_status e) \<and>
      ex_holds e = [] \<and> v = Some n")
    case False
    with k ok show ?thesis by (auto simp: eres split: option.splits prod.splits if_splits)
  next
    case True
    then obtain r e n where w: "w = Some (r, e)" "write_execution R r (?e e) t = Inr (n, t')"
        "ended (ex_status e)" "ex_holds e = []" "v = Some n" by blast
    show ?thesis
    proof (cases ob)
      case None
      with l w(1) have "load_execution (ai STORAGE_NOT_FOUND) R x t = Inr (r, e)" by (simp add: load_execution_def)
      from write_sound [OF this w(2) ok cf s] w(3-5) show ?thesis by simp
    next
      case (Some v)
      with l w(1) have v: "r = observed_row R v" "e = ob_execution v" by (simp_all add: ensure_def split: if_splits)
      from observed_write [OF w(2) [unfolded v] ok cf c [OF Some] s [of e, unfolded v(2)]] w(3-5) v(2)
      show ?thesis by simp
    qed
  qed
  then show "sound R t t'" and "b \<Longrightarrow> v = Some e \<Longrightarrow> ended (ex_status e) \<and> ex_holds e = [] \<and> ex_closed e"
    by simp_all
qed

section \<open>Insertions\<close>

lemma create_execution_sound:
  assumes run: "create_execution_txn R e t = Inr (v, t')" and ok: "executions_ok R t" and cf: "collision_free (rp_sha R)"
    and new: "ex_event_seq e = 0"
  shows "sound R t t'"
proof (cases "get_record t (execution_key R (ex_id e))")
  case (Some r)
  from executions_okD(2) [OF ok] Some obtain f where "exec_at R (ex_id e) t = Some f" by (rule rows_execution)
  with run ok Some show ?thesis
    by (auto simp: create_execution_txn_def eres read_execution_eq [OF executions_okD(2) [OF ok]])
next
  case None
  with run obtain n u where n: "build_execution e = Inr n" and i: "insert_record (execution_row R n) t = Inr (u, t')"
    by (auto simp: create_execution_txn_def eres read_execution_eq [OF executions_okD(2) [OF ok]])
  note n' = build_execution_Inr [OF n]
  have t': "t' = put_record (execution_key R (ex_id e)) ((execution_row R e)\<lparr>rec_revision := 0\<rparr>) t"
    using i n' by (simp add: insert_record_eq row_plain)
  have none: "exec_at R (ex_id e) t = None" using None by (simp add: exec_at_def)
  from step_quiet [OF moved_put [OF cf refl conjunct2 [OF n']] ok cf, of 0] none new show ?thesis
    by (simp add: sound_def t' seq_at_def)
qed

lemma put_seal_unseen:
  assumes run: "put_seal_txn R s t = Inr (v, t')" and cf: "collision_free (rp_sha R)"
  shows "unseen R t t'"
proof (cases "get_record t (seal_key R (hs_execution s))")
  case (Some r)
  with run show ?thesis by (auto simp: put_seal_txn_def eres)
next
  case None
  let ?r = "project_record R ''execution_history_seal'' (JStr (hs_execution s)) (History_seal s) None None None"
  from None run obtain u where "insert_record ?r t = Inr (u, t')" by (auto simp: put_seal_txn_def eres)
  then have t': "t' = put_record (rec_key ?r) ?r t" by (simp add: insert_record_eq)
  have "rec_key ?r = seal_key R (hs_execution s)" by (simp add: project_record_def Let_def seal_key_def)
  with put_elsewhere [of ?r R t] cf show ?thesis by (simp add: t')
qed

end
