(* ===== verification/Execution_Steps.thy ===== *)
theory Execution_Steps
  imports Execution_Ends
begin

text \<open>
  Runs over the executions of a store.  \<open>exec_op\<close> is one operation inside a transaction, with what
  its callers guarantee as its side conditions: a compare-and-set keeps the control columns, a
  receipt was confirmed, a new execution has no events, an idempotency record keeps its identity.
  \<open>exec_step\<close> is the commit of a transaction of such operations and \<open>exec_runs\<close> any number of
  commits.  What holds of the sequence numbers, revisions, generations and idempotency keys of a
  store is proved once over these runs.
\<close>

section \<open>One operation\<close>

inductive exec_op :: "repo \<Rightarrow> execution_txn \<Rightarrow> execution_txn \<Rightarrow> bool" for R where
  create: "create_execution_txn R e t = Inr (v, t') \<Longrightarrow> ex_event_seq e = 0 \<Longrightarrow> exec_op R t t'"
| swap: "swap_execution_txn R x n e t = Inr (v, t') \<Longrightarrow>
    (\<And>old. exec_at R x t = Some old \<Longrightarrow> ex_revision old = n \<Longrightarrow> keeps_control old e) \<Longrightarrow> exec_op R t t'"
| boundary: "commit_boundary_txn R ob e generation claim t = Inr (w, t') \<Longrightarrow> confirmed R ob t \<Longrightarrow>
    ex_event_seq e = ex_event_seq (ob_execution ob) \<Longrightarrow> exec_op R t t'"
| append: "append_events_txn R x events expected t = Inr (records, t') \<Longrightarrow> exec_op R t t'"
| transition: "transition_execution_txn R q t = Inr (v, t') \<Longrightarrow> exec_op R t t'"
| task: "transition_task_txn R q t = Inr (v, t') \<Longrightarrow> exec_op R t t'"
| wait: "enter_wait_txn R x revision event_seq run_seq audit deferred occurred recovery t = Inr (v, t') \<Longrightarrow> exec_op R t t'"
| run: "claim_run_txn R status x revision expected run_seq claimed recovery t = Inr (v, t') \<Longrightarrow> exec_op R t t'"
| prepared: "claim_prepared_txn R x revision run_seq context claim recovery receipt t = Inr (v, t') \<Longrightarrow>
    (\<And>ob. receipt = Some ob \<Longrightarrow> confirmed R ob t) \<Longrightarrow> exec_op R t t'"
| cancel: "recovery_cancel_txn R e operation (append_operation R a) t = Inr (b, t') \<Longrightarrow> exec_op R t t'"
| recovery: "transition_recovery_txn R e change t = Inr (v, t') \<Longrightarrow> exec_op R t t'"
| key_reserved: "reserve_idempotency_txn R i t = Inr (u, t') \<Longrightarrow> exec_op R t t'"
| key_swapped: "swap_idempotency_txn R s k status i t = Inr (j, t') \<Longrightarrow>
    (\<And>j. idem_at R s k t = Some j \<Longrightarrow> same_idempotency i j) \<Longrightarrow> exec_op R t t'"
| start: "reserve_start_txn R res context_write t = Inr (rr, t') \<Longrightarrow> ex_event_seq (sv_execution res) = 0 \<Longrightarrow>
    (\<And>w s s' u. context_write = Some w \<Longrightarrow> w s = Inr (u, s') \<Longrightarrow> unseen R s s') \<Longrightarrow> exec_op R t t'"
| started: "claim_start_txn R c t = Inr (v, t') \<Longrightarrow> exec_op R t t'"
| terminal: "commit_terminal_txn R tc pending t = Inr (tr, t') \<Longrightarrow> exec_op R t t'"
| closed_terminal: "commit_closed_terminal_txn R tc pending t = Inr (tr, t') \<Longrightarrow> exec_op R t t'"
| pending_turn: "insert_pending_turn_txn R res tc pending t = Inr (row, t') \<Longrightarrow> exec_op R t t'"
| hold: "acquire_hold_txn R x h t = Inr (ok, t') \<Longrightarrow> exec_op R t t'"
| release: "release_hold_txn R x h t = Inr (v, t') \<Longrightarrow> exec_op R t t'"
| close: "close_retention_txn R x receipt t = Inr (cv, t') \<Longrightarrow>
    (\<And>ob. receipt = Some ob \<Longrightarrow> confirmed R ob t) \<Longrightarrow> exec_op R t t'"
| guard_producer: "require_producer_txn R x generation allow t = Inr (p, t') \<Longrightarrow> exec_op R t t'"
| guard_history: "require_history_write_txn R x t = Inr (p, t') \<Longrightarrow> exec_op R t t'"
| guard_recovery: "guard_recovery_txn R e t = Inr (u, t') \<Longrightarrow> exec_op R t t'"
| guard_parent: "guard_parent_txn R e generation t = Inr (u, t') \<Longrightarrow> exec_op R t t'"
| seal: "put_seal_txn R hs t = Inr (hs', t') \<Longrightarrow> exec_op R t t'"
| elsewhere: "unseen R t t' \<Longrightarrow> exec_op R t t'"

lemmas operations_sound = append_events_sound transition_execution_sound transition_task_sound enter_wait_sound
  claim_run_sound claim_start_Inr transition_recovery_Inr reserve_idempotency_sound commit_terminal_sound
  commit_closed_terminal_sound insert_pending_turn_sound acquire_hold_sound release_hold_sound

lemma exec_op_sound:
  assumes "exec_op R t t'" and "executions_ok R t" and "collision_free (rp_sha R)"
  shows "sound R t t'"
  using assms(1)
proof cases
  case (swap x n e v)
  with swap_execution_Inr(1) [OF swap(1) assms(2,3)] show ?thesis by blast
next
  case (prepared x revision run_seq ctx claim recovery receipt v)
  with claim_prepared_sound [OF prepared(1) assms(2,3)] show ?thesis by blast
next
  case (cancel e operation a b)
  from recovery_cancel_sound [OF cancel assms(2,3)] append_operation_unseen show ?thesis by blast
next
  case (key_swapped s k status i j)
  with swap_idempotency_sound [OF key_swapped(1) assms(2,3)] show ?thesis by blast
next
  case (start res context_write rr)
  show ?thesis
    by (rule reserve_start_Inr [OF start(1) assms(2,3) _ start(2)], erule (1) start(3)) (simp_all add: assms(2))
next
  case (close x receipt cv)
  obtain b v where "cv = (b, v)" by (cases cv)
  with close_retention_Inr(1) [of R x receipt t b v t'] close assms(2,3) show ?thesis by blast
next
  case (guard_producer x generation allow p)
  obtain e g where "p = (e, g)" by (cases p)
  with guard_producer require_producer_Inr(1) [of R x generation allow t e g t'] assms(2) show ?thesis
    by (auto intro: sound_unseen)
qed (use assms(2,3) in \<open>blast intro: operations_sound(1-5,8-13) elim: operations_sound(6,7)
      intro: create_execution_sound commit_boundary_sound sound_unseen history_write_unseen guard_recovery_unseen
        guard_parent_unseen put_seal_unseen\<close>)+

section \<open>Commits\<close>

inductive exec_step :: "repo \<Rightarrow> execution_store \<Rightarrow> execution_store \<Rightarrow> bool" for R where
  commit: "rtranclp (exec_op R) (begin_txn now m) t \<Longrightarrow> t_error t = None \<Longrightarrow> exec_step R m (apply_transaction t m)"

inductive_cases exec_stepE: "exec_step R m m'"

abbreviation exec_runs :: "repo \<Rightarrow> execution_store \<Rightarrow> execution_store \<Rightarrow> bool" where
  "exec_runs R \<equiv> rtranclp (exec_step R)"

definition execs_ok :: "repo \<Rightarrow> execution_store \<Rightarrow> bool" where
  "execs_ok R m = (mem_ok m \<and> executions_ok R (begin_txn 0 m))"

lemma exec_ops_sound:
  "rtranclp (exec_op R) t t' \<Longrightarrow> executions_ok R t \<Longrightarrow> collision_free (rp_sha R) \<Longrightarrow> sound R t t'"
proof (induction rule: rtranclp_induct)
  case (step t1 t2)
  then have a: "sound R t t1" by simp
  then have "executions_ok R t1" by (simp add: sound_def)
  from executions_sound_trans [OF a exec_op_sound [OF step(2) this step(5)]] show ?case .
qed simp

text \<open>What the tables read depends on the records and facts alone.\<close>

lemma same_reads:
  assumes "get_record t' = get_record t" and "\<And>s n. get_fact t' s n = get_fact t s n"
  shows "exec_at R x t' = exec_at R x t" and "idem_at R s k t' = idem_at R s k t"
    and "txn_ok t' \<Longrightarrow> executions_ok R t \<Longrightarrow> executions_ok R t'"
proof -
  show e: "exec_at R x t' = exec_at R x t" for x by (simp add: exec_at_def assms(1))
  show "idem_at R s k t' = idem_at R s k t" by (simp add: idem_at_def assms(1))
  have "balanced R x n t' = balanced R x n t" for x n
    by (simp add: balanced_def seq_at_def log_numbered_def e assms(2))
  then show "txn_ok t' \<Longrightarrow> executions_ok R t \<Longrightarrow> executions_ok R t'"
    by (simp add: executions_ok_def rows_ok_def seq_at_def e assms(1))
qed

lemma begin_reads: "get_record (begin_txn now m) = get_record (begin_txn 0 m)"
    "get_fact (begin_txn now m) s n = get_fact (begin_txn 0 m) s n"
  by (simp_all add: get_fact_def)

lemmas begin_same = same_reads [OF begin_reads]

lemma execs_ok_begin: "execs_ok R m \<Longrightarrow> executions_ok R (begin_txn now m)"
  unfolding execs_ok_def by (blast intro: begin_same(3) mem_ok_txn)

definition progresses :: "repo \<Rightarrow> execution_store \<Rightarrow> execution_store \<Rightarrow> bool" where
  "progresses R m m' =
     ((\<forall>x e. exec_at R x (begin_txn 0 m) = Some e \<longrightarrow> (\<exists>e'. exec_at R x (begin_txn 0 m') = Some e' \<and> succeeds e e')) \<and>
      (\<forall>s n f. get_fact (begin_txn 0 m) s n = Some f \<longrightarrow> get_fact (begin_txn 0 m') s n = Some f) \<and>
      (\<forall>s k i. idem_at R s k (begin_txn 0 m) = Some i \<longrightarrow>
         (\<exists>i'. idem_at R s k (begin_txn 0 m') = Some i' \<and> same_idempotency i' i)))"

lemma progresses_refl: "progresses R m m"
  by (simp add: progresses_def)

lemma progresses_trans: "progresses R m m1 \<Longrightarrow> progresses R m1 m2 \<Longrightarrow> progresses R m m2"
  unfolding progresses_def by (meson same_idempotency_trans succeeds_trans)

lemma commit_sound:
  assumes s: "sound R (begin_txn now m) t" and ok: "execs_ok R m"
  shows "execs_ok R (apply_transaction t m)" and "progresses R m (apply_transaction t m)"
    and "exec_at R x (begin_txn n (apply_transaction t m)) = exec_at R x t"
    and "idem_at R k j (begin_txn n (apply_transaction t m)) = idem_at R k j t"
    and "get_fact (begin_txn n (apply_transaction t m)) f i = get_fact t f i"
proof -
  let ?m = "apply_transaction t m"
  from s have t: "executions_ok R t" "tables_evolve R (begin_txn now m) t" by (simp_all add: sound_def)
  then have over: "txn_over m t" "txn_ok t" using executions_okD(1) by (auto simp: tables_evolve_def)
  note a = apply_transaction_get [OF over(2,1)]
  have rd: "get_record (begin_txn n ?m) = get_record t" "get_fact (begin_txn n ?m) s i = get_fact t s i" for n s i
    using a by (simp_all add: get_fact_def)
  then show "get_fact (begin_txn n ?m) f i = get_fact t f i" by simp
  note st = same_reads [OF rd]
  show "exec_at R x (begin_txn n ?m) = exec_at R x t" "idem_at R k j (begin_txn n ?m) = idem_at R k j t"
    by (simp_all only: st)
  have "mem_ok ?m" using mem_ok_apply [OF over(2,1)] ok by (simp add: execs_ok_def)
  then show "execs_ok R ?m" using st(3) [OF mem_ok_txn t(1)] by (simp add: execs_ok_def)
  show "progresses R m ?m"
    using t(2) unfolding progresses_def tables_evolve_def st(1,2) rd(2) begin_same(1,2) [where now = now] begin_reads(2) [where now = now] by blast
qed

lemma exec_step_sound:
  assumes "exec_step R m m'" and "execs_ok R m" and "collision_free (rp_sha R)"
  shows "execs_ok R m'" and "progresses R m m'"
proof -
  from assms(1) obtain now t where t: "rtranclp (exec_op R) (begin_txn now m) t" "m' = apply_transaction t m"
    by (rule exec_stepE) blast
  from exec_ops_sound [OF t(1) execs_ok_begin [OF assms(2)] assms(3)]
  show "execs_ok R m'" "progresses R m m'" unfolding t(2) by (rule commit_sound [OF _ assms(2)])+
qed

lemma exec_runs_sound:
  assumes "exec_runs R m m'" and "execs_ok R m" and "collision_free (rp_sha R)"
  shows "execs_ok R m' \<and> progresses R m m'"
  using assms(1)
proof induction
  case (step m1 m2)
  then show ?case using exec_step_sound [OF step(2)] assms(3) by (blast intro: progresses_trans)
qed (simp add: assms progresses_refl)

text \<open>One operation that commits.\<close>

lemma mutate_Inr:
  assumes "mem_mutate now fn m = (Inr v, m')"
  obtains t where "fn (begin_txn now m) = Inr (v, t)" "m' = apply_transaction t m"
  using assms by (auto simp: mem_mutate_def split: sum.splits prod.splits option.splits)

lemma mutate_step:
  assumes "mem_mutate now fn m = (Inr v, m')" and "\<And>t. fn (begin_txn now m) = Inr (v, t) \<Longrightarrow> exec_op R (begin_txn now m) t"
  obtains t where "fn (begin_txn now m) = Inr (v, t)" "m' = apply_transaction t m" "exec_step R m m'"
    "exec_op R (begin_txn now m) t"
proof -
  from assms(1) obtain t where t: "fn (begin_txn now m) = Inr (v, t)" "t_error t = None" "m' = apply_transaction t m"
    by (auto simp: mem_mutate_def split: sum.splits prod.splits option.splits)
  have "exec_step R m m'"
    unfolding t(3) by (rule exec_step.commit [OF r_into_rtranclp t(2)]) (rule assms(2) [OF t(1)])
  with assms(2) [OF t(1)] show ?thesis by (intro that [OF t(1,3)])
qed

section \<open>Revisions and generations\<close>

text \<open>A write that expects a revision finds it, and one for a generation finds its producer.\<close>

lemma swap_current:
  "swap_execution_txn R x n e t = Inr (v, t') \<Longrightarrow> rows_ok R t \<Longrightarrow> \<exists>old. exec_at R x t = Some old \<and> ex_revision old = n"
  by (auto simp: swap_execution_txn_def eres load_execution_Inr)

inductive expects :: "repo \<Rightarrow> string \<Rightarrow> int \<Rightarrow> execution_txn \<Rightarrow> bool" for R x n t where
  swap: "swap_execution_txn R x n e t = Inr (v, t') \<Longrightarrow> expects R x n t"
| transition: "transition_execution_txn R q t = Inr (v, t') \<Longrightarrow> tq_execution q = x \<Longrightarrow> tq_revision q = n \<Longrightarrow> expects R x n t"
| run: "claim_run_txn R status x n event_seq run_seq producer recovery t = Inr (v, t') \<Longrightarrow> expects R x n t"
| start: "claim_start_txn R c t = Inr (v, t') \<Longrightarrow> cl_execution c = x \<Longrightarrow> cl_revision c = n \<Longrightarrow> expects R x n t"
| recovery: "transition_recovery_txn R e change t = Inr (v, t') \<Longrightarrow> ex_id e = x \<Longrightarrow> ex_revision e = n \<Longrightarrow> expects R x n t"
| terminal: "commit_terminal_txn R tc pending t = Inr (tr, t') \<Longrightarrow> ex_id (tm_execution tc) = x \<Longrightarrow> tm_revision tc = n \<Longrightarrow>
    expects R x n t"

lemma expects_current:
  assumes "expects R x n t" and ok: "executions_ok R t" and cf: "collision_free (rp_sha R)"
  shows "\<exists>e. exec_at R x t = Some e \<and> ex_revision e = n"
  using assms(1)
proof cases
  case (swap e v t')
  then show ?thesis using executions_okD(2) [OF ok] by (rule swap_current)
next
  case (transition q v t')
  from transition_execution_Inr [OF transition(1) ok cf] transition(2,3) show ?thesis by metis
next
  case (run status event_seq run_seq producer recovery v t')
  from claim_run_Inr [OF run ok cf] show ?thesis by metis
next
  case (start c v t')
  from claim_start_Inr [OF start(1) ok cf] start(2,3) show ?thesis by metis
next
  case (recovery e change v t')
  from transition_recovery_Inr [OF recovery(1) ok cf] recovery(2,3) show ?thesis by metis
next
  case (terminal tc pending tr t')
  from commit_terminal_Inr [OF terminal(1) ok cf] terminal(2,3) show ?thesis unfolding commit_fits_def by metis
qed

inductive serves :: "repo \<Rightarrow> string \<Rightarrow> int \<Rightarrow> execution_txn \<Rightarrow> bool" for R x g t where
  guard: "require_producer_txn R x g allow t = Inr (p, t') \<Longrightarrow> serves R x g t"
| recovery: "transition_recovery_txn R e change t = Inr (v, t') \<Longrightarrow> ex_id e = x \<Longrightarrow> rg_generation change = Some g \<Longrightarrow>
    serves R x g t"
| terminal: "commit_terminal_txn R tc pending t = Inr (tr, t') \<Longrightarrow> ex_id (tm_execution tc) = x \<Longrightarrow>
    ex_generation (tm_execution tc) = g \<Longrightarrow> serves R x g t"

lemma serves_current:
  assumes "serves R x g t" and ok: "executions_ok R t" and cf: "collision_free (rp_sha R)"
  shows "\<exists>e. exec_at R x t = Some e \<and> ex_generation e = g"
  using assms(1)
proof cases
  case (guard allow p t')
  then show ?thesis using require_producer_Inr(2,3) [OF _ ok] by (cases p) blast
next
  case (recovery e change v t')
  from transition_recovery_Inr [OF recovery(1) ok cf] recovery(2,3) show ?thesis by metis
next
  case (terminal tc pending tr t')
  from commit_terminal_Inr [OF terminal(1) ok cf] terminal(2,3) show ?thesis unfolding commit_fits_def by metis
qed

definition past :: "repo \<Rightarrow> (execution \<Rightarrow> int) \<Rightarrow> string \<times> int \<Rightarrow> execution_store \<Rightarrow> bool" where
  "past R col = (\<lambda>(x, n) m. \<exists>e. exec_at R x (begin_txn 0 m) = Some e \<and> n < col e)"

lemma past_kept:
  assumes "exec_step R m m'" and "execs_ok R m \<and> collision_free (rp_sha R)" and "past R col i m"
    and grows: "\<And>e e'. succeeds e e' \<Longrightarrow> col e \<le> col e'"
  shows "past R col i m'"
proof -
  obtain x n where i: "i = (x, n)" by (cases i)
  with assms(3) obtain e where e: "exec_at R x (begin_txn 0 m) = Some e" "n < col e" by (auto simp: past_def)
  with exec_step_sound(2) [OF assms(1)] assms(2) obtain e' where
    "exec_at R x (begin_txn 0 m') = Some e'" "succeeds e e'" unfolding progresses_def by blast
  with e(2) grows [of e e'] i show ?thesis by (auto simp: past_def)
qed

lemma not_past:
  assumes "\<exists>e. exec_at R x (begin_txn now m) = Some e \<and> col e = n"
  shows "\<not> past R col (x, n) m"
  using assms unfolding begin_same(1) [where now = now] by (auto simp: past_def)

lemma succeeds_grows: "succeeds e e' \<Longrightarrow> ex_revision e \<le> ex_revision e'" "succeeds e e' \<Longrightarrow> ex_generation e \<le> ex_generation e'"
  by (auto simp: succeeds_def)

definition admits_revision :: "repo \<Rightarrow> string \<times> int \<Rightarrow> execution_store \<Rightarrow> bool" where
  "admits_revision R = (\<lambda>(x, n) m. execs_ok R m \<and> collision_free (rp_sha R) \<and> (\<exists>now. expects R x n (begin_txn now m)))"

definition admits_producer :: "repo \<Rightarrow> string \<times> int \<Rightarrow> execution_store \<Rightarrow> bool" where
  "admits_producer R = (\<lambda>(x, n) m. execs_ok R m \<and> collision_free (rp_sha R) \<and> (\<exists>now. serves R x n (begin_txn now m)))"

interpretation revisions: dispatch_gate "exec_step R" "\<lambda>m. execs_ok R m \<and> collision_free (rp_sha R)"
  "past R ex_revision" "admits_revision R" for R
proof
  show "\<not> past R ex_revision i m" if "admits_revision R i m" for i m
    using that not_past [OF expects_current [OF _ execs_ok_begin]] by (cases i) (auto simp: admits_revision_def)
  show "past R ex_revision i m'" if "exec_step R m m'" "execs_ok R m \<and> collision_free (rp_sha R)" "past R ex_revision i m"
    for i m m'
    using that by (rule past_kept) (rule succeeds_grows)
qed (blast intro: exec_step_sound(1))

interpretation producers: dispatch_gate "exec_step R" "\<lambda>m. execs_ok R m \<and> collision_free (rp_sha R)"
  "past R ex_generation" "admits_producer R" for R
proof
  show "\<not> past R ex_generation i m" if "admits_producer R i m" for i m
    using that not_past [OF serves_current [OF _ execs_ok_begin]] by (cases i) (auto simp: admits_producer_def)
  show "past R ex_generation i m'" if "exec_step R m m'" "execs_ok R m \<and> collision_free (rp_sha R)" "past R ex_generation i m"
    for i m m'
    using that by (rule past_kept) (rule succeeds_grows)
qed (blast intro: exec_step_sound(1))

text \<open>Once the column of an execution is past a value, whatever expects the value is refused.\<close>

lemma revision_refused:
  assumes "exec_runs R m m'" and "execs_ok R m" and "collision_free (rp_sha R)" and "past R ex_revision (x, n) m"
  shows "\<not> expects R x n (begin_txn now m')"
  using revisions.refused_forever [OF assms(1) _ assms(4)] exec_runs_sound [OF assms(1-3)] assms(2,3)
  by (auto simp: admits_revision_def)

lemma producer_refused:
  assumes "exec_runs R m m'" and "execs_ok R m" and "collision_free (rp_sha R)" and "past R ex_generation (x, n) m"
  shows "\<not> serves R x n (begin_txn now m')"
  using producers.refused_forever [OF assms(1) _ assms(4)] exec_runs_sound [OF assms(1-3)] assms(2,3)
  by (auto simp: admits_producer_def)

lemma refused_iff: "isl a \<longleftrightarrow> (\<forall>v t. a \<noteq> Inr (v, t))"
  by (cases a) auto

section \<open>What a commit settles\<close>

text \<open>A claimed run is past the revision and the generation it found.\<close>

lemma claim_run_past:
  assumes "mem_mutate now (claim_run_txn R status x revision event_seq run_seq producer recovery) m = (Inr e, m1)"
    and "execs_ok R m" and "collision_free (rp_sha R)"
  shows "execs_ok R m1 \<and> past R ex_revision (x, revision) m1"
    and "exec_at R x (begin_txn 0 m) = Some old \<Longrightarrow> generation \<le> ex_generation old \<Longrightarrow>
      execs_ok R m1 \<and> past R ex_generation (x, generation) m1"
proof -
  from assms(1) obtain t where t: "claim_run_txn R status x revision event_seq run_seq producer recovery (begin_txn now m) = Inr (e, t)"
      "m1 = apply_transaction t m"
    by (rule mutate_Inr)
  from t(1) execs_ok_begin [OF assms(2)] assms(3) obtain f where
    f: "exec_at R x (begin_txn now m) = Some f" "ex_generation f < ex_generation e" "ex_revision e = revision + 1"
      "sound R (begin_txn now m) t" "exec_at R x t = Some e"
    by (rule claim_run_Inr)
  note st = commit_sound [OF f(4) assms(2), folded t(2)]
  show "execs_ok R m1 \<and> past R ex_revision (x, revision) m1" using st(1) f(3,5) by (simp add: past_def st(3))
  show "execs_ok R m1 \<and> past R ex_generation (x, generation) m1"
    if "exec_at R x (begin_txn 0 m) = Some old" "generation \<le> ex_generation old"
    using that st(1) f(1,2,5) begin_same(1) [where now = now] by (simp add: past_def st(3))
qed

text \<open>Once a reservation has committed, its key leads to the execution it returned.\<close>

lemma reserve_start_taken:
  assumes "mem_mutate now (reserve_start_txn R v write_context) m = (Inr res, m1)"
    and ok: "execs_ok R m" and cf: "collision_free (rp_sha R)" and seq: "ex_event_seq (sv_execution v) = 0"
    and id: "id_resource (sv_idempotency v) = ex_id (sv_execution v)"
    and cw: "\<And>w s s' u. write_context = Some w \<Longrightarrow> w s = Inr (u, s') \<Longrightarrow> unseen R s s'"
  obtains i where "idem_at R (id_scope (sv_idempotency v)) (id_key (sv_idempotency v)) (begin_txn 0 m1) = Some i"
    "same_identity i (sv_idempotency v)" "id_resource i = ex_id (rv_execution res)" "execs_ok R m1"
proof -
  from assms(1) obtain t where t: "reserve_start_txn R v write_context (begin_txn now m) = Inr (res, t)"
      "m1 = apply_transaction t m"
    by (rule mutate_Inr)
  note ok' = execs_ok_begin [OF ok]
  have "\<exists>i. idem_at R (id_scope (sv_idempotency v)) (id_key (sv_idempotency v)) t = Some i \<and>
      same_identity i (sv_idempotency v) \<and> id_resource i = ex_id (rv_execution res) \<and> sound R (begin_txn now m) t"
  proof (rule reserve_start_Inr [OF t(1) ok' cf _ seq], erule (1) cw)
    fix i assume i: "idem_at R (id_scope (sv_idempotency v)) (id_key (sv_idempotency v)) (begin_txn now m) = Some i"
      "same_identity i (sv_idempotency v)" "exec_at R (id_resource i) (begin_txn now m) = Some (rv_execution res)"
      "t = begin_txn now m"
    have "ex_id (rv_execution res) = id_resource i" using exec_at_id [OF executions_okD(2) [OF ok'] i(3)] .
    with i ok' show ?thesis by simp
  qed (use id in \<open>simp add: same_identity_def\<close>)
  then obtain i where i: "idem_at R (id_scope (sv_idempotency v)) (id_key (sv_idempotency v)) t = Some i"
      "same_identity i (sv_idempotency v)" "id_resource i = ex_id (rv_execution res)" and s: "sound R (begin_txn now m) t" by blast
  note st = commit_sound [OF s ok, folded t(2)]
  show ?thesis by (rule that [of i]) (use i st(1) in \<open>simp_all add: st(4)\<close>)
qed

end
