(* ===== verification/Execution_Reads.thy ===== *)
theory Execution_Reads
  imports Execution_Steps
begin

text \<open>
  What a reader of an execution sees: the pages of its log, and the execution behind an
  idempotency key.
\<close>

section \<open>Pages of the log\<close>

lemma event_query_run:
  assumes ok: "executions_ok R t" and after: "0 \<le> after"
  shows "list_facts (event_query (execution_stream R x) after n) t =
    map (\<lambda>i. the (get_fact t (execution_stream R x) i)) (take n [after + 1..seq_at R x t])"
proof -
  have "get_fact t (execution_stream R x) i \<noteq> None \<longleftrightarrow> 1 \<le> i \<and> i \<le> seq_at R x t" for i
    using executions_okD(3) [OF ok, of x] unfolding balanced_def log_numbered_def by blast
  from stream_run [OF executions_okD(1) [OF ok] this after] show ?thesis unfolding event_query_def .
qed

definition event_of :: "string \<Rightarrow> details stored_fact \<Rightarrow> event_record" where
  "event_of x f = \<lparr>er_execution = x, er_seq = fact_sequence f, er_type = fact_kind f, er_payload = fact_data f\<rparr>"

lemma stored_event_seq:
  assumes ok: "executions_ok R t" and "1 \<le> i" and "i \<le> seq_at R x t"
  shows "fact_sequence (the (get_fact t (execution_stream R x) i)) = i"
proof -
  have "get_fact t (execution_stream R x) i \<noteq> None"
    using executions_okD(3) [OF ok, of x] assms(2,3) unfolding balanced_def log_numbered_def by blast
  moreover have "keyed fact_key (t_facts t)" using executions_okD(1) [OF ok] by (rule txn_okD)
  ultimately show ?thesis by (auto simp: get_fact_def fact_key_def dest: keyed_get)
qed

lemma list_execution_events_Inr:
  assumes run: "list_execution_events R x (rp_tenant R) after limit t = Inr (items, cursor)" and ok: "executions_ok R t"
  shows "items = map (\<lambda>i. event_of x (the (get_fact t (execution_stream R x) i))) (take (nat limit) [after + 1..seq_at R x t])"
    and "map er_seq items = take (nat limit) [after + 1..seq_at R x t]"
    and "cursor = (if after + limit < seq_at R x t then Some (json_int (after + limit)) else None)"
proof -
  let ?s = "execution_stream R x" and ?L = "seq_at R x t" and ?n = "nat limit"
  let ?look = "\<lambda>i. the (get_fact t ?s i)"
  let ?short = "list_facts (event_query ?s after (min (?n + 1) 1000)) t"
  let ?vs = "if limit = 1000 \<and> length ?short = 1000
    then ?short @ take 1 (list_facts (event_query ?s (fact_sequence (last ?short)) 1) t) else ?short"
  from run have lim: "1 \<le> limit" "limit \<le> 1000" "0 \<le> after" and
    items: "emap (\<lambda>f. make_event_record (event_of x f)) (take ?n ?vs) = Inr items" and
    cur: "cursor = (if ?n < length ?vs \<and> items \<noteq> [] then Some (json_int (er_seq (last items))) else None)"
    by (simp_all only: list_execution_events_def Let_def event_of_def ensure_eq_Inr ebind_eq_Inr if_False simp_thms
        sum.inject prod.inject) blast+
  note q = event_query_run [OF ok]
  have vs: "?vs = map ?look (take (?n + 1) [after + 1..?L])"
  proof (cases "limit = 1000 \<and> length ?short = 1000")
    case False
    then show ?thesis using lim by (auto simp: q min_def)
  next
    case True
    then have n: "?n = 1000" and len: "after + 1000 \<le> ?L" using lim by (auto simp: q)
    have split: "[after + 1..?L] = [after + 1..after + 1000] @ [after + 1000 + 1..?L]"
      using upto_split2 [of "after + 1" "after + 1000" ?L] len by simp
    then have short: "?short = map ?look [after + 1..after + 1000]" using lim n by (simp add: q)
    have "last [after + 1..after + 1000] = after + 1000" by (subst last_conv_nth) auto
    then have f: "fact_sequence (last ?short) = after + 1000"
      unfolding short using lim len by (subst last_map) (auto simp: stored_event_seq [OF ok])
    have q1: "list_facts (event_query ?s (after + 1000) 1) t = map ?look (take 1 [after + 1000 + 1..?L])"
      using lim by (intro event_query_run [OF ok]) simp
    have "?vs = ?short @ take 1 (list_facts (event_query ?s (fact_sequence (last ?short)) 1) t)"
      by (rule if_P [OF True])
    also have "\<dots> = map ?look [after + 1..after + 1000] @ take 1 (map ?look (take 1 [after + 1000 + 1..?L]))"
      unfolding f q1 unfolding short ..
    also have "\<dots> = map ?look ([after + 1..after + 1000] @ take 1 [after + 1000 + 1..?L])"
      by (simp add: take_map)
    finally have "?vs = map ?look ([after + 1..after + 1000] @ take 1 [after + 1000 + 1..?L])" .
    moreover have "take (?n + 1) [after + 1..?L] = [after + 1..after + 1000] @ take 1 [after + 1000 + 1..?L]"
      unfolding split using n by simp
    ultimately show ?thesis by (simp only:)
  qed
  have "items = map (event_of x) (take ?n ?vs)"
  proof -
    have "make_event_record v = Inr w \<Longrightarrow> w = v" for v w by (simp add: make_event_record_def ensure_eq_Inr)
    then show ?thesis using emap_map [OF items, of id "event_of x"] by auto
  qed
  then show i: "items = map (\<lambda>i. event_of x (?look i)) (take ?n [after + 1..?L])"
    unfolding vs by (simp add: take_map min_def)
  show seqs: "map er_seq items = take ?n [after + 1..?L]"
    unfolding i map_map comp_def
    using lim stored_event_seq [OF ok] by (intro map_idI) (auto simp: event_of_def dest!: in_set_takeD)
  have len: "length items = min ?n (nat (?L - after))" by (simp add: i)
  show "cursor = (if after + limit < ?L then Some (json_int (after + limit)) else None)"
  proof (cases "after + limit < ?L")
    case True
    then have full: "length items = ?n" "items \<noteq> []" using len lim by auto
    have "er_seq (last items) = last (map er_seq items)" using full(2) by (simp add: last_map)
    also have "\<dots> = [after + 1..?L] ! (?n - 1)"
      unfolding seqs using True lim by (subst last_conv_nth) (auto simp: min_def)
    also have "\<dots> = after + limit" using True lim by (subst nth_upto) auto
    finally show ?thesis using True full lim unfolding cur vs by simp
  next
    case False
    then have "\<not> ?n < length ?vs" using lim unfolding vs by simp
    with False show ?thesis unfolding cur by simp
  qed
qed

end
