(* ===== verification/Execution_Samples.thy ===== *)
theory Execution_Samples
  imports Execution_Reads Budget_Samples
begin

text \<open>
  The life of an execution \<open>x\<close> for the witnesses, one commit after the other from the empty store:
  it is reserved under the key \<open>k\<close>, started, claimed by a run, taken over by another, and ended.
\<close>

definition sample_payload_ref :: stored_payload where
  "sample_payload_ref = \<lparr>sp_kind = Inline, sp_digest = sample_digest, sp_rest = JNull\<rparr>"

definition sample_metrics :: usage_metrics where
  "sample_metrics = \<lparr>um_requests = 1, um_tools = 0, um_input = 2, um_output = 3, um_cache_read = 0, um_cache_write = 0\<rparr>"

definition sample_execution :: execution where
  "sample_execution =
     \<lparr>ex_id = ''x'', ex_session = None, ex_parent = None, ex_root = ''x'', ex_previous = None, ex_fork_base = None,
      ex_lineage = RUN, ex_status = PENDING_START, ex_revision = 0, ex_event_seq = 0, ex_run_seq = 0, ex_error = None,
      ex_details = [], ex_created = 0, ex_updated = 0, ex_mode = Some ''run'', ex_planning = Some False,
      ex_thinking = JNull, ex_binding = Agent_binding ''a'' sample_digest JNull, ex_principal = ''p'',
      ex_principal_kind = ''user'', ex_input = JNull, ex_generation = 0, ex_claim = None, ex_parent_call = None,
      ex_memory = None, ex_conversation_run = None, ex_result = None, ex_instructions = None, ex_context = None,
      ex_imported = False, ex_diagnostics = None, ex_correlation = [], ex_attempt = 0, ex_deadline = None,
      ex_next_attempt = None, ex_holds = [], ex_capture = False, ex_closed = False, ex_started = None,
      ex_budget = None, ex_tool_response = None, ex_effects = ''live'', ex_restart = False, ex_trace = False,
      ex_conversation = False, ex_recovery = None, ex_seal = None\<rparr>"

definition sample_key :: idempotency where
  "sample_key =
     \<lparr>id_scope = ''s'', id_key = ''k'', id_request = sample_digest, id_kind = EXECUTION, id_resource = ''x'',
      id_status = RESERVED, id_result = None, id_error = None, id_created = 0, id_updated = 0\<rparr>"

definition sample_reservation :: start_reservation where
  "sample_reservation =
     \<lparr>sv_execution = sample_execution, sv_idempotency = sample_key, sv_budget = None, sv_parent_generation = None\<rparr>"

definition sample_start :: start_claim where
  "sample_start =
     \<lparr>cl_execution = ''x'', cl_revision = 0, cl_event_seq = 0, cl_scope = ''s'', cl_key = ''k'',
      cl_request = sample_digest, cl_started = 1\<rparr>"

definition new_store :: execution_store where
  "new_store =
     \<lparr>m_records = [], m_aliases = [], m_sequences = [], m_facts = [], m_operations = [], m_op_streams = []\<rparr>"

definition reserved_store :: execution_store where
  "reserved_store = snd (mem_mutate 0 (reserve_start_txn sample_repo sample_reservation None) new_store)"

definition started_store :: execution_store where
  "started_store = snd (mem_mutate 1 (claim_start_txn sample_repo sample_start) reserved_store)"

definition claimed_store :: execution_store where
  "claimed_store =
     snd (mem_mutate 2 (claim_run_txn sample_repo STARTED ''x'' 1 None 0 (Some ''c'') None) started_store)"

definition taken_store :: execution_store where
  "taken_store =
     snd (mem_mutate 3 (claim_run_txn sample_repo STARTED ''x'' 2 None 1 (Some ''d'') None) claimed_store)"

definition sample_commit :: terminal_commit where
  "sample_commit =
     \<lparr>tm_revision = 1, tm_event_seq = 1,
      tm_execution = (started_execution sample_start sample_execution)\<lparr>ex_status := EX_SUCCEEDED\<rparr>,
      tm_result = \<lparr>rs_output = Some sample_payload_ref, rs_stop = END_TURN, rs_usage = sample_metrics, rs_created = 4\<rparr>,
      tm_event = ''EXECUTION_SUCCEEDED'', tm_payload = [],
      tm_idempotency = Some \<lparr>iu_scope = ''s'', iu_key = ''k'', iu_expected = ID_STARTED, iu_next = COMPLETED,
        iu_request = sample_digest, iu_result = Some sample_digest, iu_error = None\<rparr>,
      tm_operation = None, tm_generation = None\<rparr>"

definition ended_store :: execution_store where
  "ended_store = snd (mem_mutate 4 (commit_terminal_txn sample_repo sample_commit []) started_store)"

text \<open>Each commit goes through.\<close>

lemma reserved_life:
  "\<exists>v. mem_mutate 0 (reserve_start_txn sample_repo sample_reservation None) new_store = (Inr v, reserved_store)"
  unfolding reserved_store_def by (rule mutated) code_simp

lemma started_life:
  "\<exists>v. mem_mutate 1 (claim_start_txn sample_repo sample_start) reserved_store = (Inr v, started_store)"
  unfolding started_store_def by (rule mutated) code_simp

lemma claimed_life:
  "\<exists>v. mem_mutate 2 (claim_run_txn sample_repo STARTED ''x'' 1 None 0 (Some ''c'') None) started_store = (Inr v, claimed_store)"
  unfolding claimed_store_def by (rule mutated) code_simp

lemma taken_life:
  "\<exists>v. mem_mutate 3 (claim_run_txn sample_repo STARTED ''x'' 2 None 1 (Some ''d'') None) claimed_store = (Inr v, taken_store)"
  unfolding taken_store_def by (rule mutated) code_simp

lemma ended_life:
  "\<exists>v. mem_mutate 4 (commit_terminal_txn sample_repo sample_commit []) started_store = (Inr v, ended_store)"
  unfolding ended_store_def by (rule mutated) code_simp

lemmas sample_lives = reserved_life started_life claimed_life taken_life ended_life

lemma new_store_ok: "execs_ok R new_store"
proof -
  have "txn_ok (begin_txn 0 new_store)"
    by (simp add: txn_ok_def new_store_def begin_txn_def get_record_def keyed_def ov_inv_new)
  moreover have "exec_at R x (begin_txn 0 new_store) = None" for x by (simp add: exec_at_def new_store_def)
  ultimately show ?thesis
    by (simp add: execs_ok_def executions_ok_def mem_ok_def balanced_def seq_at_def log_numbered_def rows_ok_def
        get_fact_def) (simp add: new_store_def)
qed

lemma sample_steps:
  "exec_step sample_repo new_store reserved_store" "exec_step sample_repo reserved_store started_store"
  "exec_step sample_repo started_store claimed_store" "exec_step sample_repo claimed_store taken_store"
  "exec_step sample_repo started_store ended_store"
proof -
  from sample_lives(1) show "exec_step sample_repo new_store reserved_store"
    by (elim exE) (erule mutate_step, rule exec_op.start, assumption, simp_all add: sample_reservation_def sample_execution_def)
  from sample_lives(2) show "exec_step sample_repo reserved_store started_store"
    by (elim exE) (erule mutate_step, erule exec_op.started)
  from sample_lives(3) show "exec_step sample_repo started_store claimed_store"
    by (elim exE) (erule mutate_step, erule exec_op.run)
  from sample_lives(4) show "exec_step sample_repo claimed_store taken_store"
    by (elim exE) (erule mutate_step, erule exec_op.run)
  from sample_lives(5) show "exec_step sample_repo started_store ended_store"
    by (elim exE) (erule mutate_step, erule exec_op.terminal)
qed

lemma sample_execs_ok:
  "execs_ok sample_repo reserved_store" "execs_ok sample_repo started_store" "execs_ok sample_repo claimed_store"
  "execs_ok sample_repo taken_store" "execs_ok sample_repo ended_store"
  using exec_step_sound(1) [OF sample_steps(1) new_store_ok sample_stores_ok(3)] exec_step_sound(1) [OF sample_steps(2) _ sample_stores_ok(3)]
    exec_step_sound(1) [OF sample_steps(3) _ sample_stores_ok(3)] exec_step_sound(1) [OF sample_steps(4) _ sample_stores_ok(3)]
    exec_step_sound(1) [OF sample_steps(5) _ sample_stores_ok(3)]
  by blast+

text \<open>What the stores hold follows from what the operations write.\<close>

lemma sample_reserved:
  "exec_at sample_repo ''x'' (begin_txn n reserved_store) = Some sample_execution"
proof -
  from reserved_life obtain v where "mem_mutate 0 (reserve_start_txn sample_repo sample_reservation None) new_store = (Inr v, reserved_store)" ..
  then obtain t where t: "reserve_start_txn sample_repo sample_reservation None (begin_txn 0 new_store) = Inr (v, t)"
      "reserved_store = apply_transaction t new_store" by (rule mutate_Inr)
  have "idem_at sample_repo s k (begin_txn 0 new_store) = None" for s k by (simp add: idem_at_def new_store_def)
  then have s: "sound sample_repo (begin_txn 0 new_store) t \<and> exec_at sample_repo ''x'' t = Some sample_execution"
    by (cases rule: reserve_start_Inr [OF t(1) execs_ok_begin [OF new_store_ok] sample_stores_ok(3)])
      (simp_all add: sample_reservation_def sample_execution_def)
  then show ?thesis unfolding t(2) commit_sound(3) [OF conjunct1 [OF s] new_store_ok] by (rule conjunct2)
qed

lemma sample_started:
  "exec_at sample_repo ''x'' (begin_txn n started_store) = Some (started_execution sample_start sample_execution)"
proof -
  from started_life obtain v where "mem_mutate 1 (claim_start_txn sample_repo sample_start) reserved_store = (Inr v, started_store)" ..
  then obtain t where t: "claim_start_txn sample_repo sample_start (begin_txn 1 reserved_store) = Inr (v, t)"
      "started_store = apply_transaction t reserved_store" by (rule mutate_Inr)
  from t(1) execs_ok_begin [OF sample_execs_ok(1)] sample_stores_ok(3)
  have s: "sound sample_repo (begin_txn 1 reserved_store) t \<and>
      exec_at sample_repo ''x'' t = Some (started_execution sample_start sample_execution)"
    by (rule claim_start_Inr) (use sample_reserved [of 1] in \<open>simp add: sample_start_def\<close>)
  then show ?thesis unfolding t(2) commit_sound(3) [OF conjunct1 [OF s] sample_execs_ok(1)] by (rule conjunct2)
qed

lemma sample_claimed:
  obtains e where "exec_at sample_repo ''x'' (begin_txn 0 claimed_store) = Some e" "ex_revision e = 2" "ex_generation e = 2"
proof -
  from claimed_life obtain v where
    "mem_mutate 2 (claim_run_txn sample_repo STARTED ''x'' 1 None 0 (Some ''c'') None) started_store = (Inr v, claimed_store)" ..
  then obtain t where t: "claim_run_txn sample_repo STARTED ''x'' 1 None 0 (Some ''c'') None (begin_txn 2 started_store) = Inr (v, t)"
      "claimed_store = apply_transaction t started_store" by (rule mutate_Inr)
  from t(1) execs_ok_begin [OF sample_execs_ok(2)] sample_stores_ok(3)
  have s: "sound sample_repo (begin_txn 2 started_store) t \<and> exec_at sample_repo ''x'' t = Some v \<and> ex_revision v = 2 \<and>
      ex_generation v = 2"
    by (rule claim_run_Inr) simp
  with that [of v] show ?thesis unfolding t(2) commit_sound(3) [OF conjunct1 [OF s] sample_execs_ok(2)] by blast
qed

end
