(* ===== verification/Spec2Isabelle.thy ===== *)
theory Spec2Isabelle
  imports Admission_Samples Execution_Samples
begin

text \<open>
  A verification of the durable task core of \<open>linktools-ai\<close>.  All paths below are relative to
  \<open>src/linktools-ai/src/linktools/ai/\<close>.

  \<^bold>\<open>The program.\<close>  A task graph is a set of nodes with dependencies.  It is submitted,
  admitted, and then executed by workers that know each other only through a store: a worker
  claims a node under a lease with a fence, binds an execution to it, renews the lease, hands the
  node off or returns it, and completes or fails it.  A scheduler polls the graph, an operator may
  cancel or recover it, and model requests and tool calls are charged to a budget that all
  executions of a tree share.  An execution is what a node or a session runs: it is reserved under an
  idempotency key, started, claimed by a producer, may wait, be cancelled or be taken over after a
  crash, and ends with a result; its producer carries a generation that fences its writes, and
  its events form a log.  Each operation is one transaction of the store: it reads records,
  decides, writes records with a compare-and-set revision and appends events to the log of the
  graph.  A commit whose outcome is unknown is classified by reading the store back.

  The parts call each other from the bottom up:

  \<^item> the \<^emph>\<open>values\<close>: error codes and the checks of text and leases (\<open>errors.py\<close>,
    \<open>core/_validation.py\<close>, \<open>core/_value.py\<close>: \<open>Core_Values\<close>), the canonical encoding
    whose digests are the keys of the store (\<open>core/_json.py\<close>: \<open>Canonical_Json\<close>), the
    stored records, facts, operations and queries (\<open>persistence/state.py\<close>:
    \<open>State_Records\<close>);
  \<^item> the \<^emph>\<open>store\<close>: the overlay and the transaction of
    \<open>persistence/_memory_transaction.py\<close> with the commit of \<open>persistence/_memory.py\<close>
    (\<open>Memory_Overlay\<close>, \<open>Memory_Store\<close>); a method of the transaction is a function from
    the record of its overlays to an error or a result with the new record;
  \<^item> the \<^emph>\<open>graphs\<close>: nodes, views, leases, results and limits and the graph itself with its
    deterministic order (\<open>task/_graph.py\<close>: \<open>Task_Values\<close>, \<open>Task_Graph\<close>), the
    status of a graph from its nodes and the reconciliation (\<open>persistence/_task_state.py\<close>:
    \<open>Task_State\<close>), the event log with the JSON payload of an event and its decoder
    (\<open>task/_event.py\<close>, \<open>persistence/_task_events.py\<close>: \<open>Task_Events\<close>), whose times are
    text in ISO 8601 (\<open>datetime.isoformat\<close> and \<open>fromisoformat\<close>: \<open>Datetimes\<close>);
  \<^item> the \<^emph>\<open>task repository\<close>: projections, keys and the operation ledger
    (\<open>persistence/_repository_common.py\<close>, \<open>core/_operation.py\<close>: \<open>Repo_Base\<close>,
    \<open>Operation_Values\<close>) and
    the operations of \<open>persistence/_task_repository.py\<close>: shared steps (\<open>Task_Repo\<close>), the
    operations of a worker (\<open>Task_Lease_Ops\<close>), those that end a node
    (\<open>Task_Terminal_Ops\<close>), those of scheduler and operator (\<open>Task_Control_Ops\<close>) and the
    reads (\<open>Task_Reads\<close>).  The definition \<open>f_txn\<close> is the callback of the method \<open>f\<close>
    that runs in the transaction; the definition \<open>f\<close> adds the checks, the commit, the retries
    and the read-back;
  \<^item> the \<^emph>\<open>admission repository\<close>: what is submitted (\<open>Admission_Values\<close>) and the
    operations of \<open>persistence/_task_admission_repository.py\<close> that prepare, admit, cancel and
    list submissions (\<open>Task_Admission\<close>, \<open>Task_Admission_Reads\<close>);
  \<^item> the \<^emph>\<open>budget\<close>: the values (\<open>core/_budget.py\<close>,
    \<open>persistence/_budget_records.py\<close>: \<open>Budget_Values\<close>), the durable commit
    (\<open>persistence/durability.py\<close>: \<open>Durability\<close>) and the repository
    (\<open>persistence/_budget.py\<close>: \<open>Budget_Repo\<close>);
  \<^item> the \<^emph>\<open>executions\<close>: the records of an execution with their constructors
    (\<open>execution/_records.py\<close>: \<open>Execution_Values\<close>) and the three repositories of
    \<open>persistence/_execution_repositories.py\<close>: rows, guards, compare-and-set and events
    (\<open>Execution_Repo\<close>), and start, claims, waits, cancellation, recovery, the commit of the
    end, pending turns, holds and seals (\<open>Execution_Ops\<close>).  Starting an execution opens its
    budget, committing its end settles an operation of the ledger.

  \<^bold>\<open>The lemmas.\<close>

  \<^item> \<open>Prelude\<close> holds the error monad with its inversion rules and the facts on sorted lists.
  \<^item> \<open>Store_Invariants\<close> and \<open>Store_Effects\<close>: every operation of a transaction keeps
    \<open>txn_ok\<close>, what it changes, and the commit as the store a transaction shows.
  \<^item> \<open>Store_Contracts\<close>: the interfaces as locales.  \<open>cas_table\<close> (no lost update),
    \<open>fenced_lease\<close> (a superseded lease is refused), \<open>paged_listing\<close> (a scan by pages is
    the scan; instantiated for records, aliases, sequences, facts and operations) and
    \<open>dispatch_gate\<close> (a step relation on stores under which a refusal is final).
    The locale \<open>topological_sorting\<close> of \<open>Task_Graph\<close> gives orders and depths from the
    relation of dependencies.
  \<^item> \<open>Task_Status\<close>: the status of a graph from the few definitions that completing and failing
    read.
  \<^item> \<open>Task_Lease_Facts\<close>, \<open>Task_Fence\<close>, \<open>Task_Terminal_Facts\<close>: what each operation on
    a node stores, and that it needs the lease the node carries.  \<open>node_moved\<close> and
    \<open>node_ended\<close> are their common specifications.
  \<^item> \<open>Task_Quiet\<close>, \<open>Task_Projection\<close>, \<open>Task_Transition\<close>: the refinement.  The
    records of a graph project to an abstract state (\<open>projects\<close>), and a transition of the
    repository replaces that state and logs the difference.
  \<^item> \<open>Task_Frames\<close>, \<open>Task_Lifecycle\<close>, \<open>Task_Runs\<close>, \<open>Task_Outcomes\<close>: the
    life of a node as a relation on phases (\<open>phase_step\<close>), each operation as a sound step, the
    runs of a store (\<open>store_step\<close>, \<open>runs\<close>) and the invariants by rule induction; what
    control operations make of a graph.
  \<^item> \<open>Budget_Facts\<close>, \<open>Budget_Steps\<close>: the ledger invariant \<open>budgets_ok\<close>, which
    recomputes every counter from the reservations, and the steps that keep it; admissions of a
    dispatch as an instance of \<open>dispatch_gate\<close>.
  \<^item> \<open>Task_Admission_Facts\<close>, \<open>Task_Submission_Steps\<close>: an admission creates the initial
    abstract state; the operations touch only their graph, and a withdrawn submission stays
    withdrawn (the second instance of \<open>dispatch_gate\<close>).
  \<^item> \<open>Execution_Facts\<close>, \<open>Execution_Sound\<close>, \<open>Execution_Ends\<close>: the store as a
    table of executions and of idempotency records, the invariant \<open>executions_ok\<close>, and each
    operation as a \<open>sound\<close> step of these tables.  \<open>Execution_Steps\<close>: the commits of
    any sequence of operations (\<open>exec_op\<close>, \<open>exec_step\<close>, \<open>exec_runs\<close>), with the
    caller's guarantees as the side conditions of a step; revisions and generations as two more
    instances of \<open>dispatch_gate\<close>.  \<open>Execution_Reads\<close>: the pages of a log.
  \<^item> \<open>Samples\<close>, \<open>Budget_Samples\<close>, \<open>Admission_Samples\<close>,
    \<open>Execution_Samples\<close>: concrete stores on which the
    witnesses evaluate the operations.

  The properties of this theory are numbered by importance: the history of a node, the log and
  the producers of an execution, the fate of a superseded worker, keys and revisions (C1 to C6), the
  refinement of a transition (C7), the budget ledger (C8), the admission (C9, C10), then the single
  operations, the graph, the logs, the store and the encodings.  C39 and C40 state two defects
  of the code.  The theorems without a number belong to the same library.

  \<^bold>\<open>Conventions and bounds.\<close>  An exception is \<open>Inl\<close>: an \<open>AIError\<close> with its code and
  details, or a \<open>ValueError\<close> or \<open>TypeError\<close> of a constructor.  Python integers are
  \<open>int\<close>; times are integers in microseconds, and a lease time is a whole number of seconds.
  A JSON float has a whole value.  \<open>sha256\<close> is the parameter \<open>rp_sha\<close> of a repository; the
  facts that need different identities to have different keys assume \<open>collision_free\<close>, and
  each has a witness in which the digest is a concrete injective function.  The random ids of \<open>uuid4\<close>
  and the clock are arguments.  A retry is a recursion on the attempts of the code (16 for the
  event log and for a dispatch against the budget, 8 for the commit of a submission), so no fuel is added; what a
  later attempt finds, and when, is a function of the attempt.  The other recursions are structural, or on
  the length of the list the loop shortens: the order of a graph runs one round for each node, and the walk
  over the pages of a scan is given fuel that is shown to be enough.  A page of an execution's log of the largest
  size is read in two queries, here from one state of the store.

  \<^bold>\<open>Not modelled.\<close>  The wire encoding of records and of the events of an execution: they carry
  their value as a datatype, and a value of another type than the decoder expects is an integrity
  error.  The payload of a task event is modelled as the JSON object it is.  Of the spellings of a
  time, the reader knows the one that \<open>isoformat\<close> writes, with any offset.  The
  SQL store, which implements the same transactions by statements of a database; locks and the
  scheduling of \<open>asyncio\<close>, which the transactions make unobservable; the object store of
  large payloads; the budget repository's waiting for pending commits on \<open>close\<close>; the
  input context that the start of an execution publishes, a write elsewhere in the storage group that
  leaves its tables alone; the operation \<open>advance_event_seq\<close> is defined but is no step of a
  run, because it raises the event number without an event and has no caller; the service and the
  runner above the repositories; sessions, history, models, tools, the console and the command
  line, which are input and output.  The steps of submissions, of admitted graphs, of budgets and of executions are
  relations of their own, each with its own invariant.
\<close>

section \<open>Claims and leases\<close>

text \<open>C14: A worker that claims a node gets it only from a state that allows it (pending, ready, or
  running with an expired lease); the stored node is then running for this worker, with a
  fence one higher than before, and the lease returned carries that fence and the expiry
  computed from the time of the transaction.\<close>

theorem claim_takes_node:
  assumes "claim_txn R g n tenant owner seconds t = Inr (lease, t')" and "txn_ok t" and "log_gapless R g t"
  shows "\<exists>v. stored_view t (state_key R g n) = Some v \<and>
    (nv_status v \<in> {PENDING, READY} \<or> node_expired (t_now t) v) \<and>
    stored_view t' (state_key R g n) = Some (claimed v owner (t_now t + microseconds seconds)) \<and>
    ls_fence lease = nv_fence v + 1 \<and> ls_owner lease = owner \<and>
    ls_expires lease = t_now t + microseconds seconds"
proof -
  from claim_txn_effect [OF assms] obtain node where
    n: "nv_id node = n" "node_moved R g node (claimed node owner (t_now t + microseconds seconds)) t t'"
      "nv_status node \<in> {PENDING, READY} \<or> node_expired (t_now t) node"
      "ls_owner lease = owner" "ls_fence lease = nv_fence node + 1"
      "ls_expires lease = t_now t + microseconds seconds" .
  then have "stored_view t (state_key R g n) = Some (node\<lparr>nv_deps := []\<rparr>)"
      "stored_view t' (state_key R g n) = Some (claimed (node\<lparr>nv_deps := []\<rparr>) owner (t_now t + microseconds seconds))"
    by (auto simp: node_moved_def Let_def claimed_def)
  with n show ?thesis by (auto simp: node_expired_def)
qed

theorem claim_takes_node_witness:
  "\<exists>lease t' v. claim_txn sample_repo ''g'' ''a'' ''t'' ''w'' 60 sample_ready = Inr (lease, t') \<and>
     stored_view sample_ready (state_key sample_repo ''g'' ''a'') = Some v \<and>
     stored_view t' (state_key sample_repo ''g'' ''a'') =
       Some (claimed v ''w'' (t_now sample_ready + microseconds 60)) \<and> ls_fence lease = nv_fence v + 1"
  using sample_claim claim_takes_node [OF _ sample_ready_ok(1,2)] by blast

text \<open>C20: A node is claimed only when the stored states of its dependencies make it ready under the
  dependency policy of its definition.\<close>

theorem claim_waits_for_dependencies:
  assumes "claim_txn R g n tenant owner seconds t = Inr (lease, t')"
  shows "\<exists>r d. get_record t (definition_key R g n) = Some r \<and> decode_definition r = Inr d \<and>
    dependency_status d (\<lambda>x. map_option nv_status (stored_view t (state_key R g x))) = Inr READY"
  using assms by (rule claim_txn_dependencies)

theorem claim_waits_for_dependencies_witness:
  "\<exists>r d. get_record sample_ready (definition_key sample_repo ''g'' ''a'') = Some r \<and> decode_definition r = Inr d \<and>
    dependency_status d (\<lambda>x. map_option nv_status (stored_view sample_ready (state_key sample_repo ''g'' x))) = Inr READY"
  using sample_claim claim_waits_for_dependencies by blast

text \<open>C18: A claim takes exactly one execution slot of the graph, and after it the nodes that hold a
  slot (running with a live lease, or waiting and keeping their slot) are at most the
  concurrency limit the graph was admitted with.\<close>

theorem claim_respects_concurrency:
  assumes "claim_txn R g n tenant owner seconds t = Inr (lease, t')" and "txn_ok t" and "log_gapless R g t"
    and "columns_agree t" and "1 \<le> seconds"
  shows "\<exists>limits. graph_limits R g t = Inr limits \<and>
    card (slot_keys R g (t_now t) t') = card (slot_keys R g (t_now t) t) + 1 \<and>
    int (card (slot_keys R g (t_now t) t')) \<le> max_concurrency limits"
  using assms by (rule claim_txn_slots)

theorem claim_respects_concurrency_witness:
  "\<exists>lease t' limits. claim_txn sample_repo ''g'' ''a'' ''t'' ''w'' 60 sample_ready = Inr (lease, t') \<and>
    graph_limits sample_repo ''g'' sample_ready = Inr limits \<and>
    int (card (slot_keys sample_repo ''g'' (t_now sample_ready) t')) \<le> max_concurrency limits"
proof -
  have "1 \<le> (60::int)" by simp
  then show ?thesis
    using sample_claim claim_respects_concurrency [OF _ sample_ready_ok(1-3)] by blast
qed

text \<open>A worker whose claim was superseded can do nothing with its old lease: renewing, binding an
  execution, handing off, requeueing and publishing a prepared input all fail when the fence of
  the stored node differs from the fence of the lease.\<close>

theorem superseded_worker_refused:
  assumes "stored_view t (state_key R (ls_graph lease) (ls_node lease)) = Some v"
    and "nv_fence v \<noteq> ls_fence lease" and "txn_ok t"
  shows "isl (renew_txn R lease seconds clock t) \<and> isl (bind_execution_txn R lease execution t) \<and>
    isl (handoff_txn R lease execution occupies t) \<and> isl (requeue_retry_txn R lease execution next_attempt t) \<and>
    isl (publish_prepared_txn R lease p t)"
  by (intro conjI stale_work_refused [OF assms])

theorem superseded_worker_refused_witness:
  "isl (renew_txn sample_repo (sample_lease 0 9) 60 1000 sample_running) \<and>
   isl (handoff_txn sample_repo (sample_lease 0 9) ''x'' True sample_running)"
proof -
  have "case stored_view sample_running (state_key sample_repo ''g'' ''a'') of
      Some v \<Rightarrow> nv_fence v = 1 | None \<Rightarrow> False" by code_simp
  then show ?thesis
    using superseded_worker_refused [of sample_running sample_repo "sample_lease 0 9"] sample_running_ok(1)
    by (auto simp: sample_lease_def split: option.splits)
qed

text \<open>C25: Renewing changes nothing but the expiry and the revision of the node's record: the new expiry
  is the renewal time plus the lease time, and only the worker whose lease the node carries,
  before it expires, can renew.\<close>

theorem renew_extends_lease:
  assumes "renew_txn R lease seconds clock t = Inr (l, t')" and "txn_ok t"
  shows "\<exists>r v. get_record t (state_key R (ls_graph lease) (ls_node lease)) = Some r \<and>
    stored_view t (state_key R (ls_graph lease) (ls_node lease)) = Some v \<and> holds_lease v lease (t_now t) \<and>
    get_record t' = (get_record t)(state_key R (ls_graph lease) (ls_node lease) \<mapsto>
      r\<lparr>rec_revision := rec_revision r + 1, rec_expires := Some (clock + microseconds seconds)\<rparr>) \<and>
    l = lease\<lparr>ls_expires := clock + microseconds seconds\<rparr>"
proof -
  from renew_txn_Inr [OF assms(1)] obtain nr node where
    r: "stored_view t (state_key R (ls_graph lease) (ls_node lease)) = Some (node\<lparr>nv_deps := []\<rparr>)"
      "holds_lease node lease (t_now t)" "get_record t (state_key R (ls_graph lease) (ls_node lease)) = Some nr"
      "l = lease\<lparr>ls_expires := clock + microseconds seconds\<rparr>"
      "t' = put_record (rec_key nr) (nr\<lparr>rec_revision := rec_revision nr + 1,
             rec_expires := Some (clock + microseconds seconds)\<rparr>) t" .
  with txn_ok_record_key [OF assms(2) r(3)] show ?thesis by (auto simp: get_record_put)
qed

theorem renew_extends_lease_witness:
  "\<exists>l t'. renew_txn sample_repo (sample_lease 1 5000) 60 2000 sample_running = Inr (l, t') \<and>
    l = (sample_lease 1 5000)\<lparr>ls_expires := 2000 + microseconds 60\<rparr>"
proof -
  have "\<not> isl (renew_txn sample_repo (sample_lease 1 5000) 60 2000 sample_running)" by code_simp
  then obtain l t' where "renew_txn sample_repo (sample_lease 1 5000) 60 2000 sample_running = Inr (l, t')"
    by (cases "renew_txn sample_repo (sample_lease 1 5000) 60 2000 sample_running") auto
  with renew_extends_lease [OF this sample_running_ok(1)] show ?thesis by blast
qed

section \<open>Graphs and their states\<close>

text \<open>C27: After reconciliation a node that is pending or ready and has no execution is in the state that
  the final states of its dependencies give it, whatever states the graph was in before.\<close>

theorem reconcile_settles:
  assumes "reconcile vs defs now = Inr ws" and "\<forall>v\<in>set vs. distinct (nv_deps v)"
    and "w \<in> set ws" and "nv_execution w = None" and "nv_status w \<in> {PENDING, READY}"
  shows "\<exists>n. map_of defs (nv_id w) = Some n \<and> tn_deps n = nv_deps w \<and>
    dependency_status n (status_of ws) = Inr (nv_status w)"
  using assms by (rule settled_by_dependencies)

theorem reconcile_settles_witness:
  "\<exists>ws w. reconcile sample_views sample_defs (Some 1000) = Inr ws \<and> w \<in> set ws \<and> nv_id w = ''b'' \<and>
    nv_status w = READY \<and> (\<exists>n. dependency_status n (status_of ws) = Inr READY)"
proof -
  let ?w = "sample_view ''b'' [''a''] READY" and ?ws = "[sample_view ''a'' [] SUCCEEDED, sample_view ''b'' [''a''] READY]"
  have r: "reconcile sample_views sample_defs (Some 1000) = Inr ?ws" by code_simp
  have "\<forall>v\<in>set sample_views. distinct (nv_deps v)" by code_simp
  from reconcile_settles [OF r this, of ?w] r show ?thesis
    by (fastforce simp: sample_view_def)
qed

text \<open>Reconciliation is idempotent: a second pass over its result, at the same time, changes no node.\<close>

theorem reconcile_again:
  assumes "reconcile vs defs now = Inr ws" and "\<forall>v\<in>set vs. distinct (nv_deps v)"
  shows "reconcile ws defs now = Inr ws"
  using assms by (rule reconcile_idempotent)

theorem reconcile_again_witness:
  "\<exists>ws. reconcile sample_views sample_defs None = Inr ws \<and> ws \<noteq> sample_views \<and> reconcile ws sample_defs None = Inr ws"
proof -
  have r: "\<exists>ws. reconcile sample_views sample_defs None = Inr ws \<and> ws \<noteq> sample_views"
  proof -
    have "case reconcile sample_views sample_defs None of Inr ws \<Rightarrow> ws \<noteq> sample_views | Inl _ \<Rightarrow> False" by code_simp
    then show ?thesis by (auto split: sum.splits)
  qed
  moreover have "\<forall>v\<in>set sample_views. distinct (nv_deps v)" by code_simp
  ultimately show ?thesis using reconcile_again by blast
qed

text \<open>C28: A graph is accepted exactly when its id is not blank, its node ids are distinct, every
  dependency is a node of the graph and the dependencies have no cycle.\<close>

theorem graph_accepted_iff:
  assumes "\<forall>n\<in>set (tg_nodes g). distinct (tn_deps n)"
  shows "make_graph g = Inr g \<longleftrightarrow>
    \<not> blank (tg_id g) \<and> distinct (map tn_id (tg_nodes g)) \<and>
    (\<forall>n\<in>set (tg_nodes g). \<forall>d\<in>set (tn_deps n). \<exists>m\<in>set (tg_nodes g). tn_id m = d) \<and>
    acyclic {(d, tn_id n) | n d. n \<in> set (tg_nodes g) \<and> d \<in> set (tn_deps n)}"
  using assms by (rule make_graph_iff)

theorem graph_accepted_iff_witness:
  "acyclic {(d, tn_id n) | n d. n \<in> set (tg_nodes sample_graph) \<and> d \<in> set (tn_deps n)}"
proof -
  have "make_graph sample_graph = Inr sample_graph" by code_simp
  moreover have "\<forall>n\<in>set (tg_nodes sample_graph). distinct (tn_deps n)" by code_simp
  ultimately show ?thesis using graph_accepted_iff [of sample_graph] by blast
qed

text \<open>C29: The limits of a graph are met exactly when it has no more nodes than allowed, no cycle, no
  chain of dependencies longer than the depth limit, and a total cost within the budget.\<close>

theorem limits_bound_chains:
  assumes "graph_wf (deps_table nodes)" and "1 \<le> max_depth limits"
  shows "validate_limits nodes limits = Inr () \<longleftrightarrow>
    int (length nodes) \<le> max_nodes limits \<and> acyclic (edges (deps_table nodes)) \<and>
    (\<forall>us. chain (deps_table nodes) us \<longrightarrow> int (length us) \<le> max_depth limits) \<and>
    sum_list (map tn_cost nodes) \<le> max_budget limits"
  using assms by (rule validate_limits_iff)

theorem limits_bound_chains_witness:
  "acyclic (edges (deps_table (tg_nodes sample_graph))) \<and> int (length (tg_nodes sample_graph)) \<le> 8"
proof -
  have "graph_wf (deps_table (tg_nodes sample_graph))" by code_simp
  moreover have "1 \<le> max_depth sample_limits" "max_nodes sample_limits = 8" by (simp_all add: sample_limits_def)
  moreover have "validate_limits (tg_nodes sample_graph) sample_limits = Inr ()" by code_simp
  ultimately show ?thesis using limits_bound_chains [of "tg_nodes sample_graph" sample_limits] by simp
qed

text \<open>What each dependency policy asks: all succeeded (blocked as soon as one ended otherwise), all
  ended, or all ended and one succeeded (blocked when none did).\<close>

theorem dependency_policies:
  assumes "\<forall>d\<in>set (tn_deps n). states d \<noteq> None"
  shows "dependency_status n states = Inr (
    let some = \<lambda>P. \<exists>d\<in>set (tn_deps n). \<exists>s. states d = Some s \<and> P s in
    case tn_policy n of
      All_succeeded \<Rightarrow>
        if some (\<lambda>s. terminal s \<and> s \<noteq> SUCCEEDED) then BLOCKED
        else if some (\<lambda>s. s \<noteq> SUCCEEDED) then PENDING else READY
    | All_terminal \<Rightarrow> if some (\<lambda>s. \<not> terminal s) then PENDING else READY
    | Any_succeeded \<Rightarrow>
        if some (\<lambda>s. \<not> terminal s) then PENDING
        else if some (\<lambda>s. s = SUCCEEDED) then READY else BLOCKED)"
  using assms by (rule dependency_status_eq)

theorem dependency_policies_witness:
  "dependency_status (sample_node ''b'' [''a'']) [''a'' \<mapsto> FAILED] = Inr BLOCKED"
  using dependency_policies [of "sample_node ''b'' [''a'']" "[''a'' \<mapsto> FAILED]"]
  by (simp add: sample_node_def terminal_def)

text \<open>The status of a graph from its nodes, with the precedence of the states: recovery, then
  running, then pending, then the failures that propagate, then cancelled, then succeeded; it is
  final exactly when every node is.\<close>

theorem graph_status_from_nodes:
  assumes "set (map tn_id ds) = set (map nv_id vs)"
  defines "has \<equiv> \<lambda>s. \<exists>v\<in>set vs. nv_status v = s"
  defines "counts \<equiv> \<lambda>s. \<exists>v\<in>set vs. nv_status v = s \<and> policy_of ds (nv_id v) = Some Propagate"
  shows "\<exists>s. isolated_status vs ds = Inr s \<and> s = (
      if has RECOVERY_REQUIRED then RECOVERY_REQUIRED
      else if has RUNNING \<or> has WAITING then RUNNING
      else if has PENDING \<or> has READY then PENDING
      else if counts FAILED then FAILED
      else if counts BLOCKED then BLOCKED
      else if has CANCELLED then CANCELLED
      else SUCCEEDED) \<and> (terminal s \<longleftrightarrow> (\<forall>v\<in>set vs. terminal (nv_status v)))"
  using isolated_status_eq [OF assms(1)] isolated_status_terminal
  unfolding has_def counts_def by blast

theorem graph_status_from_nodes_witness:
  "isolated_status sample_views (map snd sample_defs) = Inr PENDING"
proof -
  have "set (map tn_id (map snd sample_defs)) = set (map nv_id sample_views)" by code_simp
  from graph_status_from_nodes [OF this] show ?thesis
    by (auto simp: sample_views_def sample_view_def)
qed

text \<open>C30: An expansion is accepted only when its source may expand, its nodes are new and distinct, and
  the graph with them is well formed and within the limits; the nodes are added sorted by id.\<close>

theorem expansion_sound:
  assumes "validate_expansion graph source expanded limits = Inr added"
  shows "added = sort_key tn_id expanded \<and> distinct (map tn_id expanded) \<and>
    set (map tn_id (tg_nodes graph)) \<inter> set (map tn_id expanded) = {} \<and>
    (\<exists>src\<in>set (tg_nodes graph). tn_id src = source \<and> (expanded = [] \<or> tn_expander src \<noteq> None)) \<and>
    make_graph \<lparr>tg_id = tg_id graph, tg_nodes = tg_nodes graph @ added\<rparr> =
      Inr \<lparr>tg_id = tg_id graph, tg_nodes = tg_nodes graph @ added\<rparr> \<and>
    validate_limits (tg_nodes graph @ added) limits = Inr ()"
  using validate_expansion_Inr [OF assms] by blast

theorem expansion_sound_witness:
  "\<exists>added. validate_expansion sample_graph ''a'' [sample_node ''c'' [''b'']] sample_limits = Inr added \<and>
    validate_limits (tg_nodes sample_graph @ added) sample_limits = Inr ()"
proof -
  have "validate_expansion sample_graph ''a'' [sample_node ''c'' [''b'']] sample_limits = Inr [sample_node ''c'' [''b'']]"
    by code_simp
  from this expansion_sound [OF this] show ?thesis by blast
qed

section \<open>The event log\<close>

text \<open>C31: Appending events keeps the log of a graph numbered 1, 2, ... without gaps, makes it longer by
  exactly the number of events, and leaves every fact that was stored as it was.\<close>

theorem append_keeps_log_gapless:
  assumes "append_events sha ns tn dm g gk drafts guarded t = Inr (u, t')"
    and "stream_gapless t (event_stream sha ns tn dm g) (event_sequence sha ns tn dm g)"
  shows "stream_gapless t' (event_stream sha ns tn dm g) (event_sequence sha ns tn dm g) \<and>
    log_length t' (event_sequence sha ns tn dm g) =
      log_length t (event_sequence sha ns tn dm g) + int (length drafts) \<and>
    (\<forall>stream i f. get_fact t stream i = Some f \<longrightarrow> get_fact t' stream i = Some f)"
proof -
  let ?sq = "event_sequence sha ns tn dm g" and ?st = "event_stream sha ns tn dm g"
  obtain t1 where a: "append_events sha ns tn dm g gk drafts True t1 = Inr (u, t')"
      and fr: "t_facts t1 = t_facts t" "t_sequences t1 = t_sequences t"
    using append_events_guard_first [OF assms(1)] .
  have same: "get_fact t1 = get_fact t" "get_sequence t1 = get_sequence t"
    using fr by (auto simp: get_fact_def get_sequence_def fun_eq_iff)
  then have gap: "stream_gapless t1 ?st ?sq" using assms(2) by (simp add: stream_gapless_def log_length_def)
  obtain events where seq: "get_sequence t' = (get_sequence t1)(?sq := get_sequence t1 ?sq + int (length drafts))" and
    get: "\<And>stream i. get_fact t' stream i =
      (if stream = ?st \<and> get_sequence t1 ?sq + 1 \<le> i \<and> i < get_sequence t1 ?sq + 1 + int (length drafts)
       then Some (event_fact ?st gk (events ! nat (i - (get_sequence t1 ?sq + 1)))) else get_fact t1 stream i)"
    using append_events_get [OF a gap] by blast
  have "get_fact t' stream i = Some f" if "get_fact t stream i = Some f" for stream i f
  proof (cases "stream = ?st")
    case True
    with that assms(2) have "i \<le> get_sequence t1 ?sq"
      unfolding stream_gapless_def log_length_def same by (metis option.distinct(1))
    with that get [of stream i] show ?thesis by (simp add: same)
  qed (use that get [of stream i] in \<open>simp add: same\<close>)
  with append_events_gapless [OF a gap] seq show ?thesis by (simp add: log_length_def same)
qed

theorem append_keeps_log_gapless_witness:
  "\<exists>t'. append_events (rp_sha sample_repo) ''n'' ''t'' ''d'' ''g'' (graph_key sample_repo ''g'')
      [plain_draft GRAPH_ADMITTED PENDING] False sample_ready = Inr ((), t') \<and>
    log_length t' (event_sequence (rp_sha sample_repo) ''n'' ''t'' ''d'' ''g'') = 1"
proof -
  let ?a = "append_events (rp_sha sample_repo) ''n'' ''t'' ''d'' ''g'' (graph_key sample_repo ''g'')
      [plain_draft GRAPH_ADMITTED PENDING] False sample_ready"
  have "\<not> isl ?a" by code_simp
  then obtain t' where t': "?a = Inr ((), t')" by (cases ?a) auto
  have "stream_gapless sample_ready (event_stream (rp_sha sample_repo) ''n'' ''t'' ''d'' ''g'')
      (event_sequence (rp_sha sample_repo) ''n'' ''t'' ''d'' ''g'')"
    using sample_ready_ok(2)
    by (simp add: log_gapless_def log_stream_def log_sequence_def sample_repo_def)
  moreover have "log_length sample_ready sq = 0" for sq
    by (simp add: log_length_def get_sequence_def sample_ready_def sample_txn_def sample_store_def begin_txn_def)
  ultimately show ?thesis using append_keeps_log_gapless [OF t'] t' by auto
qed

text \<open>C32: An appended event is read back as it was written: the fact at its position carries a JSON
  payload, its fields and statuses as strings and its time in ISO 8601, that the decoder reads, with
  all its checks, as the event of its draft, with the next sequence number and the time of the
  transaction.\<close>

theorem appended_event_decodes:
  assumes "append_events sha ns tn dm g gk drafts guarded t = Inr (u, t')"
    and "stream_gapless t (event_stream sha ns tn dm g) (event_sequence sha ns tn dm g)"
    and "i < length drafts"
  defines "n \<equiv> log_length t (event_sequence sha ns tn dm g) + 1 + int i"
  shows "\<exists>f. get_fact t' (event_stream sha ns tn dm g) n = Some f \<and>
    decode_event g f = Inr \<lparr>ev_graph = g, ev_seq = n, ev_at = t_now t, ev_draft = drafts ! i\<rparr>"
proof -
  let ?sq = "event_sequence sha ns tn dm g" and ?st = "event_stream sha ns tn dm g"
  obtain t1 where a: "append_events sha ns tn dm g gk drafts True t1 = Inr (u, t')"
      and fr: "t_facts t1 = t_facts t" "t_sequences t1 = t_sequences t" "t_now t1 = t_now t"
    using append_events_guard_first [OF assms(1)] .
  have same: "get_fact t1 = get_fact t" "get_sequence t1 = get_sequence t"
    using fr by (auto simp: get_fact_def get_sequence_def fun_eq_iff)
  then have gap: "stream_gapless t1 ?st ?sq" using assms(2) by (simp add: stream_gapless_def log_length_def)
  from append_events_new [OF a gap assms(3)] obtain ev where
    "get_fact t' ?st n = Some (event_fact ?st gk ev)" "make_event g n (t_now t) (drafts ! i) = Inr ev"
    by (auto simp: same fr n_def log_length_def)
  moreover from this(2) have "ev = \<lparr>ev_graph = g, ev_seq = n, ev_at = t_now t, ev_draft = drafts ! i\<rparr>"
    by (simp add: make_event_Inr)
  ultimately show ?thesis using decode_event_fact by blast
qed

theorem appended_event_decodes_witness:
  "\<exists>t' f ev. append_events (rp_sha sample_repo) ''n'' ''t'' ''d'' ''g'' (graph_key sample_repo ''g'')
      [plain_draft GRAPH_ADMITTED PENDING] False sample_ready = Inr ((), t') \<and>
    get_fact t' (event_stream (rp_sha sample_repo) ''n'' ''t'' ''d'' ''g'') 1 = Some f \<and>
    decode_event ''g'' f = Inr ev \<and> ev_seq ev = 1 \<and> ev_at ev = 1000"
proof -
  let ?a = "append_events (rp_sha sample_repo) ''n'' ''t'' ''d'' ''g'' (graph_key sample_repo ''g'')
      [plain_draft GRAPH_ADMITTED PENDING] False sample_ready"
  have "\<not> isl ?a" by code_simp
  then obtain t' where t': "?a = Inr ((), t')" by (cases ?a) auto
  have "stream_gapless sample_ready (event_stream (rp_sha sample_repo) ''n'' ''t'' ''d'' ''g'')
      (event_sequence (rp_sha sample_repo) ''n'' ''t'' ''d'' ''g'')"
    using sample_ready_ok(2)
    by (simp add: log_gapless_def log_stream_def log_sequence_def sample_repo_def)
  moreover have "log_length sample_ready sq = 0" for sq
    by (simp add: log_length_def get_sequence_def sample_ready_def sample_txn_def sample_store_def begin_txn_def)
  ultimately show ?thesis using appended_event_decodes [OF t', of 0] t' sample_ready_ok(4) by fastforce
qed

section \<open>The store\<close>

text \<open>C37: No update is lost: when a replacement of a record was accepted, a second replacement that still
  expects the old revision is refused.\<close>

theorem replace_refuses_stale:
  assumes "replace_record r e t = Inr (True, t1)" and "rec_key q = rec_key r" and "replace_record q e t1 = Inr (b, t2)"
  shows "\<not> b"
  using assms by (rule record_cas.no_lost_update)

theorem replace_refuses_stale_witness:
  "\<exists>t1. replace_record ((small_record ''k'' 0)\<lparr>rec_revision := 1\<rparr>) 0 small_txn = Inr (True, t1) \<and>
    replace_record ((small_record ''k'' 7)\<lparr>rec_revision := 1\<rparr>) 0 t1 = Inr (False, t1)"
proof -
  let ?r = "(small_record ''k'' 0)\<lparr>rec_revision := 1\<rparr>" and ?q = "(small_record ''k'' 7)\<lparr>rec_revision := 1\<rparr>"
  have "\<exists>t1. replace_record ?r 0 small_txn = Inr (True, t1) \<and> \<not> isl (replace_record ?q 0 t1)"
  proof -
    have "case replace_record ?r 0 small_txn of Inr (b, t1) \<Rightarrow> b \<and> \<not> isl (replace_record ?q 0 t1) | Inl _ \<Rightarrow> False"
      by code_simp
    then show ?thesis by (auto split: sum.splits)
  qed
  then obtain t1 b t2 where t: "replace_record ?r 0 small_txn = Inr (True, t1)" "replace_record ?q 0 t1 = Inr (b, t2)"
    by (auto simp: isl_def) (metis sum.exhaust surj_pair)
  have "rec_key ?q = rec_key ?r" by (simp add: small_record_def)
  from replace_refuses_stale [OF t(1) this t(2)] have "\<not> b" .
  with t replace_record_False show ?thesis by metis
qed

text \<open>The revision of a record counts the accepted replacements: over any sequence of attempted
  replacements it grows by exactly the number of those of this record that were accepted.\<close>

theorem revision_counts_replacements:
  assumes "record_cas.cas_run ws t = Inr (bs, t')" and "get_record t k = Some c"
  shows "\<exists>c'. get_record t' k = Some c' \<and>
    rec_revision c' = rec_revision c + int (length (filter (\<lambda>((r, e), b). b \<and> rec_key r = k) (zip ws bs)))"
  using assms by (rule record_cas.revision_counts_writes)

theorem revision_counts_replacements_witness:
  "\<exists>t' c'. record_cas.cas_run [((small_record ''k'' 3)\<lparr>rec_revision := 1\<rparr>, 0), ((small_record ''k'' 7)\<lparr>rec_revision := 1\<rparr>, 0)]
      small_txn = Inr ([True, False], t') \<and> get_record t' ''k'' = Some c' \<and> rec_revision c' = 1"
proof -
  let ?ws = "[((small_record ''k'' 3)\<lparr>rec_revision := 1\<rparr>, 0::int), ((small_record ''k'' 7)\<lparr>rec_revision := 1\<rparr>, 0)]"
  have "case record_cas.cas_run ?ws small_txn of Inr (bs, _) \<Rightarrow> bs = [True, False] | Inl _ \<Rightarrow> False"
    unfolding record_cas.cas_run.simps by code_simp
  then obtain t' where c: "record_cas.cas_run ?ws small_txn = Inr ([True, False], t')" by (auto split: sum.splits)
  have "get_record small_txn ''k'' = Some (small_record ''k'' 0)" by code_simp
  from c revision_counts_replacements [OF c this] show ?thesis by (auto simp: small_record_def)
qed

text \<open>A superseded lease stays superseded: after a record's lease was acquired, every transition that
  presents the fence from before the acquisition, or an older one, is refused, at any later
  time and whatever transitions were attempted in between.\<close>

theorem superseded_lease_refused:
  assumes "lease_apply tr r now = Some r1" and "lt_operation tr = Acquire" and "lt_fence old \<le> rec_fence r"
  shows "lease_apply old (record_lease.attempts ts r1) later = None"
  using assms by (rule record_lease.superseded_refused)

theorem superseded_lease_refused_witness:
  "lease_apply \<lparr>lt_operation = Renew, lt_owner = Some ''u'', lt_fence = 0, lt_duration = Some 9\<rparr>
     (record_lease.attempts [] ((small_record ''k'' 0)\<lparr>rec_revision := 1, rec_owner := Some ''w'', rec_fence := 1,
        rec_expires := Some 15\<rparr>)) 12 = None"
proof -
  let ?tr = "\<lparr>lt_operation = Acquire, lt_owner = Some ''w'', lt_fence = 0, lt_duration = Some 5\<rparr>"
  have "lease_apply ?tr (small_record ''k'' 0) 10 = Some ((small_record ''k'' 0)\<lparr>rec_revision := 1,
      rec_owner := Some ''w'', rec_fence := 1, rec_expires := Some 15\<rparr>)" by code_simp
  from this show ?thesis by (rule superseded_lease_refused) (simp_all add: small_record_def)
qed

text \<open>A scan that walks the record pages of a snapshot ends and returns every record once, in the
  order of kind and key, for every page size.\<close>

theorem record_scan_complete:
  assumes "txn_ok t" and "0 < n" and "length (ov_values (t_records t)) < fuel"
  shows "walk_pages (scan_records_page t) (\<lambda>r. (rec_kind r, rec_key r)) n fuel None =
    Some (Inr (sort_key (\<lambda>r. (rec_kind r, rec_key r)) (ov_values (t_records t))))"
  using assms by (rule record_pages.walk_complete)

theorem record_scan_complete_witness:
  "\<exists>rs. walk_pages (scan_records_page sample_ready) (\<lambda>r. (rec_kind r, rec_key r)) 2 9 None = Some (Inr rs) \<and>
    length rs = 6"
proof -
  have l: "length (ov_values (t_records sample_ready)) = 6" by code_simp
  from record_scan_complete [OF sample_ready_ok(1), of 2 9] show ?thesis by (simp add: l)
qed

text \<open>Listing with a cursor continues where a page ended: the records after the i-th of the full listing
  are the next ones of it.\<close>

theorem listing_continues:
  assumes "txn_ok t" and "i < length (list_records (q\<lparr>rq_after := None, rq_limit := None\<rparr>) t)"
  shows "list_records (q\<lparr>rq_after := Some (record_order
        (list_records (q\<lparr>rq_after := None, rq_limit := None\<rparr>) t ! i)), rq_limit := Some n\<rparr>) t =
    take n (drop (Suc i) (list_records (q\<lparr>rq_after := None, rq_limit := None\<rparr>) t))"
  using assms by (rule list_records_continue)

theorem listing_continues_witness:
  "\<exists>rs. length rs = 2 \<and> list_records ((node_query (state_parent sample_repo ''g'') ''task_node_state'')
      \<lparr>rq_after := Some (record_order (rs ! 0)), rq_limit := Some 5\<rparr>) sample_ready = [rs ! 1]"
proof -
  let ?q = "node_query (state_parent sample_repo ''g'') ''task_node_state''"
  let ?rs = "list_records (?q\<lparr>rq_after := None, rq_limit := None\<rparr>) sample_ready"
  have l: "length ?rs = 2" by code_simp
  then obtain a b where ab: "?rs = [a, b]" by (auto simp: numeral_2_eq_2 length_Suc_conv)
  from l listing_continues [OF sample_ready_ok(1), of 0 ?q 5]
  show ?thesis by (intro exI [of _ ?rs]) (simp add: ab)
qed

text \<open>The indexed lookup of a fact page returns what the full scan of the stream returns, for streams
  numbered from one.\<close>

theorem fact_lookup_is_scan:
  assumes "txn_ok t" and "\<forall>i f. get_fact t (fq_stream q) i = Some f \<longrightarrow> 1 \<le> i"
  shows "list_facts q t = scan_fact_query q t"
  using assms by (rule list_facts_scan)

theorem fact_lookup_is_scan_witness:
  "list_facts (latest_query (log_stream sample_repo ''g'')) sample_ready =
    scan_fact_query (latest_query (log_stream sample_repo ''g'')) sample_ready"
  by (rule fact_lookup_is_scan [OF sample_ready_ok(1)])
    (simp add: sample_ready_def sample_txn_def sample_store_def get_fact_def)

text \<open>Deleting a record deletes everything that points to it: no alias resolves to it and no fact is
  owned by it afterwards, and no other record changes.\<close>

theorem delete_record_cascades:
  assumes "delete_record k e t = Inr (True, t')" and "txn_ok t"
  shows "txn_ok t' \<and> get_record t' = (get_record t)(k := None) \<and>
    (\<forall>a. ov_get (t_aliases t') a \<noteq> Some k) \<and>
    (\<forall>i f. ov_get (t_facts t') i = Some f \<longrightarrow> fact_owner f \<noteq> k)"
  using assms by (rule delete_record_True)

theorem delete_record_cascades_witness:
  "\<exists>t'. delete_record (graph_key sample_repo ''g'') (Some 0) sample_ready = Inr (True, t') \<and>
    get_record t' (graph_key sample_repo ''g'') = None"
proof -
  let ?d = "delete_record (graph_key sample_repo ''g'') (Some 0) sample_ready"
  have "case ?d of Inr (b, _) \<Rightarrow> b | Inl _ \<Rightarrow> False" by code_simp
  then obtain t' where d: "?d = Inr (True, t')" by (auto split: sum.splits)
  from d delete_record_cascades [OF d sample_ready_ok(1)] show ?thesis by simp
qed

text \<open>C36: A commit is atomic: when the callback fails, or marked the transaction as failed, the store is
  left as it was; otherwise the store afterwards shows exactly what the transaction saw, in the
  records, aliases, sequences, facts and operations and in the index of the operation streams, and
  stays well formed.\<close>

theorem commit_shows_transaction:
  assumes "\<And>x t. fn (begin_txn now m) = Inr (x, t) \<Longrightarrow> txn_ok t \<and> txn_over m t" and "mem_ok m"
    and "mem_mutate now fn m = (r, m')"
  shows "mem_ok m' \<and> (case r of
      Inl _ \<Rightarrow> m' = m
    | Inr x \<Rightarrow> \<exists>t. fn (begin_txn now m) = Inr (x, t) \<and>
        get_record (begin_txn now m') = get_record t \<and>
        ov_get (t_aliases (begin_txn now m')) = ov_get (t_aliases t) \<and>
        ov_get (t_sequences (begin_txn now m')) = ov_get (t_sequences t) \<and>
        ov_get (t_facts (begin_txn now m')) = ov_get (t_facts t) \<and>
        ov_get (t_operations (begin_txn now m')) = ov_get (t_operations t) \<and>
        (\<forall>stream n. operation_at stream n (begin_txn now m') = operation_at stream n t))"
proof (cases "fn (begin_txn now m)")
  case (Inl e)
  with assms(2,3) show ?thesis by (auto simp: mem_mutate_def)
next
  case (Inr p)
  then obtain x t where f: "fn (begin_txn now m) = Inr (x, t)" by (cases p) auto
  with assms(1) have t: "txn_ok t" "txn_over m t" by blast+
  show ?thesis
  proof (cases "t_error t")
    case None
    with f assms(3) have "r = Inr x" "m' = apply_transaction t m" by (simp_all add: mem_mutate_def)
    with f t assms(2) apply_transaction_get [OF t] apply_transaction_index [OF t(2)] mem_ok_apply [OF t]
    show ?thesis by simp
  next
    case (Some e)
    with f assms(2,3) show ?thesis by (auto simp: mem_mutate_def)
  qed
qed

theorem commit_shows_transaction_witness:
  "\<exists>m'. mem_mutate 10 (insert_record (small_record ''j'' 5)) small_store = (Inr (), m') \<and> mem_ok m' \<and>
    get_record (begin_txn 10 m') ''j'' = Some (small_record ''j'' 5)"
proof -
  let ?fn = "insert_record (small_record ''j'' 5) :: (nat, nat, nat, unit) action"
  let ?t = "put_record ''j'' (small_record ''j'' 5) (begin_txn 10 small_store)"
  have ok: "mem_ok small_store"
    by (simp add: mem_ok_def small_store_def txn_ok_def begin_txn_def keyed_def ov_inv_new small_record_def get_record_def)
  have f: "?fn (begin_txn 10 small_store) = Inr ((), ?t)"
    unfolding insert_record_eq by (simp add: small_store_def small_record_def sort_key_ok_def is_ascii_def)
  have "txn_ok (begin_txn 10 small_store)" using ok txn_ok_begin [of 0 small_store 10] by (simp add: mem_ok_def)
  then have "txn_ok ?t" by (rule txn_ok_put) (simp add: small_record_def)
  moreover have "txn_over small_store ?t" by (simp add: txn_over_def put_record_def begin_txn_def ov_new_def)
  ultimately have run: "\<And>x t. ?fn (begin_txn 10 small_store) = Inr (x, t) \<Longrightarrow> txn_ok t \<and> txn_over small_store t"
    using f by auto
  obtain r m' where m: "mem_mutate 10 ?fn small_store = (r, m')" by (cases "mem_mutate 10 ?fn small_store") auto
  have "r = Inr ()" using m f by (auto simp: mem_mutate_def put_record_def begin_txn_def split: option.splits prod.splits)
  with commit_shows_transaction [OF run ok m] f m show ?thesis by (auto simp: get_record_put)
qed

text \<open>A node view survives the store: projected to a record and decoded, it is the same view, without
  the dependencies, which live in the definition.\<close>

theorem stored_view_roundtrip:
  assumes "view_ok v"
  shows "decode_node (project_record R knd ident (Node v) scope parent st) = Inr (v\<lparr>nv_deps := []\<rparr>)"
  using assms by (intro decode_node_written) (auto simp: project_record_def Let_def)

theorem stored_view_roundtrip_witness:
  "decode_node (project_record sample_repo ''task_node_state'' (pair_ident ''g'' ''a'')
      (Node (running_view ''a'' [''b''] 3 9)) None None None) = Inr (running_view ''a'' [] 3 9)"
proof -
  have "view_ok (running_view ''a'' [''b''] 3 9)" by code_simp
  from stored_view_roundtrip [OF this] show ?thesis by (simp add: running_view_def sample_view_def)
qed

text \<open>C38: The canonical encoding of a JSON value identifies it: two values have the same encoding exactly
  when they are equal up to the order of the keys of their objects.\<close>

theorem canonical_encoding_identifies:
  "canonical_json_bytes a = canonical_json_bytes b \<longleftrightarrow> sort_keys a = sort_keys b"
  by (rule canonical_json_eq)

text \<open>C35: A mutation that loses the race for the event log is retried on the state and at the time it then
  finds, at most sixteen times, and the caller never sees the internal conflict: the outcome is that of
  the first attempt that did not lose, or a storage conflict.\<close>

theorem event_retry_bounded:
  "\<exists>i<16. (\<forall>j<i. fst (mem_mutate (clock j) fn (world j)) = Inl Task_event_append_conflict) \<and>
     (let (r, m) = mem_mutate (clock i) fn (world i) in
      mutate_with_event_retry clock world fn =
        (if r = Inl Task_event_append_conflict then (Inl (ai STORAGE_CONFLICT), m) else (r, m)) \<and>
      (r = Inl Task_event_append_conflict \<longrightarrow> i = 15))"
proof -
  from event_retry_first [of 16 "\<lambda>i. mem_mutate (clock i) fn" 0 world] show ?thesis
    by (simp add: mutate_with_event_retry_def event_retry_limit_def)
qed

theorem event_retry_bounded_witness:
  "mutate_with_event_retry int (\<lambda>_. sample_store []) (\<lambda>t. Inl Task_event_append_conflict :: (nat \<times> task_txn) res) =
    (Inl (ai STORAGE_CONFLICT), sample_store [])"
  using event_retry_bounded [of int "\<lambda>t. Inl Task_event_append_conflict :: (nat \<times> task_txn) res" "\<lambda>_. sample_store []"]
  by (auto simp: mem_mutate_def Let_def)

section \<open>Outcomes\<close>

text \<open>C15: A completion that is accepted ends the node: either the node already succeeded with this
  very result and nothing is written, or it was not ended, no result was stored for it, and
  afterwards the node is succeeded with the result, and the result record is stored under it.\<close>

theorem completion_ends_node:
  assumes "complete_txn R lease g n execution result expanded expected t = Inr (r, t')"
    and "txn_ok t" and "log_gapless R g t"
  shows "\<exists>v. stored_view t (state_key R g n) = Some v \<and> tr_fence r = nv_fence v \<and>
    (t' = t \<and> nv_status v = SUCCEEDED \<and> nv_result v = Some result \<or>
     \<not> terminal (nv_status v) \<and> get_record t (result_key R g n) = None \<and>
     (\<exists>e q. stored_view t' (state_key R g n) = Some (succeeded_view v result (Some e)) \<and>
        tr_execution r = Some e \<and> get_record t' (result_key R g n) = Some q \<and>
        decode_result q = Inr \<lparr>rr_graph = g, rr_node = n, rr_digest = result, rr_execution = e\<rparr>))"
  using assms
proof (cases rule: complete_txn_Inr)
  case (replay v)
  then show ?thesis by (intro exI [of _ "v\<lparr>nv_deps := []\<rparr>"]) simp
next
  case (ended v resolved e q)
  then have "stored_view t (state_key R g n) = Some (v\<lparr>nv_deps := []\<rparr>)"
      "stored_view t' (state_key R g n) = Some (succeeded_view (v\<lparr>nv_deps := []\<rparr>) result (Some e))"
    by (simp_all add: node_ended_def succeeded_view_def)
  with ended show ?thesis by (intro exI [of _ "v\<lparr>nv_deps := []\<rparr>"]) auto
qed

theorem completion_ends_node_witness:
  "\<exists>r t' v. complete_txn sample_repo (Some (sample_lease 1 5000)) ''g'' ''a'' (Some ''x'') sample_digest [] None sample_running =
      Inr (r, t') \<and> stored_view sample_running (state_key sample_repo ''g'' ''a'') = Some v \<and> tr_fence r = nv_fence v"
proof -
  have "returns (complete_txn sample_repo (Some (sample_lease 1 5000)) ''g'' ''a'' (Some ''x'') sample_digest [] None sample_running)
    (\<lambda>_. True)" by code_simp
  then obtain r t' where
    "complete_txn sample_repo (Some (sample_lease 1 5000)) ''g'' ''a'' (Some ''x'') sample_digest [] None sample_running = Inr (r, t')"
    by (rule returnsE)
  with completion_ends_node [OF this sample_running_ok(1,2)] show ?thesis by blast
qed

text \<open>C16: A failure that is accepted ends the node: either the node already failed this way and
  nothing is written, or it was not ended and afterwards it is failed with this error.\<close>

theorem failure_ends_node:
  assumes "fail_txn R lease g n execution f expected t = Inr (r, t')" and "txn_ok t" and "log_gapless R g t"
  shows "\<exists>v. stored_view t (state_key R g n) = Some v \<and> tr_fence r = nv_fence v \<and>
    (t' = t \<and> nv_status v = FAILED \<and> same_failure f v \<or>
     \<not> terminal (nv_status v) \<and>
     stored_view t' (state_key R g n) = Some (failed_view v f (tr_execution r)))"
  using assms
proof (cases rule: fail_txn_Inr)
  case (replay v)
  then show ?thesis by (intro exI [of _ "v\<lparr>nv_deps := []\<rparr>"]) (simp add: same_failure_def)
next
  case (ended v resolved)
  then have "stored_view t (state_key R g n) = Some (v\<lparr>nv_deps := []\<rparr>)"
      "stored_view t' (state_key R g n) = Some (failed_view (v\<lparr>nv_deps := []\<rparr>) f resolved)"
    by (simp_all add: node_ended_def failed_view_def)
  with ended show ?thesis by (intro exI [of _ "v\<lparr>nv_deps := []\<rparr>"]) auto
qed

theorem failure_ends_node_witness:
  "\<exists>r t' v. fail_txn sample_repo (Some (sample_lease 1 5000)) ''g'' ''a'' None sample_failure None sample_running =
      Inr (r, t') \<and> stored_view sample_running (state_key sample_repo ''g'' ''a'') = Some v \<and> tr_fence r = nv_fence v"
proof -
  have "returns (fail_txn sample_repo (Some (sample_lease 1 5000)) ''g'' ''a'' None sample_failure None sample_running)
    (\<lambda>_. True)" by code_simp
  then obtain r t' where
    "fail_txn sample_repo (Some (sample_lease 1 5000)) ''g'' ''a'' None sample_failure None sample_running = Inr (r, t')"
    by (rule returnsE)
  with failure_ends_node [OF this sample_running_ok(1,2)] show ?thesis by blast
qed

text \<open>C26: Completing and failing read only the definitions that can matter; the graph status they
  compute for the new state of the node is the one that the whole projection gives.\<close>

theorem partial_status_full:
  assumes "terminal_state R gr g n t = Inr p" and "event_state_in_txn R g t = Inr (Some s)"
    and "txn_ok t" and "nv_id w = n"
  shows "aggregate_status (replace_view (es_views p) n w) (policy_of (gv_nodes (es_graph p))) =
    isolated_status (replace_view (es_views s) n w) (gv_nodes (es_graph s))"
  using assms by (rule terminal_status_full)

theorem partial_status_full_witness:
  "\<exists>gr p s. terminal_state sample_repo gr ''g'' ''a'' sample_running = Inr p \<and>
    event_state_in_txn sample_repo ''g'' sample_running = Inr (Some s) \<and>
    aggregate_status (replace_view (es_views p) ''a'' (sample_view ''a'' [] FAILED)) (policy_of (gv_nodes (es_graph p))) =
    isolated_status (replace_view (es_views s) ''a'' (sample_view ''a'' [] FAILED)) (gv_nodes (es_graph s))"
proof -
  have "case get_record sample_running (graph_key sample_repo ''g'') of
      Some gr \<Rightarrow> \<not> isl (terminal_state sample_repo gr ''g'' ''a'' sample_running) | None \<Rightarrow> False" by code_simp
  then obtain gr p where p: "terminal_state sample_repo gr ''g'' ''a'' sample_running = Inr p"
    by (auto simp: isl_def split: option.splits) (metis sum.exhaust)
  have "case event_state_in_txn sample_repo ''g'' sample_running of Inr (Some s) \<Rightarrow> True | _ \<Rightarrow> False" by code_simp
  then obtain s where s: "event_state_in_txn sample_repo ''g'' sample_running = Inr (Some s)"
    by (auto split: sum.splits option.splits)
  have "nv_id (sample_view ''a'' [] FAILED) = ''a''" by (simp add: sample_view_def)
  from partial_status_full [OF p s sample_running_ok(1) this] p s show ?thesis by blast
qed

section \<open>Histories\<close>

text \<open>C7: A graph transition implements replacing an abstract state: the projection of the store
  afterwards is exactly the views and the status the operation asked for, over the same
  definitions.\<close>

theorem transition_implements_state:
  assumes "apply_graph_transition R s gr ws status t = Inr (view, t')"
    and "event_state_in_txn R g t = Inr (Some s)" and "get_record t (graph_key R g) = Some gr"
    and "same_frames (es_views s) ws" and "status \<notin> {READY, WAITING}" and "txn_ok t" and "log_gapless R g t"
  shows "event_state_in_txn R g t' = Inr (Some \<lparr>es_graph = (es_graph s)\<lparr>gv_status := status\<rparr>, es_views = ws\<rparr>)"
  using assms by (rule transition_refines)

theorem transition_implements_state_witness:
  "\<exists>s t'. event_state_in_txn sample_repo ''g'' sample_ready = Inr (Some s) \<and>
    event_state_in_txn sample_repo ''g'' t' =
      Inr (Some \<lparr>es_graph = (es_graph s)\<lparr>gv_status := RUNNING\<rparr>, es_views = map started (es_views s)\<rparr>)"
proof -
  have "case event_state_in_txn sample_repo ''g'' sample_ready of
      Inr (Some s) \<Rightarrow>
        (case get_record sample_ready (graph_key sample_repo ''g'') of
           Some gr \<Rightarrow>
             returns (apply_graph_transition sample_repo s gr (map started (es_views s)) RUNNING sample_ready) (\<lambda>_. True) \<and>
             same_frames (es_views s) (map started (es_views s))
         | None \<Rightarrow> False)
    | _ \<Rightarrow> False" by code_simp
  then obtain s gr where s: "event_state_in_txn sample_repo ''g'' sample_ready = Inr (Some s)"
      "get_record sample_ready (graph_key sample_repo ''g'') = Some gr"
      "returns (apply_graph_transition sample_repo s gr (map started (es_views s)) RUNNING sample_ready) (\<lambda>_. True)"
      "same_frames (es_views s) (map started (es_views s))"
    by (auto split: sum.splits option.splits)
  from s(3) obtain view t' where
    "apply_graph_transition sample_repo s gr (map started (es_views s)) RUNNING sample_ready = Inr (view, t')"
    by (rule returnsE)
  from transition_implements_state [OF this s(1,2,4) _ sample_ready_ok(1,2)] s(1) show ?thesis by auto
qed

text \<open>C12: Whatever operations run and commit, on whatever graphs, the store stays well formed: its
  tables of records, aliases, sequences, facts and operations have no duplicate keys, every record is stored under its own key, the state column of
  every node agrees with the node, and the event log of every graph has no gap.\<close>

theorem runs_keep_store:
  assumes "runs R m m'" and "store_ok R m" and "collision_free (rp_sha R)"
  shows "store_ok R m'"
  using runs_sound [OF assms] by simp

theorem runs_keep_store_witness:
  "\<exists>m. store_step sample_repo ''g'' ready_store m \<and> store_ok sample_repo m"
  using sample_claim_step runs_keep_store [OF runs.more [OF runs.none] sample_stores_ok(1,3)] by blast

text \<open>C1: The history of a node over any run: it is never lost, its fence never falls, an execution
  once bound to it stays bound, and once it has ended it stays in that state.\<close>

theorem node_history:
  assumes "runs R m m'" and "store_ok R m" and "collision_free (rp_sha R)" and "node_in m k v"
  shows "\<exists>w. node_in m' k w \<and> nv_fence v \<le> nv_fence w \<and>
    (nv_execution v \<noteq> None \<longrightarrow> nv_execution w = nv_execution v) \<and>
    (terminal (nv_status v) \<longrightarrow> nv_status w = nv_status v \<and> nv_fence w = nv_fence v)"
proof -
  from runs_node [OF assms] obtain w where w: "node_in m' k w" "phase_steps (phase_of v) (phase_of w)" .
  from w(1) phase_steps_fence [OF w(2)] phase_steps_execution [OF w(2)] phase_steps_terminal [OF w(2)]
  show ?thesis by (intro exI [of _ w]) (auto simp: phase_of_def)
qed

theorem node_history_witness:
  "\<exists>m w. store_step sample_repo ''g'' ready_store m \<and> node_in m (state_key sample_repo ''g'' ''a'') w \<and> 0 \<le> nv_fence w"
proof -
  from sample_nodes(1) obtain v where v: "node_in ready_store (state_key sample_repo ''g'' ''a'') v" "nv_fence v = 0"
    by (auto elim: node_hasE)
  from sample_claim_step obtain m where "store_step sample_repo ''g'' ready_store m" by blast
  with node_history [OF runs.more [OF runs.none this] sample_stores_ok(1,3) v(1)] v(2) show ?thesis by auto
qed

text \<open>C4: A worker that lost its node to a later claim is refused forever: whatever runs afterwards,
  every operation it attempts with its lease fails, those that end the node included.\<close>

theorem superseded_forever:
  assumes "runs R m m'" and "store_ok R m" and "collision_free (rp_sha R)"
    and "node_in m (state_key R (ls_graph lease) (ls_node lease)) v" and "ls_fence lease < nv_fence v"
  shows "isl (renew_txn R lease seconds clock (begin_txn now m')) \<and>
    isl (bind_execution_txn R lease e (begin_txn now m')) \<and>
    isl (handoff_txn R lease e occupies (begin_txn now m')) \<and>
    isl (requeue_retry_txn R lease e next_attempt (begin_txn now m')) \<and>
    isl (publish_prepared_txn R lease p (begin_txn now m')) \<and>
    isl (complete_txn R (Some lease) (ls_graph lease) (ls_node lease) x result expanded expected (begin_txn now m')) \<and>
    isl (fail_txn R (Some lease) (ls_graph lease) (ls_node lease) x f expected (begin_txn now m')) \<and>
    isl (mark_recovery_txn R (Some lease) (ls_graph lease) (ls_node lease) x f expected (begin_txn now m'))"
proof -
  from superseded_later [OF assms] obtain w where
    w: "stored_view (begin_txn now m') (state_key R (ls_graph lease) (ls_node lease)) = Some w"
      "nv_fence w \<noteq> ls_fence lease" and ok: "txn_ok (begin_txn now m')" "log_gapless R (ls_graph lease) (begin_txn now m')" .
  show ?thesis
    by (intro conjI stale_work_refused [OF w ok(1)] stale_outcome_refused [OF w ok])
qed

theorem superseded_forever_witness:
  "\<exists>m. store_step sample_repo ''g'' running_store m \<and>
    isl (complete_txn sample_repo (Some (sample_lease 0 9)) ''g'' ''a'' None sample_digest [] None (begin_txn 3000 m))"
proof -
  have lease: "ls_graph (sample_lease 0 9) = ''g''" "ls_node (sample_lease 0 9) = ''a''" by (simp_all add: sample_lease_def)
  from sample_nodes(2) obtain v where v: "node_in running_store (state_key sample_repo ''g'' ''a'') v"
      "ls_fence (sample_lease 0 9) < nv_fence v"
    by (auto elim: node_hasE simp: sample_lease_def)
  from sample_renew_step obtain m where m: "store_step sample_repo ''g'' running_store m" by blast
  from superseded_forever [OF runs.more [OF runs.none m] sample_stores_ok(2,3), of "sample_lease 0 9", unfolded lease, OF v]
  have "isl (complete_txn sample_repo (Some (sample_lease 0 9)) ''g'' ''a'' None sample_digest [] None (begin_txn 3000 m))"
    by blast
  with m show ?thesis by blast
qed

section \<open>Control of a graph\<close>

text \<open>C17: A poll of the scheduler frees what is stuck: afterwards no node is held by an expired lease,
  and every node that has not started is in the state its dependencies give it, so what can
  run is ready for the next claim.\<close>

theorem poll_settles_graph:
  assumes "scheduler_state_txn R g t = Inr (gs, t')" and "txn_ok t" and "log_gapless R g t"
  shows "\<exists>s. event_state_in_txn R g t' = Inr (Some s) \<and>
    (\<forall>w\<in>set (es_views s). \<not> node_expired (t_now t) w \<and>
      (nv_status w \<in> {PENDING, READY} \<longrightarrow> nv_execution w = None \<longrightarrow>
        (\<exists>n\<in>set (gv_nodes (es_graph s)). tn_id n = nv_id w \<and>
          dependency_status n (status_of (es_views s)) = Inr (nv_status w))))"
  using assms by (rule scheduler_settled)

theorem poll_settles_graph_witness:
  "\<exists>gs t' s. scheduler_state_txn sample_repo ''g'' sample_lapsed = Inr (gs, t') \<and>
    event_state_in_txn sample_repo ''g'' t' = Inr (Some s) \<and>
    filter (node_expired (t_now sample_lapsed)) (es_views s) = []"
proof -
  from sample_poll obtain gs t' where p: "scheduler_state_txn sample_repo ''g'' sample_lapsed = Inr (gs, t')"
    by (rule returnsE)
  from poll_settles_graph [OF p sample_lapsed_ok] p show ?thesis unfolding filter_empty_conv by blast
qed

text \<open>C19: Polling is idempotent: a second poll at the same time returns the same state and leaves the
  transaction as it is, so it writes no record and no event.\<close>

theorem poll_again:
  assumes "scheduler_state_txn R g t = Inr (gs, t')" and "txn_ok t" and "log_gapless R g t"
  shows "scheduler_state_txn R g t' = Inr (gs, t')"
  using assms by (rule scheduler_again)

theorem poll_again_witness:
  "\<exists>gs t'. scheduler_state_txn sample_repo ''g'' sample_lapsed = Inr (gs, t') \<and>
    scheduler_state_txn sample_repo ''g'' t' = Inr (gs, t')"
proof -
  from sample_poll obtain gs t' where p: "scheduler_state_txn sample_repo ''g'' sample_lapsed = Inr (gs, t')"
    by (rule returnsE)
  from poll_again [OF p sample_lapsed_ok] p show ?thesis by blast
qed

text \<open>C21: A recovery that no cancellation overrules leaves a node in recovery only where a claimed
  execution may have started without being bound, and the stored status of the graph is again
  the one its nodes give.\<close>

theorem recovery_clears_graph:
  assumes "recover_graph_txn R g False t = Inr (view, t')" and "txn_ok t" and "log_gapless R g t"
  shows "\<exists>s s'. event_state_in_txn R g t = Inr (Some s) \<and> event_state_in_txn R g t' = Inr (Some s') \<and>
    isolated_status (es_views s') (gv_nodes (es_graph s')) = Inr (gv_status (es_graph s')) \<and>
    (\<forall>v\<in>set (es_views s'). nv_status v = RECOVERY_REQUIRED \<longrightarrow> v \<in> set (es_views s) \<and> unbound_claim v)"
  using assms by (rule recover_graph_clears)

theorem recovery_clears_graph_witness:
  "\<exists>view t' s'. recover_graph_txn sample_repo ''g'' False sample_suspended = Inr (view, t') \<and>
    event_state_in_txn sample_repo ''g'' t' = Inr (Some s') \<and>
    filter (\<lambda>v. nv_status v = RECOVERY_REQUIRED \<and> \<not> unbound_claim v) (es_views s') = []"
proof -
  have "returns (recover_graph_txn sample_repo ''g'' False sample_suspended) (\<lambda>_. True)" by code_simp
  then obtain view t' where r: "recover_graph_txn sample_repo ''g'' False sample_suspended = Inr (view, t')"
    by (rule returnsE)
  from recovery_clears_graph [OF r sample_suspended_ok] r show ?thesis unfolding filter_empty_conv by blast
qed

text \<open>C22: Cancelling a graph decides every node and changes nothing else: a pending or ready node without
  an execution is cancelled when it was never claimed, and is suspended as a claim that may have
  started an execution when it was; a node suspended because its input could not be made is
  cancelled; nodes that run, wait, have an execution or have ended, and other suspended nodes, stay
  exactly as they are.  The graph gets the status of its nodes, and is cancelled when all have
  ended and one was cancelled.\<close>

theorem cancellation_decides_nodes:
  assumes "cancel_graph_txn R g t = Inr (view, t')" and "txn_ok t" and "log_gapless R g t"
  shows "\<exists>s s' st. event_state_in_txn R g t = Inr (Some s) \<and> event_state_in_txn R g t' = Inr (Some s') \<and>
    list_all2 (\<lambda>v w.
      nv_id w = nv_id v \<and> nv_fence w = nv_fence v \<and> nv_execution w = nv_execution v \<and>
      (if nv_execution v \<noteq> None \<or> terminal (nv_status v) \<or> nv_status v \<in> {RUNNING, WAITING} then w = v
       else if nv_status v \<in> {PENDING, READY}
       then nv_owner w = None \<and> nv_expires w = None \<and>
         (if nv_fence v = 0 then nv_status w = CANCELLED else nv_status w = RECOVERY_REQUIRED \<and> unbound_claim w)
       else if nv_origin v = Some ''node'' \<and> nv_error v = Some (code_value TASK_INPUT_PROJECTION_FAILED)
       then nv_status w = CANCELLED \<and> nv_error w = None \<and> nv_origin w = None
       else w = v)) (es_views s) (es_views s') \<and>
    view = es_graph s' \<and> isolated_status (es_views s') (gv_nodes (es_graph s')) = Inr st \<and>
    gv_status (es_graph s') =
      (if (\<forall>w\<in>set (es_views s'). terminal (nv_status w)) \<and> (\<exists>w\<in>set (es_views s'). nv_status w = CANCELLED)
       then CANCELLED else st)"
  using cancel_graph_decides [OF assms] unfolding cancel_decides_def [abs_def] .

theorem cancellation_decides_nodes_witness:
  "\<exists>view t' s'. cancel_graph_txn sample_repo ''g'' sample_ready = Inr (view, t') \<and>
    event_state_in_txn sample_repo ''g'' t' = Inr (Some s') \<and>
    (\<forall>w\<in>set (es_views s'). nv_execution w = None \<longrightarrow> nv_status w \<notin> {PENDING, READY})"
proof -
  have "returns (cancel_graph_txn sample_repo ''g'' sample_ready) (\<lambda>_. True)" by code_simp
  then obtain view t' where r: "cancel_graph_txn sample_repo ''g'' sample_ready = Inr (view, t')"
    by (rule returnsE)
  from cancellation_decides_nodes [OF r sample_ready_ok(1,2)] obtain s s' :: event_state where
    s: "event_state_in_txn sample_repo ''g'' t' = Inr (Some s')" and
    all: "list_all2 cancel_decides (es_views s) (es_views s')"
    unfolding cancel_decides_def [abs_def] by blast
  have "nv_status w \<notin> {PENDING, READY}" if w: "w \<in> set (es_views s')" "nv_execution w = None" for w
  proof -
    from list_all2_in_right [OF all w(1)] obtain v where "cancel_decides v w" by blast
    with w(2) show ?thesis by (auto simp: cancel_decides_def terminal_def split: if_splits)
  qed
  with r s show ?thesis by blast
qed

section \<open>Reading the log\<close>

text \<open>C33: A page of the event log is exactly the run of events that follows the cursor, up to the limit,
  with no event skipped or repeated, each decoded from the fact stored under its number; the
  next cursor is the number of the last event of a full page and is missing exactly when the
  log ends there, so following the cursors reads every event once.\<close>

theorem events_page_exact:
  assumes "list_events R g (rp_tenant R) after limit t = Inr (items, cursor)"
    and "txn_ok t" and "log_gapless R g t"
  shows "map ev_seq items = take (nat limit) [after + 1..log_length t (log_sequence R g)] \<and>
    emap (decode_event g) (log_facts R g t (map ev_seq items)) = Inr items \<and>
    cursor = (if after + limit < log_length t (log_sequence R g) then Some (json_int (after + limit)) else None)"
  using list_events_page [OF assms] by blast

theorem events_page_exact_witness:
  "\<exists>t' items. list_events sample_repo ''g'' (rp_tenant sample_repo) 0 1 t' = Inr (items, Some ''1'') \<and>
    map ev_seq items = [1]"
proof -
  have "returns (cancel_graph_txn sample_repo ''g'' sample_ready) (\<lambda>_. True)" by code_simp
  then obtain l t' where c: "cancel_graph_txn sample_repo ''g'' sample_ready = Inr (l, t')" by (rule returnsE)
  have "(case cancel_graph_txn sample_repo ''g'' sample_ready of Inl _ \<Rightarrow> False
      | Inr (_, t') \<Rightarrow> map_sum (\<lambda>_. ()) snd (list_events sample_repo ''g'' (rp_tenant sample_repo) 0 1 t') = Inr (Some ''1'') \<and>
          log_length t' (log_sequence sample_repo ''g'') = 3)" by code_simp
  then have m: "map_sum (\<lambda>_. ()) snd (list_events sample_repo ''g'' (rp_tenant sample_repo) 0 1 t') = Inr (Some ''1'')"
      and n: "log_length t' (log_sequence sample_repo ''g'') = 3" by (simp_all only: c sum.case prod.case)
  from m obtain items where e: "list_events sample_repo ''g'' (rp_tenant sample_repo) 0 1 t' = Inr (items, Some ''1'')"
    by (cases "list_events sample_repo ''g'' (rp_tenant sample_repo) 0 1 t'") auto
  have "repo_ok sample_repo ''g'' sample_ready" using sample_ready_ok by (simp add: repo_ok_def)
  from cancel_graph_sound [OF c this] have "txn_ok t'" "log_gapless sample_repo ''g'' t'"
    by (simp_all add: sound_step_def repo_ok_def)
  from events_page_exact [OF e this] n have "map ev_seq items = take 1 [1..3]" by simp
  then show ?thesis using e by (intro exI [of _ t'] exI [of _ items]) (simp add: upto.simps)
qed

section \<open>The shared budget\<close>

text \<open>C8: Whatever sequence of budget operations commits from the empty store, by whatever owners, the
  stored usage of every scope is the one recomputed from its reservations (requests, tool calls,
  tokens, requests in flight and of unknown usage), and neither the requests nor the tool calls
  exceed the limits of the scope.\<close>

theorem budget_ledger_exact:
  assumes "budget_runs R empty_store m" and "collision_free (rp_sha R)"
    and "get_record (begin_txn now m) (budget_key R s) = Some r"
  shows "\<exists>limits. rec_data r = Usage (ledger s limits (begin_txn now m)) \<and>
    within_limits (ledger s limits (begin_txn now m))"
proof -
  from models.steps_ok [OF assms(1)] assms(2) empty_store_ok have "mem_ok m" "budgets_ok R (begin_txn 0 m)"
    by (auto simp: budget_store_ok_def)
  from budgets_ledger [OF budgets_ok_begin [OF this] assms(3)] show ?thesis by blast
qed

theorem budget_ledger_exact_witness:
  "\<exists>m r limits. budget_runs sample_repo empty_store m \<and>
    get_record (begin_txn 0 m) (budget_key sample_repo ''s'') = Some r \<and>
    rec_data r = Usage (ledger ''s'' limits (begin_txn 0 m)) \<and> bu_requests (ledger ''s'' limits (begin_txn 0 m)) = 1"
proof -
  have runs: "budget_runs sample_repo empty_store busy_store" using sample_budget_steps(1,2) by auto
  have "case get_record (begin_txn 0 busy_store) (budget_key sample_repo ''s'') of None \<Rightarrow> False
      | Some r \<Rightarrow> (case rec_data r of Usage u \<Rightarrow> bu_requests u = 1 | _ \<Rightarrow> False)" by code_simp
  then obtain r u where r: "get_record (begin_txn 0 busy_store) (budget_key sample_repo ''s'') = Some r"
      "rec_data r = Usage u" "bu_requests u = 1"
    by (auto split: option.splits domain_value.splits)
  from budget_ledger_exact [OF runs sample_stores_ok(3) r(1)] obtain limits where
    "rec_data r = Usage (ledger ''s'' limits (begin_txn 0 busy_store))" by blast
  with r(2,3) have "rec_data r = Usage (ledger ''s'' limits (begin_txn 0 busy_store))"
      "bu_requests (ledger ''s'' limits (begin_txn 0 busy_store)) = 1" by simp_all
  with runs r(1) show ?thesis by blast
qed

text \<open>C11: A model request is dispatched at most once: after its admission has committed, no later
  admission of the same request in the same scope succeeds, whatever operations ran in between
  and whichever owner asks.\<close>

theorem dispatch_once:
  assumes "mem_mutate now (admit_model_txn B clock r) m = (Inr v, m1)" and "budget_store_ok (br_repo B) m"
    and "fresh_reservation r" and "collision_free (rp_sha (br_repo B))" and "budget_runs (br_repo B) m1 m2"
    and "br_repo B' = br_repo B" and "mr_scope r' = mr_scope r" and "mr_request r' = mr_request r"
  shows "isl (admit_model_txn B' clock' r' (begin_txn now' m2))"
proof -
  have "mem_ok m" using assms(2) by (simp add: budget_store_ok_def)
  from admitted_reserved [OF assms(1) this]
  have "model_reserved (br_repo B') m1 (mr_scope r') (mr_request r')" by (simp add: assms(6-8))
  moreover have "budget_store_ok (br_repo B) m1"
    using budget_step_ok [OF budget_step.model [OF assms(1) refl assms(3)] assms(2,4)] .
  ultimately show ?thesis using dispatch_again_refused assms(4-6) by metis
qed

theorem dispatch_once_witness:
  "isl (admit_model_txn (sample_budgets\<lparr>br_owner := ''other''\<rparr>) 0 (sample_request\<lparr>mr_owner := ''other''\<rparr>)
     (begin_txn 0 busy_store))"
proof -
  from sample_budget_steps(3) obtain v where
    v: "mem_mutate 0 (admit_model_txn sample_budgets 0 sample_request) opened_store = (Inr v, busy_store)" ..
  have "br_repo sample_budgets = sample_repo" by (simp add: sample_budgets_def)
  moreover have "fresh_reservation sample_request" by code_simp
  ultimately show ?thesis using dispatch_once [OF v] sample_budget_stores_ok(1) sample_stores_ok(3) by simp
qed

text \<open>C23: A settlement is final: settling the same request again with the same token count returns the
  same usage and writes nothing, and with any other count it is refused as a changed settlement,
  so tokens are charged exactly once.\<close>

theorem settlement_final:
  assumes "settle_model_txn R s q tokens t = Inr (v, t')" and "txn_ok t" and "budgets_ok R t"
    and "collision_free (rp_sha R)"
  shows "settle_model_txn R s q other t' =
    (if other = tokens then Inr (v, t')
     else Inl (AIError STORAGE_CONFLICT [(''reason'', JStr ''budget_settlement_changed'')]))"
  using assms by (rule settle_again)

theorem settlement_final_witness:
  "\<exists>v t'. settle_model_txn sample_repo ''s'' ''q'' (Some 4) (begin_txn 0 busy_store) = Inr (v, t') \<and> bu_tokens v = 4 \<and>
    settle_model_txn sample_repo ''s'' ''q'' (Some 5) t' =
      Inl (AIError STORAGE_CONFLICT [(''reason'', JStr ''budget_settlement_changed'')])"
proof -
  have "returns (settle_model_txn sample_repo ''s'' ''q'' (Some 4) (begin_txn 0 busy_store)) (\<lambda>v. bu_tokens v = 4)"
    by code_simp
  then obtain v t' where v: "settle_model_txn sample_repo ''s'' ''q'' (Some 4) (begin_txn 0 busy_store) = Inr (v, t')"
      "bu_tokens v = 4"
    by (rule returnsE)
  from settlement_final [OF v(1) sample_busy_ok sample_stores_ok(3), of "Some 5"] v show ?thesis by simp
qed

text \<open>C24: With a token limit, a dispatch passes the admission check only when the tokens charged so far
  are below the limit and every other request of the scope is settled with a known usage or is
  running in the very repository that asks: nothing whose cost is still open can be outside it.\<close>

theorem budget_gate:
  assumes "check_admission B clock row u (Some d) t = Inr x" and "txn_ok t" and "budgets_ok (br_repo B) t"
    and "collision_free (rp_sha (br_repo B))" and "scope_record (br_repo B) s t = Inr (row, u)"
    and "rb_tokens (bu_limits u) = Some n" and "get_record t k = Some r" and "rec_data r = Model_reservation m"
    and "mr_scope m = s"
  shows "bu_tokens u < n \<and> mr_status m \<noteq> Unknown_usage \<and>
    (mr_status m = In_flight \<longrightarrow>
       mr_owner m = br_owner B \<and> (mr_scope m, mr_request m, mr_admission m) \<in> set (br_active B))"
  using check_admission_gate [OF assms] by blast

theorem budget_gate_witness:
  "\<exists>row u (m :: model_reservation). scope_record sample_repo ''s'' (begin_txn 0 busy_store) = Inr (row, u) \<and> bu_tokens u < 10 \<and>
    mr_request m = ''q'' \<and> mr_owner m = ''o'' \<and> (mr_scope m, mr_request m, mr_admission m) \<in> set (br_active sample_budgets)"
proof -
  let ?t = "begin_txn 0 busy_store"
  have "case scope_record sample_repo ''s'' ?t of Inl _ \<Rightarrow> False
      | Inr (row, u) \<Rightarrow> check_admission sample_budgets 0 row u (Some Model_requests) ?t = Inr () \<and> rb_tokens (bu_limits u) = Some 10"
    by code_simp
  then obtain row u where s: "scope_record sample_repo ''s'' ?t = Inr (row, u)"
      "check_admission sample_budgets 0 row u (Some Model_requests) ?t = Inr ()" "rb_tokens (bu_limits u) = Some 10"
    by (auto split: sum.splits)
  have "case get_record ?t (model_key sample_repo ''s'' ''q'') of None \<Rightarrow> False | Some r \<Rightarrow> rec_data r = Model_reservation sample_request"
    by code_simp
  then obtain r where r: "get_record ?t (model_key sample_repo ''s'' ''q'') = Some r" "rec_data r = Model_reservation sample_request"
    by (auto split: option.splits)
  have B: "br_repo sample_budgets = sample_repo" "br_owner sample_budgets = ''o''"
      "mr_scope sample_request = ''s''" "mr_request sample_request = ''q''" "mr_status sample_request = In_flight"
    by (simp_all add: sample_budgets_def sample_request_def)
  from budget_gate [OF s(2), unfolded B(1), OF sample_busy_ok sample_stores_ok(3) s(1,3) r B(3)] B
  have "bu_tokens u < 10" "mr_owner sample_request = ''o''"
      "(mr_scope sample_request, mr_request sample_request, mr_admission sample_request) \<in> set (br_active sample_budgets)"
    by simp_all
  with s(1) B(4) show ?thesis by (intro exI [of _ row] exI [of _ u] exI [of _ sample_request]) simp
qed

section \<open>Admission\<close>

text \<open>C10: Admitting a graph implements the creation of its initial state: what is read back from the
  store afterwards is the graph with exactly its nodes, in the order of their ids, each in the
  state its dependencies give it at the start, with the status of the graph computed from
  them, and the store is ready for the operations of the task repository.\<close>

theorem admission_starts_graph:
  assumes "create_admission R a g t = Inr (view, t')" and "repo_ok R (tg_id g) t" and "collision_free (rp_sha R)"
    and "make_graph g = Inr g" and "\<forall>n\<in>set (tg_nodes g). init_node n = Inr n"
    and "list_records (node_query (definition_parent R (tg_id g)) ''task_node_definition'') t = []"
    and "list_records (node_query (state_parent R (tg_id g)) ''task_node_state'') t = []"
  shows "\<exists>views. emap (initial_view (tg_id g)) (tg_nodes g) = Inr views \<and>
    isolated_status views (tg_nodes g) = Inr (gv_status view) \<and>
    event_state_in_txn R (tg_id g) t' = Inr (Some
      \<lparr>es_graph = view\<lparr>gv_nodes := sort_key tn_id (tg_nodes g)\<rparr>, es_views = sort_key nv_id views\<rparr>) \<and>
    repo_ok R (tg_id g) t'"
  by (rule admission_state [OF assms]) blast

theorem admission_starts_graph_witness:
  "\<exists>view t' s. create_admission sample_repo sample_admission sample_two (begin_txn 1000 empty_store) = Inr (view, t') \<and>
    event_state_in_txn sample_repo ''g'' t' = Inr (Some s) \<and> map tn_id (gv_nodes (es_graph s)) = [''a'', ''b'']"
proof -
  let ?t = "begin_txn 1000 empty_store :: task_txn"
  have "returns (create_admission sample_repo sample_admission sample_two ?t) (\<lambda>_. True)" by code_simp
  then obtain view t' where c: "create_admission sample_repo sample_admission sample_two ?t = Inr (view, t')"
    by (rule returnsE)
  have id: "tg_id sample_two = ''g''" by (simp add: sample_two_def)
  have "make_graph sample_two = Inr sample_two" and "\<forall>n\<in>set (tg_nodes sample_two). init_node n = Inr n"
    and "list_records (node_query (definition_parent sample_repo (tg_id sample_two)) ''task_node_definition'') ?t = []"
    and "list_records (node_query (state_parent sample_repo (tg_id sample_two)) ''task_node_state'') ?t = []"
    by code_simp+
  from admission_starts_graph [OF c empty_repo_ok sample_stores_ok(3) this, unfolded id] obtain views where
    "event_state_in_txn sample_repo ''g'' t' = Inr (Some
       \<lparr>es_graph = view\<lparr>gv_nodes := sort_key tn_id (tg_nodes sample_two)\<rparr>, es_views = sort_key nv_id views\<rparr>)" by blast
  moreover have "map tn_id (sort_key tn_id (tg_nodes sample_two)) = [''a'', ''b'']" by code_simp
  ultimately show ?thesis using c by fastforce
qed

text \<open>C9: A submission cancelled before its graph was admitted is withdrawn for good: whatever
  submissions are prepared, admitted or cancelled afterwards, an admission of its graph that
  succeeds reports the graph as cancelled and writes nothing.\<close>

theorem withdrawn_never_admitted:
  assumes "mem_mutate now (cancel_submission_txn R s v) m = (Inr False, m1)" and "reference_ok s"
    and "mem_ok m" and "collision_free (rp_sha R)" and "submission_runs R m1 m2"
    and "tg_id g = sr_graph s" and "admit_txn R a g required (begin_txn now' m2) = Inr (view, t')"
  shows "view = cancelled_graph (sr_graph s) \<and> t' = begin_txn now' m2"
  using assms by (rule withdrawn_forever)

theorem withdrawn_never_admitted_witness:
  "\<exists>view t'. admit_txn sealed_repo sample_admission sample_one False (begin_txn 0 cancelled_store) = Inr (view, t') \<and>
    gv_status view = CANCELLED \<and> t' = begin_txn 0 cancelled_store"
proof -
  have "returns (admit_txn sealed_repo sample_admission sample_one False (begin_txn 0 cancelled_store)) (\<lambda>_. True)"
    by code_simp
  then obtain view t' where a: "admit_txn sealed_repo sample_admission sample_one False (begin_txn 0 cancelled_store) = Inr (view, t')"
    by (rule returnsE)
  have "make_principal sample_principal = Inr sample_principal" "make_submission_ref sample_submission = Inr sample_submission"
    by code_simp+
  then have r: "reference_ok sample_submission" by (auto simp: reference_ok_def sample_submission_def)
  have "mem_ok (empty_store :: task_store)" using empty_store_ok by (simp add: budget_store_ok_def)
  moreover have "tg_id sample_one = sr_graph sample_submission" by (simp add: sample_one_def sample_submission_def)
  ultimately have "view = cancelled_graph (sr_graph sample_submission) \<and> t' = begin_txn 0 cancelled_store"
    using withdrawn_never_admitted [OF sample_cancelled r _ sealed_free rtranclp.rtrancl_refl _ a] by blast
  with a show ?thesis by (simp add: cancelled_graph_def)
qed

text \<open>C39: A graph whose nodes are all roots that wait for any dependency to succeed, one of them with a
  failure that propagates, is a valid graph that cannot be admitted: its initial status is
  blocked, which the first event of a log refuses, so the admission fails as a whole.\<close>

theorem propagating_roots_rejected:
  assumes "\<forall>n\<in>set (tg_nodes g). tn_deps n = [] \<and> tn_policy n = Any_succeeded"
    and "n \<in> set (tg_nodes g)" and "tn_failure n = Propagate" and "distinct (map tn_id (tg_nodes g))"
  shows "isl (create_admission R a g t)"
  using assms by (rule propagating_roots_refused)

theorem propagating_roots_rejected_witness:
  "make_graph \<lparr>tg_id = ''g'', tg_nodes = [(sample_node ''a'' [])\<lparr>tn_policy := Any_succeeded\<rparr>]\<rparr> =
     Inr \<lparr>tg_id = ''g'', tg_nodes = [(sample_node ''a'' [])\<lparr>tn_policy := Any_succeeded\<rparr>]\<rparr> \<and>
   isl (create_admission sample_repo sample_admission
     \<lparr>tg_id = ''g'', tg_nodes = [(sample_node ''a'' [])\<lparr>tn_policy := Any_succeeded\<rparr>]\<rparr> (begin_txn 0 empty_store))"
proof
  let ?n = "(sample_node ''a'' [])\<lparr>tn_policy := Any_succeeded\<rparr>"
  show "make_graph \<lparr>tg_id = ''g'', tg_nodes = [?n]\<rparr> = Inr \<lparr>tg_id = ''g'', tg_nodes = [?n]\<rparr>" by code_simp
  show "isl (create_admission sample_repo sample_admission \<lparr>tg_id = ''g'', tg_nodes = [?n]\<rparr> (begin_txn 0 empty_store))"
    by (rule propagating_roots_rejected [where n = ?n]) (simp_all add: sample_node_def)
qed

text \<open>C40: The page of graphs to recover accepts limits up to 1000 but serves none of 1000: it asks the
  store for one record more, which the store refuses with a plain ValueError instead of an error of
  the interface; a limit of 1001 is refused as an invalid field.\<close>

theorem recoverable_page_limit:
  "list_recoverable_page R after 1000 t = Inl ValueError \<and>
   list_recoverable_page R after 1001 t = Inl (ai REQUEST_FIELD_INVALID)"
  using largest_page_refused by (simp add: list_recoverable_page_def [of R after 1001] ensure_def)

section \<open>Executions\<close>

text \<open>C3: Whatever operations commit on the executions of a store, in any order, the log of every
  execution is numbered from 1 to the event number in its record without a gap, and an event
  that was appended is never changed or lost.  The steps have the guarantees of the callers as side conditions: a new
  execution has no event, a plain compare-and-set leaves the event number, the generation and the
  claim alone, a boundary leaves the event number alone, an observed row is one that was read, a
  changed idempotency record keeps its identity, and an input context is written outside the
  tables of the repository; the method advance_event_seq, which has no caller, is no step.\<close>

theorem execution_log_gapless:
  assumes "exec_runs R m m'" and "execs_ok R m" and "collision_free (rp_sha R)"
  shows "(get_fact (begin_txn now m') (execution_stream R x) n \<noteq> None \<longleftrightarrow> 1 \<le> n \<and> n \<le> seq_at R x (begin_txn now m')) \<and>
    (get_fact (begin_txn now m) s k = Some f \<longrightarrow> get_fact (begin_txn now m') s k = Some f)"
proof -
  from exec_runs_sound [OF assms] have ok: "execs_ok R m'" and p: "progresses R m m'" by simp_all
  from executions_okD(3) [OF execs_ok_begin [OF ok]]
  have "get_fact (begin_txn now m') (execution_stream R x) n \<noteq> None \<longleftrightarrow> 1 \<le> n \<and> n \<le> seq_at R x (begin_txn now m')"
    unfolding balanced_def log_numbered_def by blast
  with p show ?thesis unfolding progresses_def begin_reads(2) [of now] by blast
qed

theorem execution_log_gapless_witness:
  "seq_at sample_repo ''x'' (begin_txn 9 started_store) = 1 \<and>
    get_fact (begin_txn 9 started_store) (execution_stream sample_repo ''x'') 1 \<noteq> None \<and>
    get_fact (begin_txn 9 started_store) (execution_stream sample_repo ''x'') 2 = None"
proof -
  have s: "seq_at sample_repo ''x'' (begin_txn 9 started_store) = 1"
    by (simp add: seq_at_def sample_started started_execution_def sample_execution_def)
  have "exec_runs sample_repo new_store started_store" using sample_steps(1,2) by auto
  note log = execution_log_gapless [OF this new_store_ok sample_stores_ok(3), where x = "''x''" and now = 9, unfolded s]
  from log [of 1] log [of 2] s show ?thesis by simp
qed

text \<open>C2: Once another run has claimed an execution, its old producer is refused for ever: whatever
  commits afterwards, a guard for its generation, a recovery transition and the commit of an end
  in its name all fail.\<close>

theorem superseded_producer_refused:
  assumes "mem_mutate now (claim_run_txn R status x revision event_seq run_seq producer recovery) m = (Inr e, m1)"
    and "exec_at R x (begin_txn 0 m) = Some old" and "generation \<le> ex_generation old"
    and "exec_runs R m1 m2" and "execs_ok R m" and "collision_free (rp_sha R)"
  shows "isl (require_producer_txn R x generation allow (begin_txn later m2)) \<and>
    (ex_id f = x \<and> rg_generation q = Some generation \<longrightarrow> isl (transition_recovery_txn R f q (begin_txn later m2))) \<and>
    (ex_id (tm_execution c) = x \<and> ex_generation (tm_execution c) = generation \<longrightarrow>
       isl (commit_terminal_txn R c pending (begin_txn later m2)))"
proof -
  from assms(1) have "execs_ok R m1 \<and> past R ex_generation (x, generation) m1"
    by (rule claim_run_past [OF _ assms(5,6)]) (use assms(2,3) in auto)
  then have "\<not> serves R x generation (begin_txn later m2)"
    using producer_refused [OF assms(4) _ assms(6)] by blast
  then show ?thesis unfolding refused_iff by (blast intro: serves.intros)
qed

theorem superseded_producer_refused_witness:
  "isl (require_producer_txn sample_repo ''x'' 2 True (begin_txn 9 taken_store))"
proof -
  from taken_life obtain v where
    v: "mem_mutate 3 (claim_run_txn sample_repo STARTED ''x'' 2 None 1 (Some ''d'') None) claimed_store = (Inr v, taken_store)" ..
  obtain e where e: "exec_at sample_repo ''x'' (begin_txn 0 claimed_store) = Some e" "ex_generation e = 2"
    by (rule sample_claimed)
  from superseded_producer_refused [OF v e(1) _ rtranclp.rtrancl_refl sample_execs_ok(3) sample_stores_ok(3), of 2 True 9] e(2)
  show ?thesis by simp
qed

text \<open>C6: A revision of an execution is spent once: after a run was claimed at a revision, whatever commits
  afterwards, no run is claimed at it again, and no compare-and-set, transition or commit of an
  end that expects it is accepted.\<close>

theorem revision_spent_once:
  assumes "mem_mutate now (claim_run_txn R status x revision event_seq run_seq producer recovery) m = (Inr e, m1)"
    and "exec_runs R m1 m2" and "execs_ok R m" and "collision_free (rp_sha R)"
  shows "isl (claim_run_txn R status' x revision event_seq' run_seq' producer' recovery' (begin_txn later m2)) \<and>
    isl (swap_execution_txn R x revision f (begin_txn later m2)) \<and>
    (tq_execution q = x \<and> tq_revision q = revision \<longrightarrow> isl (transition_execution_txn R q (begin_txn later m2))) \<and>
    (ex_id (tm_execution c) = x \<and> tm_revision c = revision \<longrightarrow>
       isl (commit_terminal_txn R c pending (begin_txn later m2)))"
proof -
  from assms(1) have "execs_ok R m1 \<and> past R ex_revision (x, revision) m1"
    by (rule claim_run_past [OF _ assms(3,4)])
  then have "\<not> expects R x revision (begin_txn later m2)"
    using revision_refused [OF assms(2) _ assms(4)] by blast
  then show ?thesis unfolding refused_iff by (blast intro: expects.intros)
qed

theorem revision_spent_once_witness:
  "isl (claim_run_txn sample_repo STARTED ''x'' 2 None 1 (Some ''e'') None (begin_txn 9 taken_store))"
proof -
  from taken_life obtain v where
    v: "mem_mutate 3 (claim_run_txn sample_repo STARTED ''x'' 2 None 1 (Some ''d'') None) claimed_store = (Inr v, taken_store)" ..
  from revision_spent_once [OF v rtranclp.rtrancl_refl sample_execs_ok(3) sample_stores_ok(3)] show ?thesis by blast
qed

text \<open>C5: An idempotency key starts one execution: a reservation under a key that was reserved before,
  after whatever was committed in between, is a replay that names the execution of the first
  reservation, changes nothing, and is only granted to the same request.\<close>

theorem start_once:
  assumes "mem_mutate now (reserve_start_txn R v write_context) m = (Inr res, m1)"
    and "execs_ok R m" and "collision_free (rp_sha R)" and "ex_event_seq (sv_execution v) = 0"
    and "id_resource (sv_idempotency v) = ex_id (sv_execution v)"
    and "\<And>w s s' u. write_context = Some w \<Longrightarrow> w s = Inr (u, s') \<Longrightarrow> unseen R s s'"
    and "exec_runs R m1 m2"
    and "id_scope (sv_idempotency again) = id_scope (sv_idempotency v)" and "id_key (sv_idempotency again) = id_key (sv_idempotency v)"
    and "reserve_start_txn R again write_again (begin_txn later m2) = Inr (res', t')"
  shows "\<not> rv_created res' \<and> ex_id (rv_execution res') = ex_id (rv_execution res) \<and>
    id_request (sv_idempotency again) = id_request (sv_idempotency v) \<and> t' = begin_txn later m2"
proof -
  from assms(1-6) obtain i where i: "idem_at R (id_scope (sv_idempotency v)) (id_key (sv_idempotency v)) (begin_txn 0 m1) = Some i"
      "same_identity i (sv_idempotency v)" "id_resource i = ex_id (rv_execution res)" and ok: "execs_ok R m1"
    by (rule reserve_start_taken)
  from exec_runs_sound [OF assms(7) ok assms(3)] have ok2: "execs_ok R m2" and p: "progresses R m1 m2" by simp_all
  from p i(1) obtain j where j: "idem_at R (id_scope (sv_idempotency v)) (id_key (sv_idempotency v)) (begin_txn 0 m2) = Some j"
      "same_idempotency j i"
    unfolding progresses_def by blast
  note rows = executions_okD(2) [OF execs_ok_begin [OF ok2]]
  have "idem_at R (id_scope (sv_idempotency again)) (id_key (sv_idempotency again)) (begin_txn later m2) = Some j"
    using j(1) assms(8,9) begin_same(2) [where now = later] by simp
  note r = reserve_start_replayed [OF assms(10) rows this]
  have "ex_id (rv_execution res') = id_resource j" using exec_at_id [OF rows r(2)] .
  with r i j(2) show ?thesis by (simp add: same_idempotency_def same_identity_def)
qed

theorem start_once_witness:
  "\<exists>res t. reserve_start_txn sample_repo sample_reservation None (begin_txn 5 reserved_store) = Inr (res, t) \<and>
    \<not> rv_created res \<and> t = begin_txn 5 reserved_store"
proof -
  from reserved_life obtain v where
    v: "mem_mutate 0 (reserve_start_txn sample_repo sample_reservation None) new_store = (Inr v, reserved_store)" ..
  have "\<not> isl (reserve_start_txn sample_repo sample_reservation None (begin_txn 5 reserved_store))" by code_simp
  then obtain res t where t: "reserve_start_txn sample_repo sample_reservation None (begin_txn 5 reserved_store) = Inr (res, t)"
    unfolding refused_iff by blast
  from start_once [OF v new_store_ok sample_stores_ok(3) _ _ _ rtranclp.rtrancl_refl refl refl t] t show ?thesis
    by (simp add: sample_reservation_def sample_execution_def sample_key_def)
qed

text \<open>C13: The commit of an end is one write: it is accepted for the stored revision, event number,
  generation and producer only, and then the store holds the ended execution with its result, the
  event of the end as the last of its log, and the idempotency record with its final status and
  result.\<close>

theorem terminal_commit_stored:
  assumes "mem_mutate now (commit_terminal_txn R c pending) m = (Inr v, m')"
    and "execs_ok R m" and "collision_free (rp_sha R)"
  shows "\<exists>old. exec_at R (ex_id (tm_execution c)) (begin_txn 0 m) = Some old \<and> commit_fits c old \<and>
    ended (ex_status (tm_execution c)) \<and> tv_execution v = committed c pending old \<and>
    exec_at R (ex_id (tm_execution c)) (begin_txn 0 m') = Some (committed c pending old) \<and>
    get_fact (begin_txn 0 m') (execution_stream R (ex_id (tm_execution c))) (ex_event_seq (committed c pending old)) =
      Some (event_at R (ex_id (tm_execution c)) (ex_event_seq (committed c pending old))
        \<lparr>ea_type = tm_event c, ea_payload = tm_payload c\<rparr>) \<and>
    (\<forall>u. tm_idempotency c = Some u \<longrightarrow>
       (\<exists>i. idem_at R (iu_scope u) (iu_key u) (begin_txn 0 m') = Some i \<and> id_status i = iu_next u \<and>
          id_result i = iu_result u \<and> id_error i = iu_error u))"
proof -
  from assms(1) obtain t where t: "commit_terminal_txn R c pending (begin_txn now m) = Inr (v, t)"
      "m' = apply_transaction t m" by (rule mutate_Inr)
  from t(1) execs_ok_begin [OF assms(2)] assms(3) show ?thesis
  proof (cases rule: commit_terminal_Inr)
    case (1 e)
    note st = commit_sound(3,4,5) [OF 1(5) assms(2), folded t(2)]
    have "ex_event_seq (committed c pending e) = ex_event_seq e + int (length pending) + 1" by (simp add: committed_def)
    with 1 show ?thesis
      unfolding st begin_same(1) [where now = now] by (intro exI [of _ e]) auto
  qed
qed

theorem terminal_commit_stored_witness:
  "\<exists>e i. exec_at sample_repo ''x'' (begin_txn 0 ended_store) = Some e \<and> ex_status e = EX_SUCCEEDED \<and> ex_revision e = 2 \<and>
    idem_at sample_repo ''s'' ''k'' (begin_txn 0 ended_store) = Some i \<and> id_status i = COMPLETED"
proof -
  from ended_life obtain v where
    v: "mem_mutate 4 (commit_terminal_txn sample_repo sample_commit []) started_store = (Inr v, ended_store)" ..
  from terminal_commit_stored [OF v sample_execs_ok(2) sample_stores_ok(3)] show ?thesis
    using sample_started [of 0]
    by (auto simp: sample_commit_def committed_def started_execution_def sample_execution_def)
qed

text \<open>C34: A page of the log of an execution holds exactly the events after the cursor, up to the limit, in
  order and as they were stored; the next cursor is given exactly when more events follow, also
  for a page of the largest size, which the store reads in two queries.\<close>

theorem execution_page_exact:
  assumes "list_execution_events R x (rp_tenant R) after limit t = Inr (items, cursor)" and "executions_ok R t"
  shows "map er_seq items = take (nat limit) [after + 1..seq_at R x t] \<and>
    items = map (\<lambda>i. event_of x (the (get_fact t (execution_stream R x) i))) (map er_seq items) \<and>
    cursor = (if after + limit < seq_at R x t then Some (json_int (after + limit)) else None)"
proof -
  note p = list_execution_events_Inr [OF assms]
  have "items = map (\<lambda>i. event_of x (the (get_fact t (execution_stream R x) i))) (map er_seq items)"
    unfolding p(2) by (rule p(1))
  with p(2,3) show ?thesis by blast
qed

theorem execution_page_exact_witness:
  "\<exists>items. list_execution_events sample_repo ''x'' (rp_tenant sample_repo) 0 1 (begin_txn 9 ended_store) =
      Inr (items, Some ''1'') \<and> map er_seq items = [1]"
proof -
  have "map_sum (\<lambda>_. ()) snd (list_execution_events sample_repo ''x'' (rp_tenant sample_repo) 0 1 (begin_txn 9 ended_store)) =
      Inr (Some ''1'')" by code_simp
  then obtain items where i: "list_execution_events sample_repo ''x'' (rp_tenant sample_repo) 0 1 (begin_txn 9 ended_store) =
      Inr (items, Some ''1'')"
    by (cases "list_execution_events sample_repo ''x'' (rp_tenant sample_repo) 0 1 (begin_txn 9 ended_store)") auto
  note p = execution_page_exact [OF i execs_ok_begin [OF sample_execs_ok(5)]]
  then have "0 + 1 < seq_at sample_repo ''x'' (begin_txn 9 ended_store)" by (auto split: if_splits)
  with p i show ?thesis by (auto simp: upto_rec1)
qed

end
